(* ===== verification/Prelude.thy ===== *)
theory Prelude
  imports "HOL-Library.AList" "HOL-Library.Sublist"
begin

text \<open>
  What every component of the development shares: the Python string operations the source
  calls, the insertion-ordered dictionary, JSON-shaped values, and result types.

  Strings are ASCII text (\<open>string\<close> is \<open>char list\<close>, one \<open>char\<close> per Python code point).
  A Python \<open>dict\<close> is an association list with distinct keys in insertion order:
  \<open>map_of\<close> looks up, \<open>AList.update\<close> assigns (in place, or at the end for a new key),
  \<open>AList.delete\<close> is \<open>del\<close>.  A Python exception is the left side of a sum.
\<close>

named_theorems py_str \<open>Python string operations on ASCII text\<close>
named_theorems py_val \<open>evaluation of JSON-shaped values\<close>

type_synonym ('k, 'v) dict = "('k \<times> 'v) list"
type_synonym ('e, 'a) result = "'e + 'a"

section \<open>Characters and strings\<close>

definition py_isspace :: "char \<Rightarrow> bool" where
  "py_isspace c = (let n = (of_char c :: nat) in (9 \<le> n \<and> n \<le> 13) \<or> (28 \<le> n \<and> n \<le> 32))"

definition py_isdigit :: "char \<Rightarrow> bool" where
  "py_isdigit c = (let n = (of_char c :: nat) in 48 \<le> n \<and> n \<le> 57)"

definition is_upper :: "char \<Rightarrow> bool" where
  "is_upper c = (let n = (of_char c :: nat) in 65 \<le> n \<and> n \<le> 90)"

definition is_lower :: "char \<Rightarrow> bool" where
  "is_lower c = (let n = (of_char c :: nat) in 97 \<le> n \<and> n \<le> 122)"

abbreviation is_alpha :: "char \<Rightarrow> bool" where
  "is_alpha c \<equiv> is_upper c \<or> is_lower c"

abbreviation is_alnum :: "char \<Rightarrow> bool" where
  "is_alnum c \<equiv> is_alpha c \<or> py_isdigit c"

definition lower_char :: "char \<Rightarrow> char" where
  "lower_char c = (if is_upper c then char_of ((of_char c :: nat) + 32) else c)"

definition upper_char :: "char \<Rightarrow> char" where
  "upper_char c = (if is_lower c then char_of ((of_char c :: nat) - 32) else c)"

definition py_lower :: "string \<Rightarrow> string" where
  "py_lower s = map lower_char s"

definition py_upper :: "string \<Rightarrow> string" where
  "py_upper s = map upper_char s"

definition strip_by :: "(char \<Rightarrow> bool) \<Rightarrow> string \<Rightarrow> string" where
  "strip_by P s = rev (dropWhile P (rev (dropWhile P s)))"

definition py_strip :: "string \<Rightarrow> string" where
  "py_strip s = strip_by py_isspace s"

definition rstrip_by :: "(char \<Rightarrow> bool) \<Rightarrow> string \<Rightarrow> string" where
  "rstrip_by P s = rev (dropWhile P (rev s))"

abbreviation startswith :: "string \<Rightarrow> string \<Rightarrow> bool" where
  "startswith s p \<equiv> prefix p s"

abbreviation endswith :: "string \<Rightarrow> string \<Rightarrow> bool" where
  "endswith s p \<equiv> suffix p s"

text \<open>\<open>needle in s\<close> for strings.\<close>

fun py_in :: "string \<Rightarrow> string \<Rightarrow> bool" where
  "py_in p [] = (p = [])"
| "py_in p (c # s) = (prefix p (c # s) \<or> py_in p s)"

text \<open>\<open>s.split(sep)\<close> for a one-character separator, and \<open>sep.join(parts)\<close>.\<close>

fun py_split :: "char \<Rightarrow> string \<Rightarrow> string list" where
  "py_split d [] = [[]]"
| "py_split d (c # s) =
     (if c = d then [] # py_split d s
      else (case py_split d s of [] \<Rightarrow> [[c]] | w # ws \<Rightarrow> (c # w) # ws))"

fun py_join :: "string \<Rightarrow> string list \<Rightarrow> string" where
  "py_join d [] = []"
| "py_join d [w] = w"
| "py_join d (w # v # ws) = w @ d @ py_join d (v # ws)"

text \<open>\<open>str(n)\<close> for integers.\<close>

fun nat_str :: "nat \<Rightarrow> string" where
  "nat_str n = (if n < 10 then [char_of (48 + n)] else nat_str (n div 10) @ [char_of (48 + n mod 10)])"

declare nat_str.simps [simp del]

definition int_str :: "int \<Rightarrow> string" where
  "int_str i = (if i < 0 then ''-'' @ nat_str (nat (- i)) else nat_str (nat i))"

subsection \<open>Lemmas on strings\<close>

lemma isspace_lower_char [simp]: "py_isspace (lower_char c) = py_isspace c"
proof -
  have "(of_char c :: nat) < 256" by (metis of_char_mod_256 mod_less_divisor zero_less_numeral)
  then show ?thesis
    by (auto simp: lower_char_def py_isspace_def is_upper_def Let_def of_char_of)
qed

lemma of_char_lt_256: "(of_char c :: nat) < 256"
  by (metis of_char_mod_256 mod_less_divisor zero_less_numeral)

lemma lower_char_not_upper [simp]: "\<not> is_upper (lower_char c)"
  by (auto simp: lower_char_def is_upper_def Let_def of_char_of)

lemma lower_char_idem [simp]: "lower_char (lower_char c) = lower_char c"
  using lower_char_not_upper [of c] by (simp add: lower_char_def [of "lower_char c"])

lemma upper_char_not_lower [simp]: "\<not> is_lower (upper_char c)"
  by (auto simp: upper_char_def is_lower_def Let_def of_char_of)

lemma upper_char_idem [simp]: "upper_char (upper_char c) = upper_char c"
  using upper_char_not_lower [of c] by (simp add: upper_char_def [of "upper_char c"])

lemma py_lower_idem [simp]: "py_lower (py_lower s) = py_lower s"
  by (simp add: py_lower_def)

lemma py_upper_idem [simp]: "py_upper (py_upper s) = py_upper s"
  by (simp add: py_upper_def)

lemma length_py_lower [simp]: "length (py_lower s) = length s"
  by (simp add: py_lower_def)

lemma py_lower_Nil_iff [simp]: "py_lower s = [] \<longleftrightarrow> s = []"
  by (simp add: py_lower_def)

lemma strip_by_Nil_iff: "strip_by P s = [] \<longleftrightarrow> (\<forall>c \<in> set s. P c)"
proof
  assume e: "strip_by P s = []"
  show "\<forall>c \<in> set s. P c"
  proof (rule ccontr)
    assume "\<not> (\<forall>c \<in> set s. P c)"
    then have ne: "dropWhile P s \<noteq> []" by auto
    then have "\<not> P (hd (dropWhile P s))" by (rule hd_dropWhile)
    with ne e show False by (auto simp: strip_by_def)
  qed
next
  show "\<forall>c \<in> set s. P c \<Longrightarrow> strip_by P s = []"
    by (auto simp: strip_by_def dest: set_dropWhileD)
qed

lemma py_strip_Nil [simp]: "py_strip [] = []"
  by (simp add: py_strip_def strip_by_def)

lemma strip_by_set: "set (strip_by P s) \<subseteq> set s"
proof
  fix x assume "x \<in> set (strip_by P s)"
  then have "x \<in> set (dropWhile P (rev (dropWhile P s)))" by (simp add: strip_by_def)
  then have "x \<in> set (rev (dropWhile P s))" using set_dropWhileD by metis
  then show "x \<in> set s" using set_dropWhileD by (metis set_rev)
qed

lemma strip_by_hd: "strip_by P s \<noteq> [] \<Longrightarrow> \<not> P (hd (strip_by P s))"
proof -
  assume ne: "strip_by P s \<noteq> []"
  let ?t = "dropWhile P s"
  have tne: "?t \<noteq> []" using ne unfolding strip_by_def by (metis dropWhile.simps(1) rev.simps(1))
  have "prefix (strip_by P s) ?t"
    unfolding strip_by_def
    by (metis suffix_dropWhile suffix_to_prefix rev_rev_ident)
  with ne have "hd (strip_by P s) = hd ?t"
    by (metis hd_append2 prefixE)
  with hd_dropWhile [OF tne] show ?thesis by simp
qed

lemma strip_by_last: "strip_by P s \<noteq> [] \<Longrightarrow> \<not> P (last (strip_by P s))"
  unfolding strip_by_def by (metis hd_dropWhile last_rev rev_is_Nil_conv)

lemma dropWhile_hd_id: "(s \<noteq> [] \<Longrightarrow> \<not> P (hd s)) \<Longrightarrow> dropWhile P s = s"
  by (cases s) auto

lemma strip_by_id:
  assumes "s \<noteq> [] \<Longrightarrow> \<not> P (hd s)" and "s \<noteq> [] \<Longrightarrow> \<not> P (last s)"
  shows "strip_by P s = s"
proof -
  have "dropWhile P s = s" using assms(1) by (rule dropWhile_hd_id)
  moreover have "dropWhile P (rev s) = rev s"
    by (rule dropWhile_hd_id) (simp add: assms(2) hd_rev)
  ultimately show ?thesis by (simp add: strip_by_def)
qed

lemma strip_by_idem [simp]: "strip_by P (strip_by P s) = strip_by P s"
  by (rule strip_by_id) (auto dest: strip_by_hd strip_by_last)

lemma py_strip_idem [simp]: "py_strip (py_strip s) = py_strip s"
  by (simp add: py_strip_def)

lemma rstrip_by_split: "\<exists>rest. d = rstrip_by P d @ rest \<and> (\<forall>c \<in> set rest. P c)"
proof -
  have "rev d = takeWhile P (rev d) @ dropWhile P (rev d)" by simp
  then have "d = rev (dropWhile P (rev d)) @ rev (takeWhile P (rev d))" by (metis rev_append rev_rev_ident)
  then show ?thesis unfolding rstrip_by_def by (metis set_rev set_takeWhileD)
qed

lemma py_split_not_Nil [simp]: "py_split d s \<noteq> []"
  by (induction s) (auto split: list.splits)

lemma py_split_no_sep: "w \<in> set (py_split d s) \<Longrightarrow> d \<notin> set w"
proof (induction s arbitrary: w)
  case Nil
  then show ?case by simp
next
  case (Cons c s)
  then show ?case by (cases "py_split d s") (auto split: if_splits)
qed

lemma py_join_Cons: "ws \<noteq> [] \<Longrightarrow> py_join d (w # ws) = w @ d @ py_join d ws"
  by (cases ws) auto

lemma join_split [simp]: "py_join [d] (py_split d s) = s"
proof (induction s)
  case Nil
  show ?case by simp
next
  case (Cons c s)
  show ?case
  proof (cases "c = d")
    case True
    then show ?thesis by (simp add: py_join_Cons Cons.IH)
  next
    case False
    obtain w ws where sp: "py_split d s = w # ws"
      using py_split_not_Nil [of d s] by (cases "py_split d s") auto
    have "py_join [d] ((c # w) # ws) = c # py_join [d] (w # ws)"
      by (cases ws) auto
    with False sp Cons.IH show ?thesis by simp
  qed
qed

lemma split_append:
  "py_split d (x @ [d] @ y) = py_split d x @ py_split d y"
proof (induction x)
  case (Cons c x)
  then show ?case by (cases "py_split d x") auto
qed simp

lemma split_single: "d \<notin> set w \<Longrightarrow> py_split d w = [w]"
  by (induction w) auto

lemma split_join:
  "ws \<noteq> [] \<Longrightarrow> \<forall>w \<in> set ws. d \<notin> set w \<Longrightarrow> py_split d (py_join [d] ws) = ws"
proof (induction ws)
  case (Cons w ws)
  show ?case
  proof (cases ws)
    case Nil
    with Cons.prems show ?thesis by (simp add: split_single)
  next
    case (Cons v vs)
    then have ne: "ws \<noteq> []" by simp
    have "py_split d (py_join [d] (w # ws)) = py_split d w @ py_split d (py_join [d] ws)"
      using split_append [of d w "py_join [d] ws"] by (simp add: py_join_Cons [OF ne])
    with ne Cons.IH Cons.prems show ?thesis by (simp add: split_single)
  qed
qed simp

lemma nat_str_nonempty [simp]: "nat_str n \<noteq> []"
  by (subst nat_str.simps) simp

lemma digit_char_of: "n < 10 \<Longrightarrow> (of_char (char_of (48 + n) :: char) :: nat) = 48 + n"
  by (simp add: of_char_of)

lemma nat_str_digits: "c \<in> set (nat_str n) \<Longrightarrow> py_isdigit c"
proof (induction n rule: nat_str.induct)
  case (1 n)
  show ?case
  proof (cases "n < 10")
    case True
    with "1.prems" have "c = char_of (48 + n)" by (subst (asm) nat_str.simps) simp
    with True digit_char_of [OF True] show ?thesis by (simp add: py_isdigit_def Let_def)
  next
    case False
    with "1.prems" have "c \<in> set (nat_str (n div 10)) \<or> c = char_of (48 + n mod 10)"
      by (subst (asm) nat_str.simps) auto
    with "1.IH" [OF False] digit_char_of [of "n mod 10"] show ?thesis
      by (auto simp: py_isdigit_def Let_def)
  qed
qed

lemma py_in_append: "py_in p s \<Longrightarrow> py_in p (u @ s)"
  by (induction u) auto

lemma py_in_iff: "py_in p s \<longleftrightarrow> (\<exists>u v. s = u @ p @ v)"
proof
  show "py_in p s \<Longrightarrow> \<exists>u v. s = u @ p @ v"
  proof (induction s)
    case (Cons c s)
    show ?case
    proof (cases "prefix p (c # s)")
      case True
      then show ?thesis by (metis append_Nil prefixE)
    next
      case False
      with Cons obtain u v where "s = u @ p @ v" by auto
      then show ?thesis by (metis append_Cons)
    qed
  qed simp
next
  assume "\<exists>u v. s = u @ p @ v"
  then obtain u v where s: "s = u @ p @ v" by blast
  have "prefix p (p @ v)" by simp
  then have "py_in p (p @ v)" by (cases "p @ v") (simp_all del: prefix_code prefixI)
  with s show "py_in p s" by (simp add: py_in_append)
qed

text \<open>
  The parts of a split are all non-empty iff the separator is neither first nor last nor doubled.
\<close>

lemma split_tl_nonempty:
  "(\<forall>w \<in> set (tl (py_split d s)). w \<noteq> []) \<longleftrightarrow>
   (s = [] \<or> last s \<noteq> d) \<and> \<not> py_in [d, d] s"
proof (induction s)
  case Nil
  then show ?case by simp
next
  case (Cons c s)
  obtain w ws where sp: "py_split d s = w # ws" by (cases "py_split d s") auto
  have hd_w: "w = [] \<longleftrightarrow> s = [] \<or> hd s = d"
    using sp by (cases s) (auto split: if_splits list.splits)
  show ?case
  proof (cases "c = d")
    case True
    have "prefix [d, d] (c # s) \<longleftrightarrow> s \<noteq> [] \<and> hd s = d"
      using True by (cases s) auto
    with True sp Cons.IH hd_w show ?thesis by auto
  next
    case False
    with sp Cons.IH hd_w show ?thesis by auto
  qed
qed

lemma split_all_nonempty:
  "(\<forall>w \<in> set (py_split d s). w \<noteq> []) \<longleftrightarrow> s \<noteq> [] \<and> hd s \<noteq> d \<and> last s \<noteq> d \<and> \<not> py_in [d, d] s"
proof -
  obtain w ws where sp: "py_split d s = w # ws" by (cases "py_split d s") auto
  have "w = [] \<longleftrightarrow> s = [] \<or> hd s = d"
    using sp by (cases s) (auto split: if_splits list.splits)
  with split_tl_nonempty [of d s] sp show ?thesis by auto
qed

lemma split_all_chars:
  "(\<forall>w \<in> set (py_split d s). \<forall>c \<in> set w. P c) \<longleftrightarrow> (\<forall>c \<in> set s. c = d \<or> P c)"
proof (induction s)
  case (Cons c s)
  then show ?case by (cases "py_split d s") auto
qed simp

section \<open>Values and errors\<close>

text \<open>JSON-shaped Python values (the source passes no floats through the modelled code).\<close>

datatype pyval =
    VNone
  | VBool bool
  | VInt int
  | VStr string
  | VList "pyval list"
  | VDict "(string \<times> pyval) list"

text \<open>Truth value testing.\<close>

fun truthy :: "pyval \<Rightarrow> bool" where
  "truthy VNone = False"
| "truthy (VBool b) = b"
| "truthy (VInt i) = (i \<noteq> 0)"
| "truthy (VStr s) = (s \<noteq> [])"
| "truthy (VList xs) = (xs \<noteq> [])"
| "truthy (VDict d) = (d \<noteq> [])"

text \<open>\<open>s or ""\<close> for an optional string, and whether it is blank after stripping.\<close>

definition or_blank :: "string option \<Rightarrow> string" where
  "or_blank x = (case x of None \<Rightarrow> [] | Some s \<Rightarrow> s)"

definition is_blank :: "string \<Rightarrow> bool" where
  "is_blank s = (py_strip s = [])"

lemma is_blank_strip [simp]: "is_blank (py_strip s) = is_blank s"
  by (simp add: is_blank_def)

text \<open>
  Validators collect errors and raise when there is one: the left side of the result is the
  non-empty list of errors.
\<close>

definition raise_if :: "'e list \<Rightarrow> ('e list, unit) result" where
  "raise_if errs = (if errs = [] then Inr () else Inl errs)"

definition errors_of :: "('e list, 'a) result \<Rightarrow> 'e list" where
  "errors_of r = (case r of Inl es \<Rightarrow> es | Inr _ \<Rightarrow> [])"

lemma errors_of_raise_if [simp]: "errors_of (raise_if es) = es"
  by (simp add: errors_of_def raise_if_def)

lemma raise_if_Inr_iff [simp]: "raise_if es = Inr u \<longleftrightarrow> es = []"
  by (simp add: raise_if_def)

lemma raise_if_Inl_iff [simp]: "raise_if es = Inl fs \<longleftrightarrow> es = fs \<and> es \<noteq> []"
  by (auto simp: raise_if_def)

lemma startswith_iff [py_str]: "startswith s p \<longleftrightarrow> take (length p) s = p"
  by (metis append_eq_conv_conj prefix_def take_is_prefix)

text \<open>
  A Python \<open>$\<close> matches at the end of the text and before a final newline: a pattern anchored with
  \<open>$\<close> accepts a text iff it accepts the text with one final newline dropped.
\<close>

definition chop_newline :: "string \<Rightarrow> string" where
  "chop_newline s = (if s \<noteq> [] \<and> last s = CHR 0x0A then butlast s else s)"

lemma chop_newline_strip [simp]: "chop_newline (py_strip s) = py_strip s"
proof -
  have "last (py_strip s) \<noteq> CHR 0x0A" if "py_strip s \<noteq> []"
    using strip_by_last [of py_isspace s] that by (auto simp: py_strip_def py_isspace_def)
  then show ?thesis by (auto simp: chop_newline_def)
qed

end
