(* ===== verification/Values.thy ===== *)
theory Values
  imports Prelude
begin

text \<open>
  Python's \<open>str\<close>, \<open>repr\<close> and \<open>int\<close> on the JSON-shaped values of \<open>Prelude\<close>, dictionary access on
  them, and the sequencing of checks that raise.
\<close>

section \<open>Text of a value\<close>

definition hex_digit :: "nat \<Rightarrow> char" where
  "hex_digit n = ''0123456789abcdef'' ! n"

definition repr_char :: "char \<Rightarrow> char \<Rightarrow> string" where
  "repr_char quote c =
     (let n = (of_char c :: nat) in
      if c = quote \<or> c = CHR 0x5C then [CHR 0x5C, c]
      else if n = 9 then [CHR 0x5C, CHR ''t''] else if n = 10 then [CHR 0x5C, CHR ''n'']
      else if n = 13 then [CHR 0x5C, CHR ''r'']
      else if n < 32 \<or> n = 127 then [CHR 0x5C, CHR ''x'', hex_digit (n div 16), hex_digit (n mod 16)]
      else [c])"

definition repr_str :: "string \<Rightarrow> string" where
  "repr_str s =
     (let quote = (if CHR 0x27 \<in> set s \<and> CHR 0x22 \<notin> set s then CHR 0x22 else CHR 0x27)
      in [quote] @ concat (map (repr_char quote) s) @ [quote])"

primrec py_repr :: "pyval \<Rightarrow> string" where
  "py_repr VNone = ''None''"
| "py_repr (VBool b) = (if b then ''True'' else ''False'')"
| "py_repr (VInt i) = int_str i"
| "py_repr (VStr s) = repr_str s"
| "py_repr (VList xs) = ''['' @ py_join '', '' (map py_repr xs) @ '']''"
| "py_repr (VDict d) =
     ''{'' @ py_join '', '' (map (\<lambda>(k, r). repr_str k @ '': '' @ r) (map (map_prod id py_repr) d)) @ ''}''"

definition py_str :: "pyval \<Rightarrow> string" where
  "py_str v = (case v of VStr s \<Rightarrow> s | _ \<Rightarrow> py_repr v)"

lemma py_str_VStr [simp]: "py_str (VStr s) = s"
  by (simp add: py_str_def)

text \<open>\<open>_clean(value)\<close>: the empty text for None, else the stripped text.\<close>

definition clean_value :: "pyval \<Rightarrow> string" where
  "clean_value v = (case v of VNone \<Rightarrow> [] | _ \<Rightarrow> py_strip (py_str v))"

lemma clean_value_simps [simp]:
  "clean_value VNone = []"
  "clean_value (VStr s) = py_strip s"
  by (simp_all add: clean_value_def)

lemma strip_clean_value [simp]: "py_strip (clean_value v) = clean_value v"
  by (cases v) (simp_all add: clean_value_def)

section \<open>Integers from text\<close>

text \<open>
  \<open>int(text)\<close>: surrounding space, an optional sign, then digits in groups separated by single
  underscores.
\<close>

definition digit_value :: "char \<Rightarrow> nat" where
  "digit_value c = (of_char c :: nat) - 48"

definition digits_value :: "string \<Rightarrow> nat" where
  "digits_value ds = foldl (\<lambda>n c. 10 * n + digit_value c) 0 ds"

definition int_digits :: "string \<Rightarrow> nat option" where
  "int_digits s =
     (if list_all (\<lambda>g. g \<noteq> [] \<and> list_all py_isdigit g) (py_split (CHR ''_'') s)
      then Some (digits_value (filter py_isdigit s)) else None)"

definition py_int :: "string \<Rightarrow> int option" where
  "py_int text =
     (case py_strip text of
        [] \<Rightarrow> None
      | c # s \<Rightarrow>
          if c = CHR ''-'' then map_option (\<lambda>n. - int n) (int_digits s)
          else if c = CHR ''+'' then map_option int (int_digits s)
          else map_option int (int_digits (c # s)))"

section \<open>Dictionaries of values\<close>

type_synonym config = "(string, pyval) dict"

text \<open>\<open>d.get(k)\<close>.\<close>

definition dict_get :: "config \<Rightarrow> string \<Rightarrow> pyval" where
  "dict_get d k = (case map_of d k of None \<Rightarrow> VNone | Some v \<Rightarrow> v)"

text \<open>\<open>d or {}\<close> for an optional dictionary.\<close>

definition dict_or :: "config option \<Rightarrow> config" where
  "dict_or d = (case d of None \<Rightarrow> [] | Some c \<Rightarrow> c)"

lemma dict_or_Some [simp]: "dict_or (Some c) = c"
  by (simp add: dict_or_def)

text \<open>\<open>{k: v for k, v in d.items() if P(k)}\<close>.\<close>

definition dict_keep :: "(string \<Rightarrow> bool) \<Rightarrow> config \<Rightarrow> config" where
  "dict_keep P d = filter (\<lambda>kv. P (fst kv)) d"

text \<open>\<open>{**a, **b}\<close>.\<close>

definition dict_merge :: "config \<Rightarrow> config \<Rightarrow> config" where
  "dict_merge a b = foldl (\<lambda>d kv. AList.update (fst kv) (snd kv) d) a b"

lemma map_of_dict_keep [simp]: "map_of (dict_keep P d) k = (if P k then map_of d k else None)"
  by (induction d) (auto simp: dict_keep_def)

lemma dict_get_keep [simp]: "dict_get (dict_keep P d) k = (if P k then dict_get d k else VNone)"
  by (simp add: dict_get_def)

lemma keys_dict_keep: "k \<in> fst ` set (dict_keep P d) \<longleftrightarrow> P k \<and> k \<in> fst ` set d"
  by (force simp: dict_keep_def)

lemma distinct_dict_keep [intro]: "distinct (map fst d) \<Longrightarrow> distinct (map fst (dict_keep P d))"
  by (simp add: dict_keep_def distinct_map inj_on_def)

lemma map_of_dict_merge:
  "distinct (map fst b) \<Longrightarrow>
   map_of (dict_merge a b) k = (case map_of b k of None \<Rightarrow> map_of a k | Some v \<Rightarrow> Some v)"
proof (induction b arbitrary: a)
  case (Cons kv b)
  have "map_of (dict_merge a (kv # b)) k = map_of (dict_merge (AList.update (fst kv) (snd kv) a) b) k"
    by (simp add: dict_merge_def)
  also have "\<dots> = (case map_of b k of None \<Rightarrow> map_of (AList.update (fst kv) (snd kv) a) k | Some v \<Rightarrow> Some v)"
    using Cons by simp
  also have "\<dots> = (case map_of (kv # b) k of None \<Rightarrow> map_of a k | Some v \<Rightarrow> Some v)"
    using Cons.prems
    by (cases kv) (auto simp: update_conv' split: option.splits dest: map_of_SomeD intro: rev_image_eqI)
  finally show ?case .
qed (simp add: dict_merge_def)

lemma dict_get_update [simp]:
  "dict_get (AList.update k v d) j = (if j = k then v else dict_get d j)"
  by (simp add: dict_get_def update_conv')

section \<open>Checks in sequence\<close>

text \<open>Run the second check when the first one passes; run one per element of a list.\<close>

definition and_then :: "('e, unit) result \<Rightarrow> ('e, unit) result \<Rightarrow> ('e, unit) result" where
  "and_then r s = (case r of Inl e \<Rightarrow> Inl e | Inr _ \<Rightarrow> s)"

fun check_each :: "('a \<Rightarrow> ('e, unit) result) \<Rightarrow> 'a list \<Rightarrow> ('e, unit) result" where
  "check_each f [] = Inr ()"
| "check_each f (x # xs) = and_then (f x) (check_each f xs)"

definition refuse_if :: "bool \<Rightarrow> 'e \<Rightarrow> ('e, unit) result" where
  "refuse_if b e = (if b then Inl e else Inr ())"

lemma and_then_Inr_iff [simp]: "and_then r s = Inr u \<longleftrightarrow> r = Inr () \<and> s = Inr ()"
  by (cases r) (auto simp: and_then_def)

lemma check_each_Inr_iff [simp]: "check_each f xs = Inr u \<longleftrightarrow> (\<forall>x \<in> set xs. f x = Inr ())"
  by (induction xs) auto

lemma refuse_if_Inr_iff [simp]: "refuse_if b e = Inr u \<longleftrightarrow> \<not> b"
  by (simp add: refuse_if_def)

lemma refuse_if_Inl_iff [simp]: "refuse_if b e = Inl e' \<longleftrightarrow> b \<and> e = e'"
  by (auto simp: refuse_if_def)

end
