(* ===== verification/Workflow.thy ===== *)
theory Workflow
  imports Values
begin

text \<open>
  Durable workflows: a coroutine that issues commands (activities, outgoing signals, child workflows)
  and conditions to wait for, while incoming signals change its attributes.  A run is a function of
  its script, the list of what the engine answers; every await uses up turns of the script, so every
  run is finite and a run whose script has ended is still waiting.
\<close>

section \<open>Runs\<close>

datatype reply = Done pyval | Failed string | TimedOut

text \<open>
  One turn of the engine: the signals that arrived first, then the reply to the command that is
  awaited.  For a condition \<open>TimedOut\<close> says that its timer fired, any other reply that it did not.
\<close>

record 'sig turn =
  arrived :: "'sig list"
  reply_of :: reply
  at_time :: int

datatype ('sig, 'cmd) event = Issued 'cmd | Heard 'sig | Got 'cmd reply

record ('sig, 'cmd) env =
  script :: "'sig turn list"
  trace :: "('sig, 'cmd) event list"
  clock :: int

text \<open>
  \<open>ActivityFailed\<close> is the engine's error after the last try_except, with the message of its root cause;
  \<open>AppFailed\<close> is the \<open>ApplicationError\<close> a workflow raises itself.
\<close>

datatype failure = ActivityFailed string | AppFailed string

text \<open>
  \<open>Waiting\<close>: the script has ended.  \<open>Spinning\<close>: a loop came round without awaiting anything, which
  would block the engine's event loop.
\<close>

datatype 'a outcome = Value 'a | Raised failure | Waiting | Spinning

type_synonym ('s, 'a) prog = "'s \<Rightarrow> 'a outcome \<times> 's"

definition ret :: "'a \<Rightarrow> ('s, 'a) prog" where
  "ret a s = (Value a, s)"

definition throw :: "failure \<Rightarrow> ('s, 'a) prog" where
  "throw e s = (Raised e, s)"

definition bind :: "('s, 'a) prog \<Rightarrow> ('a \<Rightarrow> ('s, 'b) prog) \<Rightarrow> ('s, 'b) prog" where
  "bind m k s =
     (case m s of
        (Value a, s') \<Rightarrow> k a s'
      | (Raised e, s') \<Rightarrow> (Raised e, s')
      | (Waiting, s') \<Rightarrow> (Waiting, s')
      | (Spinning, s') \<Rightarrow> (Spinning, s'))"

abbreviation seq :: "('s, 'a) prog \<Rightarrow> ('s, 'b) prog \<Rightarrow> ('s, 'b) prog" where
  "seq m n \<equiv> bind m (\<lambda>_. n)"

fun steps :: "('s, unit) prog list \<Rightarrow> ('s, 'b) prog \<Rightarrow> ('s, 'b) prog" where
  "steps [] n = n"
| "steps (m # ms) n = seq m (steps ms n)"

text \<open>Reading the attributes, and assigning them.\<close>

definition look :: "('s \<Rightarrow> 'x) \<Rightarrow> ('x \<Rightarrow> ('s, 'a) prog) \<Rightarrow> ('s, 'a) prog" where
  "look f k s = k (f s) s"

definition assign :: "('s \<Rightarrow> 's) \<Rightarrow> ('s, unit) prog" where
  "assign f s = (Value (), f s)"

definition only_if :: "bool \<Rightarrow> ('s, unit) prog \<Rightarrow> ('s, unit) prog" where
  "only_if b m = (if b then m else ret ())"

text \<open>\<open>try: m except Exception as e: k e\<close>.\<close>

definition try_except :: "('s, 'a) prog \<Rightarrow> (failure \<Rightarrow> ('s, 'a) prog) \<Rightarrow> ('s, 'a) prog" where
  "try_except m k s = (case m s of (Raised e, s') \<Rightarrow> k e s' | (r, s') \<Rightarrow> (r, s'))"

text \<open>\<open>try: m finally: k\<close>; an error of \<open>k\<close> replaces the outcome of \<open>m\<close>.\<close>

definition try_finally :: "('s, 'a) prog \<Rightarrow> ('s, unit) prog \<Rightarrow> ('s, 'a) prog" where
  "try_finally m k s =
     (case m s of
        (Value a, s') \<Rightarrow> seq k (ret a) s'
      | (Raised e, s') \<Rightarrow> seq k (throw e) s'
      | (r, s') \<Rightarrow> (r, s'))"

text \<open>\<open>while True\<close>: \<open>Inl\<close> goes round with new loop variables, \<open>Inr\<close> leaves.\<close>

function repeat ::
  "('x \<Rightarrow> (('g, 'c, 'z) env_scheme, 'x + 'a) prog) \<Rightarrow> 'x \<Rightarrow> (('g, 'c, 'z) env_scheme, 'a) prog" where
  "repeat body x s =
     (case body x s of
        (Value (Inl x'), s') \<Rightarrow>
          if length (script s') < length (script s) then repeat body x' s' else (Spinning, s')
      | (Value (Inr a), s') \<Rightarrow> (Value a, s')
      | (Raised e, s') \<Rightarrow> (Raised e, s')
      | (Waiting, s') \<Rightarrow> (Waiting, s')
      | (Spinning, s') \<Rightarrow> (Spinning, s'))"
  by pat_completeness auto
termination
  by (relation "measure (\<lambda>(body, x, s). length (script s))") auto

declare repeat.simps [simp del]

fun each :: "('x \<Rightarrow> ('s, unit) prog) \<Rightarrow> 'x list \<Rightarrow> ('s, unit) prog" where
  "each f [] = ret ()"
| "each f (x # xs) = seq (f x) (each f xs)"

section \<open>Awaiting\<close>

definition logged :: "('g, 'c) event \<Rightarrow> ('g, 'c, 'z) env_scheme \<Rightarrow> ('g, 'c, 'z) env_scheme" where
  "logged e s = s\<lparr>trace := trace s @ [e]\<rparr>"

definition take_turn :: "'g turn \<Rightarrow> 'g turn list \<Rightarrow> ('g, 'c, 'z) env_scheme \<Rightarrow> ('g, 'c, 'z) env_scheme" where
  "take_turn t ts s = s\<lparr>script := ts, clock := at_time t\<rparr>"

text \<open>\<open>h\<close> is the workflow's signal handlers.\<close>

definition deliver ::
  "('g \<Rightarrow> ('g, 'c, 'z) env_scheme \<Rightarrow> ('g, 'c, 'z) env_scheme) \<Rightarrow> 'g list \<Rightarrow>
    ('g, 'c, 'z) env_scheme \<Rightarrow> ('g, 'c, 'z) env_scheme" where
  "deliver h gs = fold (\<lambda>g s. h g (logged (Heard g) s)) gs"

definition await ::
  "('g \<Rightarrow> ('g, 'c, 'z) env_scheme \<Rightarrow> ('g, 'c, 'z) env_scheme) \<Rightarrow> 'c \<Rightarrow>
    (('g, 'c, 'z) env_scheme, pyval) prog" where
  "await h c s =
     (let s = logged (Issued c) s in
      case script s of
        [] \<Rightarrow> (Waiting, s)
      | t # ts \<Rightarrow>
          (let s = logged (Got c (reply_of t)) (deliver h (arrived t) (take_turn t ts s)) in
           case reply_of t of
             Done v \<Rightarrow> (Value v, s)
           | Failed e \<Rightarrow> (Raised (ActivityFailed e), s)
           | TimedOut \<Rightarrow> (Raised (ActivityFailed ''timed out''), s)))"

text \<open>\<open>wait_condition\<close>: whether the condition held before the timer fired.\<close>

fun wait_turns ::
  "('g \<Rightarrow> ('g, 'c, 'z) env_scheme \<Rightarrow> ('g, 'c, 'z) env_scheme) \<Rightarrow> (('g, 'c, 'z) env_scheme \<Rightarrow> bool) \<Rightarrow>
    'g turn list \<Rightarrow> (('g, 'c, 'z) env_scheme, bool) prog" where
  "wait_turns h cond [] s = (Waiting, s)"
| "wait_turns h cond (t # ts) s =
     (let s = deliver h (arrived t) (take_turn t ts s) in
      if cond s then (Value True, s)
      else if reply_of t = TimedOut then (Value False, s)
      else wait_turns h cond ts s)"

definition wait_for ::
  "('g \<Rightarrow> ('g, 'c, 'z) env_scheme \<Rightarrow> ('g, 'c, 'z) env_scheme) \<Rightarrow> (('g, 'c, 'z) env_scheme \<Rightarrow> bool) \<Rightarrow>
    (('g, 'c, 'z) env_scheme, bool) prog" where
  "wait_for h cond s = (if cond s then (Value True, s) else wait_turns h cond (script s) s)"

end
