(* ===== verification/WorkflowLogic.thy ===== *)
theory WorkflowLogic
  imports Workflow
begin

text \<open>
  Reasoning about workflow runs.  A triple says what a program does to an invariant of the state, to a
  fact about its trace, and how it may be left; \<open>quiet\<close> is the common case of a program that keeps a
  fact about the trace.  The locale \<open>workflow_rules\<close> states what a workflow has to provide (its
  handlers and its routine commands keep the invariant) and gives the rules for its awaits.
\<close>

named_theorems quiet_rules \<open>programs that keep a fact about the trace\<close>

section \<open>Triples\<close>

text \<open>\<open>J\<close> holds at every end of the program, \<open>Q\<close> at its values, \<open>E\<close> at its failures.\<close>

definition triple ::
  "('s \<Rightarrow> bool) \<Rightarrow> (failure \<Rightarrow> 's \<Rightarrow> bool) \<Rightarrow> ('s \<Rightarrow> bool) \<Rightarrow> ('s, 'a) prog \<Rightarrow> ('a \<Rightarrow> 's \<Rightarrow> bool) \<Rightarrow> bool"
where
  "triple J E P m Q \<longleftrightarrow>
     (\<forall>s r s'. J s \<and> P s \<and> m s = (r, s') \<longrightarrow>
        J s' \<and> (\<forall>a. r = Value a \<longrightarrow> Q a s') \<and> (\<forall>e. r = Raised e \<longrightarrow> E e s'))"

lemma tripleI:
  assumes "\<And>s r s'. J s \<Longrightarrow> P s \<Longrightarrow> m s = (r, s') \<Longrightarrow>
    J s' \<and> (\<forall>a. r = Value a \<longrightarrow> Q a s') \<and> (\<forall>e. r = Raised e \<longrightarrow> E e s')"
  shows "triple J E P m Q"
  using assms unfolding triple_def by blast

lemma tripleD:
  "triple J E P m Q \<Longrightarrow> J s \<Longrightarrow> P s \<Longrightarrow> m s = (r, s') \<Longrightarrow>
    J s' \<and> (\<forall>a. r = Value a \<longrightarrow> Q a s') \<and> (\<forall>e. r = Raised e \<longrightarrow> E e s')"
  unfolding triple_def by blast

lemma triple_weaken:
  "triple J E P m Q \<Longrightarrow> (\<And>s. J s \<Longrightarrow> P' s \<Longrightarrow> P s) \<Longrightarrow> (\<And>a s. J s \<Longrightarrow> Q a s \<Longrightarrow> Q' a s) \<Longrightarrow>
    triple J E P' m Q'"
  unfolding triple_def by blast

lemma triple_ret: "(\<And>s. J s \<Longrightarrow> P s \<Longrightarrow> Q a s) \<Longrightarrow> triple J E P (ret a) Q"
  unfolding triple_def ret_def by simp

lemma triple_throw: "(\<And>s. J s \<Longrightarrow> P s \<Longrightarrow> E e s) \<Longrightarrow> triple J E P (throw e) Q"
  unfolding triple_def throw_def by simp

lemma triple_assign:
  "(\<And>s. J s \<Longrightarrow> P s \<Longrightarrow> J (f s) \<and> Q () (f s)) \<Longrightarrow> triple J E P (assign f) Q"
  unfolding triple_def assign_def by simp

lemma triple_look: "(\<And>x. triple J E (\<lambda>s. P s \<and> f s = x) (k x) Q) \<Longrightarrow> triple J E P (look f k) Q"
  unfolding triple_def look_def by blast

lemma triple_bind:
  assumes "triple J E P m R" "\<And>a. triple J E (R a) (k a) Q"
  shows "triple J E P (bind m k) Q"
proof (rule tripleI)
  fix s r s' assume pre: "J s" "P s" and run: "bind m k s = (r, s')"
  obtain r1 s1 where m: "m s = (r1, s1)" by force
  note m1 = tripleD [OF assms(1) pre m]
  show "J s' \<and> (\<forall>a. r = Value a \<longrightarrow> Q a s') \<and> (\<forall>e. r = Raised e \<longrightarrow> E e s')"
  proof (cases r1)
    case (Value a)
    then show ?thesis using tripleD [OF assms(2), of s1 a r s'] m1 m run by (simp add: bind_def)
  qed (use m1 m run in \<open>auto simp: bind_def\<close>)
qed

lemma seq_assign: "seq (assign f) m s = m (f s)"
  by (simp add: bind_def assign_def)

lemma bind_value: "m s = (Value a, s') \<Longrightarrow> bind m k s = k a s'"
  by (simp add: bind_def)

lemma triple_if:
  "(c \<Longrightarrow> triple J E P m Q) \<Longrightarrow> (\<not> c \<Longrightarrow> triple J E P n Q) \<Longrightarrow>
    triple J E P (if c then m else n) Q"
  by simp

lemma triple_try:
  assumes "triple J E' P m Q" "\<And>e. triple J E (E' e) (k e) Q"
  shows "triple J E P (try_except m k) Q"
proof (rule tripleI)
  fix s r s' assume pre: "J s" "P s" and run: "try_except m k s = (r, s')"
  obtain r1 s1 where m: "m s = (r1, s1)" by force
  note m1 = tripleD [OF assms(1) pre m]
  show "J s' \<and> (\<forall>a. r = Value a \<longrightarrow> Q a s') \<and> (\<forall>e. r = Raised e \<longrightarrow> E e s')"
  proof (cases r1)
    case (Raised e)
    then show ?thesis using tripleD [OF assms(2), of s1 e r s'] m1 m run by (simp add: try_except_def)
  qed (use m1 m run in \<open>auto simp: try_except_def\<close>)
qed

lemma triple_finally:
  assumes "triple J E' P m Q'" "\<And>a. triple J E (Q' a) k (\<lambda>_. Q a)" "\<And>e. triple J E (E' e) k (\<lambda>_. E e)"
  shows "triple J E P (try_finally m k) Q"
proof (rule tripleI)
  fix s r s' assume pre: "J s" "P s" and run: "try_finally m k s = (r, s')"
  obtain r1 s1 where m: "m s = (r1, s1)" by force
  note m1 = tripleD [OF assms(1) pre m]
  show "J s' \<and> (\<forall>a. r = Value a \<longrightarrow> Q a s') \<and> (\<forall>e. r = Raised e \<longrightarrow> E e s')"
  proof (cases r1)
    case (Value a)
    have "triple J E (Q' a) (seq k (ret a)) Q"
      by (rule triple_bind [OF assms(2)], rule triple_weaken [OF triple_ret [where P = "Q a" and Q = Q]]) auto
    from tripleD [OF this, of s1 r s'] m1 m run Value show ?thesis by (simp add: try_finally_def)
  next
    case (Raised e)
    have "triple J E (E' e) (seq k (throw e)) Q"
      by (rule triple_bind [OF assms(3)], rule triple_throw) auto
    from tripleD [OF this, of s1 r s'] m1 m run Raised show ?thesis by (simp add: try_finally_def)
  qed (use m1 m run in \<open>auto simp: try_finally_def\<close>)
qed

text \<open>The rule for loops: \<open>R\<close> relates the loop variables and the state.\<close>

lemma triple_repeat:
  fixes body :: "'x \<Rightarrow> (('g, 'c, 'z) env_scheme, 'x + 'a) prog"
  assumes "\<And>x. triple J E (R x) (body x) (\<lambda>r s. case r of Inl y \<Rightarrow> R y s | Inr a \<Rightarrow> Q a s)"
  shows "triple J E (R x) (repeat body x) Q"
proof (rule tripleI)
  fix s r s' assume "J s" "R x s" "repeat body x s = (r, s')"
  then show "J s' \<and> (\<forall>a. r = Value a \<longrightarrow> Q a s') \<and> (\<forall>e. r = Raised e \<longrightarrow> E e s')"
  proof (induction "length (script s)" arbitrary: x s rule: less_induct)
    case less
    obtain r1 s1 where b: "body x s = (r1, s1)" by force
    note b1 = tripleD [OF assms less.prems(1,2) b]
    show ?case
    proof (cases r1)
      case (Value y)
      then show ?thesis
        using less b b1 by (cases y; simp add: repeat.simps [of body x s] split: if_splits) blast
    qed (use less.prems b b1 in \<open>auto simp: repeat.simps [of body x s]\<close>)
  qed
qed

section \<open>Programs that keep a fact about the trace\<close>

definition quiet ::
  "(('g, 'c, 'z) env_scheme \<Rightarrow> bool) \<Rightarrow> (failure \<Rightarrow> ('g, 'c, 'z) env_scheme \<Rightarrow> bool) \<Rightarrow>
    (('g, 'c) event list \<Rightarrow> bool) \<Rightarrow> (('g, 'c, 'z) env_scheme, 'a) prog \<Rightarrow> bool" where
  "quiet J E T m = triple J E (\<lambda>s. T (trace s)) m (\<lambda>_ s. T (trace s))"

lemma quiet_ret [quiet_rules]: "quiet J E T (ret a)"
  unfolding quiet_def by (rule triple_ret)

lemma quiet_throw: "(\<And>s. J s \<Longrightarrow> T (trace s) \<Longrightarrow> E e s) \<Longrightarrow> quiet J E T (throw e)"
  unfolding quiet_def by (rule triple_throw)

lemma quiet_bind [quiet_rules]:
  "quiet J E T m \<Longrightarrow> (\<And>a. quiet J E T (k a)) \<Longrightarrow> quiet J E T (bind m k)"
  unfolding quiet_def by (rule triple_bind)

lemma quiet_steps_Nil [quiet_rules]: "quiet J E T n \<Longrightarrow> quiet J E T (steps [] n)"
  by simp

lemma quiet_steps_Cons [quiet_rules]:
  "quiet J E T m \<Longrightarrow> quiet J E T (steps ms n) \<Longrightarrow> quiet J E T (steps (m # ms) n)"
  by (simp add: quiet_bind)

lemma quiet_steps:
  "(\<And>m. m \<in> set ms \<Longrightarrow> quiet J E T m) \<Longrightarrow> quiet J E T n \<Longrightarrow> quiet J E T (steps ms n)"
  by (induction ms) (auto intro: quiet_bind)

lemma quiet_look [quiet_rules]: "(\<And>x. quiet J E T (k x)) \<Longrightarrow> quiet J E T (look f k)"
  unfolding quiet_def
  by (rule triple_look, rule triple_weaken [where P = "\<lambda>s. T (trace s)" and Q = "\<lambda>_ s. T (trace s)"]) auto

lemma quiet_if [quiet_rules]:
  "(c \<Longrightarrow> quiet J E T m) \<Longrightarrow> (\<not> c \<Longrightarrow> quiet J E T n) \<Longrightarrow> quiet J E T (if c then m else n)"
  by simp

lemma quiet_only_if [quiet_rules]: "(c \<Longrightarrow> quiet J E T m) \<Longrightarrow> quiet J E T (only_if c m)"
  by (simp add: only_if_def quiet_ret)

lemma quiet_assign [quiet_rules]:
  "(\<And>s. J s \<Longrightarrow> J (f s)) \<Longrightarrow> (\<And>s. trace (f s) = trace s) \<Longrightarrow> quiet J E T (assign f)"
  unfolding quiet_def by (rule triple_assign) auto

lemma quiet_each [quiet_rules]: "(\<And>x. quiet J E T (f x)) \<Longrightarrow> quiet J E T (each f xs)"
  by (induction xs) (auto intro: quiet_bind quiet_ret)

lemma quiet_repeat [quiet_rules]: "(\<And>x. quiet J E T (body x)) \<Longrightarrow> quiet J E T (repeat body x)"
  unfolding quiet_def
  by (rule triple_repeat [where R = "\<lambda>_ s. T (trace s)"],
      rule triple_weaken [where P = "\<lambda>s. T (trace s)" and Q = "\<lambda>_ s. T (trace s)"])
     (auto split: sum.splits)

lemma quiet_try [quiet_rules]:
  "quiet J (\<lambda>_ s. T (trace s)) T m \<Longrightarrow> (\<And>e. quiet J E T (k e)) \<Longrightarrow> quiet J E T (try_except m k)"
  unfolding quiet_def by (rule triple_try)

lemma quiet_case_option [quiet_rules]:
  "(x = None \<Longrightarrow> quiet J E T m) \<Longrightarrow> (\<And>y. x = Some y \<Longrightarrow> quiet J E T (f y)) \<Longrightarrow>
    quiet J E T (case x of None \<Rightarrow> m | Some y \<Rightarrow> f y)"
  by (cases x) auto

lemma quiet_case_prod [quiet_rules]:
  "(\<And>a b. x = (a, b) \<Longrightarrow> quiet J E T (f a b)) \<Longrightarrow> quiet J E T (case x of (a, b) \<Rightarrow> f a b)"
  by (cases x) auto

lemma quiet_let [quiet_rules]: "quiet J E T (f x) \<Longrightarrow> quiet J E T (let y = x in f y)"
  by simp

text \<open>All values a program can return satisfy \<open>V\<close>; with \<open>V\<close> false it cannot return any.\<close>

definition yields :: "('a \<Rightarrow> bool) \<Rightarrow> ('s, 'a) prog \<Rightarrow> bool" where
  "yields V m \<longleftrightarrow> (\<forall>s a s'. m s = (Value a, s') \<longrightarrow> V a)"

abbreviation never_returns :: "('s, 'a) prog \<Rightarrow> bool" where
  "never_returns \<equiv> yields (\<lambda>_. False)"

lemma yields_throw [simp, intro]: "yields V (throw e)"
  by (simp add: yields_def throw_def)

lemma yields_ret [simp, intro]: "V a \<Longrightarrow> yields V (ret a)"
  by (simp add: yields_def ret_def)

lemma yields_bind: "(\<And>a. yields V (k a)) \<Longrightarrow> yields V (bind m k)"
  by (auto simp: yields_def bind_def split: prod.splits outcome.splits)

lemma yields_look: "(\<And>x. yields V (k x)) \<Longrightarrow> yields V (look f k)"
  by (auto simp: yields_def look_def)

lemma yields_steps: "yields V n \<Longrightarrow> yields V (steps ms n)"
  by (induction ms) (auto intro: yields_bind)

lemma yields_if: "yields V m \<Longrightarrow> yields V n \<Longrightarrow> yields V (if c then m else n)"
  by simp

lemma yields_never: "never_returns m \<Longrightarrow> yields V m"
  by (simp add: yields_def)

lemma quiet_yields:
  "quiet J E T m \<Longrightarrow> yields V m \<Longrightarrow> triple J E (\<lambda>s. T (trace s)) m (\<lambda>a s. T (trace s) \<and> V a)"
  unfolding quiet_def triple_def yields_def by blast

lemma quiet_never:
  "quiet J E T m \<Longrightarrow> never_returns m \<Longrightarrow> triple J E (\<lambda>s. T (trace s)) m Q"
  unfolding quiet_def triple_def yields_def by blast

lemma quiet_seq:
  "quiet J E T m \<Longrightarrow> triple J E (\<lambda>s. T (trace s)) n Q \<Longrightarrow> triple J E (\<lambda>s. T (trace s)) (seq m n) Q"
  unfolding quiet_def by (rule triple_bind)

lemma triple_quiet: "quiet J E T m \<Longrightarrow> triple J E (\<lambda>s. T (trace s)) m (\<lambda>_ s. T (trace s))"
  by (simp add: quiet_def)

section \<open>Reading traces\<close>

text \<open>An event of one kind, and after it none of another.\<close>

fun last_word :: "('e \<Rightarrow> bool) \<Rightarrow> ('e \<Rightarrow> bool) \<Rightarrow> 'e list \<Rightarrow> bool" where
  "last_word P Q [] = False"
| "last_word P Q (e # tr) = (P e \<and> \<not> list_ex Q tr \<or> last_word P Q tr)"

lemma last_word_some: "last_word P Q tr \<Longrightarrow> \<exists>e \<in> set tr. P e"
  by (induction tr) auto

lemma last_word_snoc: "last_word P Q (tr @ [e]) \<longleftrightarrow> P e \<or> \<not> Q e \<and> last_word P Q tr"
  by (induction tr) auto

definition answered :: "(pyval \<Rightarrow> bool) \<Rightarrow> reply \<Rightarrow> bool" where
  "answered P r = (case r of Done v \<Rightarrow> P v | _ \<Rightarrow> False)"

section \<open>The contract of a workflow\<close>

text \<open>
  A fact that routine commands and signals cannot destroy.  Commands a property counts or orders are
  the ones that are not routine for it.
\<close>

definition calm :: "('c \<Rightarrow> bool) \<Rightarrow> (('g, 'c) event list \<Rightarrow> bool) \<Rightarrow> bool" where
  "calm routine T \<longleftrightarrow>
     (\<forall>tr. T tr \<longrightarrow> (\<forall>g. T (tr @ [Heard g])) \<and>
        (\<forall>c. routine c \<longrightarrow> T (tr @ [Issued c]) \<and> (\<forall>r. T (tr @ [Got c r]))))"

lemma calm_True [simp]: "calm routine (\<lambda>_. True)"
  by (simp add: calm_def)

lemma calm_conj [intro]: "calm routine T \<Longrightarrow> calm routine U \<Longrightarrow> calm routine (\<lambda>tr. T tr \<and> U tr)"
  unfolding calm_def by blast

lemma calm_imp [intro]: "calm routine T \<Longrightarrow> calm routine (\<lambda>tr. c \<longrightarrow> T tr)"
  by (simp add: calm_def)

lemma calm_last_word:
  "(\<And>c. routine c \<Longrightarrow> \<not> Q (Issued c)) \<Longrightarrow> (\<And>g. \<not> Q (Heard g)) \<Longrightarrow> (\<And>c r. \<not> Q (Got c r)) \<Longrightarrow>
    calm routine (last_word P Q)"
  by (simp add: calm_def last_word_snoc)

lemma calm_list_ex [intro]: "calm routine (list_ex P)"
  by (simp add: calm_def)

lemma calm_member [intro]: "calm routine (\<lambda>tr. e \<in> set tr)"
  by (simp add: calm_def)

lemma trace_logged [simp]: "trace (logged e s) = trace s @ [e]"
  by (simp add: logged_def)

lemma trace_take_turn [simp]: "trace (take_turn t ts s) = trace s"
  by (simp add: take_turn_def)

lemma deliver_Nil [simp]: "deliver h [] s = s"
  by (simp add: deliver_def)

lemma deliver_Cons [simp]: "deliver h (g # gs) s = deliver h gs (h g (logged (Heard g) s))"
  by (simp add: deliver_def)

text \<open>A fact about the state that awaiting cannot destroy, such as a flag that is only ever raised.\<close>

definition rising ::
  "('g \<Rightarrow> ('g, 'c, 'z) env_scheme \<Rightarrow> ('g, 'c, 'z) env_scheme) \<Rightarrow> ('c \<Rightarrow> bool) \<Rightarrow>
    (('g, 'c, 'z) env_scheme \<Rightarrow> bool) \<Rightarrow> bool" where
  "rising h routine P \<longleftrightarrow>
     (\<forall>s. P s \<longrightarrow> (\<forall>g. P (h g (logged (Heard g) s))) \<and> (\<forall>t ts. P (take_turn t ts s)) \<and>
        (\<forall>c. routine c \<longrightarrow> P (logged (Issued c) s) \<and> (\<forall>r. P (logged (Got c r) s))))"

lemma rising_conj [intro]:
  "rising h routine P \<Longrightarrow> rising h routine Q \<Longrightarrow> rising h routine (\<lambda>s. P s \<and> Q s)"
  unfolding rising_def by blast

lemma rising_disj [intro]:
  "rising h routine P \<Longrightarrow> rising h routine Q \<Longrightarrow> rising h routine (\<lambda>s. P s \<or> Q s)"
  unfolding rising_def by blast

locale workflow_rules =
  fixes h :: "'g \<Rightarrow> ('g, 'c, 'z) env_scheme \<Rightarrow> ('g, 'c, 'z) env_scheme"
    and J :: "('g, 'c, 'z) env_scheme \<Rightarrow> bool"
    and routine :: "'c \<Rightarrow> bool"
  assumes J_turn: "J s \<Longrightarrow> J (take_turn t ts s)"
    and J_signal: "J s \<Longrightarrow> J (h g (logged (Heard g) s))"
    and J_issued: "routine c \<Longrightarrow> J s \<Longrightarrow> J (logged (Issued c) s)"
    and J_got: "routine c \<Longrightarrow> J s \<Longrightarrow> J (logged (Got c r) s)"
    and trace_signal: "\<exists>cs. trace (h g s) = trace s @ map Issued cs \<and> list_all routine cs"
begin

lemma calm_extend: "calm routine T \<Longrightarrow> list_all routine cs \<Longrightarrow> T tr \<Longrightarrow> T (tr @ map Issued cs)"
proof (induction cs arbitrary: tr)
  case (Cons c cs)
  then show ?case using Cons.IH [of "tr @ [Issued c]"] by (simp add: calm_def)
qed simp

lemma signal_calm: "calm routine T \<Longrightarrow> T (trace s) \<Longrightarrow> T (trace (h g (logged (Heard g) s)))"
  using trace_signal [of g "logged (Heard g) s"] calm_extend [of T _ "trace s @ [Heard g]"]
  by (auto simp: calm_def)

lemma deliver_keeps:
  "calm routine T \<Longrightarrow> J s \<Longrightarrow> T (trace s) \<Longrightarrow> J (deliver h gs s) \<and> T (trace (deliver h gs s))"
  by (induction gs arbitrary: s) (auto intro: J_signal signal_calm)

text \<open>A command that need not be routine; its issue and its reply are checked separately.\<close>

lemma await_triple:
  assumes calm: "calm routine T"
    and issue: "\<And>s. J s \<Longrightarrow> P s \<Longrightarrow> J (logged (Issued c) s) \<and> T (trace s @ [Issued c])"
    and reply: "\<And>s r. J s \<Longrightarrow> T (trace s) \<Longrightarrow> J (logged (Got c r) s)"
    and fails: "\<And>s tr m r. J s \<Longrightarrow> trace s = tr @ [Got c r] \<Longrightarrow> (\<And>v. r \<noteq> Done v) \<Longrightarrow> T tr \<Longrightarrow>
      E (ActivityFailed m) s"
  shows "triple J E P (await h c) (\<lambda>v s. \<exists>tr. trace s = tr @ [Got c (Done v)] \<and> T tr)"
proof (rule tripleI)
  fix s r s' assume pre: "J s" "P s" and run: "await h c s = (r, s')"
  note issued = issue [OF pre]
  show "J s' \<and> (\<forall>v. r = Value v \<longrightarrow> (\<exists>tr. trace s' = tr @ [Got c (Done v)] \<and> T tr)) \<and>
    (\<forall>e. r = Raised e \<longrightarrow> E e s')"
  proof (cases "script s")
    case Nil
    then show ?thesis using issued run by (simp add: await_def logged_def)
  next
    case (Cons t ts)
    let ?s = "deliver h (arrived t) (take_turn t ts (logged (Issued c) s))"
    have s: "J ?s \<and> T (trace ?s)"
      using issued by (intro deliver_keeps [OF calm]) (auto intro: J_turn)
    then have "J (logged (Got c (reply_of t)) ?s)" using reply by blast
    moreover have "trace (logged (Got c (reply_of t)) ?s) = trace ?s @ [Got c (reply_of t)]" by simp
    ultimately show ?thesis
      using run Cons s fails [of "logged (Got c (reply_of t)) ?s" "trace ?s" "reply_of t"]
      by (cases "reply_of t") (auto simp: await_def logged_def Let_def)
  qed
qed

lemma await_quiet [quiet_rules]:
  assumes "routine c" "calm routine T"
    and "\<And>s m. J s \<Longrightarrow> T (trace s) \<Longrightarrow> E (ActivityFailed m) s"
  shows "quiet J E T (await h c)"
  unfolding quiet_def
  by (rule triple_weaken [OF await_triple [where T = T and P = "\<lambda>s. T (trace s)"]])
     (use assms in \<open>auto simp: calm_def intro: J_issued J_got\<close>)

lemma wait_turns_keeps:
  assumes "calm routine T"
  shows "J s \<Longrightarrow> T (trace s) \<Longrightarrow> wait_turns h cond ts s = (r, s') \<Longrightarrow>
    J s' \<and> T (trace s') \<and> (r = Value True \<longrightarrow> cond s') \<and> (\<forall>e. r \<noteq> Raised e)"
proof (induction ts arbitrary: s)
  case (Cons t ts)
  let ?s = "deliver h (arrived t) (take_turn t ts s)"
  have "J ?s \<and> T (trace ?s)" using Cons.prems by (intro deliver_keeps [OF assms]) (auto intro: J_turn)
  then show ?case using Cons.IH [of ?s] Cons.prems(3) by (auto simp: Let_def split: if_splits)
qed auto

lemma wait_triple:
  "calm routine T \<Longrightarrow>
    triple J E (\<lambda>s. T (trace s)) (wait_for h cond) (\<lambda>b s. T (trace s) \<and> (b \<longrightarrow> cond s))"
  by (rule tripleI) (auto simp: wait_for_def dest: wait_turns_keeps split: if_splits)

lemma wait_quiet [quiet_rules]: "calm routine T \<Longrightarrow> quiet J E T (wait_for h cond)"
  unfolding quiet_def by (rule triple_weaken [OF wait_triple [where T = T]]) auto

lemma calm_rising [intro]: "calm routine T \<Longrightarrow> rising h routine (\<lambda>s. T (trace s))"
  using signal_calm by (auto simp: rising_def calm_def)

lemma deliver_rising: "rising h routine P \<Longrightarrow> J s \<Longrightarrow> P s \<Longrightarrow> J (deliver h gs s) \<and> P (deliver h gs s)"
proof (induction gs arbitrary: s)
  case (Cons g gs)
  have "J (h g (logged (Heard g) s))" using Cons.prems by (intro J_signal)
  moreover have "P (h g (logged (Heard g) s))" using Cons.prems by (simp add: rising_def)
  ultimately show ?case using Cons.IH Cons.prems(1) by simp
qed simp

lemma await_rising:
  assumes P: "rising h routine P" and c: "routine c" and E: "\<And>s m. J s \<Longrightarrow> P s \<Longrightarrow> E (ActivityFailed m) s"
  shows "triple J E P (await h c) (\<lambda>_. P)"
proof (rule tripleI)
  fix s r s' assume pre: "J s" "P s" and run: "await h c s = (r, s')"
  show "J s' \<and> (\<forall>v. r = Value v \<longrightarrow> P s') \<and> (\<forall>e. r = Raised e \<longrightarrow> E e s')"
  proof (cases "script s")
    case Nil
    then show ?thesis using J_issued [OF c pre(1)] run by (simp add: await_def logged_def)
  next
    case (Cons t ts)
    let ?s = "deliver h (arrived t) (take_turn t ts (logged (Issued c) s))"
    have s: "J ?s \<and> P ?s"
      using pre P c by (intro deliver_rising) (auto simp: rising_def intro: J_turn J_issued)
    then have "J (logged (Got c (reply_of t)) ?s) \<and> P (logged (Got c (reply_of t)) ?s)"
      using P c by (auto simp: rising_def intro: J_got)
    then show ?thesis using run Cons E
      by (cases "reply_of t") (auto simp: await_def logged_def Let_def)
  qed
qed

lemma wait_turns_rising:
  assumes "rising h routine P"
  shows "J s \<Longrightarrow> P s \<Longrightarrow> wait_turns h cond ts s = (r, s') \<Longrightarrow>
    J s' \<and> P s' \<and> (r = Value True \<longrightarrow> cond s') \<and> (\<forall>e. r \<noteq> Raised e)"
proof (induction ts arbitrary: s)
  case (Cons t ts)
  let ?s = "deliver h (arrived t) (take_turn t ts s)"
  have "J ?s \<and> P ?s" using Cons.prems assms
    by (intro deliver_rising) (auto simp: rising_def intro: J_turn)
  then show ?case using Cons.IH [of ?s] Cons.prems(3) by (auto simp: Let_def split: if_splits)
qed auto

lemma wait_rising: "rising h routine P \<Longrightarrow> triple J E P (wait_for h cond) (\<lambda>b s. P s \<and> (b \<longrightarrow> cond s))"
  by (rule tripleI) (auto simp: wait_for_def dest: wait_turns_rising split: if_splits)

end

section \<open>Rules for the order of commands\<close>

text \<open>Every command of a trace was allowed by what came before it.\<close>

definition follows :: "(('g, 'c) event list \<Rightarrow> 'c \<Rightarrow> bool) \<Rightarrow> ('g, 'c) event list \<Rightarrow> bool" where
  "follows allowed tr \<longleftrightarrow> (\<forall>pre c post. tr = pre @ Issued c # post \<longrightarrow> allowed pre c)"

lemma follows_Nil [simp]: "follows allowed []"
  by (simp add: follows_def)

lemma follows_snoc [simp]:
  "follows allowed (tr @ [e]) \<longleftrightarrow> follows allowed tr \<and> (\<forall>c. e = Issued c \<longrightarrow> allowed tr c)"
proof
  assume "follows allowed (tr @ [e])"
  then show "follows allowed tr \<and> (\<forall>c. e = Issued c \<longrightarrow> allowed tr c)"
    unfolding follows_def by (metis append.assoc append_Cons)
next
  assume r: "follows allowed tr \<and> (\<forall>c. e = Issued c \<longrightarrow> allowed tr c)"
  show "follows allowed (tr @ [e])" unfolding follows_def
  proof (intro allI impI)
    fix pre c post assume eq: "tr @ [e] = pre @ Issued c # post"
    show "allowed pre c"
    proof (cases post rule: rev_cases)
      case Nil
      then show ?thesis using eq r by simp
    next
      case (snoc post' e')
      then have "tr = pre @ Issued c # post'" using eq by simp
      then show ?thesis using r unfolding follows_def by blast
    qed
  qed
qed

end
