(* ===== verification/WorkflowProgress.thy ===== *)
theory WorkflowProgress
  imports Workflow
begin

text \<open>
  Progress of workflow runs: no loop comes round without awaiting.  \<open>pace P m V\<close> says that \<open>m\<close> never
  spins, never gives turns back, and that \<open>V\<close> describes the values it may return without using up a
  turn.  \<open>pace_to B\<close> allows it to spin in states that satisfy \<open>B\<close>.
\<close>

named_theorems pace_rules \<open>programs that never spin\<close>

definition turns :: "('g, 'c, 'z) env_scheme \<Rightarrow> nat" where
  "turns s = length (script s)"

definition pace_to ::
  "(('g, 'c, 'z) env_scheme \<Rightarrow> bool) \<Rightarrow> (('g, 'c, 'z) env_scheme \<Rightarrow> bool) \<Rightarrow>
    (('g, 'c, 'z) env_scheme, 'a) prog \<Rightarrow> ('a \<Rightarrow> ('g, 'c, 'z) env_scheme \<Rightarrow> bool) \<Rightarrow> bool" where
  "pace_to B P m V \<longleftrightarrow>
     (\<forall>s r s'. P s \<and> m s = (r, s') \<longrightarrow>
        (r = Spinning \<longrightarrow> B s') \<and> turns s' \<le> turns s \<and>
        (\<forall>a. r = Value a \<longrightarrow> turns s' < turns s \<or> V a s'))"

abbreviation pace ::
  "(('g, 'c, 'z) env_scheme \<Rightarrow> bool) \<Rightarrow> (('g, 'c, 'z) env_scheme, 'a) prog \<Rightarrow>
    ('a \<Rightarrow> ('g, 'c, 'z) env_scheme \<Rightarrow> bool) \<Rightarrow> bool" where
  "pace \<equiv> pace_to (\<lambda>_. False)"

abbreviation paced_to ::
  "(('g, 'c, 'z) env_scheme \<Rightarrow> bool) \<Rightarrow> (('g, 'c, 'z) env_scheme, 'a) prog \<Rightarrow> bool" where
  "paced_to B m \<equiv> pace_to B (\<lambda>_. True) m (\<lambda>_ _. True)"

abbreviation paced :: "(('g, 'c, 'z) env_scheme, 'a) prog \<Rightarrow> bool" where
  "paced \<equiv> paced_to (\<lambda>_. False)"

lemma paceI:
  "(\<And>s r s'. P s \<Longrightarrow> m s = (r, s') \<Longrightarrow>
      (r = Spinning \<longrightarrow> B s') \<and> turns s' \<le> turns s \<and> (\<forall>a. r = Value a \<longrightarrow> turns s' < turns s \<or> V a s')) \<Longrightarrow> pace_to B P m V"
  unfolding pace_to_def by blast

lemma paceD:
  "pace_to B P m V \<Longrightarrow> P s \<Longrightarrow> m s = (r, s') \<Longrightarrow>
    (r = Spinning \<longrightarrow> B s') \<and> turns s' \<le> turns s \<and> (\<forall>a. r = Value a \<longrightarrow> turns s' < turns s \<or> V a s')"
  unfolding pace_to_def by blast

lemma pace_weaken:
  "pace_to B P m V \<Longrightarrow> (\<And>s. P' s \<Longrightarrow> P s) \<Longrightarrow> (\<And>a s. V a s \<Longrightarrow> V' a s) \<Longrightarrow> pace_to B P' m V'"
  unfolding pace_to_def by blast

lemma pace_any: "pace P m V \<Longrightarrow> (\<And>a s. V a s \<Longrightarrow> V' a s) \<Longrightarrow> pace_to B P m V'"
  unfolding pace_to_def by blast

lemma pace_ret: "(\<And>s. P s \<Longrightarrow> V a s) \<Longrightarrow> pace_to B P (ret a) V"
  unfolding pace_to_def ret_def by simp

lemma pace_throw [pace_rules]: "pace_to B P (throw e) V"
  unfolding pace_to_def throw_def by simp

lemma pace_assign: "(\<And>s. P s \<Longrightarrow> V () (f s)) \<Longrightarrow> (\<And>s. script (f s) = script s) \<Longrightarrow> pace_to B P (assign f) V"
  unfolding pace_to_def assign_def turns_def by simp

lemma pace_look: "(\<And>x. pace_to B (\<lambda>s. P s \<and> f s = x) (k x) V) \<Longrightarrow> pace_to B P (look f k) V"
  unfolding pace_to_def look_def by blast

lemma pace_if: "(c \<Longrightarrow> pace_to B P m V) \<Longrightarrow> (\<not> c \<Longrightarrow> pace_to B P n V) \<Longrightarrow> pace_to B P (if c then m else n) V"
  by simp

text \<open>A turn used up by either part is enough.\<close>

lemma pace_False: "pace_to B (\<lambda>_. False) m V"
  by (simp add: pace_to_def)

lemma pace_bind:
  assumes m: "pace_to B P m R" and k: "\<And>a. paced_to B (k a)" "\<And>a. pace_to B (R a) (k a) V"
  shows "pace_to B P (bind m k) V"
proof (rule paceI)
  fix s r s' assume "P s" and run: "bind m k s = (r, s')"
  obtain r1 s1 where b: "m s = (r1, s1)" by force
  note m1 = paceD [OF m \<open>P s\<close> b]
  show "(r = Spinning \<longrightarrow> B s') \<and> turns s' \<le> turns s \<and> (\<forall>a. r = Value a \<longrightarrow> turns s' < turns s \<or> V a s')"
  proof (cases r1)
    case (Value a)
    then have k1: "k a s1 = (r, s')" using b run by (simp add: bind_def)
    show ?thesis
    proof (cases "R a s1")
      case True
      from paceD [OF k(2) True k1] m1 Value show ?thesis by auto
    next
      case False
      from paceD [OF k(1) TrueI k1] m1 Value False show ?thesis by auto
    qed
  qed (use m1 b run in \<open>auto simp: bind_def\<close>)
qed

text \<open>The common case: the first part always awaits, or it does not matter whether it does.\<close>

abbreviation eats_to ::
  "(('g, 'c, 'z) env_scheme \<Rightarrow> bool) \<Rightarrow> (('g, 'c, 'z) env_scheme, 'a) prog \<Rightarrow> bool" where
  "eats_to B m \<equiv> pace_to B (\<lambda>_. True) m (\<lambda>_ _. False)"

abbreviation eats :: "(('g, 'c, 'z) env_scheme, 'a) prog \<Rightarrow> bool" where
  "eats \<equiv> eats_to (\<lambda>_. False)"

lemma pace_eats: "eats_to B m \<Longrightarrow> pace_to B P m V"
  unfolding pace_to_def by blast

lemma paced_bind [pace_rules]: "paced_to B m \<Longrightarrow> (\<And>a. paced_to B (k a)) \<Longrightarrow> paced_to B (bind m k)"
  by (rule pace_bind) auto

lemma eats_bind: "eats_to B m \<Longrightarrow> (\<And>a. paced_to B (k a)) \<Longrightarrow> pace_to B P (bind m k) V"
  by (rule pace_bind [where R = "\<lambda>_ _. False"]) (auto simp: pace_to_def)

lemma bind_eats: "paced_to B m \<Longrightarrow> (\<And>a. eats_to B (k a)) \<Longrightarrow> pace_to B P (bind m k) V"
  by (rule pace_eats, rule pace_bind [where R = "\<lambda>_ _. True"]) (auto simp: pace_to_def)

lemma paced_ret [pace_rules]: "paced_to B (ret a)"
  by (rule pace_ret)

lemma paced_assign [pace_rules]: "(\<And>s. script (f s) = script s) \<Longrightarrow> paced_to B (assign f)"
  by (rule pace_assign)

lemma paced_look [pace_rules]: "(\<And>x. paced_to B (k x)) \<Longrightarrow> paced_to B (look f k)"
  by (rule pace_look, rule pace_weaken) auto

lemma paced_if [pace_rules]: "(c \<Longrightarrow> paced_to B m) \<Longrightarrow> (\<not> c \<Longrightarrow> paced_to B n) \<Longrightarrow> paced_to B (if c then m else n)"
  by simp

lemma paced_only_if [pace_rules]: "(c \<Longrightarrow> paced_to B m) \<Longrightarrow> paced_to B (only_if c m)"
  by (simp add: only_if_def paced_ret)

lemma paced_steps: "(\<And>m. m \<in> set ms \<Longrightarrow> paced_to B m) \<Longrightarrow> paced_to B n \<Longrightarrow> paced_to B (steps ms n)"
  by (induction ms) (auto intro: paced_bind)

text \<open>One step that always awaits is enough.\<close>

lemma steps_eats:
  assumes "m \<in> set ms" "eats_to B m" "\<And>k. k \<in> set ms \<Longrightarrow> paced_to B k" "paced_to B n"
  shows "pace_to B P (steps ms n) V"
proof -
  from \<open>m \<in> set ms\<close> obtain xs ys where ms: "ms = xs @ m # ys" by (meson split_list)
  have ys: "paced_to B (steps ys n)" using assms(3,4) ms by (intro paced_steps) auto
  have "eats_to B (steps (xs @ m # ys) n)" using assms(3) unfolding ms
    by (induction xs) (auto intro!: bind_eats eats_bind [OF assms(2)] ys)
  then show ?thesis unfolding ms by (rule pace_eats)
qed

lemma paced_each [pace_rules]: "(\<And>x. paced_to B (f x)) \<Longrightarrow> paced_to B (each f xs)"
  by (induction xs) (auto intro: pace_rules)

lemma paced_case_option [pace_rules]:
  "paced_to B m \<Longrightarrow> (\<And>y. paced_to B (f y)) \<Longrightarrow> paced_to B (case x of None \<Rightarrow> m | Some y \<Rightarrow> f y)"
  by (cases x) auto

lemma paced_case_sum [pace_rules]:
  "(\<And>a. paced_to B (f a)) \<Longrightarrow> (\<And>b. paced_to B (g b)) \<Longrightarrow> paced_to B (case x of Inl a \<Rightarrow> f a | Inr b \<Rightarrow> g b)"
  by (cases x) auto

lemma paced_case_prod [pace_rules]:
  "(\<And>a b. paced_to B (f a b)) \<Longrightarrow> paced_to B (case x of (a, b) \<Rightarrow> f a b)"
  by (cases x) auto

lemma paced_let [pace_rules]: "paced_to B (f x) \<Longrightarrow> paced_to B (let y = x in f y)"
  by simp

lemma paced_try [pace_rules]:
  assumes "paced_to B m" "\<And>e. paced_to B (k e)" shows "paced_to B (try_except m k)"
proof (rule paceI)
  fix s r s' assume run: "try_except m k s = (r, s')"
  obtain r1 s1 where b: "m s = (r1, s1)" by force
  note m1 = paceD [OF assms(1) TrueI b]
  show "(r = Spinning \<longrightarrow> B s') \<and> turns s' \<le> turns s \<and> (\<forall>a. r = Value a \<longrightarrow> turns s' < turns s \<or> True)"
  proof (cases r1)
    case (Raised e)
    then have "k e s1 = (r, s')" using b run by (simp add: try_except_def)
    from paceD [OF assms(2) TrueI this] m1 show ?thesis by auto
  qed (use m1 b run in \<open>auto simp: try_except_def\<close>)
qed

lemma paced_finally [pace_rules]:
  assumes "paced_to B m" "paced_to B k" shows "paced_to B (try_finally m k)"
proof (rule paceI)
  fix s r s' assume run: "try_finally m k s = (r, s')"
  obtain r1 s1 where b: "m s = (r1, s1)" by force
  note m1 = paceD [OF assms(1) TrueI b]
  have after: "paced_to B (seq k n)" if "paced_to B n" for n :: "(('a, 'b, 'c) env_scheme, 'd) prog"
    using assms(2) that by (rule paced_bind)
  show "(r = Spinning \<longrightarrow> B s') \<and> turns s' \<le> turns s \<and> (\<forall>a. r = Value a \<longrightarrow> turns s' < turns s \<or> True)"
  proof (cases r1)
    case (Value a)
    then have "seq k (ret a) s1 = (r, s')" using b run by (simp add: try_finally_def)
    from paceD [OF after [OF paced_ret] TrueI this] m1 show ?thesis by auto
  next
    case (Raised e)
    then have "seq k (throw e) s1 = (r, s')" using b run by (simp add: try_finally_def)
    from paceD [OF after [OF pace_throw] TrueI this] m1 show ?thesis by auto
  qed (use m1 b run in \<open>auto simp: try_finally_def\<close>)
qed

section \<open>Loops\<close>

text \<open>
  A loop does not spin when its body, started in a state that satisfies \<open>R\<close>, uses up a turn before it
  goes round, and satisfies \<open>R\<close> again.
\<close>

lemma pace_repeat_inv:
  fixes body :: "'x \<Rightarrow> (('g, 'c, 'z) env_scheme, 'x + 'a) prog"
  assumes pace: "\<And>x. pace_to B (R x) (body x) (\<lambda>r s. case r of Inl _ \<Rightarrow> B s | Inr a \<Rightarrow> V a s)"
    and again: "\<And>x s y s'. R x s \<Longrightarrow> body x s = (Value (Inl y), s') \<Longrightarrow> R y s'"
  shows "pace_to B (R x) (repeat body x) V"
proof (rule paceI)
  fix s r s' assume "R x s" "repeat body x s = (r, s')"
  then show "(r = Spinning \<longrightarrow> B s') \<and> turns s' \<le> turns s \<and> (\<forall>a. r = Value a \<longrightarrow> turns s' < turns s \<or> V a s')"
  proof (induction "turns s" arbitrary: x s rule: less_induct)
    case less
    obtain r1 s1 where b: "body x s = (r1, s1)" by force
    note b1 = paceD [OF pace less.prems(1) b]
    show ?case
    proof (cases r1)
      case (Value y)
      show ?thesis
      proof (cases y)
        case (Inl z)
        then have again: "turns s1 < turns s \<or> B s1" "R z s1" using b1 again less.prems(1) b Value by auto
        show ?thesis
        proof (cases "turns s1 < turns s")
          case True
          then have "repeat body z s1 = (r, s')"
            using less.prems(2) b Value Inl by (simp add: repeat.simps [of body x s] turns_def)
          then show ?thesis using less.hyps [of s1 z] True again by auto
        next
          case False
          then have "(r, s') = (Spinning, s1)"
            using less.prems(2) b Value Inl by (simp add: repeat.simps [of body x s] turns_def)
          then show ?thesis using again False b1 by auto
        qed
      next
        case (Inr a)
        then have "(r, s') = (Value a, s1)"
          using less.prems(2) b Value by (simp add: repeat.simps [of body x s])
        then show ?thesis using b1 Value Inr by simp
      qed
    qed (use less.prems b b1 in \<open>auto simp: repeat.simps [of body x s]\<close>)
  qed
qed

lemma pace_repeat:
  assumes "\<And>x. pace_to B (\<lambda>_. True) (body x) (\<lambda>r s. case r of Inl _ \<Rightarrow> B s | Inr a \<Rightarrow> V a s)"
  shows "pace_to B P (repeat body x) V"
  by (rule pace_weaken [OF pace_repeat_inv [where R = "\<lambda>_ _. True" and V = V]]) (use assms in auto)

text \<open>What a loop may return without using up a turn, its first round returns.\<close>

lemma pace_repeat_first:
  fixes body :: "'x \<Rightarrow> (('g, 'c, 'z) env_scheme, 'x + 'a) prog"
  assumes first: "pace_to B P (body x) (\<lambda>r s. case r of Inl _ \<Rightarrow> B s | Inr a \<Rightarrow> V a s)"
    and rounds: "\<And>y. pace_to B (\<lambda>_. True) (body y) (\<lambda>r s. case r of Inl _ \<Rightarrow> B s | Inr a \<Rightarrow> True)"
  shows "pace_to B P (repeat body x) V"
proof (rule paceI)
  fix s r s' assume "P s" and run: "repeat body x s = (r, s')"
  obtain r1 s1 where b: "body x s = (r1, s1)" by force
  note b1 = paceD [OF first \<open>P s\<close> b]
  show "(r = Spinning \<longrightarrow> B s') \<and> turns s' \<le> turns s \<and> (\<forall>a. r = Value a \<longrightarrow> turns s' < turns s \<or> V a s')"
  proof (cases r1)
    case (Value y)
    show ?thesis
    proof (cases y)
      case (Inl z)
      then have again: "turns s1 < turns s \<or> B s1" using b1 Value by auto
      show ?thesis
      proof (cases "turns s1 < turns s")
        case True
        then have "repeat body z s1 = (r, s')"
          using run b Value Inl by (simp add: repeat.simps [of body x s] turns_def)
        from paceD [OF pace_repeat [where P = "\<lambda>_. True" and V = "\<lambda>_ _. True", OF rounds] TrueI this] True
        show ?thesis by auto
      next
        case False
        then have "(r, s') = (Spinning, s1)"
          using run b Value Inl by (simp add: repeat.simps [of body x s] turns_def)
        then show ?thesis using again False b1 by auto
      qed
    next
      case (Inr a)
      then have "(r, s') = (Value a, s1)" using run b Value by (simp add: repeat.simps [of body x s])
      then show ?thesis using b1 Value Inr by simp
    qed
  qed (use run b b1 in \<open>auto simp: repeat.simps [of body x s]\<close>)
qed

section \<open>Awaiting\<close>

text \<open>Handlers that leave the script alone.\<close>

definition script_keeping ::
  "('g \<Rightarrow> ('g, 'c, 'z) env_scheme \<Rightarrow> ('g, 'c, 'z) env_scheme) \<Rightarrow> bool" where
  "script_keeping h \<longleftrightarrow> (\<forall>g s. script (h g s) = script s)"

lemma script_logged [simp]: "script (logged e s) = script s"
  by (simp add: logged_def)

lemma script_take_turn [simp]: "script (take_turn t ts s) = ts"
  by (simp add: take_turn_def)

lemma script_deliver: "script_keeping h \<Longrightarrow> script (deliver h gs s) = script s"
  by (induction gs arbitrary: s) (auto simp: deliver_def script_keeping_def)

text \<open>A program that uses up a turn however it ends, so that an \<open>except\<close> around it does too.\<close>

definition hungry :: "(('g, 'c, 'z) env_scheme, 'a) prog \<Rightarrow> bool" where
  "hungry m \<longleftrightarrow>
     (\<forall>s r s'. m s = (r, s') \<longrightarrow>
        r \<noteq> Spinning \<and> turns s' \<le> turns s \<and> (r \<noteq> Waiting \<longrightarrow> turns s' < turns s))"

lemma hungry_eats: "hungry m \<Longrightarrow> eats_to B m"
  unfolding hungry_def pace_to_def by blast

lemma await_hungry: "script_keeping h \<Longrightarrow> hungry (await h c)"
  by (auto simp: hungry_def await_def turns_def Let_def script_deliver split: list.splits reply.splits)

lemma hungry_bind: "hungry m \<Longrightarrow> (\<And>a. paced (k a)) \<Longrightarrow> hungry (bind m k)"
proof (unfold hungry_def, intro allI impI)
  fix s r s' assume m: "\<forall>s r s'. m s = (r, s') \<longrightarrow>
      r \<noteq> Spinning \<and> turns s' \<le> turns s \<and> (r \<noteq> Waiting \<longrightarrow> turns s' < turns s)"
    and k: "\<And>a. paced (k a)" and run: "bind m k s = (r, s')"
  obtain r1 s1 where b: "m s = (r1, s1)" by force
  note m1 = m [rule_format, OF b]
  show "r \<noteq> Spinning \<and> turns s' \<le> turns s \<and> (r \<noteq> Waiting \<longrightarrow> turns s' < turns s)"
  proof (cases r1)
    case (Value a)
    then have "k a s1 = (r, s')" using b run by (simp add: bind_def)
    from paceD [OF k TrueI this] m1 Value show ?thesis by auto
  qed (use m1 b run in \<open>auto simp: bind_def\<close>)
qed

lemma try_eats:
  assumes m: "hungry m" and k: "\<And>e. paced_to B (k e)"
  shows "eats_to B (try_except m k)"
proof (rule paceI)
  fix s r s' assume run: "try_except m k s = (r, s')"
  obtain r1 s1 where b: "m s = (r1, s1)" by force
  have m1: "r1 \<noteq> Spinning \<and> turns s1 \<le> turns s \<and> (r1 \<noteq> Waiting \<longrightarrow> turns s1 < turns s)"
    using m b unfolding hungry_def by blast
  show "(r = Spinning \<longrightarrow> B s') \<and> turns s' \<le> turns s \<and> (\<forall>a. r = Value a \<longrightarrow> turns s' < turns s \<or> False)"
  proof (cases r1)
    case (Raised e)
    then have "k e s1 = (r, s')" using b run by (simp add: try_except_def)
    from paceD [OF k TrueI this] m1 Raised show ?thesis by auto
  qed (use m1 b run in \<open>auto simp: try_except_def\<close>)
qed

text \<open>A wait uses up no turn only when its condition holds already; then it changes nothing.\<close>

lemma wait_turns_script:
  "script_keeping h \<Longrightarrow> wait_turns h cond ts s = (r, s') \<Longrightarrow>
    (if ts = [] then r = Waiting \<and> s' = s else r \<noteq> Spinning \<and> length (script s') < length ts)"
proof (induction ts arbitrary: s)
  case (Cons t ts)
  let ?s = "deliver h (arrived t) (take_turn t ts s)"
  have "script ?s = ts" using Cons.prems(1) by (simp add: script_deliver)
  then show ?case using Cons.IH [of ?s] Cons.prems by (auto simp: Let_def split: if_splits)
qed simp

lemma wait_pace:
  assumes "script_keeping h"
  shows "pace_to B P (wait_for h cond) (\<lambda>b s. b \<and> cond s \<and> P s)"
proof (rule paceI)
  fix s r s' assume "P s" and run: "wait_for h cond s = (r, s')"
  show "(r = Spinning \<longrightarrow> B s') \<and> turns s' \<le> turns s \<and>
    (\<forall>a. r = Value a \<longrightarrow> turns s' < turns s \<or> a \<and> cond s' \<and> P s')"
  proof (cases "cond s")
    case True
    then show ?thesis using run \<open>P s\<close> by (auto simp: wait_for_def)
  next
    case False
    then have "wait_turns h cond (script s) s = (r, s')" using run by (simp add: wait_for_def)
    from wait_turns_script [OF assms this] show ?thesis by (auto simp: turns_def split: if_splits)
  qed
qed

end
