(* ===== verification/LockWait.thy ===== *)
theory LockWait
  imports WorkflowLogic WorkflowProgress
begin

text \<open>
  The wait for locks that every deploying workflow shares: legs of ten minutes up to a day, with a
  report about a dead holder after a leg.  It ends, it returns true only when what it waits for holds,
  and without an answer it returns false after 144 expired timers of its own.
\<close>

definition lock_wait_timeout :: nat where "lock_wait_timeout = 24 * 3600"
definition queue_check_interval :: nat where "queue_check_interval = 600"
definition stale_realert_interval :: nat where "stale_realert_interval = 3600"

text \<open>
  One leg of the wait, with the time waited and the time of the last alert.  The timer is the check
  interval on every leg, since the timeout is a multiple of it.  With \<open>skip\<close> nothing is reported.
\<close>

definition lock_leg ::
  "('g \<Rightarrow> ('g, 'c, 'z) env_scheme \<Rightarrow> ('g, 'c, 'z) env_scheme) \<Rightarrow> (('g, 'c, 'z) env_scheme \<Rightarrow> bool) \<Rightarrow>
    bool \<Rightarrow> (nat \<Rightarrow> bool \<Rightarrow> 'c) \<Rightarrow> nat \<times> nat option \<Rightarrow>
    (('g, 'c, 'z) env_scheme, nat \<times> nat option + bool) prog" where
  "lock_leg h over skip report = (\<lambda>(waited, last_alert).
     bind (wait_for h over) (\<lambda>ok.
       if ok then ret (Inr True)
       else
         let waited = waited + queue_check_interval in
         if lock_wait_timeout \<le> waited then ret (Inr False)
         else if (case last_alert of None \<Rightarrow> False | Some l \<Rightarrow> waited - l < stale_realert_interval) \<or> skip
         then ret (Inl (waited, last_alert))
         else
           bind (try_except (await h (report (waited div 60) (last_alert \<noteq> None))) (\<lambda>_. ret (VBool False)))
             (\<lambda>sent. ret (Inl (waited, if truthy sent then Some waited else last_alert)))))"

definition lock_wait ::
  "('g \<Rightarrow> ('g, 'c, 'z) env_scheme \<Rightarrow> ('g, 'c, 'z) env_scheme) \<Rightarrow> (('g, 'c, 'z) env_scheme \<Rightarrow> bool) \<Rightarrow>
    bool \<Rightarrow> (nat \<Rightarrow> bool \<Rightarrow> 'c) \<Rightarrow> (('g, 'c, 'z) env_scheme, bool) prog" where
  "lock_wait h over skip report = repeat (lock_leg h over skip report) (0, None)"

lemma lock_leg_eats:
  assumes keeps: "script_keeping h"
  shows "pace (\<lambda>_. True) (lock_leg h over skip report v) (\<lambda>r s. case r of Inl _ \<Rightarrow> False | Inr a \<Rightarrow> True)"
proof -
  have await: "paced (await h c)" for c by (rule pace_eats [OF hungry_eats [OF await_hungry [OF keeps]]])
  show ?thesis unfolding lock_leg_def split_beta Let_def
  proof (rule pace_bind [OF wait_pace [OF keeps, where P = "\<lambda>_. True"]])
    fix ok
    let ?k = "if ok then ret (Inr True)
      else if lock_wait_timeout \<le> fst v + queue_check_interval then ret (Inr False)
      else if (case snd v of None \<Rightarrow> False | Some l \<Rightarrow> fst v + queue_check_interval - l < stale_realert_interval) \<or> skip
      then ret (Inl (fst v + queue_check_interval, snd v))
      else bind (try_except (await h (report ((fst v + queue_check_interval) div 60) (snd v \<noteq> None)))
             (\<lambda>_. ret (VBool False)))
        (\<lambda>sent. ret (Inl (fst v + queue_check_interval,
           if truthy sent then Some (fst v + queue_check_interval) else snd v)))"
    show "paced ?k" by (intro pace_rules await)
    show "pace (\<lambda>s. ok \<and> over s \<and> True) ?k (\<lambda>r s. case r of Inl _ \<Rightarrow> False | Inr a \<Rightarrow> True)"
      by (cases ok) (auto intro: pace_ret pace_weaken [OF pace_False])
  qed
qed

lemma paced_lock_wait: "script_keeping h \<Longrightarrow> paced_to B (lock_wait h over skip report)"
  unfolding lock_wait_def
  by (rule pace_any [OF pace_repeat [where V = "\<lambda>_ _. True"]]) (auto intro: lock_leg_eats)

text \<open>An answer in the first leg.\<close>

lemma lock_wait_first:
  assumes "wait_for h over s = (Value True, s')"
  shows "lock_wait h over skip report s = (Value True, s')"
proof -
  have "lock_leg h over skip report (0, None) s = (Value (Inr True), s')"
    by (simp add: lock_leg_def bind_def ret_def assms)
  then show ?thesis
    by (simp add: lock_wait_def repeat.simps [of "lock_leg h over skip report" "(0, None)" s])
qed

lemma lock_wait_answered:
  "lock_wait h over skip report s =
     (case wait_for h over s of (Value True, s') \<Rightarrow> (Value True, s') | _ \<Rightarrow> lock_wait h over skip report s)"
  by (auto split: prod.split outcome.split bool.split intro: lock_wait_first)

context workflow_rules
begin

lemma lock_wait_rising:
  assumes P: "rising h routine P" and report: "\<And>m b. routine (report m b)"
  shows "triple J E P (lock_wait h over skip report) (\<lambda>ok s. P s \<and> (ok \<longrightarrow> over s))"
  unfolding lock_wait_def
proof (rule triple_repeat [where R = "\<lambda>_. P"])
  fix v :: "nat \<times> nat option"
  have tried: "triple J E P (try_except (await h (report m b)) (\<lambda>_. ret (VBool False))) (\<lambda>_. P)" for m b
    by (rule triple_try [OF await_rising [OF P report, where E = "\<lambda>_. P"]]) (auto intro: triple_ret)
  have alert: "triple J E P'
    (bind (try_except (await h (report m b)) (\<lambda>_. ret (VBool False))) (\<lambda>x. ret (Inl (f x))))
    (\<lambda>r s. case r of Inl _ \<Rightarrow> P s | Inr ok \<Rightarrow> P s \<and> (ok \<longrightarrow> over s))"
    if "\<And>s. P' s \<Longrightarrow> P s" for P' m b and f :: "pyval \<Rightarrow> nat \<times> nat option"
    by (rule triple_bind [OF triple_weaken [OF tried, where Q' = "\<lambda>_. P"]]) (use that in \<open>auto intro: triple_ret\<close>)
  show "triple J E P (lock_leg h over skip report v)
    (\<lambda>r s. case r of Inl _ \<Rightarrow> P s | Inr ok \<Rightarrow> P s \<and> (ok \<longrightarrow> over s))"
    unfolding lock_leg_def split_beta Let_def
    by (rule triple_bind [OF wait_rising [OF P]], intro triple_if triple_ret alert) auto
qed

lemma lock_wait_keeps:
  "calm routine T \<Longrightarrow> (\<And>m b. routine (report m b)) \<Longrightarrow>
    triple J E (\<lambda>s. T (trace s)) (lock_wait h over skip report) (\<lambda>ok s. T (trace s) \<and> (ok \<longrightarrow> over s))"
  by (intro lock_wait_rising calm_rising)

end

section \<open>A wait that nobody answers\<close>

text \<open>\<open>answers\<close> are the signals that may end the wait.\<close>

definition unanswered :: "('g \<Rightarrow> bool) \<Rightarrow> 'g turn list \<Rightarrow> bool" where
  "unanswered answers ts \<longleftrightarrow> list_all (\<lambda>t. list_all (\<lambda>g. \<not> answers g) (arrived t)) ts"

definition timeouts :: "'g turn list \<Rightarrow> nat" where
  "timeouts ts = length (filter (\<lambda>t. reply_of t = TimedOut) ts)"

definition idle ::
  "(('g, 'c, 'z) env_scheme \<Rightarrow> bool) \<Rightarrow> ('g \<Rightarrow> bool) \<Rightarrow> nat \<Rightarrow> ('g, 'c, 'z) env_scheme \<Rightarrow> bool" where
  "idle over answers n s \<longleftrightarrow> \<not> over s \<and> unanswered answers (script s) \<and> n \<le> timeouts (script s)"

lemma unanswered_simps [simp]:
  "unanswered answers []"
  "unanswered answers (t # ts) \<longleftrightarrow> list_all (\<lambda>g. \<not> answers g) (arrived t) \<and> unanswered answers ts"
  by (simp_all add: unanswered_def)

lemma timeouts_simps [simp]:
  "timeouts [] = 0" "timeouts (t # ts) = (if reply_of t = TimedOut then 1 else 0) + timeouts ts"
  by (simp_all add: timeouts_def)

lemma idle_weaken: "idle over answers n s \<Longrightarrow> m \<le> n \<Longrightarrow> idle over answers m s"
  by (simp add: idle_def)

locale lock_waiter =
  fixes h :: "'g \<Rightarrow> ('g, 'c, 'z) env_scheme \<Rightarrow> ('g, 'c, 'z) env_scheme"
    and over :: "('g, 'c, 'z) env_scheme \<Rightarrow> bool"
    and answers :: "'g \<Rightarrow> bool"
  assumes keeps: "script_keeping h"
    and over_turn: "over (take_turn t ts s) \<longleftrightarrow> over s"
    and over_logged: "over (logged e s) \<longleftrightarrow> over s"
    and over_signal: "\<not> answers g \<Longrightarrow> over (h g s) \<Longrightarrow> over s"
begin

lemma idle_logged: "idle over answers n (logged e s) \<longleftrightarrow> idle over answers n s"
  by (simp add: idle_def over_logged)

lemma idle_deliver:
  "list_all (\<lambda>g. \<not> answers g) gs \<Longrightarrow> idle over answers n s \<Longrightarrow> idle over answers n (deliver h gs s)"
proof (induction gs arbitrary: s)
  case (Cons g gs)
  have "idle over answers n (h g (logged (Heard g) s))"
    using Cons.prems over_signal [of g "logged (Heard g) s"] keeps
    by (auto simp: idle_def over_logged script_keeping_def)
  then show ?case using Cons by simp
qed simp

lemma idle_turn:
  "idle over answers n s \<Longrightarrow> script s = t # ts \<Longrightarrow>
    idle over answers (if reply_of t = TimedOut then n - 1 else n) (deliver h (arrived t) (take_turn t ts s))"
  by (rule idle_deliver) (auto simp: idle_def over_turn)

lemma idle_wait_turns:
  "idle over answers (Suc n) (take_turn t0 ts s) \<Longrightarrow>
    \<exists>s'. wait_turns h over ts s = (Value False, s') \<and> idle over answers n s'"
proof (induction ts arbitrary: s t0)
  case (Cons t ts)
  let ?s = "deliver h (arrived t) (take_turn t ts s)"
  have "take_turn t ts (take_turn t0 (t # ts) s) = take_turn t ts s" by (simp add: take_turn_def)
  then have turn: "idle over answers (if reply_of t = TimedOut then n else Suc n) ?s"
    using idle_turn [OF Cons.prems, of t ts] by (auto split: if_splits)
  then have flags: "\<not> over ?s" by (simp add: idle_def)
  have "script ?s = ts" by (simp add: script_deliver [OF keeps])
  then have "idle over answers (Suc n) (take_turn t ts ?s) \<longleftrightarrow> idle over answers (Suc n) ?s"
    by (simp add: idle_def over_turn)
  then show ?case using Cons.IH [of t ?s] turn flags by (simp add: Let_def split: if_splits)
qed (simp add: idle_def)

lemma idle_wait:
  "idle over answers (Suc n) s \<Longrightarrow> \<exists>s'. wait_for h over s = (Value False, s') \<and> idle over answers n s'"
  using idle_wait_turns [of n undefined "script s" s] by (auto simp: wait_for_def idle_def over_turn)

lemma idle_await:
  assumes "idle over answers (Suc n) s"
  shows "\<exists>r s'. await h c s = (r, s') \<and> idle over answers n s' \<and>
    ((\<exists>v. r = Value v) \<or> (\<exists>m. r = Raised (ActivityFailed m)))"
proof (cases "script s")
  case (Cons t ts)
  have "script (logged (Issued c) s) = t # ts" using Cons by simp
  then have turn: "idle over answers n (deliver h (arrived t) (take_turn t ts (logged (Issued c) s)))"
    using idle_turn [of "Suc n" "logged (Issued c) s" t ts] assms
    by (auto simp: idle_logged intro: idle_weaken split: if_splits)
  then show ?thesis using Cons by (cases "reply_of t") (simp_all add: await_def Let_def idle_logged)
qed (use assms in \<open>simp add: idle_def\<close>)

lemma idle_leg:
  assumes "idle over answers (n + 2) s"
  shows "\<exists>v s'. lock_leg h over skip report (w, l) s = (Value v, s') \<and> idle over answers n s' \<and>
    (if lock_wait_timeout \<le> w + queue_check_interval then v = Inr False
     else \<exists>l'. v = Inl (w + queue_check_interval, l'))"
proof -
  obtain s1 where s1: "wait_for h over s = (Value False, s1)" "idle over answers (Suc n) s1"
    using idle_wait [of "Suc n" s] assms by auto
  obtain r s2 where s2: "await h (report ((w + queue_check_interval) div 60) (l \<noteq> None)) s1 = (r, s2)"
    "idle over answers n s2" "(\<exists>v. r = Value v) \<or> (\<exists>m. r = Raised (ActivityFailed m))"
    using idle_await [OF s1(2)] by blast
  have "idle over answers n s1" using s1(2) by (rule idle_weaken) simp
  with s1(1) s2 show ?thesis
    by (auto simp: lock_leg_def bind_def ret_def try_except_def Let_def)
qed

lemma idle_legs:
  "w + (k + 1) * queue_check_interval = lock_wait_timeout \<Longrightarrow> idle over answers (2 * k + 2 + n) s \<Longrightarrow>
    \<exists>s'. repeat (lock_leg h over skip report) (w, l) s = (Value False, s') \<and> idle over answers n s'"
proof (induction k arbitrary: w l s)
  case 0
  then show ?case using idle_leg [of n s skip report w l]
    by (auto simp: repeat.simps [of "lock_leg h over skip report"])
next
  case (Suc k)
  let ?leg = "lock_leg h over skip report"
  have "w + queue_check_interval < lock_wait_timeout" using Suc.prems(1) by (simp add: queue_check_interval_def)
  then obtain l' s' where leg: "?leg (w, l) s = (Value (Inl (w + queue_check_interval, l')), s')"
    "idle over answers (2 * k + 2 + n) s'"
    using idle_leg [of "2 * k + 2 + n" s skip report w l] Suc.prems(2) by auto
  have "turns s' < turns s" using paceD [OF lock_leg_eats [OF keeps] TrueI leg(1)] by simp
  moreover have "\<exists>s''. repeat ?leg (w + queue_check_interval, l') s' = (Value False, s'') \<and> idle over answers n s''"
    using Suc.prems(1) leg(2) by (intro Suc.IH) simp_all
  ultimately show ?case using leg(1) by (auto simp: repeat.simps [of ?leg "(w, l)"] turns_def)
qed

text \<open>A day of legs: 144 timers of the wait and at most as many for the reports.\<close>

lemma idle_lock_wait:
  "idle over answers (288 + n) s \<Longrightarrow>
    \<exists>s'. lock_wait h over skip report s = (Value False, s') \<and> idle over answers n s'"
  unfolding lock_wait_def
  by (rule idle_legs [of 0 143 n s skip report None])
     (simp_all add: queue_check_interval_def lock_wait_timeout_def)

end

end
