(* ===== verification/LockService.thy ===== *)
theory LockService
  imports Prelude
begin

text \<open>
  The contract of a lock manager, independent of how it stores its locks: what a holder may
  rely on while it does not give a lock back.  The tenant coordinator provides it twice, once
  for its signal handlers run to completion and once for their interleaved execution.
\<close>

text \<open>\<open>P\<close> fails at every step of the run of \<open>es\<close> from \<open>s\<close>.\<close>

fun never :: "('e \<Rightarrow> 's \<Rightarrow> 's) \<Rightarrow> ('e \<Rightarrow> 's \<Rightarrow> bool) \<Rightarrow> 'e list \<Rightarrow> 's \<Rightarrow> bool" where
  "never step P [] s = True"
| "never step P (e # es) s = (\<not> P e s \<and> never step P es (step e s))"

lemma never_append [simp]:
  "never step P (xs @ ys) s \<longleftrightarrow> never step P xs s \<and> never step P ys (fold step xs s)"
  by (induction xs arbitrary: s) auto

lemma never_stateless: "never step (\<lambda>e s. P e) es s \<longleftrightarrow> (\<forall>e \<in> set es. \<not> P e)"
  by (induction es arbitrary: s) auto

locale lock_service =
  fixes holder :: "'s \<Rightarrow> 'd \<Rightarrow> 'w option"
    and step :: "'e \<Rightarrow> 's \<Rightarrow> 's"
    and relinquishes :: "'w \<Rightarrow> 'd \<Rightarrow> 'e \<Rightarrow> 's \<Rightarrow> bool"
    and grants :: "'e \<Rightarrow> 's \<Rightarrow> ('w \<times> 'd list \<times> 'w option) list"
  assumes keep: "holder s d = Some w \<Longrightarrow> \<not> relinquishes w d e s \<Longrightarrow> holder (step e s) d = Some w"
    and grant_sound: "(w, ds, p) \<in> set (grants e s) \<Longrightarrow> d \<in> set ds \<Longrightarrow>
      \<exists>v. holder (step e s) d = Some v \<and> (v = w \<or> p = Some v)"
begin

lemma held_through:
  "holder s d = Some w \<Longrightarrow> never step (relinquishes w d) es s \<Longrightarrow> holder (fold step es s) d = Some w"
  by (induction es arbitrary: s) (auto dest: keep)

text \<open>
  While \<open>w\<close> keeps \<open>d\<close>, a request that names \<open>d\<close> is granted to \<open>w\<close> itself or to a workflow
  that declared \<open>w\<close> as its parent, never to an unrelated one.
\<close>

lemma exclusive:
  assumes "holder s d = Some w" and "never step (relinquishes w d) (es @ [e']) s"
    and "(w', ds, p) \<in> set (grants e' (fold step es s))" and "d \<in> set ds"
  shows "w' = w \<or> p = Some w"
proof -
  have "holder (fold step es s) d = Some w"
    by (rule held_through) (use assms in auto)
  then have "holder (step e' (fold step es s)) d = Some w"
    by (rule keep) (use assms in auto)
  with grant_sound [OF assms(3,4)] show ?thesis by auto
qed

end

end
