(* ===== verification/Coordinator.thy ===== *)
theory Coordinator
  imports LockService
begin

text \<open>
  The tenant coordinator (\<open>app/temporal/workflows/coordinator_workflow.py\<close>): the lock manager
  every deployment workflow of a tenant signals.  \<open>locks\<close> maps a project directory to the
  workflow that holds it, \<open>hold_queue\<close> lists the requests that wait, \<open>merge_queue\<close> the pull
  requests that wait for conflict resolution.  Each signal handler is one function on the
  state that also returns the signals it sends to other workflows, in order.
\<close>

type_synonym dir = string
type_synonym wfid = string
type_synonym lock_table = "(dir, wfid) dict"

record hold =
  workflow_id :: wfid
  required_dirs :: "dir list"
  user_code :: string
  parent_holder_id :: "wfid option"

text \<open>\<open>mi_released\<close> is the key \<open>_released\<close>, absent until the merge loop or a signal sets it.\<close>

record merge_item =
  pr_number :: int
  git_repository :: string
  mi_tenant_code :: string
  mi_user_code :: string
  mi_released :: "bool option"

record coordinator =
  locks :: lock_table
  hold_queue :: "hold list"
  merge_queue :: "merge_item list"

datatype out_signal = LocksGranted wfid | AtlasLockAbort wfid string

definition init_coordinator :: coordinator where
  "init_coordinator = \<lparr>locks = [], hold_queue = [], merge_queue = []\<rparr>"

section \<open>Lock table operations\<close>

definition holder_of :: "lock_table \<Rightarrow> dir \<Rightarrow> wfid option" where
  "holder_of L d = map_of L d"

definition blocked_dirs :: "lock_table \<Rightarrow> dir list \<Rightarrow> wfid option \<Rightarrow> dir list" where
  "blocked_dirs L dirs parent =
     filter (\<lambda>d. case map_of L d of None \<Rightarrow> False | Some w \<Rightarrow> Some w \<noteq> parent) dirs"

text \<open>\<open>for d in required_dirs: if d not in self._locks: self._locks[d] = requester_id\<close>\<close>

fun claim_free :: "wfid \<Rightarrow> dir list \<Rightarrow> lock_table \<Rightarrow> lock_table" where
  "claim_free w [] L = L"
| "claim_free w (d # ds) L =
     claim_free w ds (if map_of L d = None then AList.update d w L else L)"

text \<open>\<open>for d in hold["required_dirs"]: self._locks[d] = hold["workflow_id"]\<close>\<close>

fun assign_all :: "wfid \<Rightarrow> dir list \<Rightarrow> lock_table \<Rightarrow> lock_table" where
  "assign_all w [] L = L"
| "assign_all w (d # ds) L = assign_all w ds (AList.update d w L)"

text \<open>\<open>for d in dirs: if self._locks.get(d) == owner: del self._locks[d]\<close>\<close>

fun drop_owned :: "wfid \<Rightarrow> dir list \<Rightarrow> lock_table \<Rightarrow> lock_table" where
  "drop_owned w [] L = L"
| "drop_owned w (d # ds) L =
     drop_owned w ds (if map_of L d = Some w then AList.delete d L else L)"

definition all_free :: "lock_table \<Rightarrow> dir list \<Rightarrow> bool" where
  "all_free L dirs = list_all (\<lambda>d. map_of L d = None) dirs"

text \<open>
  The grant scan both \<open>release_locks\<close> and \<open>abort_queued_for_dirs\<close> end with: walk the queue
  in order, grant every waiter whose directories are all free at that moment.
\<close>

fun grant_scan :: "hold list \<Rightarrow> lock_table \<Rightarrow> lock_table \<times> hold list" where
  "grant_scan [] L = (L, [])"
| "grant_scan (h # hs) L =
     (if all_free L (required_dirs h)
      then (case grant_scan hs (assign_all (workflow_id h) (required_dirs h) L) of
              (L', triggered) \<Rightarrow> (L', h # triggered))
      else grant_scan hs L)"

text \<open>\<open>for t in triggered: self._hold_queue.remove(t)\<close>\<close>

fun remove_all :: "hold list \<Rightarrow> hold list \<Rightarrow> hold list" where
  "remove_all [] q = q"
| "remove_all (t # ts) q = remove_all ts (remove1 t q)"

definition scan_and_grant :: "coordinator \<Rightarrow> coordinator \<times> out_signal list" where
  "scan_and_grant s =
     (case grant_scan (hold_queue s) (locks s) of
        (L', triggered) \<Rightarrow>
          (s\<lparr>locks := L', hold_queue := remove_all triggered (hold_queue s)\<rparr>,
           map (\<lambda>h. LocksGranted (workflow_id h)) triggered))"

section \<open>Signal handlers\<close>

definition acquire_locks ::
  "wfid \<Rightarrow> dir list \<Rightarrow> string \<Rightarrow> wfid option \<Rightarrow> coordinator \<Rightarrow> coordinator \<times> out_signal list" where
  "acquire_locks requester dirs user parent s =
     (if blocked_dirs (locks s) dirs parent = []
      then (s\<lparr>locks := claim_free requester dirs (locks s)\<rparr>, [LocksGranted requester])
      else (s\<lparr>hold_queue := hold_queue s @
              [\<lparr>workflow_id = requester, required_dirs = dirs, user_code = user,
                parent_holder_id = parent\<rparr>]\<rparr>, []))"

definition release_hold :: "wfid \<Rightarrow> coordinator \<Rightarrow> coordinator \<times> out_signal list" where
  "release_hold requester s =
     (s\<lparr>hold_queue := filter (\<lambda>h. workflow_id h \<noteq> requester) (hold_queue s)\<rparr>, [])"

text \<open>\<open>released_dirs\<close> absent or empty means everything the releaser holds.\<close>

definition dirs_to_release :: "wfid \<Rightarrow> dir list option \<Rightarrow> lock_table \<Rightarrow> dir list" where
  "dirs_to_release releaser released L =
     (case released of
        None \<Rightarrow> map fst (filter (\<lambda>(d, wf). wf = releaser) L)
      | Some ds \<Rightarrow> if ds = [] then map fst (filter (\<lambda>(d, wf). wf = releaser) L) else ds)"

definition release_locks ::
  "wfid \<Rightarrow> dir list option \<Rightarrow> coordinator \<Rightarrow> coordinator \<times> out_signal list" where
  "release_locks releaser released s =
     scan_and_grant
       (s\<lparr>locks := drop_owned releaser (dirs_to_release releaser released (locks s)) (locks s)\<rparr>)"

definition pr_merge_completed :: "int \<Rightarrow> coordinator \<Rightarrow> coordinator \<times> out_signal list" where
  "pr_merge_completed pr s =
     (case merge_queue s of
        [] \<Rightarrow> (s, [])
      | m # ms \<Rightarrow>
          if pr_number m = pr then (s\<lparr>merge_queue := m\<lparr>mi_released := Some True\<rparr> # ms\<rparr>, [])
          else (s, []))"

definition enqueue_merge ::
  "int \<Rightarrow> string \<Rightarrow> string \<Rightarrow> string \<Rightarrow> coordinator \<Rightarrow> coordinator \<times> out_signal list" where
  "enqueue_merge pr repo tenant user s =
     (s\<lparr>merge_queue := merge_queue s @
        [\<lparr>pr_number = pr, git_repository = repo, mi_tenant_code = tenant, mi_user_code = user,
          mi_released = None\<rparr>]\<rparr>, [])"

definition overlaps :: "dir list \<Rightarrow> hold \<Rightarrow> bool" where
  "overlaps dirs h = list_ex (\<lambda>d. d \<in> set dirs) (required_dirs h)"

definition abort_queued_for_dirs ::
  "wfid \<Rightarrow> dir list \<Rightarrow> string \<Rightarrow> coordinator \<Rightarrow> coordinator \<times> out_signal list" where
  "abort_queued_for_dirs requester dirs reason s =
     (let aborted = filter (overlaps dirs) (hold_queue s);
          remaining = filter (\<lambda>h. \<not> overlaps dirs h) (hold_queue s);
          aborts = map (\<lambda>h. AtlasLockAbort (workflow_id h) reason) aborted
      in case scan_and_grant
           (s\<lparr>hold_queue := remaining, locks := drop_owned requester dirs (locks s)\<rparr>) of
           (s', outs) \<Rightarrow> (s', aborts @ outs))"

definition reset_state :: "coordinator \<Rightarrow> coordinator \<times> out_signal list" where
  "reset_state s = (s\<lparr>locks := [], hold_queue := [], merge_queue := []\<rparr>, [])"

datatype coord_signal =
    AcquireLocks wfid "dir list" string "wfid option"
  | ReleaseHold wfid
  | ReleaseLocks wfid "dir list option"
  | PrMergeCompleted int
  | EnqueueMerge int string string string
  | AbortQueuedForDirs wfid "dir list" string
  | ResetState

fun handle :: "coord_signal \<Rightarrow> coordinator \<Rightarrow> coordinator \<times> out_signal list" where
  "handle (AcquireLocks w dirs u p) s = acquire_locks w dirs u p s"
| "handle (ReleaseHold w) s = release_hold w s"
| "handle (ReleaseLocks w dirs) s = release_locks w dirs s"
| "handle (PrMergeCompleted n) s = pr_merge_completed n s"
| "handle (EnqueueMerge n r t u) s = enqueue_merge n r t u s"
| "handle (AbortQueuedForDirs w dirs why) s = abort_queued_for_dirs w dirs why s"
| "handle ResetState s = reset_state s"

section \<open>Queries\<close>

definition get_waiting_users_for_dirs :: "dir list \<Rightarrow> coordinator \<Rightarrow> string list" where
  "get_waiting_users_for_dirs dirs s =
     map user_code (filter (\<lambda>h. user_code h \<noteq> [] \<and> overlaps dirs h) (hold_queue s))"

definition get_state ::
  "coordinator \<Rightarrow> lock_table \<times> (wfid \<times> dir list) list \<times> (int \<times> string) list" where
  "get_state s =
     (locks s, map (\<lambda>h. (workflow_id h, required_dirs h)) (hold_queue s),
      map (\<lambda>m. (pr_number m, git_repository m)) (merge_queue s))"

section \<open>Lemmas on the lock table\<close>

named_theorems lock_table \<open>lookups after each operation on the lock table\<close>

lemma map_of_assign_all [lock_table]:
  "map_of (assign_all w ds L) d = (if d \<in> set ds then Some w else map_of L d)"
  by (induction ds arbitrary: L) (auto simp: update_conv')

lemma map_of_claim_free [lock_table]:
  "map_of (claim_free w ds L) d =
     (case map_of L d of None \<Rightarrow> if d \<in> set ds then Some w else None | Some v \<Rightarrow> Some v)"
  by (induction ds arbitrary: L) (auto simp: update_conv' split: option.splits)

lemma map_of_drop_owned [lock_table]:
  "map_of (drop_owned w ds L) d =
     (if d \<in> set ds \<and> map_of L d = Some w then None else map_of L d)"
  by (induction ds arbitrary: L) (auto simp: delete_conv')

lemma distinct_assign_all [intro]:
  "distinct (map fst L) \<Longrightarrow> distinct (map fst (assign_all w ds L))"
  by (induction ds arbitrary: L) (auto simp: distinct_update)

lemma distinct_claim_free [intro]:
  "distinct (map fst L) \<Longrightarrow> distinct (map fst (claim_free w ds L))"
  by (induction ds arbitrary: L) (auto simp: distinct_update)

lemma distinct_drop_owned [intro]:
  "distinct (map fst L) \<Longrightarrow> distinct (map fst (drop_owned w ds L))"
  by (induction ds arbitrary: L) (auto simp: distinct_delete)

lemma blocked_dirs_Nil_iff:
  "blocked_dirs L ds p = [] \<longleftrightarrow> (\<forall>d \<in> set ds. \<forall>w. map_of L d = Some w \<longrightarrow> p = Some w)"
  by (auto simp: blocked_dirs_def filter_empty_conv split: option.splits)

lemma all_free_iff: "all_free L ds \<longleftrightarrow> (\<forall>d \<in> set ds. map_of L d = None)"
  by (simp add: all_free_def list_all_iff)

lemma set_dirs_to_release:
  "distinct (map fst L) \<Longrightarrow>
   set (dirs_to_release w r L) =
     (case r of None \<Rightarrow> {d. map_of L d = Some w}
      | Some ds \<Rightarrow> if ds = [] then {d. map_of L d = Some w} else set ds)"
  by (force simp: dirs_to_release_def map_of_eq_Some_iff split: option.splits)

lemma dirs_to_release_superset:
  "map_of L d = Some w \<Longrightarrow> r = None \<or> r = Some [] \<Longrightarrow> d \<in> set (dirs_to_release w r L)"
  by (auto simp: dirs_to_release_def dest!: map_of_SomeD intro!: rev_image_eqI)

text \<open>The scan only ever writes free directories, and each grant it reports is total.\<close>

lemma grant_scan_mono:
  "grant_scan q L = (L', ts) \<Longrightarrow> map_of L d = Some w \<Longrightarrow> map_of L' d = Some w"
proof (induction q L arbitrary: L' ts rule: grant_scan.induct)
  case (2 h hs L)
  show ?case
  proof (cases "all_free L (required_dirs h)")
    case True
    let ?L = "assign_all (workflow_id h) (required_dirs h) L"
    obtain L1 t1 where g: "grant_scan hs ?L = (L1, t1)" by (cases "grant_scan hs ?L")
    have "map_of ?L d = Some w"
      using True "2.prems"(2) by (auto simp: lock_table all_free_iff)
    with g "2.IH"(1) [OF True g] "2.prems"(1) True show ?thesis by simp
  next
    case False
    with 2 show ?thesis by simp
  qed
qed simp

lemma grant_scan_grants:
  "grant_scan q L = (L', ts) \<Longrightarrow> h \<in> set ts \<Longrightarrow> d \<in> set (required_dirs h) \<Longrightarrow>
   map_of L' d = Some (workflow_id h) \<and> map_of L d = None"
proof (induction q L arbitrary: L' ts rule: grant_scan.induct)
  case (2 k hs L)
  show ?case
  proof (cases "all_free L (required_dirs k)")
    case True
    let ?L = "assign_all (workflow_id k) (required_dirs k) L"
    obtain L1 t1 where g: "grant_scan hs ?L = (L1, t1)" by (cases "grant_scan hs ?L")
    with True "2.prems" have L': "L' = L1" and ts: "ts = k # t1" by auto
    show ?thesis
    proof (cases "h = k")
      case h: True
      with "2.prems"(3) True have "map_of ?L d = Some (workflow_id h)" "map_of L d = None"
        by (auto simp: lock_table all_free_iff)
      with grant_scan_mono [OF g] L' show ?thesis by auto
    next
      case False
      with ts "2.prems" have "h \<in> set t1" by auto
      with "2.IH"(1) [OF True g] "2.prems"(3) L' show ?thesis
        by (auto simp: lock_table split: if_splits)
    qed
  next
    case False
    with 2 show ?thesis by simp
  qed
qed simp

lemma grant_scan_sub: "grant_scan q L = (L', ts) \<Longrightarrow> set ts \<subseteq> set q"
proof (induction q L arbitrary: L' ts rule: grant_scan.induct)
  case (2 h hs L)
  then show ?case by (auto split: if_splits prod.splits)
qed simp

lemma grant_scan_distinct:
  "grant_scan q L = (L', ts) \<Longrightarrow> distinct (map fst L) \<Longrightarrow> distinct (map fst L')"
proof (induction q L arbitrary: L' ts rule: grant_scan.induct)
  case (2 h hs L)
  then show ?case by (auto split: if_splits prod.splits)
qed simp

text \<open>A directory that appears in the table came from the old table or from a grant.\<close>

lemma grant_scan_origin:
  "grant_scan q L = (L', ts) \<Longrightarrow> map_of L' d = Some w \<Longrightarrow>
   map_of L d = Some w \<or> (\<exists>h \<in> set ts. workflow_id h = w \<and> d \<in> set (required_dirs h))"
proof (induction q L arbitrary: L' ts rule: grant_scan.induct)
  case (2 h hs L)
  show ?case
  proof (cases "all_free L (required_dirs h)")
    case True
    let ?L = "assign_all (workflow_id h) (required_dirs h) L"
    obtain L1 t1 where g: "grant_scan hs ?L = (L1, t1)" by (cases "grant_scan hs ?L")
    with True "2.prems" have "L' = L1" and ts: "ts = h # t1" by auto
    with "2.IH"(1) [OF True g] "2.prems"(2) show ?thesis
      by (auto simp: lock_table split: if_splits)
  next
    case False
    with 2 show ?thesis by simp
  qed
qed simp

text \<open>
  What stays in the queue after the scan is blocked by the resulting table.  The source removes
  the granted entries by value (\<open>list.remove\<close>); since a granted entry occupies its directories
  no equal entry can be granted twice, and removal by value takes out exactly the granted ones.
\<close>

definition waits_on :: "lock_table \<Rightarrow> hold \<Rightarrow> bool" where
  "waits_on L h = list_ex (\<lambda>d. map_of L d \<noteq> None) (required_dirs h)"

lemma waits_on_iff: "waits_on L h \<longleftrightarrow> \<not> all_free L (required_dirs h)"
  by (auto simp: waits_on_def all_free_iff list_ex_iff)

lemma remove_all_sub: "set (remove_all ts q) \<subseteq> set q"
proof (induction ts arbitrary: q)
  case (Cons t ts)
  have "set (remove_all ts (remove1 t q)) \<subseteq> set (remove1 t q)" by (rule Cons.IH)
  also have "\<dots> \<subseteq> set q" by (rule set_remove1_subset)
  finally show ?case by simp
qed simp

lemma remove_all_Cons_notin:
  "h \<notin> set ts \<Longrightarrow> remove_all ts (h # q) = h # remove_all ts q"
  by (induction ts arbitrary: q) auto

lemma grant_scan_triggered_free: "grant_scan q L = (L', ts) \<Longrightarrow> h \<in> set ts \<Longrightarrow> all_free L (required_dirs h)"
  using grant_scan_grants by (fastforce simp: all_free_iff)

lemma grant_scan_remaining:
  "grant_scan q L = (L', ts) \<Longrightarrow> \<forall>h \<in> set q. required_dirs h \<noteq> [] \<Longrightarrow>
   h \<in> set (remove_all ts q) \<Longrightarrow> waits_on L' h"
proof (induction q L arbitrary: L' ts rule: grant_scan.induct)
  case (1 L)
  then show ?case by simp
next
  case (2 k hs L)
  show ?case
  proof (cases "all_free L (required_dirs k)")
    case True
    let ?L = "assign_all (workflow_id k) (required_dirs k) L"
    obtain L1 t1 where g: "grant_scan hs ?L = (L1, t1)" by (cases "grant_scan hs ?L")
    with True "2.prems"(1) have "L' = L1" and ts: "ts = k # t1" by auto
    with "2.IH"(1) [OF True g] "2.prems" show ?thesis by simp
  next
    case False
    with "2.prems"(1) have g: "grant_scan hs L = (L', ts)" by simp
    have "k \<notin> set ts" using grant_scan_triggered_free [OF g] False by auto
    then have q: "remove_all ts (k # hs) = k # remove_all ts hs" by (rule remove_all_Cons_notin)
    have "waits_on L' k"
      using False grant_scan_mono [OF g] by (force simp: waits_on_iff all_free_iff)
    with q "2.prems" "2.IH"(2) [OF False g] show ?thesis by auto
  qed
qed

section \<open>The coordinator provides the lock contract\<close>

text \<open>Which signal lets go of directory \<open>d\<close> held by \<open>w\<close>.\<close>

fun relinquishes :: "coord_signal \<Rightarrow> wfid \<Rightarrow> dir \<Rightarrow> bool" where
  "relinquishes (ReleaseLocks v r) w d =
     (v = w \<and> (case r of None \<Rightarrow> True | Some ds \<Rightarrow> ds = [] \<or> d \<in> set ds))"
| "relinquishes (AbortQueuedForDirs v ds why) w d = (v = w \<and> d \<in> set ds)"
| "relinquishes ResetState w d = True"
| "relinquishes _ w d = False"

text \<open>The requests a signal grants.\<close>

fun granted_holds :: "coord_signal \<Rightarrow> coordinator \<Rightarrow> hold list" where
  "granted_holds (AcquireLocks w ds u p) s =
     (if blocked_dirs (locks s) ds p = []
      then [\<lparr>workflow_id = w, required_dirs = ds, user_code = u, parent_holder_id = p\<rparr>] else [])"
| "granted_holds (ReleaseLocks w r) s =
     snd (grant_scan (hold_queue s) (drop_owned w (dirs_to_release w r (locks s)) (locks s)))"
| "granted_holds (AbortQueuedForDirs w ds why) s =
     snd (grant_scan (filter (\<lambda>h. \<not> overlaps ds h) (hold_queue s)) (drop_owned w ds (locks s)))"
| "granted_holds _ s = []"

abbreviation coord_step :: "coord_signal \<Rightarrow> coordinator \<Rightarrow> coordinator" where
  "coord_step e s \<equiv> fst (handle e s)"

lemma locks_scan_and_grant: "locks (fst (scan_and_grant s)) = fst (grant_scan (hold_queue s) (locks s))"
  by (simp add: scan_and_grant_def split: prod.splits)

lemma queue_scan_and_grant:
  "hold_queue (fst (scan_and_grant s)) =
     remove_all (snd (grant_scan (hold_queue s) (locks s))) (hold_queue s)"
  by (simp add: scan_and_grant_def split: prod.splits)

lemma outs_scan_and_grant:
  "snd (scan_and_grant s) =
     map (\<lambda>h. LocksGranted (workflow_id h)) (snd (grant_scan (hold_queue s) (locks s)))"
  by (simp add: scan_and_grant_def split: prod.splits)

lemmas scan_projections = locks_scan_and_grant queue_scan_and_grant outs_scan_and_grant

lemma abort_projections:
  "fst (abort_queued_for_dirs w ds why s) =
     fst (scan_and_grant (s\<lparr>hold_queue := filter (\<lambda>h. \<not> overlaps ds h) (hold_queue s),
                           locks := drop_owned w ds (locks s)\<rparr>))"
  "snd (abort_queued_for_dirs w ds why s) =
     map (\<lambda>h. AtlasLockAbort (workflow_id h) why) (filter (overlaps ds) (hold_queue s)) @
     snd (scan_and_grant (s\<lparr>hold_queue := filter (\<lambda>h. \<not> overlaps ds h) (hold_queue s),
                           locks := drop_owned w ds (locks s)\<rparr>))"
  by (simp_all add: abort_queued_for_dirs_def Let_def split: prod.splits)

lemmas handler_defs = acquire_locks_def release_hold_def release_locks_def enqueue_merge_def
  reset_state_def

lemma locks_pr_merge_completed [simp]: "locks (fst (pr_merge_completed n s)) = locks s"
  and queue_pr_merge_completed [simp]: "hold_queue (fst (pr_merge_completed n s)) = hold_queue s"
  and outs_pr_merge_completed [simp]: "snd (pr_merge_completed n s) = []"
  by (auto simp: pr_merge_completed_def split: list.splits)

lemma grant_scan_fst_mono:
  "map_of L d = Some w \<Longrightarrow> map_of (fst (grant_scan q L)) d = Some w"
  by (metis grant_scan_mono prod.collapse)

lemma grant_scan_snd_grants:
  "h \<in> set (snd (grant_scan q L)) \<Longrightarrow> d \<in> set (required_dirs h) \<Longrightarrow>
   map_of (fst (grant_scan q L)) d = Some (workflow_id h)"
  by (metis grant_scan_grants prod.collapse)

lemma handle_keeps_holder:
  assumes "map_of (locks s) d = Some w" and "\<not> relinquishes e w d"
  shows "map_of (locks (coord_step e s)) d = Some w"
proof (cases e)
  case (AcquireLocks v ds u p)
  with assms show ?thesis by (auto simp: handler_defs lock_table)
next
  case (ReleaseLocks v r)
  have "map_of (drop_owned v (dirs_to_release v r (locks s)) (locks s)) d = Some w"
    using assms ReleaseLocks by (auto simp: lock_table dirs_to_release_def split: option.splits if_splits)
  with ReleaseLocks show ?thesis
    by (simp add: release_locks_def scan_projections grant_scan_fst_mono)
next
  case (AbortQueuedForDirs v ds why)
  have "map_of (drop_owned v ds (locks s)) d = Some w"
    using assms AbortQueuedForDirs by (auto simp: lock_table)
  with AbortQueuedForDirs show ?thesis
    by (simp add: abort_projections scan_projections grant_scan_fst_mono)
qed (use assms in \<open>auto simp: handler_defs\<close>)

lemma handle_grant_sound:
  assumes "h \<in> set (granted_holds e s)" and "d \<in> set (required_dirs h)"
  shows "\<exists>v. map_of (locks (coord_step e s)) d = Some v \<and>
             (v = workflow_id h \<or> parent_holder_id h = Some v)"
proof (cases e)
  case (AcquireLocks v ds u p)
  with assms show ?thesis
    by (auto simp: handler_defs lock_table blocked_dirs_Nil_iff split: if_splits option.splits)
next
  case (ReleaseLocks v r)
  with assms show ?thesis
    by (auto simp: release_locks_def scan_projections dest: grant_scan_snd_grants)
next
  case (AbortQueuedForDirs v ds why)
  with assms show ?thesis
    by (auto simp: abort_projections scan_projections dest: grant_scan_snd_grants)
qed (use assms in auto)

interpretation coord: lock_service
  "\<lambda>s d. map_of (locks s) d" coord_step "\<lambda>w d e s. relinquishes e w d"
  "\<lambda>e s. map (\<lambda>h. (workflow_id h, required_dirs h, parent_holder_id h)) (granted_holds e s)"
  by unfold_locales (auto intro: handle_keeps_holder dest: handle_grant_sound)

text \<open>The \<open>locks_granted\<close> signals sent are exactly those of the granted requests.\<close>

fun granted_ids :: "out_signal list \<Rightarrow> wfid list" where
  "granted_ids [] = []"
| "granted_ids (LocksGranted w # outs) = w # granted_ids outs"
| "granted_ids (AtlasLockAbort w why # outs) = granted_ids outs"

lemma granted_ids_append [simp]: "granted_ids (xs @ ys) = granted_ids xs @ granted_ids ys"
  by (induction xs rule: granted_ids.induct) auto

lemma granted_ids_grants [simp]: "granted_ids (map (\<lambda>h. LocksGranted (workflow_id h)) hs) = map workflow_id hs"
  by (induction hs) auto

lemma granted_ids_aborts [simp]: "granted_ids (map (\<lambda>h. AtlasLockAbort (workflow_id h) why) hs) = []"
  by (induction hs) auto

lemma granted_signals: "granted_ids (snd (handle e s)) = map workflow_id (granted_holds e s)"
  by (cases e) (auto simp: handler_defs scan_projections abort_projections)

section \<open>Reachable states and their invariant\<close>

inductive reachable :: "coordinator \<Rightarrow> bool" where
  start: "reachable init_coordinator"
| signal: "reachable s \<Longrightarrow> reachable (coord_step e s)"

text \<open>
  Dictionary keys are distinct, and every queued request waits on a directory that is held:
  no wake-up is lost.
\<close>

definition coord_inv :: "coordinator \<Rightarrow> bool" where
  "coord_inv s \<longleftrightarrow> distinct (map fst (locks s)) \<and> list_all (waits_on (locks s)) (hold_queue s)"

lemma coord_invI [intro]:
  "distinct (map fst (locks s)) \<Longrightarrow> (\<And>h. h \<in> set (hold_queue s) \<Longrightarrow> waits_on (locks s) h) \<Longrightarrow>
   coord_inv s"
  by (simp add: coord_inv_def list_all_iff)

lemma coord_invD [dest]:
  "coord_inv s \<Longrightarrow> distinct (map fst (locks s))"
  "coord_inv s \<Longrightarrow> h \<in> set (hold_queue s) \<Longrightarrow> waits_on (locks s) h"
  by (simp_all add: coord_inv_def list_all_iff)

lemma waits_on_nonempty: "waits_on L h \<Longrightarrow> required_dirs h \<noteq> []"
  by (auto simp: waits_on_def)

lemma scan_inv:
  assumes "distinct (map fst L)" and "\<forall>h \<in> set q. required_dirs h \<noteq> []"
  shows "coord_inv (fst (scan_and_grant (s\<lparr>hold_queue := q, locks := L\<rparr>)))"
proof -
  obtain L' ts where g: "grant_scan q L = (L', ts)" by (cases "grant_scan q L")
  show ?thesis
  proof (rule coord_invI)
    show "distinct (map fst (locks (fst (scan_and_grant (s\<lparr>hold_queue := q, locks := L\<rparr>)))))"
      using grant_scan_distinct [OF g assms(1)] g by (simp add: scan_projections)
    show "waits_on (locks (fst (scan_and_grant (s\<lparr>hold_queue := q, locks := L\<rparr>)))) h"
      if "h \<in> set (hold_queue (fst (scan_and_grant (s\<lparr>hold_queue := q, locks := L\<rparr>))))" for h
      using that grant_scan_remaining [OF g assms(2)] g by (simp add: scan_projections)
  qed
qed

lemma handle_inv:
  assumes inv: "coord_inv s"
  shows "coord_inv (coord_step e s)"
proof (cases e)
  case (AcquireLocks v ds u p)
  show ?thesis
  proof (cases "blocked_dirs (locks s) ds p = []")
    case True
    have "waits_on (claim_free v ds (locks s)) h" if q: "h \<in> set (hold_queue s)" for h
    proof -
      obtain d w where "d \<in> set (required_dirs h)" "map_of (locks s) d = Some w"
        using coord_invD(2) [OF inv q] by (auto simp: waits_on_def list_ex_iff)
      then have "map_of (claim_free v ds (locks s)) d \<noteq> None" by (simp add: lock_table)
      with \<open>d \<in> set (required_dirs h)\<close> show ?thesis by (auto simp: waits_on_def list_ex_iff)
    qed
    moreover have "distinct (map fst (claim_free v ds (locks s)))"
      using inv by (intro distinct_claim_free coord_invD)
    ultimately have "coord_inv (s\<lparr>locks := claim_free v ds (locks s)\<rparr>)"
      by (intro coord_invI) simp_all
    with True AcquireLocks show ?thesis by (simp add: handler_defs)
  next
    case False
    then obtain d w where "d \<in> set ds" "map_of (locks s) d = Some w"
      by (auto simp: blocked_dirs_Nil_iff)
    then have "waits_on (locks s)
      \<lparr>workflow_id = v, required_dirs = ds, user_code = u, parent_holder_id = p\<rparr>"
      by (auto simp: waits_on_def list_ex_iff)
    with False AcquireLocks inv show ?thesis by (simp add: handler_defs coord_inv_def)
  qed
next
  case (ReleaseLocks v r)
  let ?L = "drop_owned v (dirs_to_release v r (locks s)) (locks s)"
  have "coord_inv (fst (scan_and_grant (s\<lparr>hold_queue := hold_queue s, locks := ?L\<rparr>)))"
    by (rule scan_inv) (use inv in \<open>auto dest: waits_on_nonempty\<close>)
  with ReleaseLocks show ?thesis by (simp add: release_locks_def)
next
  case (AbortQueuedForDirs v ds why)
  have "coord_inv (fst (scan_and_grant
     (s\<lparr>hold_queue := filter (\<lambda>h. \<not> overlaps ds h) (hold_queue s), locks := drop_owned v ds (locks s)\<rparr>)))"
    by (rule scan_inv) (use inv in \<open>auto dest: waits_on_nonempty\<close>)
  with AbortQueuedForDirs show ?thesis by (simp add: abort_projections)
qed (use inv in \<open>auto simp: handler_defs coord_inv_def list_all_iff\<close>)

lemma reachable_inv: "reachable s \<Longrightarrow> coord_inv s"
proof (induction rule: reachable.induct)
  case start
  show ?case by (simp add: coord_inv_def init_coordinator_def)
next
  case (signal s e)
  from signal.IH show ?case by (rule handle_inv)
qed

section \<open>Properties of the lock protocol\<close>

text \<open>
  A lock request is all or nothing.  If none of its directories is held by a workflow other
  than its declared parent, it is granted at once: one \<open>locks_granted\<close> signal goes to the
  requester, every free directory becomes the requester's, every directory the parent holds
  stays the parent's, nothing else changes.  Otherwise the lock table is untouched, no signal is
  sent, and the request joins the end of the queue.
\<close>

theorem acquire_all_or_nothing:
  "(blocked_dirs (locks s) ds p = [] \<and>
      snd (acquire_locks w ds u p s) = [LocksGranted w] \<and>
      hold_queue (fst (acquire_locks w ds u p s)) = hold_queue s \<and>
      merge_queue (fst (acquire_locks w ds u p s)) = merge_queue s \<and>
      (\<forall>d. map_of (locks (fst (acquire_locks w ds u p s))) d =
         (if d \<in> set ds \<and> map_of (locks s) d = None then Some w else map_of (locks s) d)))
   \<or> ((\<exists>d v. d \<in> set ds \<and> map_of (locks s) d = Some v \<and> p \<noteq> Some v) \<and>
      acquire_locks w ds u p s =
        (s\<lparr>hold_queue := hold_queue s @
            [\<lparr>workflow_id = w, required_dirs = ds, user_code = u, parent_holder_id = p\<rparr>]\<rparr>, []))"
proof (cases "blocked_dirs (locks s) ds p = []")
  case True
  then show ?thesis by (auto simp: acquire_locks_def lock_table split: option.splits)
next
  case False
  then show ?thesis by (auto simp: acquire_locks_def blocked_dirs_Nil_iff)
qed

text \<open>
  C1: Mutual exclusion over any history.  Once \<open>w\<close> holds a directory, then through any sequence
  of signals none of which is \<open>w\<close>'s own release of it, \<open>w\<close>'s own conflict abort for it or the
  test-only reset, \<open>w\<close> still holds it at the end, and every request for that directory granted on
  the way (at once or from the queue) is \<open>w\<close>'s own or declared \<open>w\<close> as its parent, in which case it
  is let pass while \<open>w\<close> stays the holder.
\<close>

theorem coordinator_mutual_exclusion:
  assumes "map_of (locks s) d = Some w" and "\<forall>e \<in> set es. \<not> relinquishes e w d"
  shows "map_of (locks (fold coord_step es s)) d = Some w \<and>
    (\<forall>pre e post h. es = pre @ e # post \<and> h \<in> set (granted_holds e (fold coord_step pre s)) \<and> d \<in> set (required_dirs h) \<longrightarrow>
       map_of (locks (fold coord_step (pre @ [e]) s)) d = Some w \<and> (workflow_id h = w \<or> parent_holder_id h = Some w))"
proof (intro conjI allI impI; (elim conjE)?)
  show "map_of (locks (fold coord_step es s)) d = Some w"
    using coord.held_through [OF assms(1), of es] assms(2) by (simp add: never_stateless)
next
  fix pre e post h
  assume es: "es = pre @ e # post" and h: "h \<in> set (granted_holds e (fold coord_step pre s))" "d \<in> set (required_dirs h)"
  show "map_of (locks (fold coord_step (pre @ [e]) s)) d = Some w"
    using coord.held_through [OF assms(1), of "pre @ [e]"] assms(2) es by (simp add: never_stateless)
  have "(workflow_id h, required_dirs h, parent_holder_id h) \<in>
      set (map (\<lambda>h. (workflow_id h, required_dirs h, parent_holder_id h)) (granted_holds e (fold coord_step pre s)))"
    using h(1) by force
  from coord.exclusive [OF assms(1) _ this h(2)] show "workflow_id h = w \<or> parent_holder_id h = Some w"
    using assms(2) es by (simp add: never_stateless)
qed

text \<open>\<open>P\<close> holds \<open>a\<close>; a stranger queues for it, a child of \<open>P\<close> is let pass, and the stranger's release changes nothing.\<close>

definition held_run :: "coord_signal list" where
  "held_run =
     [AcquireLocks ''X'' [''a'', ''b''] ''u'' None, AcquireLocks ''C'' [''a''] ''u'' (Some ''P''),
      ReleaseLocks ''X'' (Some [''a'']), ReleaseLocks ''C'' None]"

lemma coordinator_mutual_exclusion_witness:
  "let s = init_coordinator\<lparr>locks := [(''a'', ''P'')]\<rparr>
   in map_of (locks (fold coord_step held_run s)) ''a'' = Some ''P'' \<and>
      map workflow_id (granted_holds (held_run ! 1) (fold coord_step (take 1 held_run) s)) = [''C'']"
proof -
  have "map_of (locks (fold coord_step held_run (init_coordinator\<lparr>locks := [(''a'', ''P'')]\<rparr>))) ''a'' = Some ''P''"
    using coordinator_mutual_exclusion [of "init_coordinator\<lparr>locks := [(''a'', ''P'')]\<rparr>" "''a''" "''P''" held_run]
    by (simp add: held_run_def)
  moreover have "map workflow_id (granted_holds (held_run ! 1)
      (fold coord_step (take 1 held_run) (init_coordinator\<lparr>locks := [(''a'', ''P'')]\<rparr>))) = [''C'']"
    by (simp add: held_run_def acquire_locks_def blocked_dirs_def init_coordinator_def)
  ultimately show ?thesis by (simp only: Let_def)
qed

text \<open>
  C2: No wake-up is lost while handlers run one at a time.  In every state reached by signals whose handlers
  run to completion before the next one starts, a directory has one holder entry, and every queued request
  waits on at least one directory that somebody holds; so a request never sits in the queue while all it needs
  is free.  (Handlers that are interleaved at their awaits do not keep this: \<open>CoordinatorInterleaving\<close>.)
\<close>

theorem reachable_no_lost_wakeup:
  assumes "reachable s"
  shows "distinct (map fst (locks s)) \<and>
    (\<forall>h \<in> set (hold_queue s). \<exists>d \<in> set (required_dirs h). \<exists>w. map_of (locks s) d = Some w)"
  using reachable_inv [OF assms] by (auto simp: coord_inv_def list_all_iff waits_on_def list_ex_iff)

lemma reachable_no_lost_wakeup_witness:
  "let s = fold coord_step [AcquireLocks ''A'' [''x''] ''u'' None, AcquireLocks ''B'' [''x''] ''v'' None]
             init_coordinator
   in hold_queue s \<noteq> [] \<and> (\<forall>h \<in> set (hold_queue s). \<exists>d \<in> set (required_dirs h). \<exists>w. map_of (locks s) d = Some w)"
proof -
  let ?a = "AcquireLocks ''A'' [''x''] ''u'' None" and ?b = "AcquireLocks ''B'' [''x''] ''v'' None"
  have "reachable (coord_step ?b (coord_step ?a init_coordinator))"
    by (intro reachable.intros)
  note this [THEN reachable_no_lost_wakeup, THEN conjunct2]
  moreover have "hold_queue (coord_step ?b (coord_step ?a init_coordinator)) \<noteq> []"
    by (simp add: acquire_locks_def init_coordinator_def blocked_dirs_def)
  ultimately show ?thesis by simp
qed

text \<open>
  A waiter that gives up leaves nothing behind.  The pair \<open>release_hold\<close> then
  \<open>release_locks\<close> for a workflow, with directories that cover what it holds (or none given),
  ends with the workflow neither queued nor holding any directory, and sends it no
  \<open>locks_granted\<close>, whether it was still queued or already granted.
\<close>

theorem withdraw_leaves_nothing:
  assumes "\<forall>d. map_of (locks s) d = Some w \<longrightarrow> relinquishes (ReleaseLocks w r) w d"
  shows "(\<forall>h \<in> set (hold_queue (coord_step (ReleaseLocks w r) (coord_step (ReleaseHold w) s))). workflow_id h \<noteq> w)
    \<and> (\<forall>d. map_of (locks (coord_step (ReleaseLocks w r) (coord_step (ReleaseHold w) s))) d \<noteq> Some w)
    \<and> w \<notin> set (granted_ids (snd (handle (ReleaseLocks w r) (coord_step (ReleaseHold w) s))))"
proof (intro conjI)
  let ?q = "filter (\<lambda>h. workflow_id h \<noteq> w) (hold_queue s)"
  let ?L = "drop_owned w (dirs_to_release w r (locks s)) (locks s)"
  obtain L' ts where g: "grant_scan ?q ?L = (L', ts)" by (cases "grant_scan ?q ?L")
  have ts: "workflow_id h \<noteq> w" if "h \<in> set ts" for h
    using grant_scan_sub [OF g] that by auto
  have free: "map_of ?L d \<noteq> Some w" for d
    using assms dirs_to_release_superset [of "locks s" d w r]
    by (auto simp: lock_table dirs_to_release_def split: option.splits if_splits)
  show "\<forall>h \<in> set (hold_queue (coord_step (ReleaseLocks w r) (coord_step (ReleaseHold w) s))). workflow_id h \<noteq> w"
    using remove_all_sub [of ts ?q] g by (auto simp: release_locks_def release_hold_def scan_projections)
  show "\<forall>d. map_of (locks (coord_step (ReleaseLocks w r) (coord_step (ReleaseHold w) s))) d \<noteq> Some w"
    using grant_scan_origin [OF g] free ts g
    by (fastforce simp: release_locks_def release_hold_def scan_projections)
  show "w \<notin> set (granted_ids (snd (handle (ReleaseLocks w r) (coord_step (ReleaseHold w) s))))"
    using ts g by (auto simp: release_locks_def release_hold_def scan_projections)
qed

lemma withdraw_leaves_nothing_witness:
  "let s = \<lparr>locks = [(''x'', ''A'')], hold_queue = [], merge_queue = []\<rparr>
   in \<forall>d. map_of (locks (coord_step (ReleaseLocks ''A'' None) (coord_step (ReleaseHold ''A'') s))) d \<noteq> Some ''A''"
  using withdraw_leaves_nothing [of "\<lparr>locks = [(''x'', ''A'')], hold_queue = [], merge_queue = []\<rparr>" "''A''" None]
  by simp

end
