(* ===== verification/DeployWorkflow.thy ===== *)
theory DeployWorkflow
  imports LockWait Coordinator
begin

text \<open>
  The deployment workflow (\<open>app/temporal/workflows/deployment_workflow.py\<close>): one run takes the
  locks of its directories, opens a pull request, and drives it through plan, review, approval, apply
  and merge, with the webhooks' signals and polls as input.

  What the activities do is outside; their answers are the script of the run.  Texts of alerts and
  log lines are left out, error notes keep what they say.
\<close>

section \<open>State, signals and commands\<close>

datatype wf_signal =
    S_locks_granted
  | S_plan_completed
  | S_plan_failed "string option"
  | S_lock_conflict_detected "int option"
  | S_atlas_lock_abort string
  | S_apply_completed
  | S_apply_failed "string option"
  | S_pr_merged
  | S_pr_closed
  | S_pr_approved
  | S_push_detected string
  | S_merge_conflict_detected string

datatype deploy_status =
    DEPLOYING | PR_CREATION_FAILED | STARTING_PLANNING | PLANNING | PLAN_FAILED | PLANNED_SUCCESSFULLY
  | STARTING_PLAN_VERIFICATION | DESTRUCTIVE_PLAN_DETECTED | PLAN_VERIFIED_SUCCESSFULLY
  | STARTING_APPROVAL | APPROVAL_FAILED | APPROVED_SUCCESSFULLY | STARTING_APPLYING | APPLYING
  | APPLY_FAILED | APPLIED_SUCCESSFULLY | DEPLOYED | ERROR

text \<open>The reason recorded with a failure: the text itself, or what a formatted text says.\<close>

datatype reason =
    Text string
  | LockWaitTimedOut "dir list"
  | ConflictUnresolved nat
  | PlanFailedAfter nat
  | ApplyFailedAfter nat
  | MergeFailedAfter nat
  | MergeByHand int

record pr_link =
  link_name :: string
  link_repo :: string
  link_number :: int
  link_group :: string

datatype alert_to = Everyone | DmOnly | ChannelOnly

datatype deploy_cmd =
    Coord coord_signal
  | ReportStaleQueueWait nat bool
  | TrackStage string string string "reason option" string
  | TrackDeployResult string "pr_link list"
  | DeploymentStatus deploy_status "reason option"
  | ResourceStatus string
  | QueueStatus string
  | RunScriptPr
  | RecordGatewayRoutes
  | SendStartedDm int
  | SendCompletedDm "int option"
  | SendP0Alert "int option" string alert_to
  | PostPlanComment int string "string option"
  | PostApplyComment int string "string option"
  | PollPrState int string
  | PollPlan int string "int option"
  | PollApply int string
  | PollApproval int string
  | CheckManualCommit int string "string option"
  | VerifyPlan int string "int option"
  | PostVerification int string pyval
  | ApprovePr int string
  | CheckAndMerge int string
  | ResolveConflict int string
  | MergeSecondary int string string
  | SaveAlbUrl
  | MarkIacLocked
  | ClearIacLocked
  | GetWaitingUsers "dir list"
  | SendLockAlert nat bool pyval int "int option" bool
  | SendLockTimeoutQueued pyval "int option"
  | ClosePr int string

record wf = "(wf_signal, deploy_cmd) env" +
  w_locks_granted :: bool
  w_plan_result :: "string option"
  w_plan_error :: "string option"
  w_plan_verification :: "string option"
  w_apply_result :: "string option"
  w_apply_error :: "string option"
  w_merge_result :: "string option"
  w_pr_closed :: bool
  w_merge_conflict :: bool
  w_pr_approved :: bool
  w_step :: string
  w_pr_number :: "int option"
  w_repo :: "string option"
  w_project :: "string option"
  w_result :: "string option"
  w_tenant_code :: string
  w_user_code :: string
  w_sha :: "string option"
  w_manual :: bool
  w_force :: bool
  w_force_reason :: string
  w_secondary :: "config list"

text \<open>The arguments of \<open>run\<close>, with the workflow's id and the approval switch of the settings.\<close>

record deploy =
  d_workflow_id :: wfid
  d_tenant :: string
  d_dirs :: "dir list"
  d_user :: string
  d_parent :: "string option"
  d_track :: "string option"
  d_group :: "string option"
  d_approval :: bool

definition init_wf :: "wf_signal turn list \<Rightarrow> wf" where
  "init_wf ts =
     \<lparr>script = ts, trace = [], clock = 0, w_locks_granted = False, w_plan_result = None,
      w_plan_error = None, w_plan_verification = None, w_apply_result = None, w_apply_error = None,
      w_merge_result = None, w_pr_closed = False, w_merge_conflict = False, w_pr_approved = False,
      w_step = ''starting'', w_pr_number = None, w_repo = None, w_project = None, w_result = None,
      w_tenant_code = [], w_user_code = [], w_sha = None, w_manual = False, w_force = False,
      w_force_reason = [], w_secondary = []\<rparr>"

text \<open>
  The signal handlers.  \<open>merge_conflict_detected\<close> signals the coordinator itself; its await does not
  hold up the run.
\<close>

definition nonempty :: "string option \<Rightarrow> string option" where
  "nonempty x = (case x of Some [] \<Rightarrow> None | _ \<Rightarrow> x)"

fun on_signal :: "wf_signal \<Rightarrow> wf \<Rightarrow> wf" where
  "on_signal S_locks_granted s = s\<lparr>w_locks_granted := True\<rparr>"
| "on_signal S_plan_completed s = s\<lparr>w_plan_result := Some ''success''\<rparr>"
| "on_signal (S_plan_failed err) s =
     s\<lparr>w_plan_result := Some ''failed'',
       w_plan_error := (case nonempty err of None \<Rightarrow> w_plan_error s | Some e \<Rightarrow> Some e)\<rparr>"
| "on_signal (S_lock_conflict_detected n) s =
     s\<lparr>w_plan_result := Some (case n of None \<Rightarrow> ''lock_conflict''
        | Some k \<Rightarrow> if k = 0 then ''lock_conflict'' else ''lock_conflict:'' @ int_str k)\<rparr>"
| "on_signal (S_atlas_lock_abort why) s = s\<lparr>w_force := True, w_force_reason := why\<rparr>"
| "on_signal S_apply_completed s = s\<lparr>w_apply_result := Some ''success''\<rparr>"
| "on_signal (S_apply_failed err) s =
     s\<lparr>w_apply_result := Some ''failed'',
       w_apply_error := (case nonempty err of None \<Rightarrow> w_apply_error s | Some e \<Rightarrow> Some e)\<rparr>"
| "on_signal S_pr_merged s = s\<lparr>w_merge_result := Some ''merged''\<rparr>"
| "on_signal S_pr_closed s = s\<lparr>w_pr_closed := True\<rparr>"
| "on_signal S_pr_approved s = s\<lparr>w_pr_approved := True\<rparr>"
| "on_signal (S_push_detected sha) s =
     (if nonempty (w_sha s) \<noteq> None \<and> Some sha \<noteq> w_sha s then s\<lparr>w_manual := True\<rparr> else s)"
| "on_signal (S_merge_conflict_detected repo) s =
     (let s = s\<lparr>w_merge_conflict := True\<rparr> in
      case w_pr_number s of
        None \<Rightarrow> s
      | Some n \<Rightarrow> logged (Issued (Coord (EnqueueMerge n repo (w_tenant_code s) (w_user_code s)))) s)"

type_synonym 'a wprog = "(wf, 'a) prog"

definition ask :: "deploy_cmd \<Rightarrow> pyval wprog" where
  "ask c = await on_signal c"

definition act :: "deploy_cmd \<Rightarrow> unit wprog" where
  "act c = seq (ask c) (ret ())"

definition wait_cond :: "(wf \<Rightarrow> bool) \<Rightarrow> bool wprog" where
  "wait_cond = wait_for on_signal"

text \<open>Answers of the activities, read with the types they are declared with.\<close>

definition str_of :: "pyval \<Rightarrow> string" where
  "str_of v = (case v of VStr x \<Rightarrow> x | _ \<Rightarrow> [])"

definition text_of :: "failure \<Rightarrow> string" where
  "text_of e = (case e of ActivityFailed m \<Rightarrow> m | AppFailed m \<Rightarrow> m)"

definition dict_of :: "pyval \<Rightarrow> config" where
  "dict_of v = (case v of VDict d \<Rightarrow> d | _ \<Rightarrow> [])"

text \<open>\<open>x.split(":", 1)\<close>: the part before the first colon, and the rest when there is one.\<close>

definition before_colon :: "string \<Rightarrow> string" where
  "before_colon x = takeWhile (\<lambda>c. c \<noteq> CHR '':'') x"

definition after_colon :: "string \<Rightarrow> string option" where
  "after_colon x = (if CHR '':'' \<in> set x then Some (tl (dropWhile (\<lambda>c. c \<noteq> CHR '':'') x)) else None)"

text \<open>The number of the locking pull request in \<open>lock_conflict:119\<close>.\<close>

definition locking_number :: "string \<Rightarrow> int option" where
  "locking_number x =
     (case after_colon x of
        Some n \<Rightarrow> if n \<noteq> [] \<and> list_all py_isdigit n then Some (int (digits_value n)) else None
      | None \<Rightarrow> None)"

section \<open>Building blocks\<close>

text \<open>Durations in seconds.\<close>

definition plan_poll_interval :: nat where "plan_poll_interval = 30"
definition apply_poll_interval :: nat where "apply_poll_interval = 60"
definition merge_poll_interval :: nat where "merge_poll_interval = 60"
definition plan_alert_after :: nat where "plan_alert_after = 3600"
definition apply_alert_after :: nat where "apply_alert_after = 3600"
definition merge_alert_after :: nat where "merge_alert_after = 7200"
definition stuck_max_alerts :: nat where "stuck_max_alerts = 24"
definition plan_max_retries :: nat where "plan_max_retries = 2"
definition apply_max_retries :: nat where "apply_max_retries = 2"
definition merge_max_retries :: nat where "merge_max_retries = 3"
definition lock_recheck_interval :: nat where "lock_recheck_interval = 300"

definition lock_check_intervals :: "nat list" where
  "lock_check_intervals = [5, 25, 30] @ replicate 24 60"

fun running_sums :: "nat \<Rightarrow> nat list \<Rightarrow> nat list" where
  "running_sums n [] = []"
| "running_sums n (x # xs) = (n + x) # running_sums (n + x) xs"

definition lock_alert_minutes :: "nat list" where
  "lock_alert_minutes = running_sums 0 lock_check_intervals"

definition lock_total_minutes :: nat where
  "lock_total_minutes = sum_list lock_check_intervals"

definition track_key :: "deploy \<Rightarrow> string" where
  "track_key d = (case nonempty (d_track d) of Some t \<Rightarrow> t | None \<Rightarrow> d_workflow_id d)"

definition completed_stage :: "deploy \<Rightarrow> string" where
  "completed_stage d = (if nonempty (d_parent d) \<noteq> None then ''infra: complete'' else ''completed'')"

definition pr_group :: "deploy \<Rightarrow> string" where
  "pr_group d = (case nonempty (d_group d) of Some g \<Rightarrow> g | None \<Rightarrow> ''service'')"

definition stage :: "deploy \<Rightarrow> string \<Rightarrow> string \<Rightarrow> reason option \<Rightarrow> unit wprog" where
  "stage d name status err = act (TrackStage (track_key d) name status err (pr_group d))"

definition release :: "deploy \<Rightarrow> unit wprog" where
  "release d = act (Coord (ReleaseLocks (d_workflow_id d) (Some (d_dirs d))))"

definition give_up :: "string \<Rightarrow> 'a wprog" where
  "give_up result =
     seq (assign (\<lambda>s. s\<lparr>w_step := ''failed'', w_result := Some result\<rparr>)) (throw (AppFailed result))"

text \<open>The pull request of the run, from the answer of \<open>run_script_pr_workflow\<close>.\<close>

record pull_request =
  p_number :: int
  p_repo :: string
  p_project :: "string option"

definition has_repo :: "pull_request \<Rightarrow> bool" where
  "has_repo p \<longleftrightarrow> p_number p \<noteq> 0 \<and> p_repo p \<noteq> []"

text \<open>The shape every terminal failure of the state machine has.\<close>

definition fail_exit ::
  "deploy \<Rightarrow> reason \<Rightarrow> unit wprog list \<Rightarrow> reason \<Rightarrow> string list \<Rightarrow> string \<Rightarrow> 'a wprog" where
  "fail_exit d status_note alerts stage_note stages result =
     steps ([act (DeploymentStatus ERROR (Some status_note)), act (QueueStatus ''FAILED'')] @ alerts
            @ [release d]
            @ map (\<lambda>st. stage d st ''failed'' (Some stage_note)) (stages @ [completed_stage d]))
       (give_up result)"

definition manual_commit_err :: reason where
  "manual_commit_err = Text ''Manual commit detected during deployment. Workflow terminated.''"

definition manual_exit :: "deploy \<Rightarrow> pull_request \<Rightarrow> string list \<Rightarrow> 'a wprog" where
  "manual_exit d p stages =
     fail_exit d manual_commit_err
       [act (SendP0Alert (Some (p_number p)) ''Deployment Terminated'' Everyone)]
       manual_commit_err stages ''manual_commit_detected''"

definition closed_exit :: "deploy \<Rightarrow> string list \<Rightarrow> 'a wprog" where
  "closed_exit d stages =
     fail_exit d (Text ''PR was closed'') []
       (Text ''PR was closed before the deployment completed.'') stages ''pr_closed''"

definition stuck_exit :: "deploy \<Rightarrow> pull_request \<Rightarrow> string \<Rightarrow> string \<Rightarrow> string \<Rightarrow> string \<Rightarrow> 'a wprog" where
  "stuck_exit d p status_note stage_note failed_stage result =
     fail_exit d (Text status_note)
       [act (SendP0Alert (Some (p_number p)) ''Deployment Auto-Terminated'' Everyone)]
       (Text stage_note) [failed_stage] result"

definition detect_manual :: "pull_request \<Rightarrow> bool wprog" where
  "detect_manual p =
     look (\<lambda>s. (w_manual s, w_sha s)) (\<lambda>(manual, sha).
       if manual then ret True
       else bind (ask (CheckManualCommit (p_number p) (p_repo p) sha)) (\<lambda>v. ret (truthy v)))"

definition manual_gate :: "deploy \<Rightarrow> pull_request \<Rightarrow> string list \<Rightarrow> unit wprog" where
  "manual_gate d p stages =
     look (\<lambda>s. w_manual s \<or> w_sha s \<noteq> None \<and> has_repo p) (\<lambda>check.
       if check then bind (detect_manual p) (\<lambda>manual. only_if manual (manual_exit d p stages))
       else ret ())"

text \<open>A poll that finds the request closed or merged also tells the coordinator.\<close>

definition found_closed :: "pull_request \<Rightarrow> unit wprog" where
  "found_closed p =
     seq (assign (\<lambda>s. s\<lparr>w_pr_closed := True\<rparr>)) (act (Coord (PrMergeCompleted (p_number p))))"

definition found_merged :: "pull_request \<Rightarrow> unit wprog" where
  "found_merged p =
     seq (assign (\<lambda>s. s\<lparr>w_merge_result := Some ''merged''\<rparr>)) (act (Coord (PrMergeCompleted (p_number p))))"

text \<open>The poll of a waiting step: closed, manual commit, merged, or else the step's own poll.\<close>

definition poll_step :: "deploy \<Rightarrow> pull_request \<Rightarrow> string list \<Rightarrow> unit wprog \<Rightarrow> unit wprog" where
  "poll_step d p stages poll =
     bind (ask (PollPrState (p_number p) (p_repo p))) (\<lambda>st.
       if str_of st = ''closed'' then found_closed p
       else seq (manual_gate d p stages)
         (if str_of st = ''merged'' then found_merged p else poll))"

section \<open>Step 1: locks\<close>

definition lock_timeout_exit :: "deploy \<Rightarrow> 'a wprog" where
  "lock_timeout_exit d =
     steps [act (Coord (ReleaseHold (d_workflow_id d))), release d,
            stage d (completed_stage d) ''failed'' (Some (LockWaitTimedOut (d_dirs d)))]
       (give_up ''lock_wait_timeout'')"

definition aborted_exit :: "deploy \<Rightarrow> 'a wprog" where
  "aborted_exit d =
     steps [look w_force_reason (\<lambda>why. act (DeploymentStatus ERROR (Some (Text why)))),
            act (QueueStatus ''FAILED''),
            look w_force_reason (\<lambda>why. stage d (completed_stage d) ''failed''
              (Some (Text (if why = [] then ''aborted_lock_conflict'' else why))))]
       (give_up ''aborted_lock_conflict'')"

definition acquire_phase :: "deploy \<Rightarrow> unit wprog" where
  "acquire_phase d =
     steps [assign (\<lambda>s. s\<lparr>w_step := ''acquiring_locks''\<rparr>),
            act (Coord (AcquireLocks (d_workflow_id d) (d_dirs d) (d_user d) (nonempty (d_parent d)))),
            bind (lock_wait on_signal (\<lambda>s. w_locks_granted s \<or> w_force s) False ReportStaleQueueWait)
              (\<lambda>ok. if ok then ret () else lock_timeout_exit d)]
       (look w_force (\<lambda>forced. if forced then aborted_exit d else ret ()))"

section \<open>Step 2: pull requests\<close>

definition opt_str :: "pyval \<Rightarrow> string option" where
  "opt_str v = (case v of VStr x \<Rightarrow> nonempty (Some x) | _ \<Rightarrow> None)"

definition opt_int :: "pyval \<Rightarrow> int option" where
  "opt_int v = (case v of VInt n \<Rightarrow> if n = 0 then None else Some n | _ \<Rightarrow> None)"

definition create_pr :: "deploy \<Rightarrow> config wprog" where
  "create_pr d =
     steps [assign (\<lambda>s. s\<lparr>w_step := ''creating_pr''\<rparr>),
            act (DeploymentStatus DEPLOYING None),
            act (QueueStatus ''STARTING_DEPLOYMENT''),
            stage d ''infra: create pr'' ''running'' None]
       (try_except (bind (ask RunScriptPr) (\<lambda>v. ret (dict_of v)))
         (\<lambda>e. steps [act (DeploymentStatus PR_CREATION_FAILED (Some (Text (text_of e)))),
                     act (QueueStatus ''FAILED''),
                     release d,
                     stage d ''infra: create pr'' ''failed'' (Some (Text (text_of e))),
                     stage d (completed_stage d) ''failed'' (Some (Text (text_of e)))]
                (give_up ''pr_creation_failed'')))"

definition dicts_of :: "pyval \<Rightarrow> config list" where
  "dicts_of v = (case v of VList vs \<Rightarrow> map dict_of vs | _ \<Rightarrow> [])"

definition keep_pr_info :: "config \<Rightarrow> wf \<Rightarrow> wf" where
  "keep_pr_info info s =
     s\<lparr>w_pr_number := (case dict_get info ''pr_number'' of VInt n \<Rightarrow> Some n | _ \<Rightarrow> None),
       w_repo := Some (str_of (dict_get info ''repo_full_name'')),
       w_project := opt_str (dict_get info ''project_name''),
       w_sha := opt_str (dict_get info ''commit_sha''),
       w_secondary := dicts_of (dict_get info ''secondary_prs'')\<rparr>"

definition pull_request_of :: "config \<Rightarrow> pull_request" where
  "pull_request_of info =
     \<lparr>p_number = (case opt_int (dict_get info ''pr_number'') of Some n \<Rightarrow> n | None \<Rightarrow> 0),
      p_repo = str_of (dict_get info ''repo_full_name''),
      p_project = opt_str (dict_get info ''project_name'')\<rparr>"

text \<open>A secondary pull request: its number, repository and type; without the first two it is skipped.\<close>

definition pr_type :: "config \<Rightarrow> string" where
  "pr_type sec = (case map_of sec ''pr_type'' of None \<Rightarrow> ''workflow'' | Some v \<Rightarrow> str_of v)"

definition secondary_artifact :: "string \<Rightarrow> string" where
  "secondary_artifact ty =
     (if ty = ''k8s_manifest'' then ''k8s'' else if ty = ''workflow'' then ''service'' else ty)"

definition secondary_order :: "config \<Rightarrow> nat" where
  "secondary_order sec =
     (if pr_type sec = ''k8s_manifest'' then 0 else if pr_type sec = ''workflow'' then 1 else 2)"

definition ordered_secondary_prs :: "config list \<Rightarrow> config list" where
  "ordered_secondary_prs = sort_key secondary_order"

definition secondary_target :: "config \<Rightarrow> (int \<times> string) option" where
  "secondary_target sec =
     (case (opt_int (dict_get sec ''pr_number''), opt_str (dict_get sec ''repo_full_name'')) of
        (Some n, Some repo) \<Rightarrow> Some (n, repo)
      | _ \<Rightarrow> None)"

definition link_label :: "string \<Rightarrow> string" where
  "link_label artifact =
     (if artifact = ''k8s'' then ''K8S PR'' else if artifact = ''service'' then ''SERVICE PR''
      else py_upper artifact @ '' PR'')"

definition secondary_link :: "deploy \<Rightarrow> config \<Rightarrow> pr_link list" where
  "secondary_link d sec =
     (case secondary_target sec of
        None \<Rightarrow> []
      | Some (n, repo) \<Rightarrow>
          [\<lparr>link_name = link_label (secondary_artifact (pr_type sec)), link_repo = repo,
            link_number = n, link_group = pr_group d\<rparr>])"

text \<open>The links' \<open>url\<close> is determined by repository and number and left out.\<close>

definition record_created_prs :: "deploy \<Rightarrow> bool \<Rightarrow> unit wprog" where
  "record_created_prs d include_infra =
     seq (only_if include_infra (stage d ''infra: create pr'' ''success'' None))
       (look (\<lambda>s. (w_pr_number s, w_repo s, ordered_secondary_prs (w_secondary s))) (\<lambda>(number, repo, secs).
         let infra = (case (number, repo) of
                        (Some n, Some r) \<Rightarrow>
                          if include_infra \<and> n \<noteq> 0 \<and> r \<noteq> []
                          then [\<lparr>link_name = ''INFRA PR'', link_repo = r, link_number = n,
                                 link_group = pr_group d\<rparr>]
                          else []
                      | _ \<Rightarrow> []);
             links = infra @ concat (map (secondary_link d) secs)
         in seq (each (\<lambda>sec. only_if (secondary_target sec \<noteq> None)
                   (stage d (secondary_artifact (pr_type sec) @ '': create PR'') ''success'' None)) secs)
              (only_if (links \<noteq> []) (act (TrackDeployResult (track_key d) links)))))"

definition merge_secondary_pr :: "deploy \<Rightarrow> config \<Rightarrow> unit wprog" where
  "merge_secondary_pr d sec =
     (case secondary_target sec of
        None \<Rightarrow> ret ()
      | Some (n, repo) \<Rightarrow>
          let merge_stage = secondary_artifact (pr_type sec) @ '': merge pr'' in
          steps [only_if (pr_type sec = ''k8s_manifest'')
                   (try_except (act (ApprovePr n repo)) (\<lambda>_. ret ())),
                 stage d merge_stage ''running'' None]
            (bind (ask (MergeSecondary n repo (pr_type sec))) (\<lambda>v.
               if str_of v \<in> {''merged'', ''already_merged''} then stage d merge_stage ''success'' None
               else steps [stage d merge_stage ''failed'' (Some (MergeByHand n))]
                      (act (SendP0Alert (Some n) ''Secondary PR Merge Failed'' Everyone)))))"

definition merge_secondary_prs :: "deploy \<Rightarrow> unit wprog" where
  "merge_secondary_prs d =
     look (\<lambda>s. ordered_secondary_prs (w_secondary s)) (each (merge_secondary_pr d))"

definition save_service_alb_url :: "unit wprog" where
  "save_service_alb_url = try_except (act SaveAlbUrl) (\<lambda>_. ret ())"

section \<open>Ends of a run\<close>

type_synonym run_result = "string \<times> int option"

definition finished :: "wf \<Rightarrow> wf" where
  "finished s = s\<lparr>w_step := ''active'', w_result := Some ''success''\<rparr>"

text \<open>No infrastructure change, but secondary pull requests: they are merged and the run is done.\<close>

definition secondary_only_end :: "deploy \<Rightarrow> run_result wprog" where
  "secondary_only_end d =
     steps [stage d ''infra: create pr'' ''skipped'' None,
            record_created_prs d False,
            merge_secondary_prs d,
            act (SendCompletedDm None),
            act (DeploymentStatus DEPLOYED None),
            act (ResourceStatus ''ONLINE''),
            act (QueueStatus ''DEPLOYED''),
            stage d (completed_stage d) ''success'' None,
            save_service_alb_url,
            release d,
            assign finished]
       (ret (''DEPLOYED'', None))"

definition no_pr_note :: reason where
  "no_pr_note = Text ''No pull request was created: no diff detected or PR creation failed silently.''"

definition no_pr_end :: "deploy \<Rightarrow> 'a wprog" where
  "no_pr_end d =
     steps [act (DeploymentStatus PR_CREATION_FAILED (Some no_pr_note)),
            act (QueueStatus ''FAILED''),
            act (SendP0Alert None ''Deployment Failed: No PR Created'' DmOnly),
            release d,
            stage d ''infra: create pr'' ''failed'' (Some no_pr_note),
            stage d (completed_stage d) ''failed'' (Some no_pr_note)]
       (give_up ''no_pr_created'')"

text \<open>The pull request was merged by someone else while the run was waiting.\<close>

definition merged_end :: "deploy \<Rightarrow> pull_request \<Rightarrow> run_result wprog" where
  "merged_end d p =
     steps [merge_secondary_prs d,
            act (SendCompletedDm (Some (p_number p))),
            act (DeploymentStatus DEPLOYED None),
            act (ResourceStatus ''ONLINE''),
            act (QueueStatus ''DEPLOYED''),
            save_service_alb_url,
            release d,
            assign finished]
       (ret (''DEPLOYED'', Some (p_number p)))"

text \<open>
  The terminal checks after every wait: the request was closed, a manual commit was made, or the request
  was merged; otherwise the run goes on with \<open>n\<close>.
\<close>

definition checks ::
  "deploy \<Rightarrow> pull_request \<Rightarrow> string list \<Rightarrow> (run_result \<Rightarrow> 'a) \<Rightarrow> 'a wprog \<Rightarrow> 'a wprog" where
  "checks d p stages result n =
     look w_pr_closed (\<lambda>closed.
       if closed then closed_exit d stages
       else seq (manual_gate d p stages)
         (look w_merge_result (\<lambda>merged.
           if merged \<noteq> None then bind (merged_end d p) (\<lambda>r. ret (result r)) else n)))"

text \<open>The run merged the pull request itself.\<close>

definition success_end :: "deploy \<Rightarrow> pull_request \<Rightarrow> run_result wprog" where
  "success_end d p =
     steps [assign finished,
            merge_secondary_prs d,
            act (SendCompletedDm (Some (p_number p))),
            act (DeploymentStatus DEPLOYED None),
            act (ResourceStatus ''ONLINE''),
            act (QueueStatus ''DEPLOYED''),
            stage d ''infra: merge pr'' ''success'' None,
            stage d (completed_stage d) ''success'' None,
            save_service_alb_url,
            release d]
       (ret (''ACTIVE'', Some (p_number p)))"

section \<open>WAIT\_PLAN\<close>

text \<open>
  The loop variables: \<open>plan_attempt\<close>, \<open>plan_elapsed\<close>, \<open>plan_stuck_count\<close> of one planning phase, and
  \<open>apply_exhausted\<close> and \<open>plan_not_before\<close>, which the outer loop keeps.
\<close>

record plan_vars =
  pl_attempt :: nat
  pl_elapsed :: nat
  pl_stuck :: nat
  pl_exhausted :: bool
  pl_not_before :: "int option"

definition terminal :: "wf \<Rightarrow> bool" where
  "terminal s \<longleftrightarrow> w_merge_result s \<noteq> None \<or> w_pr_closed s \<or> w_manual s"

definition plan_fail_stage :: "plan_vars \<Rightarrow> string" where
  "plan_fail_stage v =
     (if pl_exhausted v then ''infra: waiting for manual apply''
      else if plan_max_retries \<le> pl_attempt v then ''infra: waiting for manual plan''
      else ''infra: plan pr'')"

definition post_plan :: "pull_request \<Rightarrow> unit wprog" where
  "post_plan p = act (PostPlanComment (p_number p) (p_repo p) (p_project p))"

definition keep_error :: "string option \<Rightarrow> string option \<Rightarrow> string option" where
  "keep_error new old = (case nonempty new of Some e \<Rightarrow> Some e | None \<Rightarrow> old)"

text \<open>\<open>poll_for_plan_status\<close>: success, failed with an excerpt, a lock conflict, or anything else.\<close>

definition take_plan_poll :: "string \<Rightarrow> wf \<Rightarrow> wf" where
  "take_plan_poll x s =
     (if before_colon x = ''failed'' then
        s\<lparr>w_plan_result := Some ''failed'', w_plan_error := keep_error (after_colon x) (w_plan_error s)\<rparr>
      else if before_colon x = ''success'' \<or> startswith x ''lock_conflict'' then
        s\<lparr>w_plan_result := Some x\<rparr>
      else s)"

definition poll_plan :: "pull_request \<Rightarrow> int option \<Rightarrow> unit wprog" where
  "poll_plan p not_before =
     bind (ask (PollPlan (p_number p) (p_repo p) not_before))
       (\<lambda>v. assign (take_plan_poll (str_of v)))"

definition plan_stuck_check :: "deploy \<Rightarrow> pull_request \<Rightarrow> plan_vars \<Rightarrow> plan_vars wprog" where
  "plan_stuck_check d p v =
     look w_plan_result (\<lambda>r.
       if r = None \<and> plan_alert_after \<le> pl_elapsed v then
         (let v = v\<lparr>pl_stuck := pl_stuck v + 1\<rparr> in
          if stuck_max_alerts \<le> pl_stuck v then
            stuck_exit d p ''Plan stuck for 24 hours. Deployment auto-terminated.''
              ''Plan stuck for 24 hours with no result from Atlantis. Deployment auto-terminated.''
              (plan_fail_stage v) ''plan_stuck_timeout''
          else seq (act (SendP0Alert (Some (p_number p)) ''Plan Stuck Alert'' ChannelOnly))
                 (ret (v\<lparr>pl_elapsed := 0\<rparr>)))
       else ret v)"

definition plan_wait ::
  "deploy \<Rightarrow> pull_request \<Rightarrow> plan_vars \<Rightarrow> (plan_vars + plan_vars) wprog" where
  "plan_wait d p v =
     look (\<lambda>s. w_plan_result s \<noteq> None \<or> terminal s) (\<lambda>over.
       if over then ret (Inr v)
       else bind (wait_cond (\<lambda>s. w_plan_result s \<noteq> None \<or> terminal s)) (\<lambda>ok.
         if ok then ret (Inl v)
         else
           let v = v\<lparr>pl_elapsed := pl_elapsed v + plan_poll_interval\<rparr> in
           seq (only_if (has_repo p)
                  (poll_step d p [plan_fail_stage v] (poll_plan p (pl_not_before v))))
             (bind (plan_stuck_check d p v) (\<lambda>v. ret (Inl v)))))"

subsection \<open>The lock-conflict loop\<close>

text \<open>The loop variables: the locking pull request, the seconds elapsed, the index of the next alert.\<close>

type_synonym conflict_vars = "int option \<times> nat \<times> nat"

definition conflict_timeout_exit ::
  "deploy \<Rightarrow> pull_request \<Rightarrow> plan_vars \<Rightarrow> int option \<Rightarrow> nat \<Rightarrow> 'a wprog" where
  "conflict_timeout_exit d p v locking minutes =
     (let why = ConflictUnresolved lock_total_minutes in
      steps [act (DeploymentStatus ERROR (Some why)), act (QueueStatus ''FAILED'')]
        (bind (ask (GetWaitingUsers (d_dirs d))) (\<lambda>users.
           steps [act (SendLockAlert minutes False users 0 locking True),
                  only_if (truthy users) (act (SendLockTimeoutQueued users locking)),
                  only_if (has_repo p) (act (ClosePr (p_number p) (p_repo p))),
                  act (Coord (AbortQueuedForDirs (d_workflow_id d) (d_dirs d)
                    (''Atlantis lock conflict not resolved in '' @ nat_str lock_total_minutes
                     @ '' minutes''))),
                  act ClearIacLocked,
                  stage d (plan_fail_stage v) ''failed'' (Some why),
                  stage d (completed_stage d) ''failed'' (Some why)]
             (give_up ''atlantis_lock_timeout''))))"

text \<open>One slice of the five-minute wait; the result says whether something happened.\<close>

definition conflict_slice :: "pull_request \<Rightarrow> nat \<times> nat \<Rightarrow> (nat \<times> nat + bool \<times> nat) wprog" where
  "conflict_slice p = (\<lambda>(sliced, elapsed).
     if lock_recheck_interval \<le> sliced then ret (Inr (False, elapsed))
     else bind (wait_cond (\<lambda>s. w_plan_result s \<noteq> None \<or> terminal s)) (\<lambda>ok.
       if ok then ret (Inr (True, elapsed))
       else
         let sliced = sliced + plan_poll_interval; elapsed = elapsed + plan_poll_interval in
         if has_repo p then
           bind (ask (PollPrState (p_number p) (p_repo p))) (\<lambda>st.
             if str_of st = ''closed'' then seq (found_closed p) (ret (Inr (True, elapsed)))
             else if str_of st = ''merged'' then seq (found_merged p) (ret (Inr (True, elapsed)))
             else ret (Inl (sliced, elapsed)))
         else ret (Inl (sliced, elapsed))))"

definition newer_lock :: "string \<Rightarrow> int option \<Rightarrow> int option" where
  "newer_lock x locking = (case locking_number x of Some n \<Rightarrow> Some n | None \<Rightarrow> locking)"

definition take_repost_poll :: "string \<Rightarrow> wf \<Rightarrow> wf" where
  "take_repost_poll x s =
     s\<lparr>w_plan_error := (if before_colon x = ''failed''
                         then keep_error (after_colon x) (w_plan_error s) else w_plan_error s),
       w_plan_result := Some (if before_colon x \<in> {''success'', ''failed'', ''lock_conflict''}
                              then before_colon x else ''lock_conflict'')\<rparr>"

text \<open>Asking for a plan again, to see whether the lock is gone.\<close>

definition conflict_repost :: "pull_request \<Rightarrow> int option \<Rightarrow> int option wprog" where
  "conflict_repost p locking =
     look clock (\<lambda>repost_time.
       steps [post_plan p,
              act (DeploymentStatus PLANNING None),
              assign (\<lambda>s. s\<lparr>w_plan_result := None\<rparr>)]
         (seq (wait_cond (\<lambda>s. w_plan_result s \<noteq> None \<or> w_merge_result s \<noteq> None \<or> w_pr_closed s))
           (look w_plan_result (\<lambda>r.
             case r of
               None \<Rightarrow>
                 bind (ask (PollPlan (p_number p) (p_repo p) (Some repost_time))) (\<lambda>x.
                   seq (assign (take_repost_poll (str_of x)))
                     (ret (if before_colon (str_of x) = ''lock_conflict''
                           then newer_lock (str_of x) locking else locking)))
             | Some x \<Rightarrow>
                 if startswith x ''lock_conflict:'' then
                   seq (assign (\<lambda>s. s\<lparr>w_plan_result := Some ''lock_conflict''\<rparr>))
                     (ret (newer_lock x locking))
                 else ret locking))))"

definition conflict_alert :: "deploy \<Rightarrow> int option \<Rightarrow> nat \<Rightarrow> nat \<Rightarrow> nat wprog" where
  "conflict_alert d locking elapsed idx =
     (let minutes = elapsed div 60 in
      if idx < length lock_alert_minutes \<and> lock_alert_minutes ! idx \<le> minutes then
        let final = (length lock_alert_minutes - 1 \<le> idx);
            next = (if final then 0 else int (lock_alert_minutes ! (idx + 1)) - int minutes) in
        bind (ask (GetWaitingUsers (d_dirs d))) (\<lambda>users.
          seq (act (SendLockAlert minutes final users next locking False)) (ret (idx + 1)))
      else ret idx)"

text \<open>What follows the five minutes: a signal or a poll is looked at, or the plan is asked for again.\<close>

definition conflict_next ::
  "deploy \<Rightarrow> pull_request \<Rightarrow> int option \<Rightarrow> nat \<Rightarrow> bool \<times> nat \<Rightarrow> (conflict_vars + unit) wprog" where
  "conflict_next d p locking idx = (\<lambda>(interrupted, elapsed).
     if interrupted then
       look (\<lambda>s. (w_plan_result s, terminal s)) (\<lambda>(r, over).
         case r of
           Some x \<Rightarrow>
             if startswith x ''lock_conflict:'' then
               seq (assign (\<lambda>s. s\<lparr>w_plan_result := Some ''lock_conflict''\<rparr>))
                 (ret (Inl (newer_lock x locking, elapsed, idx)))
             else if over \<or> x \<in> {''success'', ''failed''} then ret (Inr ())
             else ret (Inl (locking, elapsed, idx))
         | None \<Rightarrow> if over then ret (Inr ()) else ret (Inl (locking, elapsed, idx)))
     else
       look terminal (\<lambda>over.
         if over then ret (Inr ())
         else
           bind (if has_repo p then conflict_repost p locking else ret locking) (\<lambda>locking.
             look w_plan_result (\<lambda>r.
               if r \<noteq> Some ''lock_conflict'' then ret (Inr ())
               else bind (conflict_alert d locking elapsed idx) (\<lambda>idx.
                 ret (Inl (locking, elapsed, idx)))))))"

definition conflict_round ::
  "deploy \<Rightarrow> pull_request \<Rightarrow> plan_vars \<Rightarrow> conflict_vars \<Rightarrow> (conflict_vars + unit) wprog" where
  "conflict_round d p v = (\<lambda>(locking, elapsed, idx).
     look w_plan_result (\<lambda>r.
       if r \<noteq> Some ''lock_conflict'' then ret (Inr ())
       else if lock_total_minutes \<le> elapsed div 60 then
         conflict_timeout_exit d p v locking (elapsed div 60)
       else
         seq (assign (\<lambda>s. s\<lparr>w_plan_result := None\<rparr>))
           (bind (repeat (conflict_slice p) (0, elapsed)) (conflict_next d p locking idx))))"

definition conflict_phase :: "deploy \<Rightarrow> pull_request \<Rightarrow> plan_vars \<Rightarrow> string \<Rightarrow> unit wprog" where
  "conflict_phase d p v conflict =
     steps [assign (\<lambda>s. s\<lparr>w_plan_result := Some ''lock_conflict''\<rparr>), act MarkIacLocked]
       (bind (ask (GetWaitingUsers (d_dirs d))) (\<lambda>users.
         steps [act (SendLockAlert 0 False users (int (hd lock_alert_minutes))
                  (locking_number conflict) False),
                repeat (conflict_round d p v) (locking_number conflict, 0, 0)]
           (act ClearIacLocked)))"

subsection \<open>Rounds of the planning phase\<close>

definition plan_failed_round ::
  "deploy \<Rightarrow> pull_request \<Rightarrow> plan_vars \<Rightarrow> (plan_vars + plan_vars) wprog" where
  "plan_failed_round d p v =
     (let attempt = pl_attempt v + 1 in
      if attempt < plan_max_retries then
        steps [assign (\<lambda>s. s\<lparr>w_plan_result := None, w_plan_error := None\<rparr>),
               only_if (has_repo p) (post_plan p)]
          (ret (Inl (v\<lparr>pl_attempt := attempt, pl_exhausted := False, pl_elapsed := 0\<rparr>)))
      else
        steps [act (DeploymentStatus PLAN_FAILED None),
               look w_plan_error (\<lambda>e. stage d ''infra: plan pr'' ''failed''
                 (Some (case nonempty e of Some m \<Rightarrow> Text m | None \<Rightarrow> PlanFailedAfter attempt))),
               stage d ''infra: waiting for manual plan'' ''running'' None,
               act (SendP0Alert (Some (p_number p)) ''Plan Failure Alert'' Everyone)]
          (look clock (\<lambda>now.
             seq (assign (\<lambda>s. s\<lparr>w_plan_result := None, w_plan_error := None\<rparr>))
               (ret (Inl (v\<lparr>pl_attempt := attempt, pl_elapsed := 0, pl_not_before := Some now\<rparr>))))))"

definition plan_decide ::
  "deploy \<Rightarrow> pull_request \<Rightarrow> plan_vars \<Rightarrow> (plan_vars + plan_vars) wprog" where
  "plan_decide d p v =
     look w_plan_result (\<lambda>r. if r = Some ''failed'' then plan_failed_round d p v else ret (Inr v))"

definition plan_round ::
  "deploy \<Rightarrow> pull_request \<Rightarrow> plan_vars \<Rightarrow> (plan_vars + plan_vars) wprog" where
  "plan_round d p v =
     steps [assign (\<lambda>s. s\<lparr>w_step := ''waiting_for_plan''\<rparr>),
            look (\<lambda>s. w_plan_result s = None \<and> w_plan_verification s \<noteq> Some ''destructive'') (\<lambda>fresh.
              only_if (fresh \<and> pl_attempt v < plan_max_retries \<and> \<not> pl_exhausted v)
                (act (DeploymentStatus PLANNING None)))]
       (bind (repeat (plan_wait d p) v) (\<lambda>v.
         look (\<lambda>s. (terminal s, w_plan_result s)) (\<lambda>(over, r).
           if over then ret (Inr v)
           else case r of
             None \<Rightarrow> ret (Inr v)
           | Some x \<Rightarrow>
               if startswith x ''lock_conflict'' then
                 seq (conflict_phase d p v x)
                   (look (\<lambda>s. terminal s \<or> w_plan_result s = Some ''success'') (\<lambda>leave.
                     if leave then ret (Inr v) else plan_decide d p v))
               else plan_decide d p v)))"

text \<open>
  What follows the planning loop.  A phase that lets the run go on returns \<open>Inl\<close> with what the next one
  needs, here \<open>plan_not_before\<close>; one that ends the run returns \<open>Inr\<close> with its result.
\<close>

definition plan_end ::
  "deploy \<Rightarrow> pull_request \<Rightarrow> plan_vars \<Rightarrow> (int option + run_result) wprog" where
  "plan_end d p v =
     checks d p [plan_fail_stage v] Inr
       (steps [look w_plan_verification (\<lambda>vr.
                 only_if (plan_max_retries \<le> pl_attempt v \<or> vr = Some ''destructive'')
                   (stage d ''infra: waiting for manual plan'' ''success'' None)),
               only_if (pl_exhausted v) (stage d ''infra: waiting for manual apply'' ''success'' None),
               act (DeploymentStatus PLANNED_SUCCESSFULLY None),
               stage d ''infra: plan pr'' ''success'' None,
               manual_gate d p []]
          (ret (Inl (pl_not_before v))))"

definition plan_phase ::
  "deploy \<Rightarrow> pull_request \<Rightarrow> bool \<times> int option \<Rightarrow> (int option + run_result) wprog" where
  "plan_phase d p = (\<lambda>(exhausted, not_before).
     seq (assign (\<lambda>s. s\<lparr>w_plan_result := None\<rparr>))
       (bind (repeat (plan_round d p)
               \<lparr>pl_attempt = 0, pl_elapsed = 0, pl_stuck = 0, pl_exhausted = exhausted,
                pl_not_before = not_before\<rparr>)
         (plan_end d p)))"

section \<open>Review of the plan\<close>

definition destructive_note :: "config \<Rightarrow> reason" where
  "destructive_note verdict =
     Text (take 500 (''Destructive plan detected: '' @
       (case opt_str (dict_get verdict ''summary'') of Some m \<Rightarrow> m
        | None \<Rightarrow> ''the plan destroys or replaces existing resources.'')))"

text \<open>What a verdict leads to; the result is whether a fresh plan has to be awaited.\<close>

definition take_verdict :: "deploy \<Rightarrow> pull_request \<Rightarrow> pyval \<Rightarrow> bool wprog" where
  "take_verdict d p answer =
     (let verdict = dict_of answer in
      if truthy (dict_get verdict ''is_destructive'') then
        steps [act (PostVerification (p_number p) (p_repo p) answer),
               act (DeploymentStatus DESTRUCTIVE_PLAN_DETECTED None),
               stage d ''infra: devlift ai review'' ''failed'' (Some (destructive_note verdict)),
               stage d ''infra: waiting for manual plan'' ''running'' None,
               act (SendP0Alert (Some (p_number p)) ''Destructive Plan Detected'' Everyone),
               assign (\<lambda>s. s\<lparr>w_plan_verification := Some ''destructive'', w_plan_result := None\<rparr>)]
          (ret True)
      else
        steps [assign (\<lambda>s. s\<lparr>w_plan_verification := Some ''clean''\<rparr>),
               only_if (truthy (dict_get verdict ''plan_found''))
                 (act (PostVerification (p_number p) (p_repo p) answer)),
               act (DeploymentStatus PLAN_VERIFIED_SUCCESSFULLY None),
               stage d ''infra: devlift ai review'' ''success'' None]
          (ret False))"

text \<open>The verdict of the model that reads the plan; a failure of the call counts as no objection.\<close>

definition verify_phase :: "deploy \<Rightarrow> pull_request \<Rightarrow> int option \<Rightarrow> bool wprog" where
  "verify_phase d p not_before =
     (if \<not> has_repo p then ret False
      else
        steps [assign (\<lambda>s. s\<lparr>w_step := ''verifying_plan''\<rparr>),
               act (DeploymentStatus STARTING_PLAN_VERIFICATION None),
               stage d ''infra: devlift ai review'' ''running'' None]
          (bind (try_except (ask (VerifyPlan (p_number p) (p_repo p) not_before))
                  (\<lambda>_. ret (VDict [(''is_destructive'', VBool False)])))
            (take_verdict d p)))"

section \<open>Approval\<close>

text \<open>The loop variables: \<open>approval_elapsed\<close>, \<open>approval_stuck_count\<close>, \<open>approval_first_alert_sent\<close>.\<close>

type_synonym approval_vars = "nat \<times> nat \<times> bool"

definition approval_fail_stage :: "bool \<Rightarrow> string" where
  "approval_fail_stage alerted = (if alerted then ''infra: waiting for approval'' else ''infra: approve pr'')"

definition poll_approval :: "pull_request \<Rightarrow> unit wprog" where
  "poll_approval p =
     bind (ask (PollApproval (p_number p) (p_repo p)))
       (\<lambda>v. only_if (truthy v) (assign (\<lambda>s. s\<lparr>w_pr_approved := True\<rparr>)))"

definition approval_wait :: "deploy \<Rightarrow> pull_request \<Rightarrow> bool \<Rightarrow> unit wprog" where
  "approval_wait d p alerted =
     bind (wait_cond (\<lambda>s. terminal s \<or> w_pr_approved s)) (\<lambda>ok.
       only_if (\<not> ok \<and> has_repo p)
         (poll_step d p [approval_fail_stage alerted] (poll_approval p)))"

text \<open>The automated approval failed with the error \<open>err\<close>.\<close>

definition approval_failed ::
  "deploy \<Rightarrow> pull_request \<Rightarrow> approval_vars \<Rightarrow> string \<Rightarrow> (approval_vars + bool) wprog" where
  "approval_failed d p = (\<lambda>(elapsed, stuck, alerted) err.
     let elapsed = elapsed + plan_poll_interval in
     steps [act (DeploymentStatus APPROVAL_FAILED None),
            only_if (\<not> alerted)
              (steps [stage d ''infra: approve pr'' ''failed'' (Some (Text (take 500 err))),
                      stage d ''infra: waiting for approval'' ''running'' None]
                (act (SendP0Alert (Some (p_number p)) ''Approval Failed'' Everyone)))]
       (if apply_alert_after \<le> elapsed then
          if stuck_max_alerts \<le> stuck + 1 then
            stuck_exit d p ''Approval stuck for 24 hours. Deployment auto-terminated.''
              ''Approval stuck for 24 hours. Deployment auto-terminated.''
              (approval_fail_stage True) ''approval_stuck_timeout''
          else steps [act (SendP0Alert (Some (p_number p)) ''Approval Stuck Alert'' ChannelOnly),
                      approval_wait d p True]
                 (ret (Inl (0, stuck + 1, True)))
        else seq (approval_wait d p True) (ret (Inl (elapsed, stuck, True)))))"

definition approve_attempt ::
  "deploy \<Rightarrow> pull_request \<Rightarrow> approval_vars \<Rightarrow> (approval_vars + bool) wprog" where
  "approve_attempt d p v =
     bind (try_except (seq (ask (ApprovePr (p_number p) (p_repo p))) (ret None))
            (\<lambda>e. ret (Some (text_of e))))
       (\<lambda>failed. case failed of
          None \<Rightarrow> seq (assign (\<lambda>s. s\<lparr>w_pr_approved := True\<rparr>)) (ret (Inl (0, 0, False)))
        | Some err \<Rightarrow> approval_failed d p v err)"

definition approve_round ::
  "deploy \<Rightarrow> pull_request \<Rightarrow> approval_vars \<Rightarrow> (approval_vars + bool) wprog" where
  "approve_round d p v =
     look (\<lambda>s. terminal s \<or> w_pr_approved s) (\<lambda>over.
       if over then ret (Inr (snd (snd v))) else approve_attempt d p v)"

definition approve_end :: "deploy \<Rightarrow> pull_request \<Rightarrow> bool \<Rightarrow> (unit + run_result) wprog" where
  "approve_end d p alerted =
     seq (look (\<lambda>s. w_pr_approved s \<and> w_merge_result s = None \<and> \<not> w_pr_closed s) (\<lambda>approved.
            only_if approved
              (steps [act (DeploymentStatus APPROVED_SUCCESSFULLY None)]
                (stage d (approval_fail_stage alerted) ''success'' None))))
       (checks d p [approval_fail_stage alerted] Inr (ret (Inl ())))"

definition approve_phase :: "deploy \<Rightarrow> pull_request \<Rightarrow> (unit + run_result) wprog" where
  "approve_phase d p =
     (if has_repo p \<and> d_approval d then
        steps [assign (\<lambda>s. s\<lparr>w_step := ''waiting_for_approval'', w_pr_approved := False\<rparr>),
               act (DeploymentStatus STARTING_APPROVAL None),
               stage d ''infra: approve pr'' ''running'' None]
          (bind (repeat (approve_round d p) (0, 0, False)) (approve_end d p))
      else ret (Inl ()))"

section \<open>Apply\<close>

definition take_apply_poll :: "string \<Rightarrow> wf \<Rightarrow> wf" where
  "take_apply_poll x s =
     (if before_colon x \<in> {''success'', ''failed''} then
        s\<lparr>w_apply_result := Some (before_colon x),
          w_apply_error := (if before_colon x = ''failed''
                            then keep_error (after_colon x) (w_apply_error s) else w_apply_error s)\<rparr>
      else s)"

definition poll_apply :: "pull_request \<Rightarrow> unit wprog" where
  "poll_apply p =
     bind (ask (PollApply (p_number p) (p_repo p))) (\<lambda>v. assign (take_apply_poll (str_of v)))"

definition apply_stuck_check ::
  "deploy \<Rightarrow> pull_request \<Rightarrow> nat \<times> nat \<Rightarrow> (nat \<times> nat) wprog" where
  "apply_stuck_check d p = (\<lambda>(elapsed, stuck).
     look w_apply_result (\<lambda>r.
       if r = None \<and> apply_alert_after \<le> elapsed then
         (if stuck_max_alerts \<le> stuck + 1 then
            stuck_exit d p ''Apply stuck for 24 hours. Deployment auto-terminated.''
              ''Apply stuck for 24 hours with no result from Atlantis. Deployment auto-terminated.''
              ''infra: apply pr'' ''apply_stuck_timeout''
          else seq (act (SendP0Alert (Some (p_number p)) ''Apply Stuck Alert'' ChannelOnly))
                 (ret (0, stuck + 1)))
       else ret (elapsed, stuck)))"

text \<open>The loop variables: \<open>apply_elapsed\<close>, \<open>apply_stuck_count\<close>.\<close>

definition apply_wait ::
  "deploy \<Rightarrow> pull_request \<Rightarrow> nat \<times> nat \<Rightarrow> (nat \<times> nat + unit) wprog" where
  "apply_wait d p = (\<lambda>(elapsed, stuck).
     look (\<lambda>s. w_apply_result s \<noteq> None \<or> terminal s) (\<lambda>over.
       if over then ret (Inr ())
       else bind (wait_cond (\<lambda>s. w_apply_result s \<noteq> None \<or> terminal s)) (\<lambda>ok.
         if ok then ret (Inl (elapsed, stuck))
         else seq (only_if (has_repo p) (poll_step d p [''infra: apply pr''] (poll_apply p)))
           (bind (apply_stuck_check d p (elapsed + apply_poll_interval, stuck)) (\<lambda>v. ret (Inl v))))))"

definition apply_exhausted_steps :: "deploy \<Rightarrow> pull_request \<Rightarrow> nat \<Rightarrow> unit wprog" where
  "apply_exhausted_steps d p attempt =
     steps [act (DeploymentStatus APPLY_FAILED None),
            look w_apply_error (\<lambda>e. stage d ''infra: apply pr'' ''failed''
              (Some (case nonempty e of Some m \<Rightarrow> Text m | None \<Rightarrow> ApplyFailedAfter attempt))),
            stage d ''infra: waiting for manual apply'' ''running'' None]
       (act (SendP0Alert (Some (p_number p)) ''Apply Failure Alert'' Everyone))"

text \<open>One attempt: the apply comment, and the wait for its result.\<close>

definition apply_attempt :: "deploy \<Rightarrow> pull_request \<Rightarrow> unit wprog" where
  "apply_attempt d p =
     steps [assign (\<lambda>s. s\<lparr>w_step := ''posting_apply_comment'', w_apply_result := None,
                          w_apply_error := None\<rparr>),
            only_if (has_repo p) (act (PostApplyComment (p_number p) (p_repo p) (p_project p))),
            look w_apply_result (\<lambda>r. only_if (r = None) (act (DeploymentStatus APPLYING None))),
            assign (\<lambda>s. s\<lparr>w_step := ''waiting_for_apply''\<rparr>)]
       (repeat (apply_wait d p) (0, 0))"

text \<open>What follows an attempt; the loop variable counts the failed ones.\<close>

definition apply_decide ::
  "deploy \<Rightarrow> pull_request \<Rightarrow> nat \<Rightarrow> (nat + (unit + run_result)) wprog" where
  "apply_decide d p attempt =
     look w_apply_result (\<lambda>r.
       if r \<noteq> Some ''failed'' then ret (Inr (Inl ()))
       else if attempt + 1 < apply_max_retries then ret (Inl (attempt + 1))
       else seq (apply_exhausted_steps d p (attempt + 1)) (ret (Inr (Inl ()))))"

definition apply_round ::
  "deploy \<Rightarrow> pull_request \<Rightarrow> nat \<Rightarrow> (nat + (unit + run_result)) wprog" where
  "apply_round d p attempt =
     seq (apply_attempt d p)
       (checks d p [''infra: apply pr''] (\<lambda>r. Inr (Inr r)) (apply_decide d p attempt))"

definition apply_phase :: "deploy \<Rightarrow> pull_request \<Rightarrow> (unit + run_result) wprog" where
  "apply_phase d p =
     steps [manual_gate d p [],
            act (DeploymentStatus STARTING_APPLYING None),
            stage d ''infra: apply pr'' ''running'' None,
            assign (\<lambda>s. s\<lparr>w_apply_result := None\<rparr>)]
       (repeat (apply_round d p) 0)"

section \<open>Merge\<close>

text \<open>
  The loop variables: \<open>merge_attempt\<close> and \<open>merge_outcome\<close>.  The result has them, and the new
  \<open>plan_not_before\<close> when the branch has to be planned again.
\<close>

definition replan ::
  "deploy \<Rightarrow> pull_request \<Rightarrow> string \<Rightarrow> int option wprog" where
  "replan d p why =
     seq (post_plan p)
       (look clock (\<lambda>now.
         steps [assign (\<lambda>s. s\<lparr>w_plan_result := None\<rparr>),
                stage d ''infra: merge pr'' ''failed'' (Some (Text why))]
           (ret (Some now))))"

definition merge_round ::
  "deploy \<Rightarrow> pull_request \<Rightarrow> nat \<times> string \<Rightarrow> (nat \<times> string + nat \<times> string \<times> int option) wprog" where
  "merge_round d p = (\<lambda>(attempt, outcome).
     look (\<lambda>s. w_merge_result s \<noteq> None \<or> w_pr_closed s) (\<lambda>over.
       if merge_max_retries \<le> attempt \<or> over \<or> \<not> has_repo p then ret (Inr (attempt, outcome, None))
       else
         bind (try_except (bind (ask (CheckAndMerge (p_number p) (p_repo p))) (\<lambda>v. ret (str_of v)))
                (\<lambda>_. ret ''failed''))
           (\<lambda>result.
             if result = ''conflict'' then
               seq (act (ResolveConflict (p_number p) (p_repo p)))
                 (bind (replan d p ''Merge blocked by a conflict with the base branch: resolved, re-planning.'')
                   (\<lambda>now. ret (Inr (attempt + 1, result, now))))
             else if result = ''stale'' then
               bind (replan d p ''Base branch moved after the last plan: re-planning before merge.'')
                 (\<lambda>now. ret (Inr (attempt + 1, result, now)))
             else if result = ''merged'' then
               seq (assign (\<lambda>s. s\<lparr>w_merge_result := Some ''merged''\<rparr>))
                 (ret (Inr (attempt + 1, result, None)))
             else ret (Inl (attempt + 1, result)))))"

definition merge_wait :: "pull_request \<Rightarrow> nat \<Rightarrow> (nat + unit) wprog" where
  "merge_wait p elapsed =
     look (\<lambda>s. terminal s \<or> w_merge_conflict s) (\<lambda>over.
       if over then ret (Inr ())
       else bind (wait_cond (\<lambda>s. terminal s \<or> w_merge_conflict s)) (\<lambda>ok.
         if ok then ret (Inl elapsed)
         else
           let elapsed = elapsed + merge_poll_interval in
           seq (only_if (has_repo p)
                  (bind (ask (PollPrState (p_number p) (p_repo p))) (\<lambda>st.
                    if str_of st = ''merged'' then found_merged p
                    else only_if (str_of st = ''closed'') (found_closed p))))
             (look (\<lambda>s. w_merge_result s \<noteq> None \<or> w_merge_conflict s \<or> w_pr_closed s) (\<lambda>over.
               if \<not> over \<and> merge_alert_after \<le> elapsed then
                 seq (act (SendP0Alert (Some (p_number p)) ''Merge Stuck'' Everyone)) (ret (Inl 0))
               else ret (Inl elapsed)))))"

text \<open>What the outer loop does next: go back to planning with its two variables, or succeed.\<close>

definition merge_phase_end ::
  "deploy \<Rightarrow> pull_request \<Rightarrow> int option \<Rightarrow> nat \<Rightarrow> (bool \<times> int option + run_result) wprog" where
  "merge_phase_end d p not_before attempts =
     look w_pr_closed (\<lambda>closed.
       if closed then
         closed_exit d [if merge_max_retries \<le> attempts then ''infra: waiting for merge'' else ''infra: merge pr'']
       else look w_merge_result (\<lambda>merged.
         if merged \<noteq> None then
           seq (only_if (merge_max_retries \<le> attempts) (stage d ''infra: waiting for merge'' ''success'' None))
             (bind (success_end d p) (\<lambda>r. ret (Inr r)))
         else ret (Inl (False, not_before))))"

definition merge_exhausted_steps :: "deploy \<Rightarrow> pull_request \<Rightarrow> unit wprog" where
  "merge_exhausted_steps d p =
     steps [stage d ''infra: merge pr'' ''failed'' (Some (MergeFailedAfter merge_max_retries)),
            stage d ''infra: waiting for merge'' ''running'' None]
       (act (SendP0Alert (Some (p_number p)) ''Merge Failed'' Everyone))"

definition merge_run ::
  "deploy \<Rightarrow> pull_request \<Rightarrow> int option \<Rightarrow> (bool \<times> int option + run_result) wprog" where
  "merge_run d p not_before =
     steps [act (DeploymentStatus APPLIED_SUCCESSFULLY None),
            stage d ''infra: apply pr'' ''success'' None,
            stage d ''infra: merge pr'' ''running'' None,
            manual_gate d p [''infra: merge pr'']]
       (bind (repeat (merge_round d p) (0, [])) (\<lambda>(attempts, result, replanned).
         if result = ''conflict'' \<or> result = ''stale'' then ret (Inl (False, replanned))
         else
           steps [look (\<lambda>s. w_merge_result s \<noteq> None \<or> w_pr_closed s) (\<lambda>over.
                    only_if (\<not> over \<and> merge_max_retries \<le> attempts) (merge_exhausted_steps d p)),
                  act (QueueStatus ''DEPLOYING''),
                  assign (\<lambda>s. s\<lparr>w_merge_conflict := False, w_step := ''waiting_for_merge''\<rparr>),
                  repeat (merge_wait p) 0]
             (merge_phase_end d p not_before attempts)))"

section \<open>The run\<close>

text \<open>
  One round of the outer loop: plan, review, approve, apply, merge.  The loop variables are
  \<open>apply_exhausted\<close> and \<open>plan_not_before\<close>.
\<close>

definition after_apply ::
  "deploy \<Rightarrow> pull_request \<Rightarrow> int option \<Rightarrow> (bool \<times> int option + run_result) wprog" where
  "after_apply d p not_before =
     look (\<lambda>s. (w_apply_result s, clock s)) (\<lambda>(r, now).
       if r = Some ''failed'' then ret (Inl (True, Some now)) else merge_run d p not_before)"

definition go_on :: "('x + run_result) wprog \<Rightarrow> ('x \<Rightarrow> ('y + run_result) wprog) \<Rightarrow> ('y + run_result) wprog" where
  "go_on m k = bind m (\<lambda>r. case r of Inl x \<Rightarrow> k x | Inr res \<Rightarrow> ret (Inr res))"

definition outer_round ::
  "deploy \<Rightarrow> pull_request \<Rightarrow> bool \<times> int option \<Rightarrow> (bool \<times> int option + run_result) wprog" where
  "outer_round d p v =
     go_on (plan_phase d p v) (\<lambda>not_before.
       bind (verify_phase d p not_before) (\<lambda>destructive.
         if destructive then look clock (\<lambda>now. ret (Inl (False, Some now)))
         else go_on (approve_phase d p) (\<lambda>_.
           go_on (apply_phase d p) (\<lambda>_. after_apply d p not_before))))"

definition pr_started :: "deploy \<Rightarrow> pull_request \<Rightarrow> unit wprog" where
  "pr_started d p =
     steps [act (SendStartedDm (p_number p)),
            act (DeploymentStatus STARTING_PLANNING None),
            act RecordGatewayRoutes,
            record_created_prs d True,
            stage d ''infra: plan pr'' ''running'' None]
       (only_if (has_repo p) (post_plan p))"

definition run_deploy :: "deploy \<Rightarrow> run_result wprog" where
  "run_deploy d =
     steps [assign (\<lambda>s. s\<lparr>w_tenant_code := d_tenant d, w_user_code := d_user d\<rparr>), acquire_phase d]
       (bind (create_pr d) (\<lambda>info.
         let p = pull_request_of info in
         seq (assign (keep_pr_info info))
           (look w_secondary (\<lambda>secondary.
             if p_number p = 0 then (if secondary \<noteq> [] then secondary_only_end d else no_pr_end d)
             else seq (pr_started d p) (repeat (outer_round d p) (False, None))))))"

end
