(* ===== verification/DeploySafety.thy ===== *)
theory DeploySafety
  imports DeployWorkflow WorkflowLogic
begin

text \<open>
  Safety of the deployment workflow over every script of answers, signals and time-outs: which commands
  a run may issue when (apply only a verified and approved plan, merge only an applied one, report a
  deployment only when its pull request is merged), and what it leaves at the coordinator when it ends.
\<close>

section \<open>What the trace shows\<close>

text \<open>
  \<open>NotAsked\<close>: no approval was asked for since the last review of the plan.  \<open>g_merged\<close> also
  covers a run that has no pull request to merge.
\<close>

datatype approval_state = NotAsked | Asked | Granted

record gate =
  g_locked :: bool
  g_verified :: bool
  g_approval :: approval_state
  g_applies :: nat
  g_applied :: bool
  g_merged :: bool

text \<open>The review did not report the plan as destructive; a review that failed reports nothing.\<close>

definition no_objection :: "reply \<Rightarrow> bool" where
  "no_objection r = (case r of Done v \<Rightarrow> \<not> truthy (dict_get (dict_of v) ''is_destructive'') | _ \<Rightarrow> True)"

definition grant :: "gate \<Rightarrow> gate" where
  "grant g = (if g_approval g = NotAsked then g else g\<lparr>g_approval := Granted\<rparr>)"

definition gate_issued :: "deploy_cmd \<Rightarrow> gate \<Rightarrow> gate" where
  "gate_issued c g =
     (case c of
        VerifyPlan _ _ _ \<Rightarrow> g\<lparr>g_verified := False, g_approval := NotAsked, g_applies := 0\<rparr>
      | PostPlanComment _ _ _ \<Rightarrow> g\<lparr>g_verified := False\<rparr>
      | PostApplyComment _ _ _ \<Rightarrow> g\<lparr>g_applies := g_applies g + 1, g_applied := False\<rparr>
      | DeploymentStatus st _ \<Rightarrow> if st = STARTING_APPROVAL then g\<lparr>g_approval := Asked\<rparr> else g
      | _ \<Rightarrow> g)"

definition gate_got :: "deploy_cmd \<Rightarrow> reply \<Rightarrow> gate \<Rightarrow> gate" where
  "gate_got c r g =
     (case c of
        VerifyPlan _ _ _ \<Rightarrow> g\<lparr>g_verified := no_objection r\<rparr>
      | ApprovePr _ _ \<Rightarrow> if answered (\<lambda>_. True) r then grant g else g
      | PollApproval _ _ \<Rightarrow> if answered truthy r then grant g else g
      | PollApply _ _ \<Rightarrow>
          if answered (\<lambda>v. before_colon (str_of v) = ''success'') r then g\<lparr>g_applied := True\<rparr> else g
      | PollPrState _ _ \<Rightarrow> if answered (\<lambda>v. str_of v = ''merged'') r then g\<lparr>g_merged := True\<rparr> else g
      | CheckAndMerge _ _ \<Rightarrow> if answered (\<lambda>v. str_of v = ''merged'') r then g\<lparr>g_merged := True\<rparr> else g
      | RunScriptPr \<Rightarrow>
          if answered (\<lambda>v. opt_int (dict_get (dict_of v) ''pr_number'') = None) r
          then g\<lparr>g_merged := True\<rparr> else g
      | _ \<Rightarrow> g)"

definition gate_heard :: "wf_signal \<Rightarrow> gate \<Rightarrow> gate" where
  "gate_heard sig g =
     (case sig of
        S_locks_granted \<Rightarrow> g\<lparr>g_locked := True\<rparr>
      | S_pr_approved \<Rightarrow> grant g
      | S_apply_completed \<Rightarrow> g\<lparr>g_applied := True\<rparr>
      | S_pr_merged \<Rightarrow> g\<lparr>g_merged := True\<rparr>
      | _ \<Rightarrow> g)"

fun gate_step :: "(wf_signal, deploy_cmd) event \<Rightarrow> gate \<Rightarrow> gate" where
  "gate_step (Issued c) g = gate_issued c g"
| "gate_step (Got c r) g = gate_got c r g"
| "gate_step (Heard sig) g = gate_heard sig g"

definition gate_of :: "(wf_signal, deploy_cmd) event list \<Rightarrow> gate" where
  "gate_of tr = fold gate_step tr
     \<lparr>g_locked = False, g_verified = False, g_approval = NotAsked, g_applies = 0, g_applied = False, g_merged = False\<rparr>"

text \<open>Which commands the trace so far permits; \<open>approval\<close> is the approval switch.\<close>

definition permitted :: "bool \<Rightarrow> gate \<Rightarrow> deploy_cmd \<Rightarrow> bool" where
  "permitted approval g c =
     (case c of
        RunScriptPr \<Rightarrow> g_locked g
      | PostApplyComment _ _ _ \<Rightarrow>
          g_verified g \<and> (approval \<longrightarrow> g_approval g = Granted) \<and> g_applies g < apply_max_retries
      | CheckAndMerge _ _ \<Rightarrow> g_applied g
      | MergeSecondary _ _ _ \<Rightarrow> g_merged g
      | ResourceStatus _ \<Rightarrow> g_merged g
      | DeploymentStatus st _ \<Rightarrow> st = DEPLOYED \<longrightarrow> g_merged g
      | _ \<Rightarrow> True)"

definition lawful :: "bool \<Rightarrow> (wf_signal, deploy_cmd) event list \<Rightarrow> bool" where
  "lawful approval = follows (\<lambda>pre. permitted approval (gate_of pre))"

lemma gate_of_append [simp]: "gate_of (tr @ es) = fold gate_step es (gate_of tr)"
  by (simp add: gate_of_def)

lemma lawful_Nil [simp]: "lawful a []"
  by (simp add: lawful_def)

lemma lawful_snoc [simp]:
  "lawful a (tr @ [e]) \<longleftrightarrow> lawful a tr \<and> (\<forall>c. e = Issued c \<longrightarrow> permitted a (gate_of tr) c)"
  by (simp add: lawful_def)

lemma lawful_two [simp]:
  "lawful a (tr @ [e, e']) \<longleftrightarrow>
     lawful a (tr @ [e]) \<and> (\<forall>c. e' = Issued c \<longrightarrow> permitted a (gate_of (tr @ [e])) c)"
  using lawful_snoc [of a "tr @ [e]" e'] by simp

section \<open>The invariant\<close>

text \<open>What the attributes say is backed by the trace.\<close>

definition deploy_inv :: "deploy \<Rightarrow> wf \<Rightarrow> bool" where
  "deploy_inv d s \<longleftrightarrow>
     lawful (d_approval d) (trace s) \<and>
     (w_locks_granted s \<longrightarrow> g_locked (gate_of (trace s))) \<and>
     (w_merge_result s \<noteq> None \<longrightarrow> g_merged (gate_of (trace s))) \<and>
     (w_apply_result s \<notin> {None, Some ''failed''} \<longrightarrow> g_applied (gate_of (trace s))) \<and>
     (w_pr_approved s \<longrightarrow> g_approval (gate_of (trace s)) \<noteq> Asked)"

text \<open>The commands that neither need a permission nor take one away.\<close>

definition routine :: "deploy_cmd \<Rightarrow> bool" where
  "routine c =
     (case c of
        VerifyPlan _ _ _ \<Rightarrow> False | PostPlanComment _ _ _ \<Rightarrow> False | PostApplyComment _ _ _ \<Rightarrow> False
      | CheckAndMerge _ _ \<Rightarrow> False | MergeSecondary _ _ _ \<Rightarrow> False | ResourceStatus _ \<Rightarrow> False
      | DeploymentStatus st _ \<Rightarrow> st \<noteq> DEPLOYED \<and> st \<noteq> STARTING_APPROVAL
      | RunScriptPr \<Rightarrow> False
      | _ \<Rightarrow> True)"

named_theorems gate_defs \<open>evaluation of the gate\<close>

lemmas [gate_defs] = gate_issued_def gate_got_def gate_heard_def grant_def

lemma gate_kept:
  "routine c \<Longrightarrow> gate_issued c g = g"
  by (cases c) (auto simp: routine_def gate_issued_def)

lemma routine_permitted: "routine c \<Longrightarrow> permitted a g c"
  by (cases c) (auto simp: routine_def permitted_def)

lemma got_g_locked: "g_locked (gate_got c r g) = g_locked g"
  by (cases c) (auto simp: gate_defs)

lemma got_g_merged: "g_merged g \<Longrightarrow> g_merged (gate_got c r g)"
  by (cases c) (auto simp: gate_defs)

lemma got_g_applied: "g_applied g \<Longrightarrow> g_applied (gate_got c r g)"
  by (cases c) (auto simp: gate_defs)

lemma got_g_approval:
  "g_approval (gate_got c r g) = g_approval g \<or>
   g_approval g \<noteq> NotAsked \<and> g_approval (gate_got c r g) = Granted"
  by (cases c) (auto simp: gate_defs)

lemma inv_got: "deploy_inv d s \<Longrightarrow> deploy_inv d (logged (Got c r) s)"
  using got_g_approval [of c r "gate_of (trace s)"]
  by (auto simp: deploy_inv_def logged_def got_g_locked got_g_merged got_g_applied)

lemma inv_issued: "routine c \<Longrightarrow> deploy_inv d s \<Longrightarrow> deploy_inv d (logged (Issued c) s)"
  by (auto simp: deploy_inv_def logged_def gate_kept routine_permitted)

lemma inv_signal: "deploy_inv d s \<Longrightarrow> deploy_inv d (on_signal g (logged (Heard g) s))"
  by (cases g) (auto simp: deploy_inv_def logged_def gate_defs permitted_def Let_def split: option.splits)

interpretation dw: workflow_rules on_signal "deploy_inv d" routine for d
proof unfold_locales
  fix s :: wf and g t ts
  show "deploy_inv d s \<Longrightarrow> deploy_inv d (take_turn t ts s)" by (simp add: deploy_inv_def take_turn_def)
  show "\<exists>cs. trace (on_signal g s) = trace s @ map Issued cs \<and> list_all routine cs"
  proof (cases g)
    case (S_merge_conflict_detected repo)
    then show ?thesis
    proof (cases "w_pr_number s")
      case (Some n)
      then show ?thesis using S_merge_conflict_detected
        by (intro exI [of _ "[Coord (EnqueueMerge n repo (w_tenant_code s) (w_user_code s))]"])
           (simp add: Let_def routine_def)
    qed (simp add: Let_def)
  qed simp_all
qed (auto intro: inv_got inv_issued inv_signal)

section \<open>Facts the run relies on\<close>

definition is_release :: "deploy \<Rightarrow> (wf_signal, deploy_cmd) event \<Rightarrow> bool" where
  "is_release d e \<longleftrightarrow>
     e = Issued (Coord (ReleaseLocks (d_workflow_id d) (Some (d_dirs d)))) \<or>
     (case e of
        Issued (Coord (AbortQueuedForDirs w ds _)) \<Rightarrow> w = d_workflow_id d \<and> ds = d_dirs d
      | _ \<Rightarrow> False)"

definition released :: "deploy \<Rightarrow> (wf_signal, deploy_cmd) event list \<Rightarrow> bool" where
  "released d tr = list_ex (is_release d) tr"

text \<open>
  How a run may be left by an error: the engine reported a failed activity, the queued request was
  aborted, or the locks were given back.
\<close>

definition left_ok :: "deploy \<Rightarrow> failure \<Rightarrow> wf \<Rightarrow> bool" where
  "left_ok d e s =
     (case e of ActivityFailed _ \<Rightarrow> True | AppFailed r \<Rightarrow> r = ''aborted_lock_conflict'' \<or> released d (trace s))"

lemma left_ok_simps [simp]:
  "left_ok d (ActivityFailed m) s"
  "left_ok d (AppFailed r) s \<longleftrightarrow> r = ''aborted_lock_conflict'' \<or> released d (trace s)"
  by (simp_all add: left_ok_def)

abbreviation steady :: "((wf_signal, deploy_cmd) event list \<Rightarrow> bool) \<Rightarrow> bool" where
  "steady \<equiv> calm routine"

lemma got_g_verified: "routine c \<Longrightarrow> g_verified (gate_got c r g) = g_verified g"
  by (cases c) (auto simp: gate_defs routine_def)

lemma got_g_applies: "g_applies (gate_got c r g) = g_applies g"
  if "routine c" using that by (cases c) (auto simp: gate_defs routine_def)

lemma heard_gate:
  "g_locked g \<Longrightarrow> g_locked (gate_heard sg g)" "g_verified (gate_heard sg g) = g_verified g" "g_applies (gate_heard sg g) = g_applies g"
  "g_merged g \<Longrightarrow> g_merged (gate_heard sg g)" "g_applied g \<Longrightarrow> g_applied (gate_heard sg g)"
  "g_approval g = Granted \<Longrightarrow> g_approval (gate_heard sg g) = Granted"
  "g_approval g \<noteq> NotAsked \<Longrightarrow> g_approval (gate_heard sg g) \<noteq> NotAsked"
  by (cases sg; auto simp: gate_defs)+

lemma got_granted: "g_approval g = Granted \<Longrightarrow> g_approval (gate_got c r g) = Granted"
  "g_approval g \<noteq> NotAsked \<Longrightarrow> g_approval (gate_got c r g) \<noteq> NotAsked"
  using got_g_approval [of c r g] by auto

lemma steady_gate [intro]:
  "steady (\<lambda>tr. g_locked (gate_of tr))"
  "steady (\<lambda>tr. g_verified (gate_of tr))"
  "steady (\<lambda>tr. g_applies (gate_of tr) = n)"
  "steady (\<lambda>tr. g_merged (gate_of tr))"
  "steady (\<lambda>tr. g_applied (gate_of tr))"
  "steady (\<lambda>tr. g_approval (gate_of tr) = Granted)"
  "steady (\<lambda>tr. g_approval (gate_of tr) \<noteq> NotAsked)"
  by (auto simp: calm_def gate_kept got_g_locked got_g_verified got_g_applies got_g_merged got_g_applied heard_gate
           got_granted)

lemma steady_released [intro]: "steady (released d)"
  by (auto simp: calm_def released_def is_release_def)

section \<open>Phases that issue routine commands only\<close>

lemma act_quiet [quiet_rules]:
  "routine c \<Longrightarrow> steady T \<Longrightarrow> (\<And>s m. T (trace s) \<Longrightarrow> E (ActivityFailed m) s) \<Longrightarrow>
    quiet (deploy_inv d) E T (act c)"
  unfolding act_def ask_def by (intro quiet_rules) auto

lemma ask_quiet [quiet_rules]:
  "routine c \<Longrightarrow> steady T \<Longrightarrow> (\<And>s m. T (trace s) \<Longrightarrow> E (ActivityFailed m) s) \<Longrightarrow>
    quiet (deploy_inv d) E T (ask c)"
  unfolding ask_def by (intro quiet_rules) auto

lemma wait_cond_quiet [quiet_rules]: "steady T \<Longrightarrow> quiet (deploy_inv d) E T (wait_cond cond)"
  unfolding wait_cond_def by (rule quiet_rules)

lemma stage_quiet [quiet_rules]:
  "steady T \<Longrightarrow> quiet (deploy_inv d) (left_ok d) T (stage d name status err)"
  unfolding stage_def by (rule act_quiet) (auto simp: routine_def)

lemma release_quiet [quiet_rules]: "steady T \<Longrightarrow> quiet (deploy_inv d) (left_ok d) T (release d)"
  unfolding release_def by (rule act_quiet) (auto simp: routine_def)

lemma ask_triple:
  assumes "steady T"
    and "\<And>s. deploy_inv d s \<Longrightarrow> P s \<Longrightarrow> deploy_inv d (logged (Issued c) s) \<and> T (trace s @ [Issued c])"
    and "\<And>s tr m r. deploy_inv d s \<Longrightarrow> trace s = tr @ [Got c r] \<Longrightarrow> (\<And>v. r \<noteq> Done v) \<Longrightarrow> T tr \<Longrightarrow>
      E (ActivityFailed m) s"
  shows "triple (deploy_inv d) E P (ask c) (\<lambda>v s. \<exists>tr. trace s = tr @ [Got c (Done v)] \<and> T tr)"
  unfolding ask_def using assms by (intro dw.await_triple) (auto intro: inv_got)

lemma act_triple:
  assumes "steady T"
    and "\<And>s. deploy_inv d s \<Longrightarrow> P s \<Longrightarrow> deploy_inv d (logged (Issued c) s) \<and> T (trace s @ [Issued c])"
    and "\<And>tr r. T tr \<Longrightarrow> U (tr @ [Got c r])"
    and "\<And>s m. U (trace s) \<Longrightarrow> E (ActivityFailed m) s"
  shows "triple (deploy_inv d) E P (act c) (\<lambda>_ s. U (trace s))"
  unfolding act_def
  by (rule triple_bind [OF ask_triple [where T = T and P = P]], use assms in \<open>auto intro: triple_ret\<close>)

text \<open>After \<open>release_locks\<close> was sent, the run may end.\<close>

lemma release_triple:
  assumes T: "steady T"
  shows "triple (deploy_inv d) (left_ok d) (\<lambda>s. T (trace s)) (release d)
           (\<lambda>_ s. T (trace s) \<and> released d (trace s))"
  unfolding release_def
proof (rule act_triple [where T = "\<lambda>tr. T tr \<and> released d tr"])
  let ?U = "\<lambda>tr. T tr \<and> released d tr"
  let ?c = "Coord (ReleaseLocks (d_workflow_id d) (Some (d_dirs d)))"
  show "steady ?U" using T by blast
  then show "?U (tr @ [Got ?c r])" if "?U tr" for tr r
    using that by (simp add: calm_def routine_def)
  show "deploy_inv d (logged (Issued ?c) s) \<and> ?U (trace s @ [Issued ?c])"
    if "deploy_inv d s" "T (trace s)" for s
    using that T by (simp add: inv_issued routine_def calm_def released_def is_release_def)
qed simp

lemma quiet_after_release:
  "steady T \<Longrightarrow> quiet (deploy_inv d) (left_ok d) (\<lambda>tr. T tr \<and> released d tr) m \<Longrightarrow>
    triple (deploy_inv d) (left_ok d) (\<lambda>s. T (trace s)) (seq (release d) m)
      (\<lambda>_ s. T (trace s) \<and> released d (trace s))"
  unfolding quiet_def by (rule triple_bind [OF release_triple])

lemma quiet_release:
  "steady T \<Longrightarrow> quiet (deploy_inv d) (left_ok d) (\<lambda>tr. T tr \<and> released d tr) m \<Longrightarrow>
    quiet (deploy_inv d) (left_ok d) T (seq (release d) m)"
  unfolding quiet_def [of _ _ T] by (rule triple_weaken [OF quiet_after_release [where T = T]]) auto

lemma give_up_quiet:
  "(\<And>tr. T tr \<Longrightarrow> r = ''aborted_lock_conflict'' \<or> released d tr) \<Longrightarrow>
    quiet (deploy_inv d) (left_ok d) T (give_up r)"
  unfolding give_up_def by (intro quiet_bind quiet_assign quiet_throw) (auto simp: deploy_inv_def)

lemma give_up_any:
  "(\<And>s. P s \<Longrightarrow> r = ''aborted_lock_conflict'' \<or> released d (trace s)) \<Longrightarrow>
    triple (deploy_inv d) (left_ok d) P (give_up r) Q"
  unfolding give_up_def
  by (intro triple_bind [where R = "\<lambda>_ s. r = ''aborted_lock_conflict'' \<or> released d (trace s)"]
        triple_assign triple_throw) (auto simp: deploy_inv_def)

lemma steps_append: "steps (ms @ ns) n = steps ms (steps ns n)"
  by (induction ms) auto

lemma fail_exit_quiet:
  assumes "steady T" "\<And>m. m \<in> set alerts \<Longrightarrow> quiet (deploy_inv d) (left_ok d) T m"
  shows "quiet (deploy_inv d) (left_ok d) T (fail_exit d note1 alerts note2 stages r)"
proof -
  let ?U = "\<lambda>tr. T tr \<and> released d tr"
  have "quiet (deploy_inv d) (left_ok d) T (seq (release d)
    (steps (map (\<lambda>st. stage d st ''failed'' (Some note2)) (stages @ [completed_stage d])) (give_up r)))"
    by (intro quiet_release quiet_steps give_up_quiet) (auto intro!: stage_quiet assms)
  from quiet_steps [OF assms(2) this] have
    "quiet (deploy_inv d) (left_ok d) T (steps alerts (seq (release d)
    (steps (map (\<lambda>st. stage d st ''failed'' (Some note2)) (stages @ [completed_stage d])) (give_up r))))" .
  then show ?thesis unfolding fail_exit_def steps_append steps.simps
    by (intro quiet_bind act_quiet assms(1)) (auto simp: routine_def)
qed

text \<open>Assignments that touch none of the attributes the invariant reads.\<close>

lemma inv_attributes [simp]:
  "deploy_inv d (s\<lparr>w_step := a\<rparr>) = deploy_inv d s"
  "deploy_inv d (s\<lparr>w_result := b\<rparr>) = deploy_inv d s"
  "deploy_inv d (s\<lparr>w_plan_result := c\<rparr>) = deploy_inv d s"
  "deploy_inv d (s\<lparr>w_plan_error := c\<rparr>) = deploy_inv d s"
  "deploy_inv d (s\<lparr>w_plan_verification := c\<rparr>) = deploy_inv d s"
  "deploy_inv d (s\<lparr>w_apply_error := c\<rparr>) = deploy_inv d s"
  "deploy_inv d (s\<lparr>w_pr_closed := e\<rparr>) = deploy_inv d s"
  "deploy_inv d (s\<lparr>w_merge_conflict := e\<rparr>) = deploy_inv d s"
  "deploy_inv d (s\<lparr>w_tenant_code := a\<rparr>) = deploy_inv d s"
  "deploy_inv d (s\<lparr>w_user_code := a\<rparr>) = deploy_inv d s"
  "deploy_inv d s \<Longrightarrow> deploy_inv d (s\<lparr>w_apply_result := None\<rparr>)"
  "deploy_inv d s \<Longrightarrow> deploy_inv d (s\<lparr>w_apply_result := Some ''failed''\<rparr>)"
  "deploy_inv d s \<Longrightarrow> deploy_inv d (s\<lparr>w_pr_approved := False\<rparr>)"
  by (simp_all add: deploy_inv_def)

lemma routine_simps [simp]:
  "routine (Coord g)" "routine (ReportStaleQueueWait m b)" "routine (TrackStage k nm sts e grp)"
  "routine (TrackDeployResult k ls)" "routine (QueueStatus q)"
  "routine RecordGatewayRoutes" "routine (SendStartedDm n)" "routine (SendCompletedDm on)"
  "routine (SendP0Alert on t a)" "routine (PollPrState n r)" "routine (PollPlan n r t0)"
  "routine (PollApply n r)" "routine (PollApproval n r)" "routine (CheckManualCommit n r sha)"
  "routine (PostVerification n r v)" "routine (ApprovePr n r)" "routine (ResolveConflict n r)"
  "routine SaveAlbUrl" "routine MarkIacLocked" "routine ClearIacLocked" "routine (GetWaitingUsers ds)"
  "routine (SendLockAlert m b v i o1 b2)" "routine (SendLockTimeoutQueued v o1)" "routine (ClosePr n r)"
  "routine (DeploymentStatus st why) \<longleftrightarrow> st \<noteq> DEPLOYED \<and> st \<noteq> STARTING_APPROVAL"
  by (simp_all add: routine_def)

text \<open>The exits and the checks that precede them.\<close>

lemma manual_exit_quiet [quiet_rules]:
  "steady T \<Longrightarrow> quiet (deploy_inv d) (left_ok d) T (manual_exit d p stages)"
  unfolding manual_exit_def by (rule fail_exit_quiet) (auto intro: act_quiet)

lemma closed_exit_quiet [quiet_rules]:
  "steady T \<Longrightarrow> quiet (deploy_inv d) (left_ok d) T (closed_exit d stages)"
  unfolding closed_exit_def by (rule fail_exit_quiet) auto

lemma stuck_exit_quiet [quiet_rules]:
  "steady T \<Longrightarrow> quiet (deploy_inv d) (left_ok d) T (stuck_exit d p n1 n2 st r)"
  unfolding stuck_exit_def by (rule fail_exit_quiet) (auto intro: act_quiet)

lemma detect_manual_quiet [quiet_rules]:
  "steady T \<Longrightarrow> quiet (deploy_inv d) (left_ok d) T (detect_manual p)"
  unfolding detect_manual_def by (intro quiet_rules) auto

lemma manual_gate_quiet [quiet_rules]:
  "steady T \<Longrightarrow> quiet (deploy_inv d) (left_ok d) T (manual_gate d p stages)"
  unfolding manual_gate_def by (intro quiet_rules) auto

lemma found_closed_quiet [quiet_rules]:
  "steady T \<Longrightarrow> quiet (deploy_inv d) (left_ok d) T (found_closed p)"
  unfolding found_closed_def by (intro quiet_rules) auto

text \<open>The wait for the locks ends with a grant or an abort, and an abort ends the run.\<close>

abbreviation locked :: "(wf_signal, deploy_cmd) event list \<Rightarrow> bool" where
  "locked tr \<equiv> g_locked (gate_of tr)"

lemma signal_flags:
  "w_locks_granted s \<Longrightarrow> w_locks_granted (on_signal g s)"
  "w_force s \<Longrightarrow> w_force (on_signal g s)"
  "w_merge_result s \<noteq> None \<Longrightarrow> w_merge_result (on_signal g s) \<noteq> None"
  "w_apply_result s \<noteq> None \<Longrightarrow> w_apply_result (on_signal g s) \<noteq> None"
  "w_pr_closed s \<Longrightarrow> w_pr_closed (on_signal g s)"
  "w_manual s \<Longrightarrow> w_manual (on_signal g s)"
  "w_pr_approved s \<Longrightarrow> w_pr_approved (on_signal g s)"
  by (cases g; simp add: Let_def logged_def split: option.split)+

lemma attributes_logged [simp]:
  "w_locks_granted (logged e s) = w_locks_granted s" "w_force (logged e s) = w_force s"
  "w_merge_result (logged e s) = w_merge_result s" "w_apply_result (logged e s) = w_apply_result s"
  "w_pr_closed (logged e s) = w_pr_closed s" "w_manual (logged e s) = w_manual s"
  "w_pr_approved (logged e s) = w_pr_approved s"
  "w_locks_granted (take_turn t ts s) = w_locks_granted s" "w_force (take_turn t ts s) = w_force s"
  "w_merge_result (take_turn t ts s) = w_merge_result s"
  "w_apply_result (take_turn t ts s) = w_apply_result s"
  "w_pr_closed (take_turn t ts s) = w_pr_closed s" "w_manual (take_turn t ts s) = w_manual s"
  "w_pr_approved (take_turn t ts s) = w_pr_approved s"
  by (simp_all add: logged_def take_turn_def)

lemma lock_wait_triple:
  "triple (deploy_inv d) (left_ok d) (\<lambda>_. True)
     (lock_wait on_signal (\<lambda>s. w_locks_granted s \<or> w_force s) False ReportStaleQueueWait)
     (\<lambda>ok s. ok \<longrightarrow> w_locks_granted s \<or> w_force s)"
  by (rule triple_weaken [OF dw.lock_wait_keeps [where T = "\<lambda>_. True"]]) (auto simp: routine_def)

lemma lock_timeout_exit_quiet: "quiet (deploy_inv d) (left_ok d) (\<lambda>_. True) (lock_timeout_exit d)"
  unfolding lock_timeout_exit_def steps.simps
  by (intro quiet_release quiet_rules give_up_quiet) auto

lemma aborted_exit_quiet: "quiet (deploy_inv d) (left_ok d) (\<lambda>_. True) (aborted_exit d)"
  unfolding aborted_exit_def steps.simps by (intro quiet_rules give_up_quiet) auto

lemma acquire_phase_triple:
  "triple (deploy_inv d) (left_ok d) (\<lambda>_. True) (acquire_phase d) (\<lambda>_ s. locked (trace s))"
proof -
  have never: "never_returns (lock_timeout_exit d)" "never_returns (aborted_exit d)"
    unfolding lock_timeout_exit_def aborted_exit_def give_up_def
    by (intro yields_steps yields_bind yields_throw)+
  let ?w = "\<lambda>s. w_locks_granted s \<or> w_force s"
  have waited: "triple (deploy_inv d) (left_ok d) (\<lambda>_. True)
    (bind (lock_wait on_signal ?w False ReportStaleQueueWait)
      (\<lambda>ok. if ok then ret () else lock_timeout_exit d)) (\<lambda>_. ?w)"
    by (rule triple_bind [OF lock_wait_triple],
        intro triple_if triple_ret
          triple_weaken [OF quiet_never [OF lock_timeout_exit_quiet never(1)]]) auto
  have forced: "triple (deploy_inv d) (left_ok d) ?w
    (look w_force (\<lambda>f. if f then aborted_exit d else ret ())) (\<lambda>_ s. locked (trace s))"
    by (rule triple_look, intro triple_if triple_ret
          triple_weaken [OF quiet_never [OF aborted_exit_quiet never(2)]]) (auto simp: deploy_inv_def)
  show ?thesis unfolding acquire_phase_def steps.simps
    by (intro quiet_seq [where T = "\<lambda>_. True"] triple_bind [OF waited forced] quiet_rules) auto
qed

section \<open>Polls and the ends of a run\<close>

abbreviation merged :: "(wf_signal, deploy_cmd) event list \<Rightarrow> bool" where
  "merged tr \<equiv> g_merged (gate_of tr)"

abbreviation applied :: "(wf_signal, deploy_cmd) event list \<Rightarrow> bool" where
  "applied tr \<equiv> g_applied (gate_of tr)"

lemma inv_merged:
  "deploy_inv d s \<Longrightarrow> merged (trace s) \<Longrightarrow> deploy_inv d (s\<lparr>w_merge_result := x\<rparr>)"
  by (simp add: deploy_inv_def)

lemma inv_applied:
  "deploy_inv d s \<Longrightarrow> applied (trace s) \<Longrightarrow> deploy_inv d (s\<lparr>w_apply_result := x\<rparr>)"
  by (simp add: deploy_inv_def)

lemma steadyD:
  "steady T \<Longrightarrow> T tr \<Longrightarrow> routine c \<Longrightarrow> T (tr @ [Issued c]) \<and> T (tr @ [Got c r])"
  by (simp add: calm_def)

text \<open>A routine command whose reply matters.\<close>

lemma ask_routine:
  assumes "steady T" "routine c" "\<And>s m. T (trace s) \<Longrightarrow> E (ActivityFailed m) s"
  shows "triple (deploy_inv d) E (\<lambda>s. T (trace s)) (ask c)
    (\<lambda>v s. T (trace s) \<and> (\<exists>tr. trace s = tr @ [Got c (Done v)]))"
proof (rule triple_weaken [OF ask_triple [where T = T and P = "\<lambda>s. T (trace s)"]])
  fix s :: wf and tr m r assume "trace s = tr @ [Got c r]" "T tr"
  then have "T (trace s)" using assms steadyD by metis
  then show "E (ActivityFailed m) s" by (rule assms(3))
qed (use assms in \<open>auto simp: inv_issued dest: steadyD\<close>)

lemma found_merged_quiet:
  "steady T \<Longrightarrow> (\<And>tr. T tr \<Longrightarrow> merged tr) \<Longrightarrow> quiet (deploy_inv d) (left_ok d) T (found_merged p)"
  unfolding found_merged_def quiet_def
  by (rule triple_bind [where R = "\<lambda>_ s. T (trace s)"], rule triple_assign)
     (auto simp: inv_merged intro!: act_quiet [unfolded quiet_def])

lemma quiet_conj_weaken:
  "quiet J E (\<lambda>tr. T tr \<and> U tr) m \<Longrightarrow>
    triple J E (\<lambda>s. T (trace s) \<and> U (trace s)) m (\<lambda>_ s. T (trace s))"
  unfolding quiet_def
  by (rule triple_weaken [where P = "\<lambda>s. T (trace s) \<and> U (trace s)" and
        Q = "\<lambda>_ s. T (trace s) \<and> U (trace s)"]) auto

lemma poll_step_quiet:
  assumes T: "steady T" and poll: "quiet (deploy_inv d) (left_ok d) T poll"
  shows "quiet (deploy_inv d) (left_ok d) T (poll_step d p stages poll)"
  unfolding poll_step_def quiet_def
proof (rule triple_bind [OF ask_routine [OF T]])
  fix v
  let ?c = "PollPrState (p_number p) (p_repo p)"
  show "triple (deploy_inv d) (left_ok d) (\<lambda>s. T (trace s) \<and> (\<exists>tr. trace s = tr @ [Got ?c (Done v)]))
    (if str_of v = ''closed'' then found_closed p
     else seq (manual_gate d p stages) (if str_of v = ''merged'' then found_merged p else poll))
    (\<lambda>_ s. T (trace s))"
  proof (cases "str_of v = ''merged''")
    case True
    have "quiet (deploy_inv d) (left_ok d) (\<lambda>tr. T tr \<and> merged tr)
            (seq (manual_gate d p stages) (found_merged p))"
      using T by (intro quiet_bind manual_gate_quiet found_merged_quiet) auto
    from quiet_conj_weaken [OF this] show ?thesis using True
      by (auto simp: gate_defs answered_def elim!: triple_weaken)
  next
    case False
    have "quiet (deploy_inv d) (left_ok d) T
            (if str_of v = ''closed'' then found_closed p else seq (manual_gate d p stages) poll)"
      using T poll by (intro quiet_rules)
    then show ?thesis using False unfolding quiet_def by (auto elim!: triple_weaken)
  qed
qed auto

lemma poll_apply_quiet [quiet_rules]:
  assumes T: "steady T"
  shows "quiet (deploy_inv d) (left_ok d) T (poll_apply p)"
  unfolding poll_apply_def quiet_def
proof (rule triple_bind [OF ask_routine [OF T]])
  fix v
  let ?c = "PollApply (p_number p) (p_repo p)"
  show "triple (deploy_inv d) (left_ok d) (\<lambda>s. T (trace s) \<and> (\<exists>tr. trace s = tr @ [Got ?c (Done v)]))
    (assign (take_apply_poll (str_of v))) (\<lambda>_ s. T (trace s))"
    by (rule triple_assign)
       (auto simp: take_apply_poll_def deploy_inv_def gate_defs answered_def)
qed auto

lemma poll_plan_quiet [quiet_rules]:
  "steady T \<Longrightarrow> quiet (deploy_inv d) (left_ok d) T (poll_plan p t)"
  unfolding poll_plan_def by (intro quiet_rules) (auto simp: take_plan_poll_def)

text \<open>Commands that need the pull request merged, when it is.\<close>

definition needs_merge :: "deploy_cmd \<Rightarrow> bool" where
  "needs_merge c =
     (case c of MergeSecondary _ _ _ \<Rightarrow> True | ResourceStatus _ \<Rightarrow> True
      | DeploymentStatus st _ \<Rightarrow> st = DEPLOYED | _ \<Rightarrow> False)"

lemma needs_merge_gate: "needs_merge c \<Longrightarrow> gate_issued c g = g \<and> (g_merged g \<longrightarrow> permitted a g c)"
  by (cases c) (auto simp: needs_merge_def gate_issued_def permitted_def)

lemma ask_merged [quiet_rules]:
  assumes "needs_merge c" "\<And>s m. merged (trace s) \<Longrightarrow> E (ActivityFailed m) s"
  shows "quiet (deploy_inv d) E merged (ask c)"
  unfolding quiet_def
  by (rule triple_weaken [OF ask_triple [where T = merged and P = "\<lambda>s. merged (trace s)"]])
     (use assms in \<open>auto simp: deploy_inv_def logged_def needs_merge_gate got_g_merged\<close>)

lemma act_merged [quiet_rules]:
  "needs_merge c \<Longrightarrow> quiet (deploy_inv d) (left_ok d) merged (act c)"
  unfolding act_def by (intro quiet_rules) auto

lemma needs_merge_simps [simp]:
  "needs_merge (MergeSecondary n r t)" "needs_merge (ResourceStatus q)"
  "needs_merge (DeploymentStatus DEPLOYED why)"
  by (simp_all add: needs_merge_def)

lemma save_url_quiet [quiet_rules]:
  "steady T \<Longrightarrow> quiet (deploy_inv d) (left_ok d) T save_service_alb_url"
  unfolding save_service_alb_url_def by (intro quiet_rules) auto

lemma merge_secondary_pr_quiet [quiet_rules]:
  "quiet (deploy_inv d) (left_ok d) merged (merge_secondary_pr d sec)"
  unfolding merge_secondary_pr_def steps.simps
  by (intro quiet_rules) auto

lemma merge_secondary_prs_quiet [quiet_rules]:
  "quiet (deploy_inv d) (left_ok d) merged (merge_secondary_prs d)"
  unfolding merge_secondary_prs_def by (intro quiet_rules)

lemma record_created_prs_quiet [quiet_rules]:
  "steady T \<Longrightarrow> quiet (deploy_inv d) (left_ok d) T (record_created_prs d b)"
  unfolding record_created_prs_def Let_def by (intro quiet_rules) auto

lemma release_end:
  "steady T \<Longrightarrow> quiet (deploy_inv d) (left_ok d) (\<lambda>tr. T tr \<and> released d tr) m \<Longrightarrow>
    triple (deploy_inv d) (left_ok d) (\<lambda>s. T (trace s)) (seq (release d) m) (\<lambda>_ s. released d (trace s))"
  by (rule triple_weaken [OF quiet_after_release [where T = T]]) auto

lemma finished_quiet [quiet_rules]: "quiet (deploy_inv d) E T (assign finished)"
  by (rule quiet_assign) (simp_all add: finished_def deploy_inv_def)

lemma steady_merged [intro]: "steady merged"
  by (rule steady_gate)

lemma merged_end_triple:
  "triple (deploy_inv d) (left_ok d) (\<lambda>s. merged (trace s)) (merged_end d p) (\<lambda>_ s. released d (trace s))"
  unfolding merged_end_def steps.simps
  by (intro quiet_seq release_end quiet_rules) auto

lemma success_end_triple:
  "triple (deploy_inv d) (left_ok d) (\<lambda>s. merged (trace s)) (success_end d p) (\<lambda>_ s. released d (trace s))"
  unfolding success_end_def steps.simps
  by (intro quiet_seq release_end quiet_rules) auto

lemma secondary_only_end_triple:
  "triple (deploy_inv d) (left_ok d) (\<lambda>s. merged (trace s)) (secondary_only_end d)
     (\<lambda>_ s. released d (trace s))"
  unfolding secondary_only_end_def steps.simps
  by (intro quiet_seq release_end quiet_rules) auto

lemma no_pr_end_quiet: "steady T \<Longrightarrow> quiet (deploy_inv d) (left_ok d) T (no_pr_end d)"
  unfolding no_pr_end_def steps.simps
  by (intro quiet_release quiet_rules give_up_quiet) auto

lemma create_pr_triple:
  "triple (deploy_inv d) (left_ok d) (\<lambda>s. locked (trace s)) (create_pr d)
     (\<lambda>info s. opt_int (dict_get info ''pr_number'') = None \<longrightarrow> merged (trace s))"
proof -
  have asked: "triple (deploy_inv d) (\<lambda>_ _. True) (\<lambda>s. locked (trace s))
    (bind (ask RunScriptPr) (\<lambda>v. ret (dict_of v)))
    (\<lambda>info s. opt_int (dict_get info ''pr_number'') = None \<longrightarrow> merged (trace s))"
    by (rule triple_bind [OF ask_triple [where T = "\<lambda>_. True"]])
       (auto intro!: triple_ret simp: gate_defs answered_def deploy_inv_def logged_def permitted_def)
  show ?thesis unfolding create_pr_def steps.simps
    by (rule quiet_seq [where T = locked], rule quiet_rules, simp, simp,
        (rule quiet_seq [where T = locked, OF act_quiet], simp, simp add: steady_gate, simp)+,
        rule quiet_seq [where T = locked], rule stage_quiet, simp add: steady_gate,
        rule triple_try [OF asked],
        intro quiet_seq [where T = "\<lambda>_. True"] triple_bind [OF release_triple]
          quiet_seq [where T = "\<lambda>tr. True \<and> released d tr"] give_up_any quiet_rules) auto
qed

section \<open>Planning\<close>

lemma post_plan_quiet [quiet_rules]:
  "quiet (deploy_inv d) (left_ok d) (\<lambda>_. True) (post_plan p)"
  unfolding post_plan_def quiet_def
  by (rule act_triple [where T = "\<lambda>_. True" and U = "\<lambda>_. True"])
     (auto simp: deploy_inv_def logged_def gate_defs permitted_def)

lemma plan_stuck_check_quiet [quiet_rules]:
  "steady T \<Longrightarrow> quiet (deploy_inv d) (left_ok d) T (plan_stuck_check d p v)"
  unfolding plan_stuck_check_def Let_def by (intro quiet_rules) auto

lemma plan_wait_quiet [quiet_rules]:
  "steady T \<Longrightarrow> quiet (deploy_inv d) (left_ok d) T (plan_wait d p v)"
  unfolding plan_wait_def Let_def by (intro quiet_rules poll_step_quiet) auto

lemma conflict_slice_quiet [quiet_rules]:
  assumes T: "steady T"
  shows "quiet (deploy_inv d) (left_ok d) T (conflict_slice p v)"
proof -
  have poll: "quiet (deploy_inv d) (left_ok d) T
    (bind (ask (PollPrState (p_number p) (p_repo p))) (\<lambda>st.
             if str_of st = ''closed'' then seq (found_closed p) (ret (Inr (True, elapsed)))
             else if str_of st = ''merged'' then seq (found_merged p) (ret (Inr (True, elapsed)))
             else ret (Inl (sliced, elapsed))))" for sliced elapsed :: nat
    unfolding quiet_def
  proof (rule triple_bind [OF ask_routine [OF T]])
    fix v
    let ?c = "PollPrState (p_number p) (p_repo p)"
    let ?P = "\<lambda>s. T (trace s) \<and> (\<exists>tr. trace s = tr @ [Got ?c (Done v)])"
    have closed: "triple (deploy_inv d) (left_ok d) ?P (seq (found_closed p) (ret r)) (\<lambda>_ s. T (trace s))"
      for r :: "nat \<times> nat + bool \<times> nat"
      by (rule triple_weaken [where P = "\<lambda>s. T (trace s)" and Q = "\<lambda>_ s. T (trace s)",
            OF quiet_bind [OF found_closed_quiet [OF T] quiet_ret, unfolded quiet_def]]) auto
    have merged: "triple (deploy_inv d) (left_ok d) ?P (seq (found_merged p) (ret r)) (\<lambda>_ s. T (trace s))"
      if "str_of v = ''merged''" for r :: "nat \<times> nat + bool \<times> nat"
    proof -
      have "quiet (deploy_inv d) (left_ok d) (\<lambda>tr. T tr \<and> merged tr) (seq (found_merged p) (ret r))"
        using T by (intro quiet_bind found_merged_quiet quiet_ret) auto
      from quiet_conj_weaken [OF this] show ?thesis using that
        by (auto simp: gate_defs answered_def elim!: triple_weaken)
    qed
    show "triple (deploy_inv d) (left_ok d) ?P
      (if str_of v = ''closed'' then seq (found_closed p) (ret (Inr (True, elapsed)))
       else if str_of v = ''merged'' then seq (found_merged p) (ret (Inr (True, elapsed)))
       else ret (Inl (sliced, elapsed))) (\<lambda>_ s. T (trace s))"
      by (intro triple_if closed merged) (auto intro: triple_ret)
  qed auto
  show ?thesis unfolding conflict_slice_def Let_def
    by (intro poll quiet_rules) (auto simp: T)
qed

lemma conflict_repost_quiet [quiet_rules]:
  "quiet (deploy_inv d) (left_ok d) (\<lambda>_. True) (conflict_repost p locking)"
  unfolding conflict_repost_def steps.simps
  by (intro quiet_rules) (auto simp: take_repost_poll_def)

lemma conflict_alert_quiet [quiet_rules]:
  "steady T \<Longrightarrow> quiet (deploy_inv d) (left_ok d) T (conflict_alert d locking elapsed idx)"
  unfolding conflict_alert_def Let_def by (intro quiet_rules) auto

text \<open>This exit withdraws the queued requests too, with \<open>abort_queued_for_dirs\<close>.\<close>

lemma abort_triple:
  "triple (deploy_inv d) (left_ok d) (\<lambda>_. True)
     (act (Coord (AbortQueuedForDirs (d_workflow_id d) (d_dirs d) why))) (\<lambda>_ s. released d (trace s))"
  by (rule act_triple [where T = "released d"])
     (auto simp: inv_issued released_def is_release_def calm_def)

lemma conflict_timeout_exit_quiet [quiet_rules]:
  "quiet (deploy_inv d) (left_ok d) (\<lambda>_. True) (conflict_timeout_exit d p v locking m)"
proof -
  have tail: "triple (deploy_inv d) (left_ok d) (\<lambda>s. True)
    (seq (act (Coord (AbortQueuedForDirs (d_workflow_id d) (d_dirs d) why)))
      (seq (act ClearIacLocked) (seq (stage d n1 st e) (seq (stage d n2 st e) (give_up r)))))
    (\<lambda>_ s. True)" for why n1 n2 st e r
    by (intro triple_bind [OF abort_triple] quiet_seq [where T = "released d"] give_up_any quiet_rules) auto
  show ?thesis unfolding conflict_timeout_exit_def Let_def steps.simps
    by (intro tail [folded quiet_def [where T = "\<lambda>_. True"]] quiet_rules) auto
qed

lemma conflict_round_quiet [quiet_rules]:
  "quiet (deploy_inv d) (left_ok d) (\<lambda>_. True) (conflict_round d p v c)"
  unfolding conflict_round_def conflict_next_def by (intro quiet_rules) auto

lemma conflict_phase_quiet [quiet_rules]:
  "quiet (deploy_inv d) (left_ok d) (\<lambda>_. True) (conflict_phase d p v x)"
  unfolding conflict_phase_def steps.simps by (intro quiet_rules) auto

lemma plan_failed_round_quiet [quiet_rules]:
  "quiet (deploy_inv d) (left_ok d) (\<lambda>_. True) (plan_failed_round d p v)"
  unfolding plan_failed_round_def Let_def steps.simps by (intro quiet_rules) auto

lemma plan_decide_quiet [quiet_rules]:
  "quiet (deploy_inv d) (left_ok d) (\<lambda>_. True) (plan_decide d p v)"
  unfolding plan_decide_def by (intro quiet_rules)

lemma plan_round_quiet [quiet_rules]:
  "quiet (deploy_inv d) (left_ok d) (\<lambda>_. True) (plan_round d p v)"
  unfolding plan_round_def steps.simps by (intro quiet_rules) auto

text \<open>A phase that ends the run has given the locks back.\<close>

definition ended :: "deploy \<Rightarrow> (wf \<Rightarrow> bool) \<Rightarrow> 'x + run_result \<Rightarrow> wf \<Rightarrow> bool" where
  "ended d P r s = (case r of Inl _ \<Rightarrow> P s | Inr _ \<Rightarrow> released d (trace s))"

lemma ended_simps [simp]:
  "ended d P (Inl x) = P" "ended d P (Inr res) = (\<lambda>s. released d (trace s))"
  by (auto simp: ended_def fun_eq_iff)

lemma fail_exit_never [simp]: "never_returns (fail_exit d n1 al n2 st r)"
  unfolding fail_exit_def give_up_def by (intro yields_steps yields_bind yields_throw)

lemma closed_exit_any:
  "steady T \<Longrightarrow> triple (deploy_inv d) (left_ok d) (\<lambda>s. T (trace s)) (closed_exit d st) Q"
  by (rule quiet_never [OF closed_exit_quiet]) (simp_all add: closed_exit_def)

lemma stuck_exit_any:
  "steady T \<Longrightarrow> triple (deploy_inv d) (left_ok d) (\<lambda>s. T (trace s)) (stuck_exit d p n1 n2 st r) Q"
  by (rule quiet_never [OF stuck_exit_quiet]) (simp_all add: stuck_exit_def)

lemma merged_end_ended:
  "triple (deploy_inv d) (left_ok d) (\<lambda>s. w_merge_result s \<noteq> None)
    (bind (merged_end d p) (\<lambda>r. ret (Inr r))) (ended d P)"
  by (rule triple_bind [where R = "\<lambda>_ s. released d (trace s)"],
      rule triple_weaken [OF merged_end_triple])
     (auto simp: deploy_inv_def intro: triple_ret)

text \<open>The common end of a waiting phase: closed, manual commit, merged, or on with \<open>n\<close>.\<close>

lemma checks_triple:
  assumes T: "steady T"
    and on: "triple (deploy_inv d) (left_ok d) (\<lambda>s. T (trace s)) n (ended d P)"
  shows "triple (deploy_inv d) (left_ok d) (\<lambda>s. T (trace s)) (checks d p st Inr n) (ended d P)"
  unfolding checks_def
proof (rule triple_look)
  fix c
  show "triple (deploy_inv d) (left_ok d) (\<lambda>s. T (trace s) \<and> w_pr_closed s = c)
    (if c then closed_exit d st
     else seq (manual_gate d p st)
       (look w_merge_result (\<lambda>m. if m \<noteq> None then bind (merged_end d p) (\<lambda>r. ret (Inr r)) else n)))
    (ended d P)"
  proof (rule triple_weaken [where P = "\<lambda>s. T (trace s)"], rule triple_if)
    show "triple (deploy_inv d) (left_ok d) (\<lambda>s. T (trace s)) (closed_exit d st) (ended d P)"
      by (rule closed_exit_any [OF T])
    show "triple (deploy_inv d) (left_ok d) (\<lambda>s. T (trace s)) (seq (manual_gate d p st)
       (look w_merge_result (\<lambda>m. if m \<noteq> None then bind (merged_end d p) (\<lambda>r. ret (Inr r)) else n)))
       (ended d P)"
    proof (intro quiet_seq [OF manual_gate_quiet [OF T]] triple_look triple_if)
      fix m :: "string option"
      show "m \<noteq> None \<Longrightarrow> triple (deploy_inv d) (left_ok d) (\<lambda>s. T (trace s) \<and> w_merge_result s = m)
          (bind (merged_end d p) (\<lambda>r. ret (Inr r))) (ended d P)"
        by (rule triple_weaken [OF merged_end_ended]) auto
      show "triple (deploy_inv d) (left_ok d) (\<lambda>s. T (trace s) \<and> w_merge_result s = m) n (ended d P)"
        by (rule triple_weaken [OF on]) auto
    qed
  qed auto
qed

lemma plan_end_triple:
  "triple (deploy_inv d) (left_ok d) (\<lambda>_. True) (plan_end d p v) (ended d (\<lambda>_. True))"
  unfolding plan_end_def steps.simps
  by (intro checks_triple quiet_seq [where T = "\<lambda>_. True"] quiet_rules) (auto intro: triple_ret)

lemma plan_phase_triple:
  "triple (deploy_inv d) (left_ok d) (\<lambda>_. True) (plan_phase d p v) (ended d (\<lambda>_. True))"
  unfolding plan_phase_def split_beta
  by (intro quiet_seq [where T = "\<lambda>_. True"] triple_bind [OF triple_quiet [where T = "\<lambda>_. True"]]
        plan_end_triple quiet_rules) auto

section \<open>Review and approval\<close>

abbreviation reviewed :: "nat \<Rightarrow> (wf_signal, deploy_cmd) event list \<Rightarrow> bool" where
  "reviewed n tr \<equiv> g_verified (gate_of tr) \<and> g_applies (gate_of tr) = n"

lemma steady_reviewed [simp, intro]: "steady (reviewed n)"
  by (intro calm_conj steady_gate)

lemma ask_verify:
  "triple (deploy_inv d) (left_ok d) (\<lambda>_. True)
     (try_except (ask (VerifyPlan n r t)) (\<lambda>_. ret (VDict [(''is_destructive'', VBool False)])))
     (\<lambda>v s. \<not> truthy (dict_get (dict_of v) ''is_destructive'') \<longrightarrow> reviewed 0 (trace s))"
proof (rule triple_try [where E' = "\<lambda>_ s. reviewed 0 (trace s)"])
  show "triple (deploy_inv d) (\<lambda>_ s. reviewed 0 (trace s)) (\<lambda>_. True) (ask (VerifyPlan n r t))
    (\<lambda>v s. \<not> truthy (dict_get (dict_of v) ''is_destructive'') \<longrightarrow> reviewed 0 (trace s))"
    by (rule triple_weaken [OF ask_triple [where T = "\<lambda>tr. g_applies (gate_of tr) = 0" and P = "\<lambda>_. True"]])
       (auto simp: deploy_inv_def logged_def gate_defs permitted_def no_objection_def split: reply.splits)
qed (auto intro: triple_ret)

lemma take_verdict_triple:
  "triple (deploy_inv d) (left_ok d)
     (\<lambda>s. \<not> truthy (dict_get (dict_of v) ''is_destructive'') \<longrightarrow> reviewed 0 (trace s))
     (take_verdict d p v) (\<lambda>destructive s. \<not> destructive \<longrightarrow> reviewed 0 (trace s))"
proof (cases "truthy (dict_get (dict_of v) ''is_destructive'')")
  case True
  then show ?thesis unfolding take_verdict_def steps.simps
    by (simp add: Let_def, intro quiet_seq [where T = "\<lambda>_. True"] quiet_rules) (auto intro: triple_ret)
next
  case False
  then show ?thesis unfolding take_verdict_def steps.simps
    by (simp add: Let_def, intro quiet_seq [where T = "reviewed 0"] quiet_rules) (auto intro: triple_ret)
qed

lemma verify_phase_triple:
  "triple (deploy_inv d) (left_ok d) (\<lambda>_. True) (verify_phase d p t)
     (\<lambda>destructive s. \<not> destructive \<and> has_repo p \<longrightarrow> reviewed 0 (trace s))"
proof (cases "has_repo p")
  case False
  then show ?thesis by (auto simp: verify_phase_def intro: triple_ret)
next
  case True
  then show ?thesis unfolding verify_phase_def steps.simps
    by (simp, intro quiet_seq [where T = "\<lambda>_. True"] triple_bind [OF ask_verify take_verdict_triple]
          quiet_rules) auto
qed

abbreviation raised :: "(wf \<Rightarrow> bool) \<Rightarrow> bool" where
  "raised \<equiv> rising on_signal routine"

lemma ask_raised:
  "raised P \<Longrightarrow> routine c \<Longrightarrow> triple (deploy_inv d) (left_ok d) P (ask c) (\<lambda>_. P)"
  unfolding ask_def by (rule dw.await_rising) auto

lemma act_raised:
  "raised P \<Longrightarrow> routine c \<Longrightarrow> triple (deploy_inv d) (left_ok d) P (act c) (\<lambda>_. P)"
  unfolding act_def by (rule triple_bind [OF ask_raised]) (auto intro: triple_ret)

lemma stage_raised: "raised P \<Longrightarrow> triple (deploy_inv d) (left_ok d) P (stage d n st e) (\<lambda>_. P)"
  unfolding stage_def by (rule act_raised) simp_all

lemma manual_exit_any:
  "steady T \<Longrightarrow> triple (deploy_inv d) (left_ok d) (\<lambda>s. T (trace s)) (manual_exit d p st) Q"
  by (rule quiet_never [OF manual_exit_quiet]) (simp_all add: manual_exit_def)

lemma manual_exit_True: "triple (deploy_inv d) (left_ok d) P (manual_exit d p st) Q"
  by (rule triple_weaken [OF manual_exit_any [where T = "\<lambda>_. True"]]) auto

text \<open>A run that passes the check had no manual commit when the check began.\<close>

lemma manual_gate_raised:
  assumes "raised A"
  shows "triple (deploy_inv d) (left_ok d) (\<lambda>s. A s \<or> w_manual s) (manual_gate d p st) (\<lambda>_. A)"
proof -
  have detect: "triple (deploy_inv d) (left_ok d) (\<lambda>s. A s \<or> w_manual s) (detect_manual p)
    (\<lambda>m s. \<not> m \<longrightarrow> A s)"
    unfolding detect_manual_def
    by (rule triple_look, clarsimp, intro conjI impI triple_ret triple_bind [where R = "\<lambda>_. A"]
          triple_weaken [OF ask_raised [OF assms]])
       auto
  show ?thesis unfolding manual_gate_def only_if_def
    by (rule triple_look, intro triple_if triple_bind [where R = "\<lambda>m s. \<not> m \<longrightarrow> A s"]
          triple_weaken [OF detect] manual_exit_True triple_ret) auto
qed

text \<open>While approval is sought: the review stands, and an approval since then is recorded.\<close>

abbreviation approving :: "(wf_signal, deploy_cmd) event list \<Rightarrow> bool" where
  "approving tr \<equiv> g_verified (gate_of tr) \<and> g_applies (gate_of tr) = 0 \<and> g_approval (gate_of tr) \<noteq> NotAsked"

abbreviation approved :: "(wf_signal, deploy_cmd) event list \<Rightarrow> bool" where
  "approved tr \<equiv> g_verified (gate_of tr) \<and> g_applies (gate_of tr) = 0 \<and> g_approval (gate_of tr) = Granted"

lemma steady_approving [simp, intro]: "steady approving"
  by (intro calm_conj steady_gate)

lemma steady_approved [simp, intro]: "steady approved"
  by (intro calm_conj steady_gate)

lemma starting_approval_triple:
  "triple (deploy_inv d) (left_ok d) (\<lambda>s. reviewed 0 (trace s) \<and> \<not> w_pr_approved s)
     (act (DeploymentStatus STARTING_APPROVAL None)) (\<lambda>_ s. approving (trace s))"
  by (rule act_triple [where T = approving])
     (auto simp: deploy_inv_def logged_def gate_defs permitted_def)

lemma inv_approved:
  "deploy_inv d s \<Longrightarrow> g_approval (gate_of (trace s)) = Granted \<Longrightarrow> deploy_inv d (s\<lparr>w_pr_approved := b\<rparr>)"
  by (simp add: deploy_inv_def)

lemma poll_approval_quiet:
  "quiet (deploy_inv d) (left_ok d) approving
     (poll_approval p)"
  unfolding quiet_def poll_approval_def
proof (rule triple_bind [OF ask_routine [where T = approving]])
  fix v
  show "triple (deploy_inv d) (left_ok d)
    (\<lambda>s. approving (trace s) \<and>
      (\<exists>tr. trace s = tr @ [Got (PollApproval (p_number p) (p_repo p)) (Done v)]))
    (only_if (truthy v) (assign (\<lambda>s. s\<lparr>w_pr_approved := True\<rparr>))) (\<lambda>_ s. approving (trace s))"
    unfolding only_if_def
    by (intro triple_if triple_assign triple_ret)
       (auto simp: gate_defs answered_def intro!: inv_approved split: if_splits)
qed auto

lemma approval_wait_quiet [quiet_rules]:
  "quiet (deploy_inv d) (left_ok d) approving (approval_wait d p alerted)"
  unfolding approval_wait_def by (intro quiet_rules poll_step_quiet poll_approval_quiet) auto

lemma approval_failed_quiet [quiet_rules]:
  "quiet (deploy_inv d) (left_ok d) approving (approval_failed d p v err)"
  unfolding approval_failed_def split_beta Let_def steps.simps by (intro quiet_rules) auto

lemma approve_try:
  "triple (deploy_inv d) (left_ok d) (\<lambda>s. approving (trace s))
     (try_except (seq (ask (ApprovePr n r)) (ret None)) (\<lambda>e. ret (Some (text_of e))))
     (\<lambda>failed s. approving (trace s) \<and> (failed = None \<longrightarrow> approved (trace s)))"
  by (rule triple_try [where E' = "\<lambda>_ s. approving (trace s)"],
      rule triple_bind [OF ask_routine [where T = approving]])
     (auto intro!: triple_ret simp: gate_defs answered_def split: if_splits)

lemma approve_attempt_quiet:
  "quiet (deploy_inv d) (left_ok d) approving (approve_attempt d p v)"
  unfolding approve_attempt_def quiet_def
proof (rule triple_bind [OF approve_try])
  fix failed
  show "triple (deploy_inv d) (left_ok d)
    (\<lambda>s. approving (trace s) \<and> (failed = None \<longrightarrow> approved (trace s)))
    (case failed of
       None \<Rightarrow> seq (assign (\<lambda>s. s\<lparr>w_pr_approved := True\<rparr>)) (ret (Inl (0, 0, False)))
     | Some err \<Rightarrow> approval_failed d p v err) (\<lambda>_ s. approving (trace s))"
  proof (cases failed)
    case None
    then show ?thesis
      by (auto intro!: triple_bind [where R = "\<lambda>_ s. approving (trace s)"] triple_assign triple_ret
               intro: inv_approved)
  next
    case (Some err)
    then show ?thesis
      using approval_failed_quiet [of d p v err, unfolded quiet_def] by (auto elim: triple_weaken)
  qed
qed

text \<open>Leaving the approval loop means that something it waits for happened.\<close>

definition over :: "wf \<Rightarrow> bool" where
  "over s \<longleftrightarrow> terminal s \<or> w_pr_approved s"

lemma raised_flag:
  "raised (\<lambda>s. w_merge_result s \<noteq> None)" "raised (\<lambda>s. w_apply_result s \<noteq> None)"
  "raised w_pr_closed" "raised w_manual" "raised w_pr_approved"
  unfolding rising_def using signal_flags by (simp_all del: not_None_eq)

lemma raised_over [intro]: "raised over"
  unfolding over_def terminal_def by (intro rising_disj raised_flag)

lemma approval_granted: "a \<noteq> NotAsked \<Longrightarrow> a \<noteq> Asked \<Longrightarrow> a = Granted"
  by (cases a) simp_all

lemma approve_end_triple:
  "triple (deploy_inv d) (left_ok d) (\<lambda>s. approving (trace s) \<and> over s) (approve_end d p alerted)
     (ended d (\<lambda>s. approved (trace s)))"
proof -
  let ?A = "\<lambda>s. approving (trace s) \<and> over s"
  let ?B = "\<lambda>s. approving (trace s) \<and> (w_merge_result s \<noteq> None \<or> w_pr_approved s)"
  have A: "raised ?A" by (intro rising_conj dw.calm_rising raised_over steady_approving)
  have B: "raised ?B" by (intro rising_conj rising_disj dw.calm_rising raised_flag steady_approving)
  have head: "triple (deploy_inv d) (left_ok d) ?A
    (look (\<lambda>s. w_pr_approved s \<and> w_merge_result s = None \<and> \<not> w_pr_closed s) (\<lambda>ok.
       only_if ok (steps [act (DeploymentStatus APPROVED_SUCCESSFULLY None)]
         (stage d st ''success'' None)))) (\<lambda>_. ?A)" for st
    unfolding only_if_def steps.simps
    by (rule triple_look, intro triple_if triple_bind [where R = "\<lambda>_. ?A"] triple_ret
          triple_weaken [OF act_raised [OF A]] triple_weaken [OF stage_raised [OF A]]) auto
  have tail: "triple (deploy_inv d) (left_ok d) ?B
    (look w_merge_result (\<lambda>m. if m \<noteq> None then bind (merged_end d p) (\<lambda>r. ret (Inr r)) else ret (Inl ())))
    (ended d (\<lambda>s. approved (trace s)))"
    by (rule triple_look, intro triple_if triple_weaken [OF merged_end_ended] triple_ret)
       (auto simp: deploy_inv_def intro: approval_granted)
  show ?thesis unfolding approve_end_def checks_def
    by (rule triple_bind [OF head], rule triple_look,
        intro triple_if triple_weaken [OF closed_exit_any [where T = "\<lambda>_. True"]]
          triple_bind [OF triple_weaken [OF manual_gate_raised [OF B]] tail])
       (auto simp: over_def terminal_def)
qed

lemma stuck_exit_never: "never_returns (stuck_exit d p n1 n2 st r)"
  by (simp add: stuck_exit_def)

lemma approve_attempt_goes_on: "yields isl (approve_attempt d p v)"
  unfolding approve_attempt_def approval_failed_def split_beta Let_def
  by (rule yields_bind)
     (auto split: option.split intro!: yields_bind yields_steps yields_never [OF stuck_exit_never])

lemma approve_loop_triple:
  "triple (deploy_inv d) (left_ok d) (\<lambda>s. approving (trace s)) (repeat (approve_round d p) v)
     (\<lambda>_ s. approving (trace s) \<and> over s)"
proof (rule triple_repeat [where R = "\<lambda>_ s. approving (trace s)"])
  fix v
  have attempt: "triple (deploy_inv d) (left_ok d) (\<lambda>s. approving (trace s)) (approve_attempt d p v)
    (\<lambda>r s. approving (trace s) \<and> isl r)"
    by (rule quiet_yields [OF approve_attempt_quiet approve_attempt_goes_on])
  show "triple (deploy_inv d) (left_ok d) (\<lambda>s. approving (trace s)) (approve_round d p v)
     (\<lambda>r s. case r of Inl _ \<Rightarrow> approving (trace s) | Inr _ \<Rightarrow> approving (trace s) \<and> over s)"
    unfolding approve_round_def
    by (rule triple_look, intro triple_if triple_ret triple_weaken [OF attempt])
       (auto simp: over_def split: sum.split)
qed

lemma approve_phase_triple:
  "triple (deploy_inv d) (left_ok d) (\<lambda>s. has_repo p \<longrightarrow> reviewed 0 (trace s)) (approve_phase d p)
     (ended d (\<lambda>s. has_repo p \<longrightarrow> reviewed 0 (trace s) \<and> (d_approval d \<longrightarrow> approved (trace s))))"
proof (cases "has_repo p \<and> d_approval d")
  case False
  then show ?thesis by (auto simp: approve_phase_def intro!: triple_ret)
next
  case True
  have "triple (deploy_inv d) (left_ok d) (\<lambda>s. reviewed 0 (trace s))
    (seq (assign (\<lambda>s. s\<lparr>w_step := ''waiting_for_approval'', w_pr_approved := False\<rparr>))
       (seq (act (DeploymentStatus STARTING_APPROVAL None))
         (seq (stage d ''infra: approve pr'' ''running'' None)
           (bind (repeat (approve_round d p) (0, 0, False)) (approve_end d p)))))
    (ended d (\<lambda>s. approved (trace s)))"
    by (rule triple_bind [where R = "\<lambda>_ s. reviewed 0 (trace s) \<and> \<not> w_pr_approved s"], rule triple_assign,
        simp, rule triple_bind [OF starting_approval_triple],
        rule quiet_seq [where T = approving, OF stage_quiet [OF steady_approving]],
        rule triple_bind [OF approve_loop_triple approve_end_triple])
  then show ?thesis using True unfolding approve_phase_def steps.simps
    by (auto simp: ended_def elim!: triple_weaken split: sum.splits)
qed

section \<open>Apply\<close>

text \<open>The plan may be applied, and \<open>n\<close> apply comments were posted since it was reviewed.\<close>

definition ready :: "deploy \<Rightarrow> pull_request \<Rightarrow> nat \<Rightarrow> (wf_signal, deploy_cmd) event list \<Rightarrow> bool" where
  "ready d p n tr \<longleftrightarrow>
     (has_repo p \<longrightarrow> g_verified (gate_of tr) \<and> g_applies (gate_of tr) = n \<and>
        (d_approval d \<longrightarrow> g_approval (gate_of tr) = Granted))"

lemma steady_ready [intro]: "steady (ready d p n)"
  unfolding ready_def by (intro calm_imp calm_conj steady_gate)

lemma post_apply_triple:
  assumes "has_repo p" "n < apply_max_retries"
  shows "triple (deploy_inv d) (left_ok d) (\<lambda>s. ready d p n (trace s) \<and> w_apply_result s = None)
    (act (PostApplyComment (p_number p) (p_repo p) (p_project p))) (\<lambda>_ s. ready d p (Suc n) (trace s))"
  by (rule act_triple [where T = "ready d p (Suc n)"])
     (use assms in \<open>auto simp: deploy_inv_def logged_def gate_defs permitted_def ready_def\<close>)

lemma apply_stuck_check_quiet [quiet_rules]:
  "steady T \<Longrightarrow> quiet (deploy_inv d) (left_ok d) T (apply_stuck_check d p v)"
  unfolding apply_stuck_check_def by (intro quiet_rules) auto

definition apply_over :: "wf \<Rightarrow> bool" where
  "apply_over s \<longleftrightarrow> w_apply_result s \<noteq> None \<or> terminal s"

lemma raised_apply_over [intro]: "raised apply_over"
  unfolding apply_over_def terminal_def by (intro rising_disj raised_flag)

lemma apply_wait_loop:
  assumes "steady T"
  shows "triple (deploy_inv d) (left_ok d) (\<lambda>s. T (trace s)) (repeat (apply_wait d p) v)
    (\<lambda>_ s. T (trace s) \<and> apply_over s)"
proof (rule triple_repeat [where R = "\<lambda>_ s. T (trace s)"])
  fix v :: "nat \<times> nat"
  let ?poll = "bind (wait_cond (\<lambda>s. w_apply_result s \<noteq> None \<or> terminal s)) (\<lambda>ok.
    if ok then ret (Inl v)
    else seq (only_if (has_repo p) (poll_step d p [''infra: apply pr''] (poll_apply p)))
      (bind (apply_stuck_check d p (fst v + apply_poll_interval, snd v))
        (\<lambda>v. ret (Inl v)))) :: (nat \<times> nat + unit) wprog"
  have "quiet (deploy_inv d) (left_ok d) T ?poll"
    using assms by (intro quiet_rules poll_step_quiet) auto
  moreover have "yields isl ?poll" by (auto intro!: yields_bind)
  ultimately have poll: "triple (deploy_inv d) (left_ok d) (\<lambda>s. T (trace s)) ?poll
    (\<lambda>r s. T (trace s) \<and> isl r)" by (rule quiet_yields)
  show "triple (deploy_inv d) (left_ok d) (\<lambda>s. T (trace s)) (apply_wait d p v)
    (\<lambda>r s. case r of Inl y \<Rightarrow> T (trace s) | Inr a \<Rightarrow> T (trace s) \<and> apply_over s)"
    unfolding apply_wait_def split_beta prod.collapse
    by (rule triple_look, intro triple_if triple_ret triple_weaken [OF poll])
       (auto simp: apply_over_def split: sum.split)
qed

lemma apply_attempt_triple:
  assumes "n < apply_max_retries"
  shows "triple (deploy_inv d) (left_ok d) (\<lambda>s. ready d p n (trace s)) (apply_attempt d p)
    (\<lambda>_ s. ready d p (Suc n) (trace s) \<and> apply_over s)"
proof -
  let ?T = "ready d p (Suc n)"
  let ?rest = "seq (look w_apply_result (\<lambda>r. only_if (r = None) (act (DeploymentStatus APPLYING None))))
    (seq (assign (\<lambda>s. s\<lparr>w_step := ''waiting_for_apply''\<rparr>)) (repeat (apply_wait d p) (0, 0)))"
  have rest: "triple (deploy_inv d) (left_ok d) (\<lambda>s. ?T (trace s)) ?rest
    (\<lambda>_ s. ?T (trace s) \<and> apply_over s)"
    by (intro quiet_seq apply_wait_loop quiet_rules) auto
  have post: "triple (deploy_inv d) (left_ok d) (\<lambda>s. ready d p n (trace s) \<and> w_apply_result s = None)
    (only_if (has_repo p) (act (PostApplyComment (p_number p) (p_repo p) (p_project p))))
    (\<lambda>_ s. ?T (trace s))"
    unfolding only_if_def
    by (intro triple_if post_apply_triple triple_ret) (auto simp: assms ready_def)
  show ?thesis unfolding apply_attempt_def steps.simps
    by (rule triple_bind [where R = "\<lambda>_ s. ready d p n (trace s) \<and> w_apply_result s = None"],
        rule triple_assign, simp, rule triple_bind [OF post rest])
qed

lemma apply_decide_triple:
  assumes "attempt < apply_max_retries"
  shows "triple (deploy_inv d) (left_ok d)
    (\<lambda>s. ready d p (Suc attempt) (trace s) \<and> w_apply_result s \<noteq> None) (apply_decide d p attempt)
    (\<lambda>r s. case r of Inl n \<Rightarrow> ready d p n (trace s) \<and> n < apply_max_retries
      | Inr r \<Rightarrow> ended d (\<lambda>s. w_apply_result s \<noteq> None) r s)"
proof -
  let ?S = "\<lambda>s. w_apply_result s \<noteq> None"
  have S: "raised ?S" by (rule raised_flag)
  have exhausted: "triple (deploy_inv d) (left_ok d) ?S (apply_exhausted_steps d p k) (\<lambda>_. ?S)" for k
    unfolding apply_exhausted_steps_def steps.simps
    by (intro triple_bind [where R = "\<lambda>_. ?S"] act_raised [OF S] stage_raised [OF S] triple_look
          triple_weaken [OF stage_raised [OF S]]) auto
  show ?thesis unfolding apply_decide_def
    by (rule triple_look,
        intro triple_if triple_ret triple_bind [OF triple_weaken [OF exhausted]])
       auto
qed

lemma apply_round_triple:
  assumes "attempt < apply_max_retries"
  shows "triple (deploy_inv d) (left_ok d) (\<lambda>s. ready d p attempt (trace s)) (apply_round d p attempt)
    (\<lambda>r s. case r of Inl n \<Rightarrow> ready d p n (trace s) \<and> n < apply_max_retries
      | Inr r \<Rightarrow> ended d (\<lambda>s. w_apply_result s \<noteq> None) r s)"
proof -
  let ?Q = "\<lambda>r s. case r of Inl n \<Rightarrow> ready d p n (trace s) \<and> n < apply_max_retries
      | Inr r \<Rightarrow> ended d (\<lambda>s. w_apply_result s \<noteq> None) r s"
  let ?B = "\<lambda>s. ready d p (Suc attempt) (trace s) \<and> (w_merge_result s \<noteq> None \<or> w_apply_result s \<noteq> None)"
  have B: "raised ?B" by (intro rising_conj rising_disj dw.calm_rising raised_flag steady_ready)
  have merged: "triple (deploy_inv d) (left_ok d) (\<lambda>s. w_merge_result s \<noteq> None)
    (bind (merged_end d p) (\<lambda>r. ret (Inr (Inr r)))) ?Q"
    by (rule triple_bind [where R = "\<lambda>_ s. released d (trace s)"],
        rule triple_weaken [OF merged_end_triple])
       (auto simp: deploy_inv_def intro: triple_ret)
  have tail: "triple (deploy_inv d) (left_ok d) ?B
    (look w_merge_result (\<lambda>m. if m \<noteq> None then bind (merged_end d p) (\<lambda>r. ret (Inr (Inr r)))
       else apply_decide d p attempt)) ?Q"
    by (rule triple_look, intro triple_if triple_weaken [OF merged]
          triple_weaken [OF apply_decide_triple [OF assms]]) auto
  show ?thesis unfolding apply_round_def checks_def
    by (rule triple_bind [OF apply_attempt_triple [OF assms]], rule triple_look,
        intro triple_if triple_weaken [OF closed_exit_any [where T = "\<lambda>_. True"]]
          triple_bind [OF triple_weaken [OF manual_gate_raised [OF B]] tail])
       (auto simp: apply_over_def terminal_def)
qed

lemma apply_phase_triple:
  "triple (deploy_inv d) (left_ok d) (\<lambda>s. ready d p 0 (trace s)) (apply_phase d p)
     (ended d (\<lambda>s. w_apply_result s \<noteq> None))"
proof -
  have loop: "triple (deploy_inv d) (left_ok d) (\<lambda>s. ready d p 0 (trace s)) (repeat (apply_round d p) 0)
     (ended d (\<lambda>s. w_apply_result s \<noteq> None))"
  proof (rule triple_weaken [OF triple_repeat [where
        R = "\<lambda>n s. ready d p n (trace s) \<and> n < apply_max_retries"
        and Q = "ended d (\<lambda>s. w_apply_result s \<noteq> None)"]])
    fix n
    show "triple (deploy_inv d) (left_ok d) (\<lambda>s. ready d p n (trace s) \<and> n < apply_max_retries)
      (apply_round d p n)
      (\<lambda>r s. case r of Inl n \<Rightarrow> ready d p n (trace s) \<and> n < apply_max_retries
        | Inr r \<Rightarrow> ended d (\<lambda>s. w_apply_result s \<noteq> None) r s)"
    proof (cases "n < apply_max_retries")
      case True
      show ?thesis by (rule triple_weaken [OF apply_round_triple [OF True]]) auto
    qed (simp add: triple_def)
  qed (auto simp: apply_max_retries_def)
  show ?thesis unfolding apply_phase_def steps.simps
    by (intro quiet_seq loop quiet_rules) auto
qed

section \<open>Merge\<close>

lemma post_plan_applied [quiet_rules]:
  "quiet (deploy_inv d) (left_ok d) applied (post_plan p)"
  unfolding post_plan_def quiet_def
  by (rule act_triple [where T = applied])
     (auto simp: deploy_inv_def logged_def gate_defs permitted_def)

lemma replan_quiet [quiet_rules]: "quiet (deploy_inv d) (left_ok d) applied (replan d p why)"
  unfolding replan_def steps.simps by (intro quiet_rules) auto

lemma check_and_merge_triple:
  "triple (deploy_inv d) (left_ok d) (\<lambda>s. applied (trace s))
     (try_except (bind (ask (CheckAndMerge n r)) (\<lambda>v. ret (str_of v))) (\<lambda>_. ret ''failed''))
     (\<lambda>x s. applied (trace s) \<and> (x = ''merged'' \<longrightarrow> merged (trace s)))"
  by (rule triple_try [where E' = "\<lambda>_ s. applied (trace s)"],
      rule triple_bind [OF ask_triple [where T = applied]])
     (auto intro!: triple_ret simp: deploy_inv_def logged_def gate_defs permitted_def answered_def)

text \<open>One attempt to merge, which is a loop body without its guard.\<close>

lemma merge_round_quiet [quiet_rules]:
  "quiet (deploy_inv d) (left_ok d) applied (merge_round d p v)"
proof -
  have after: "triple (deploy_inv d) (left_ok d)
    (\<lambda>s. applied (trace s) \<and> (x = ''merged'' \<longrightarrow> merged (trace s)))
    (if x = ''conflict'' then
       seq (act (ResolveConflict (p_number p) (p_repo p)))
         (bind (replan d p why1) (\<lambda>now. ret (Inr (attempt + 1, x, now))))
     else if x = ''stale'' then bind (replan d p why2) (\<lambda>now. ret (Inr (attempt + 1, x, now)))
     else if x = ''merged'' then
       seq (assign (\<lambda>s. s\<lparr>w_merge_result := Some ''merged''\<rparr>)) (ret (Inr (attempt + 1, x, None)))
     else ret (Inl (attempt + 1, x))) (\<lambda>_ s. applied (trace s))"
    for x why1 why2 and attempt :: nat
  proof (cases "x = ''merged''")
    case True
    then show ?thesis
      by (auto intro!: triple_bind [where R = "\<lambda>_ s. applied (trace s)"] triple_assign triple_ret
               intro: inv_merged)
  next
    case False
    have "quiet (deploy_inv d) (left_ok d) applied
      (if x = ''conflict'' then
         seq (act (ResolveConflict (p_number p) (p_repo p)))
           (bind (replan d p why1) (\<lambda>now. ret (Inr (attempt + 1, x, now))))
       else if x = ''stale'' then bind (replan d p why2) (\<lambda>now. ret (Inr (attempt + 1, x, now)))
       else ret (Inl (attempt + 1, x)))" by (intro quiet_rules) auto
    then show ?thesis using False unfolding quiet_def by (auto elim!: triple_weaken)
  qed
  show ?thesis unfolding merge_round_def
  proof (intro quiet_case_prod quiet_look quiet_if quiet_ret)
    fix attempt :: nat
    show "quiet (deploy_inv d) (left_ok d) applied
      (bind (try_except (bind (ask (CheckAndMerge (p_number p) (p_repo p))) (\<lambda>v. ret (str_of v)))
                (\<lambda>_. ret ''failed''))
        (\<lambda>result.
           if result = ''conflict'' then
             seq (act (ResolveConflict (p_number p) (p_repo p)))
               (bind (replan d p ''Merge blocked by a conflict with the base branch: resolved, re-planning.'')
                 (\<lambda>now. ret (Inr (attempt + 1, result, now))))
           else if result = ''stale'' then
             bind (replan d p ''Base branch moved after the last plan: re-planning before merge.'')
               (\<lambda>now. ret (Inr (attempt + 1, result, now)))
           else if result = ''merged'' then
             seq (assign (\<lambda>s. s\<lparr>w_merge_result := Some ''merged''\<rparr>))
               (ret (Inr (attempt + 1, result, None)))
           else ret (Inl (attempt + 1, result))))"
      unfolding quiet_def by (rule triple_bind [OF check_and_merge_triple after])
  qed
qed

lemma poll_state_triple:
  assumes T: "steady T"
  shows "triple (deploy_inv d) (left_ok d) (\<lambda>s. T (trace s)) (ask (PollPrState n r))
    (\<lambda>v s. T (trace s) \<and> (str_of v = ''merged'' \<longrightarrow> merged (trace s)))"
  by (rule triple_weaken [OF ask_routine [OF T]]) (auto simp: gate_defs answered_def)

lemma merge_wait_quiet [quiet_rules]:
  assumes T: "steady T"
  shows "quiet (deploy_inv d) (left_ok d) T (merge_wait p v)"
proof -
  have "triple (deploy_inv d) (left_ok d) (\<lambda>s. T (trace s) \<and> (x = ''merged'' \<longrightarrow> merged (trace s)))
    (if x = ''merged'' then found_merged p else only_if (x = ''closed'') (found_closed p))
    (\<lambda>_ s. T (trace s))" for x
  proof (cases "x = ''merged''")
    case True
    have "quiet (deploy_inv d) (left_ok d) (\<lambda>tr. T tr \<and> merged tr) (found_merged p)"
      using T by (intro found_merged_quiet) auto
    from quiet_conj_weaken [OF this] show ?thesis using True by simp
  next
    case False
    have "quiet (deploy_inv d) (left_ok d) T (only_if (x = ''closed'') (found_closed p))"
      using T by (intro quiet_rules)
    then show ?thesis using False unfolding quiet_def by (auto elim!: triple_weaken)
  qed
  from triple_bind [OF poll_state_triple [OF T] this] have
    "quiet (deploy_inv d) (left_ok d) T
      (bind (ask (PollPrState n r)) (\<lambda>st.
         if str_of st = ''merged'' then found_merged p
         else only_if (str_of st = ''closed'') (found_closed p)))" for n r
    unfolding quiet_def .
  then show ?thesis using T unfolding merge_wait_def Let_def
    by (intro quiet_look quiet_if quiet_bind [OF wait_cond_quiet] quiet_bind [OF quiet_only_if]
          quiet_ret act_quiet quiet_bind [OF act_quiet]) auto
qed

lemma success_ended:
  "triple (deploy_inv d) (left_ok d) (\<lambda>s. merged (trace s))
     (seq (only_if c (stage d st ''success'' None)) (bind (success_end d p) (\<lambda>r. ret (Inr r))))
     (ended d P)"
  by (intro quiet_seq triple_bind [OF success_end_triple] triple_ret quiet_rules) auto

lemma merge_phase_end_triple:
  "triple (deploy_inv d) (left_ok d) (\<lambda>_. True) (merge_phase_end d p t n) (ended d (\<lambda>_. True))"
  unfolding merge_phase_end_def
proof (intro triple_look triple_if)
  fix c and m :: "string option"
  show "triple (deploy_inv d) (left_ok d) (\<lambda>s. True \<and> w_pr_closed s = c)
    (closed_exit d [if merge_max_retries \<le> n then ''infra: waiting for merge'' else ''infra: merge pr''])
    (ended d (\<lambda>_. True))"
    by (rule triple_weaken [OF closed_exit_any [where T = "\<lambda>_. True"]]) auto
  show "m \<noteq> None \<Longrightarrow> triple (deploy_inv d) (left_ok d) (\<lambda>s. (True \<and> w_pr_closed s = c) \<and> w_merge_result s = m)
    (seq (only_if (merge_max_retries \<le> n) (stage d ''infra: waiting for merge'' ''success'' None))
      (bind (success_end d p) (\<lambda>r. ret (Inr r)))) (ended d (\<lambda>_. True))"
    by (rule triple_weaken [OF success_ended]) (auto simp: deploy_inv_def)
qed (auto intro: triple_ret)

lemma merge_run_triple:
  "triple (deploy_inv d) (left_ok d) (\<lambda>s. applied (trace s)) (merge_run d p t) (ended d (\<lambda>_. True))"
proof -
  let ?rest = "\<lambda>attempts. seq (look (\<lambda>s. w_merge_result s \<noteq> None \<or> w_pr_closed s) (\<lambda>over.
      only_if (\<not> over \<and> merge_max_retries \<le> attempts) (merge_exhausted_steps d p)))
    (seq (act (QueueStatus ''DEPLOYING''))
      (seq (assign (\<lambda>s. s\<lparr>w_merge_conflict := False, w_step := ''waiting_for_merge''\<rparr>))
        (seq (repeat (merge_wait p) 0) (merge_phase_end d p t attempts))))"
  have rest: "triple (deploy_inv d) (left_ok d) (\<lambda>s. True) (?rest attempts) (ended d (\<lambda>_. True))"
    for attempts
    unfolding merge_exhausted_steps_def steps.simps
    by (intro quiet_seq [where T = "\<lambda>_. True"] merge_phase_end_triple quiet_rules) auto
  have after: "triple (deploy_inv d) (left_ok d) (\<lambda>s. applied (trace s))
    (case x of (attempts, result, replanned) \<Rightarrow>
       if result = ''conflict'' \<or> result = ''stale'' then ret (Inl (False, replanned))
       else ?rest attempts) (ended d (\<lambda>_. True))" for x
  proof (cases x)
    case (fields attempts result replanned)
    show ?thesis unfolding fields prod.case
      by (intro triple_if triple_ret triple_weaken [OF rest]) auto
  qed
  show ?thesis unfolding merge_run_def steps.simps
    by (intro quiet_seq triple_bind [OF triple_quiet after] quiet_rules) auto
qed

section \<open>The run\<close>

lemma after_apply_triple:
  "triple (deploy_inv d) (left_ok d) (\<lambda>s. w_apply_result s \<noteq> None) (after_apply d p t) (ended d (\<lambda>_. True))"
  unfolding after_apply_def
proof (intro triple_look)
  fix x :: "string option \<times> int"
  show "triple (deploy_inv d) (left_ok d)
    (\<lambda>s. w_apply_result s \<noteq> None \<and> (w_apply_result s, clock s) = x)
    (case x of (r, now) \<Rightarrow> if r = Some ''failed'' then ret (Inl (True, Some now)) else merge_run d p t)
    (ended d (\<lambda>_. True))"
    by (cases x) (auto intro!: triple_ret triple_weaken [OF merge_run_triple] simp: deploy_inv_def)
qed

lemma go_on_triple:
  assumes "triple (deploy_inv d) (left_ok d) P m (ended d A)"
    and "\<And>x. triple (deploy_inv d) (left_ok d) A (k x) (ended d B)"
  shows "triple (deploy_inv d) (left_ok d) P (go_on m k) (ended d B)"
  unfolding go_on_def
proof (rule triple_bind [OF assms(1)])
  fix r
  show "triple (deploy_inv d) (left_ok d) (ended d A r)
    (case r of Inl x \<Rightarrow> k x | Inr res \<Rightarrow> ret (Inr res)) (ended d B)"
  proof (cases r)
    case (Inl x)
    then show ?thesis using assms(2) by simp
  qed (auto intro!: triple_ret)
qed

lemma outer_round_triple:
  "triple (deploy_inv d) (left_ok d) (\<lambda>_. True) (outer_round d p v) (ended d (\<lambda>_. True))"
proof -
  have rest: "triple (deploy_inv d) (left_ok d) (\<lambda>s. has_repo p \<longrightarrow> reviewed 0 (trace s))
    (go_on (approve_phase d p) (\<lambda>_. go_on (apply_phase d p) (\<lambda>_. after_apply d p t))) (ended d (\<lambda>_. True))"
    for t
    by (rule go_on_triple [OF approve_phase_triple], rule go_on_triple [OF _ after_apply_triple],
        rule triple_weaken [OF apply_phase_triple]) (auto simp: ready_def)
  have "triple (deploy_inv d) (left_ok d) (\<lambda>s. \<not> b \<and> has_repo p \<longrightarrow> reviewed 0 (trace s))
    (if b then look clock (\<lambda>now. ret (Inl (False, Some now)))
     else go_on (approve_phase d p) (\<lambda>_. go_on (apply_phase d p) (\<lambda>_. after_apply d p t)))
    (ended d (\<lambda>_. True))" for b t
    by (cases b) (auto intro!: triple_look triple_ret intro: rest)
  then show ?thesis unfolding outer_round_def
    by (intro go_on_triple [OF plan_phase_triple] triple_bind [OF verify_phase_triple])
qed

lemma pr_started_quiet: "quiet (deploy_inv d) (left_ok d) (\<lambda>_. True) (pr_started d p)"
  unfolding pr_started_def steps.simps by (intro quiet_rules) auto

lemma run_deploy_triple:
  "triple (deploy_inv d) (left_ok d) (\<lambda>_. True) (run_deploy d) (\<lambda>_ s. released d (trace s))"
proof -
  have rest: "triple (deploy_inv d) (left_ok d)
    (\<lambda>s. opt_int (dict_get info ''pr_number'') = None \<longrightarrow> merged (trace s))
    (let p = pull_request_of info in
       seq (assign (keep_pr_info info))
         (look w_secondary (\<lambda>secondary.
           if p_number p = 0 then (if secondary \<noteq> [] then secondary_only_end d else no_pr_end d)
           else seq (pr_started d p) (repeat (outer_round d p) (False, None)))))
    (\<lambda>_ s. released d (trace s))" for info
  proof -
    let ?p = "pull_request_of info"
    let ?P = "\<lambda>s. p_number ?p = 0 \<longrightarrow> merged (trace s)"
    have loop: "triple (deploy_inv d) (left_ok d) (\<lambda>_. True) (repeat (outer_round d ?p) v)
      (\<lambda>_ s. released d (trace s))" for v
      by (rule triple_repeat [where R = "\<lambda>_ _. True"], rule triple_weaken [OF outer_round_triple])
         (auto split: sum.splits)
    have none: "never_returns (no_pr_end d)"
      unfolding no_pr_end_def give_up_def by (intro yields_steps yields_bind yields_throw)
    have branches: "triple (deploy_inv d) (left_ok d) ?P
      (if p_number ?p = 0 then (if secondary \<noteq> [] then secondary_only_end d else no_pr_end d)
       else seq (pr_started d ?p) (repeat (outer_round d ?p) (False, None)))
      (\<lambda>_ s. released d (trace s))" for secondary :: "config list"
    proof (intro triple_if)
      show "p_number ?p = 0 \<Longrightarrow> triple (deploy_inv d) (left_ok d) ?P (secondary_only_end d)
        (\<lambda>_ s. released d (trace s))"
        by (rule triple_weaken [OF secondary_only_end_triple]) auto
      show "triple (deploy_inv d) (left_ok d) ?P (no_pr_end d) (\<lambda>_ s. released d (trace s))"
        by (rule triple_weaken [OF quiet_never [OF no_pr_end_quiet [where T = "\<lambda>_. True"] none]]) auto
      show "triple (deploy_inv d) (left_ok d) ?P
        (seq (pr_started d ?p) (repeat (outer_round d ?p) (False, None))) (\<lambda>_ s. released d (trace s))"
        by (rule triple_weaken [OF quiet_seq [OF pr_started_quiet loop]]) auto
    qed
    have number: "p_number ?p = 0 \<longleftrightarrow> opt_int (dict_get info ''pr_number'') = None"
      by (auto simp: pull_request_of_def opt_int_def split: option.splits pyval.splits if_splits)
    show ?thesis unfolding Let_def
    proof (rule triple_bind [where R = "\<lambda>_. ?P"])
      show "triple (deploy_inv d) (left_ok d)
        (\<lambda>s. opt_int (dict_get info ''pr_number'') = None \<longrightarrow> merged (trace s))
        (assign (keep_pr_info info)) (\<lambda>_. ?P)"
        by (rule triple_assign) (simp add: number keep_pr_info_def deploy_inv_def)
    qed (rule triple_look, rule triple_weaken [OF branches], auto)
  qed
  have start: "quiet (deploy_inv d) (left_ok d) (\<lambda>_. True)
    (assign (\<lambda>s. s\<lparr>w_tenant_code := d_tenant d, w_user_code := d_user d\<rparr>))"
    by (rule quiet_assign) simp_all
  show ?thesis unfolding run_deploy_def steps.simps
    by (intro quiet_seq [where T = "\<lambda>_. True", OF start] triple_bind [OF acquire_phase_triple]
          triple_bind [OF create_pr_triple rest])
qed

text \<open>The invariant holds when a run starts, so it holds at every later point of it.\<close>

lemma run_deploy_ends:
  assumes "run_deploy d (init_wf ts) = (r, s)"
  shows "deploy_inv d s \<and> (\<forall>a. r = Value a \<longrightarrow> released d (trace s)) \<and> (\<forall>e. r = Raised e \<longrightarrow> left_ok d e s)"
  by (rule tripleD [OF run_deploy_triple _ _ assms]) (simp_all add: deploy_inv_def init_wf_def)

lemma run_deploy_permits:
  assumes "trace (snd (run_deploy d (init_wf ts))) = pre @ Issued c # post"
  shows "permitted (d_approval d) (gate_of pre) c"
proof -
  obtain r s where run: "run_deploy d (init_wf ts) = (r, s)" by force
  then show ?thesis
    using run_deploy_ends [OF run] assms unfolding deploy_inv_def lawful_def follows_def by auto
qed

end
