(* ===== verification/DeployProgress.thy ===== *)
theory DeployProgress
  imports DeployWorkflow WorkflowProgress WorkflowLogic
begin

text \<open>
  The deployment workflow never spins: every loop of \<open>deployment_workflow.py\<close> awaits an activity, a
  signal or a timer before it comes round, whatever the answers are.
\<close>

lemma on_signal_script: "script_keeping on_signal"
  unfolding script_keeping_def
proof (intro allI)
  fix g :: wf_signal and s :: wf
  show "script (on_signal g s) = script s"
    by (cases g) (simp_all add: Let_def split: option.split)
qed

lemma ask_hungry: "hungry (ask c)"
  unfolding ask_def by (rule await_hungry [OF on_signal_script])

lemma act_hungry: "hungry (act c)"
  unfolding act_def by (rule hungry_bind [OF ask_hungry paced_ret])

lemma ask_eats: "eats (ask c)"
  by (rule hungry_eats [OF ask_hungry])

lemma act_eats: "eats (act c)"
  by (rule hungry_eats [OF act_hungry])

lemma paced_awaits [pace_rules]: "paced (ask c)" "paced (act c)"
  by (rule pace_eats [OF ask_eats], rule pace_eats [OF act_eats])

lemma stage_eats: "eats (stage d n st e)"
  unfolding stage_def by (rule act_eats)

lemma paced_stage [pace_rules]: "paced (stage d n st e)" "paced (release d)"
  unfolding stage_def release_def by (rule paced_awaits)+

lemma paced_give_up [pace_rules]: "paced (give_up r)"
  unfolding give_up_def by (intro pace_rules) simp

lemma wait_cond_pace: "pace P (wait_cond C) (\<lambda>b s. b \<and> C s \<and> P s)"
  unfolding wait_cond_def by (rule wait_pace [OF on_signal_script])

lemma paced_wait [pace_rules]: "paced (wait_cond C)"
  by (rule pace_weaken [OF wait_cond_pace]) auto

text \<open>A wait whose condition is false uses up a turn.\<close>

lemma wait_eats:
  "(\<And>s. P s \<Longrightarrow> \<not> C s) \<Longrightarrow> (\<And>b. paced (k b)) \<Longrightarrow> pace P (bind (wait_cond C) k) V"
  by (rule pace_bind [OF wait_cond_pace [where P = P]]) (auto intro: pace_weaken [OF pace_False])

text \<open>So does one that ends with its timer.\<close>

lemma wait_timer_eats:
  "paced m \<Longrightarrow> paced n \<Longrightarrow> pace P m V \<Longrightarrow> pace P (bind (wait_cond C) (\<lambda>b. if b then m else n)) V"
proof (rule pace_bind [OF wait_cond_pace [where P = P]])
  fix b assume "paced m" "paced n" "pace P m V"
  then show "paced (if b then m else n)" by simp
  show "pace (\<lambda>s. b \<and> C s \<and> P s) (if b then m else n) V"
    using \<open>pace P m V\<close> by (cases b) (auto intro: pace_weaken [OF pace_False] pace_weaken)
qed

abbreviation round_eats :: "('x + 'a) wprog \<Rightarrow> bool" where
  "round_eats m \<equiv> pace (\<lambda>_. True) m (\<lambda>r s. case r of Inl _ \<Rightarrow> False | Inr a \<Rightarrow> True)"

lemma paced_repeat [pace_rules]: "(\<And>x. round_eats (body x)) \<Longrightarrow> paced (repeat body x)"
  by (rule pace_repeat)

section \<open>Exits and polls\<close>

lemma paced_fail_exit [pace_rules]:
  "(\<And>m. m \<in> set alerts \<Longrightarrow> paced m) \<Longrightarrow> paced (fail_exit d n1 alerts n2 st r)"
  unfolding fail_exit_def by (rule paced_steps) (auto intro: pace_rules)

lemma paced_exits [pace_rules]:
  "paced (manual_exit d p st)" "paced (closed_exit d st)" "paced (stuck_exit d p t1 t2 fs r)"
  unfolding manual_exit_def closed_exit_def stuck_exit_def by (intro pace_rules; auto intro: pace_rules)+

lemma paced_manual_gate [pace_rules]: "paced (manual_gate d p st)"
  unfolding manual_gate_def detect_manual_def by (intro pace_rules)

lemma paced_found [pace_rules]: "paced (found_closed p)" "paced (found_merged p)"
  unfolding found_closed_def found_merged_def by (intro pace_rules; simp)+

lemma paced_poll_step [pace_rules]: "paced poll \<Longrightarrow> paced (poll_step d p st poll)"
  unfolding poll_step_def by (intro pace_rules)

section \<open>The loops\<close>

lemma paced_locks [pace_rules]: "paced (lock_wait on_signal over skip report)"
  by (rule paced_lock_wait [OF on_signal_script])

lemma paced_acquire [pace_rules]: "paced (acquire_phase d)"
  unfolding acquire_phase_def lock_timeout_exit_def aborted_exit_def steps.simps
  by (intro pace_rules) auto

lemma plan_wait_eats: "round_eats (plan_wait d p v)"
  unfolding plan_wait_def Let_def poll_plan_def plan_stuck_check_def
  by (rule pace_look, intro pace_if pace_ret wait_eats)
     (auto intro!: pace_rules simp: take_plan_poll_def)

lemma apply_wait_eats: "round_eats (apply_wait d p v)"
  unfolding apply_wait_def split_beta Let_def poll_apply_def apply_stuck_check_def
  by (rule pace_look, intro pace_if pace_ret wait_eats)
     (auto intro!: pace_rules simp: take_apply_poll_def)

lemma merge_wait_eats: "round_eats (merge_wait p v)"
  unfolding merge_wait_def Let_def
  by (rule pace_look, intro pace_if pace_ret wait_eats) (auto intro!: pace_rules)

lemma conflict_slice_eats: "round_eats (conflict_slice p v)"
  unfolding conflict_slice_def split_beta Let_def
  by (intro pace_if pace_ret wait_timer_eats) (auto intro!: pace_rules intro: pace_ret)

lemma act_seq_eats: "paced m \<Longrightarrow> pace P (seq (act c) m) V"
  by (rule eats_bind [OF act_eats])

lemma paced_post_plan [pace_rules]: "paced (post_plan p)"
  unfolding post_plan_def by (rule paced_awaits)

lemma paced_conflict_repost [pace_rules]: "paced (conflict_repost p locking)"
  unfolding conflict_repost_def steps.simps
  by (intro pace_rules) (simp_all add: take_repost_poll_def)

lemma paced_conflict_alert [pace_rules]: "paced (conflict_alert d locking n idx)"
  unfolding conflict_alert_def Let_def by (intro pace_rules)

lemma conflict_timeout_exit_eats: "pace P (conflict_timeout_exit d p v locking n) V"
  unfolding conflict_timeout_exit_def Let_def steps.simps
  by (intro act_seq_eats pace_rules)

lemma conflict_slice_first:
  "pace (\<lambda>s. w_plan_result s = None) (conflict_slice p (0, n))
     (\<lambda>r s. case r of Inl _ \<Rightarrow> False | Inr a \<Rightarrow> fst a \<and> w_plan_result s = None \<and> terminal s)"
proof -
  have go: "\<not> lock_recheck_interval \<le> 0" by (simp add: lock_recheck_interval_def)
  show ?thesis
    unfolding conflict_slice_def prod.case Let_def if_not_P [OF go]
    by (rule pace_bind [OF wait_cond_pace])
       (auto intro!: pace_rules pace_ret intro: pace_weaken [OF pace_False])
qed

lemma conflict_slices_first:
  "pace (\<lambda>s. w_plan_result s = None) (repeat (conflict_slice p) (0, n))
     (\<lambda>a s. fst a \<and> w_plan_result s = None \<and> terminal s)"
proof (rule pace_repeat_first)
  show "round_eats (conflict_slice p y)" for y by (rule conflict_slice_eats)
qed (rule conflict_slice_first)

lemma paced_conflict_next [pace_rules]: "paced (conflict_next d p locking idx v)"
  unfolding conflict_next_def by (intro pace_rules) auto

text \<open>When nothing was awaited, the interruption was there before, and the loop is left.\<close>

lemma conflict_next_leaves:
  "pace (\<lambda>s. fst v \<and> w_plan_result s = None \<and> terminal s) (conflict_next d p locking idx v)
     (\<lambda>r s. case r of Inl _ \<Rightarrow> False | Inr a \<Rightarrow> True)"
proof (cases "fst v")
  case False
  then show ?thesis by (auto intro: pace_weaken [OF pace_False])
next
  case True
  let ?V = "\<lambda>r s. case r of Inl _ \<Rightarrow> False | Inr a \<Rightarrow> True"
  have "pace (\<lambda>s. (fst v \<and> w_plan_result s = None \<and> terminal s) \<and> (w_plan_result s, terminal s) = x)
    (case x of (r, over) \<Rightarrow>
       case r of
         Some x \<Rightarrow>
           if startswith x ''lock_conflict:'' then
             seq (assign (\<lambda>s. s\<lparr>w_plan_result := Some ''lock_conflict''\<rparr>))
               (ret (Inl (newer_lock x locking, snd v, idx)))
           else if over \<or> x \<in> {''success'', ''failed''} then ret (Inr ())
           else ret (Inl (locking, snd v, idx))
       | None \<Rightarrow> if over then ret (Inr ()) else ret (Inl (locking, snd v, idx))) ?V" for x
  proof (cases "x = (None, True)")
    case False
    then show ?thesis by (auto intro!: pace_weaken [OF pace_False])
  qed (auto intro!: pace_ret)
  from pace_look [OF this] show ?thesis
    unfolding conflict_next_def split_beta if_P [OF True] by simp
qed

lemma conflict_round_eats: "round_eats (conflict_round d p v c)"
proof -
  let ?V = "\<lambda>r s. case r of Inl _ \<Rightarrow> False | Inr a \<Rightarrow> True"
  have loop: "pace (\<lambda>s. w_plan_result s = None)
    (bind (repeat (conflict_slice p) (0, n)) (conflict_next d p locking idx)) ?V" for n locking idx
    by (rule pace_bind [OF conflict_slices_first]) (auto intro: pace_rules conflict_next_leaves)
  have "pace P (seq (assign (\<lambda>s. s\<lparr>w_plan_result := None\<rparr>))
    (bind (repeat (conflict_slice p) (0, n)) (conflict_next d p locking idx))) ?V"
    for P n locking idx
    by (rule pace_bind [where R = "\<lambda>_ s. w_plan_result s = None"], rule pace_assign)
       (auto intro: loop intro!: pace_rules conflict_slice_eats)
  then show ?thesis unfolding conflict_round_def split_beta
    by (intro pace_look pace_if pace_ret conflict_timeout_exit_eats) auto
qed

section \<open>The phases\<close>

lemma assign_act_eats:
  "(\<And>s. script (f s) = script s) \<Longrightarrow> paced m \<Longrightarrow> pace P (seq (assign f) (seq (act c) m)) V"
  by (rule bind_eats) (auto intro: act_seq_eats pace_rules)

lemma conflict_phase_eats: "eats (conflict_phase d p v x)"
  unfolding conflict_phase_def steps.simps
  by (rule assign_act_eats) (auto intro!: pace_rules conflict_round_eats)

lemma paced_conflict_phase [pace_rules]: "paced (conflict_phase d p v x)"
  by (rule pace_eats [OF conflict_phase_eats])

lemma paced_plan_wait_loop [pace_rules]: "paced (repeat (plan_wait d p) v)"
  by (rule paced_repeat [OF plan_wait_eats])

lemma paced_plan_decide [pace_rules]: "paced (plan_decide d p v)"
  unfolding plan_decide_def plan_failed_round_def Let_def steps.simps
  by (intro pace_rules) simp_all

lemma paced_plan_round: "paced (plan_round d p v)"
  unfolding plan_round_def steps.simps by (intro pace_rules) simp_all

text \<open>
  Without a repository nothing is posted on a failed plan, so the loop relies on the result having been
  cleared before the round.
\<close>

definition plan_ready :: "pull_request \<Rightarrow> wf \<Rightarrow> bool" where
  "plan_ready p s \<longleftrightarrow> w_plan_result s = None \<or> has_repo p"

lemma plan_failed_round_eats:
  "has_repo p \<Longrightarrow> pace P (plan_failed_round d p v) V"
  unfolding plan_failed_round_def Let_def steps.simps only_if_def post_plan_def
  by (auto intro!: pace_if act_seq_eats assign_act_eats pace_rules)

lemma plan_decide_pace:
  "pace (\<lambda>s. plan_ready p s \<and> w_plan_result s \<noteq> None) (plan_decide d p v)
     (\<lambda>r s. case r of Inl _ \<Rightarrow> False | Inr a \<Rightarrow> True)"
  unfolding plan_decide_def
proof (rule pace_look)
  fix r
  show "pace (\<lambda>s. (plan_ready p s \<and> w_plan_result s \<noteq> None) \<and> w_plan_result s = r)
    (if r = Some ''failed'' then plan_failed_round d p v else ret (Inr v))
    (\<lambda>r s. case r of Inl _ \<Rightarrow> False | Inr a \<Rightarrow> True)"
  proof (cases "has_repo p")
    case True
    show ?thesis by (intro pace_if plan_failed_round_eats True pace_ret) simp
  next
    case False
    then show ?thesis by (auto simp: plan_ready_def intro!: pace_weaken [OF pace_False])
  qed
qed

lemma plan_wait_first:
  "pace P (repeat (plan_wait d p) v) (\<lambda>_ s. P s \<and> (w_plan_result s \<noteq> None \<or> terminal s))"
proof (rule pace_repeat_first)
  show "round_eats (plan_wait d p y)" for y by (rule plan_wait_eats)
  show "pace P (plan_wait d p v)
    (\<lambda>r s. case r of Inl _ \<Rightarrow> False | Inr a \<Rightarrow> P s \<and> (w_plan_result s \<noteq> None \<or> terminal s))"
    unfolding plan_wait_def Let_def poll_plan_def plan_stuck_check_def
    by (rule pace_look, intro pace_if pace_ret wait_eats)
       (auto intro!: pace_rules simp: take_plan_poll_def)
qed

definition plan_judge ::
  "deploy \<Rightarrow> pull_request \<Rightarrow> plan_vars \<Rightarrow> bool \<times> string option \<Rightarrow> (plan_vars + plan_vars) wprog" where
  "plan_judge d p v = (\<lambda>(over, r).
     if over then ret (Inr v)
     else case r of
       None \<Rightarrow> ret (Inr v)
     | Some x \<Rightarrow>
         if startswith x ''lock_conflict'' then
           seq (conflict_phase d p v x)
             (look (\<lambda>s. terminal s \<or> w_plan_result s = Some ''success'') (\<lambda>leave.
               if leave then ret (Inr v) else plan_decide d p v))
         else plan_decide d p v)"

lemma plan_judge_pace:
  "pace (\<lambda>s. plan_ready p s \<and> (w_plan_result s \<noteq> None \<or> terminal s))
     (look (\<lambda>s. (terminal s, w_plan_result s)) (plan_judge d p v))
     (\<lambda>r s. case r of Inl _ \<Rightarrow> False | Inr a \<Rightarrow> True)"
proof (rule pace_look)
  fix x :: "bool \<times> string option"
  have conflict: "pace P (seq (conflict_phase d p v y)
    (look (\<lambda>s. terminal s \<or> w_plan_result s = Some ''success'') (\<lambda>leave.
       if leave then ret (Inr v) else plan_decide d p v))) V" for P V y
    by (rule eats_bind [OF conflict_phase_eats]) (intro pace_rules)
  show "pace (\<lambda>s. (plan_ready p s \<and> (w_plan_result s \<noteq> None \<or> terminal s)) \<and>
      (terminal s, w_plan_result s) = x) (plan_judge d p v x)
    (\<lambda>r s. case r of Inl _ \<Rightarrow> False | Inr a \<Rightarrow> True)"
    unfolding plan_judge_def split_beta
    by (cases "snd x") (auto intro!: pace_if pace_ret conflict intro: pace_weaken [OF plan_decide_pace])
qed

lemma plan_round_pace:
  "pace (plan_ready p) (plan_round d p v) (\<lambda>r s. case r of Inl _ \<Rightarrow> False | Inr a \<Rightarrow> True)"
proof -
  have judged: "paced (look (\<lambda>s. (terminal s, w_plan_result s)) (plan_judge d p w))" for w
    unfolding plan_judge_def by (intro pace_rules)
  have waited: "pace (plan_ready p) (bind (repeat (plan_wait d p) v)
    (\<lambda>v. look (\<lambda>s. (terminal s, w_plan_result s)) (plan_judge d p v)))
    (\<lambda>r s. case r of Inl _ \<Rightarrow> False | Inr a \<Rightarrow> True)"
    by (rule pace_bind [OF plan_wait_first [where P = "plan_ready p"] judged plan_judge_pace])
  have planning: "pace (plan_ready p) (look f (\<lambda>b. only_if (b \<and> c) (act C))) (\<lambda>_. plan_ready p)"
    for f :: "wf \<Rightarrow> bool" and c C
    unfolding only_if_def
    by (intro pace_look pace_if pace_ret) (auto intro: pace_eats [OF act_eats])
  have start: "pace (plan_ready p) (assign (\<lambda>s. s\<lparr>w_step := x\<rparr>)) (\<lambda>_. plan_ready p)" for x
    by (rule pace_assign) (simp_all add: plan_ready_def)
  show ?thesis
    unfolding plan_round_def steps.simps plan_judge_def [symmetric]
    by (rule pace_bind [OF start], (intro pace_rules judged)[1],
        rule pace_bind [OF planning _ waited], (intro pace_rules judged)[1])
qed

abbreviation leaves :: "'a wprog \<Rightarrow> ('a \<Rightarrow> wf \<Rightarrow> bool) \<Rightarrow> bool" where
  "leaves m Q \<equiv> triple (\<lambda>_. True) (\<lambda>_ _. True) (\<lambda>_. True) m Q"

lemma leaves_any: "leaves m (\<lambda>_ _. True)"
  unfolding triple_def by auto

lemma leaves_bind: "(\<And>a. leaves (k a) Q) \<Longrightarrow> leaves (bind m k) Q"
  by (rule triple_bind [OF leaves_any])

lemma leaves_look: "(\<And>x. leaves (k x) Q) \<Longrightarrow> leaves (look f k) Q"
  by (rule triple_look, rule triple_weaken) auto

lemma plan_failed_round_leaves:
  "leaves (plan_failed_round d p v) (\<lambda>r s. plan_ready p s)"
proof (cases "has_repo p")
  case True
  then show ?thesis by (auto simp: plan_ready_def intro: triple_weaken [OF leaves_any])
next
  case False
  have "leaves (seq (assign (\<lambda>s. s\<lparr>w_plan_result := None, w_plan_error := None\<rparr>)) (ret x))
    (\<lambda>r s. plan_ready p s)" for x :: "plan_vars + plan_vars"
    by (rule triple_bind [where R = "\<lambda>_. plan_ready p"])
       (auto simp: plan_ready_def intro!: triple_assign triple_ret)
  note clear = this
  have quick: "leaves (seq (assign (\<lambda>s. s\<lparr>w_plan_result := None, w_plan_error := None\<rparr>))
    (seq (ret ()) (ret x))) (\<lambda>r s. plan_ready p s)" for x :: "plan_vars + plan_vars"
    by (rule triple_bind [where R = "\<lambda>_. plan_ready p"], rule triple_assign, simp add: plan_ready_def,
        rule triple_bind [where R = "\<lambda>_. plan_ready p"]) (auto intro: triple_ret)
  show ?thesis
    unfolding plan_failed_round_def Let_def steps.simps only_if_def if_not_P [OF False]
    by (rule triple_if, rule quick, (rule leaves_bind)+, rule leaves_look, rule clear)
qed

lemma plan_decide_leaves: "leaves (plan_decide d p v) (\<lambda>r s. isl r \<longrightarrow> plan_ready p s)"
  unfolding plan_decide_def
  by (intro leaves_look triple_if triple_ret triple_weaken [OF plan_failed_round_leaves]) auto

lemma plan_round_leaves: "leaves (plan_round d p v) (\<lambda>r s. isl r \<longrightarrow> plan_ready p s)"
  unfolding plan_round_def steps.simps
  by (intro leaves_bind leaves_look)
     (auto intro!: triple_ret leaves_bind leaves_look plan_decide_leaves split: option.split)

lemma plan_loop_pace:
  assumes k: "\<And>w. paced (k w)" "\<And>w. pace (\<lambda>_. True) (k w) V"
  shows "pace P (seq (assign (\<lambda>s. s\<lparr>w_plan_result := None\<rparr>)) (bind (repeat (plan_round d p) v) k)) V"
proof -
  have loop: "pace (plan_ready p) (repeat (plan_round d p) v) (\<lambda>_ _. True)"
  proof (rule pace_repeat_inv [where R = "\<lambda>_. plan_ready p"])
    fix x s y s' assume "plan_round d p x s = (Value (Inl y), s')"
    then show "plan_ready p s'" using tripleD [OF plan_round_leaves] by fastforce
  qed (rule plan_round_pace)
  have start: "pace (plan_ready p) (bind (repeat (plan_round d p) v) k) V"
    by (rule pace_bind [OF loop k])
  show ?thesis
  proof (rule paceI)
    fix s :: wf and r s'
    let ?s = "s\<lparr>w_plan_result := None\<rparr>"
    assume "seq (assign (\<lambda>s. s\<lparr>w_plan_result := None\<rparr>)) (bind (repeat (plan_round d p) v) k) s = (r, s')"
    then have "bind (repeat (plan_round d p) v) k ?s = (r, s')" by (simp add: bind_def assign_def)
    from paceD [OF start _ this] show
      "(r = Spinning \<longrightarrow> False) \<and> turns s' \<le> turns s \<and> (\<forall>a. r = Value a \<longrightarrow> turns s' < turns s \<or> V a s')"
      by (simp add: plan_ready_def turns_def)
  qed
qed

abbreviation ends_or_eats :: "('x + run_result) wprog \<Rightarrow> bool" where
  "ends_or_eats m \<equiv> pace (\<lambda>_. True) m (\<lambda>r s. case r of Inl _ \<Rightarrow> False | Inr _ \<Rightarrow> True)"

lemma paced_merge_secondary [pace_rules]: "paced (merge_secondary_prs d)"
proof -
  have "paced (merge_secondary_pr d sec)" for sec
    unfolding merge_secondary_pr_def Let_def steps.simps by (intro pace_rules)
  then show ?thesis unfolding merge_secondary_prs_def by (intro pace_rules)
qed

lemma paced_save [pace_rules]: "paced save_service_alb_url"
  unfolding save_service_alb_url_def by (intro pace_rules)

lemma paced_finished [pace_rules]: "paced (assign finished)"
  by (rule paced_assign) (simp add: finished_def)

lemma paced_ends [pace_rules]:
  "paced (merged_end d p)" "paced (success_end d p)" "paced (no_pr_end d)"
  unfolding merged_end_def success_end_def no_pr_end_def steps.simps by (intro pace_rules)+

lemma seq_pace:
  "paced m \<Longrightarrow> (\<And>a. paced (k a)) \<Longrightarrow> (\<And>a. pace (\<lambda>_. True) (k a) V) \<Longrightarrow> pace P (bind m k) V"
  by (rule pace_bind [where R = "\<lambda>_ _. True"]) (auto intro: pace_weaken)

lemma look_pace: "(\<And>x. pace (\<lambda>_. True) (k x) V) \<Longrightarrow> pace P (look f k) V"
  by (rule pace_look, rule pace_weaken) auto

lemma closed_exit_eats: "pace P (closed_exit d st) V"
  unfolding closed_exit_def fail_exit_def
  by (rule steps_eats [OF _ act_eats [of "QueueStatus ''FAILED''"]]) (auto intro: pace_rules)

lemma merged_end_ends:
  "(\<And>r s. V (result r) s) \<Longrightarrow> pace P (bind (merged_end d p) (\<lambda>r. ret (result r))) V"
  by (rule seq_pace) (auto intro: pace_rules pace_ret)

lemma checks_pace:
  assumes "\<And>r s. V (result r) s" "paced n" "pace (\<lambda>_. True) n V"
  shows "pace P (checks d p st result n) V"
  unfolding checks_def using assms
  by (intro look_pace pace_if closed_exit_eats seq_pace pace_rules merged_end_ends) auto

lemma paced_checks [pace_rules]: "paced n \<Longrightarrow> paced (checks d p st result n)"
  by (rule checks_pace) auto

lemma plan_end_ends: "ends_or_eats (plan_end d p v)"
  unfolding plan_end_def
  by (intro checks_pace pace_rules steps_eats [OF _ act_eats [of "DeploymentStatus PLANNED_SUCCESSFULLY None"]])
     (auto intro!: pace_rules)

lemma pace_paced: "pace (\<lambda>_. True) m V \<Longrightarrow> paced m"
  by (rule pace_weaken) auto

lemma plan_phase_ends: "ends_or_eats (plan_phase d p v)"
  unfolding plan_phase_def split_beta
  by (rule plan_loop_pace) (rule pace_paced [OF plan_end_ends] plan_end_ends)+

lemma paced_verify [pace_rules]: "paced (verify_phase d p nb)"
  unfolding verify_phase_def take_verdict_def Let_def steps.simps
  by (intro pace_rules) simp_all

lemma paced_approval_wait [pace_rules]: "paced (approval_wait d p b)"
  unfolding approval_wait_def poll_approval_def
  by (intro pace_rules) simp

lemma approve_round_eats: "round_eats (approve_round d p v)"
proof -
  have failed: "paced (approval_failed d p v err)" for err
    unfolding approval_failed_def split_beta Let_def steps.simps
    by (intro pace_rules)
  have tried: "eats (try_except (seq (ask (ApprovePr n repo)) (ret None)) (\<lambda>e. ret (Some (text_of e))))"
    for n repo
    by (rule try_eats [OF hungry_bind [OF ask_hungry paced_ret] paced_ret])
  have "pace P (approve_attempt d p v) V" for P V
    unfolding approve_attempt_def
    by (rule eats_bind [OF tried]) (intro pace_rules failed; simp)
  then show ?thesis unfolding approve_round_def by (intro look_pace pace_if) (auto intro: pace_ret)
qed

lemma paced_approve [pace_rules]: "paced (approve_phase d p)"
  unfolding approve_phase_def approve_end_def steps.simps
  by (intro pace_rules approve_round_eats) simp_all

text \<open>An attempt clears the result first; then it posts the comment, or reports that it is applying.\<close>

lemma apply_attempt_eats: "eats (apply_attempt d p)"
proof -
  let ?clear = "assign (\<lambda>s. s\<lparr>w_step := ''posting_apply_comment'', w_apply_result := None, w_apply_error := None\<rparr>)"
  let ?tail = "seq (assign (\<lambda>s. s\<lparr>w_step := ''waiting_for_apply''\<rparr>)) (repeat (apply_wait d p) (0, 0))"
  let ?report = "look w_apply_result (\<lambda>r. only_if (r = None) (act (DeploymentStatus APPLYING None)))"
  let ?none = "\<lambda>_ s. w_apply_result s = None"
  have tail: "paced ?tail" by (intro pace_rules apply_wait_eats) simp
  have report: "pace (\<lambda>s. w_apply_result s = None) ?report (\<lambda>_ _. False)"
  proof (rule pace_look)
    fix r
    show "pace (\<lambda>s. w_apply_result s = None \<and> w_apply_result s = r)
      (only_if (r = None) (act (DeploymentStatus APPLYING None))) (\<lambda>_ _. False)"
      by (cases "r = None") (auto simp: only_if_def pace_eats [OF act_eats] intro: pace_weaken [OF pace_False])
  qed
  have reported: "pace (\<lambda>s. w_apply_result s = None) (seq ?report ?tail) (\<lambda>_ _. False)"
    by (rule pace_bind [OF report tail pace_False])
  have posted: "pace (\<lambda>s. w_apply_result s = None) (only_if (has_repo p) (act c)) ?none" for c
    unfolding only_if_def by (intro pace_if pace_ret) (auto intro: pace_eats [OF act_eats])
  have clear: "pace (\<lambda>_. True) ?clear ?none" by (rule pace_assign) simp_all
  show ?thesis
    unfolding apply_attempt_def steps.simps
    by (rule pace_bind [OF clear], (intro pace_rules apply_wait_eats; simp)[1],
        rule pace_bind [OF posted _ reported], intro pace_rules apply_wait_eats; simp)
qed

lemma apply_round_eats: "round_eats (apply_round d p n)"
proof -
  have "paced (apply_decide d p n)"
    unfolding apply_decide_def apply_exhausted_steps_def steps.simps by (intro pace_rules)
  then show ?thesis unfolding apply_round_def
    by (intro eats_bind [OF apply_attempt_eats] paced_checks)
qed

lemma paced_apply [pace_rules]: "paced (apply_phase d p)"
  unfolding apply_phase_def steps.simps by (intro pace_rules apply_round_eats) simp

lemma merge_round_eats: "round_eats (merge_round d p v)"
proof -
  have tried: "eats (try_except (bind (ask (CheckAndMerge n repo)) (\<lambda>v. ret (str_of v))) (\<lambda>_. ret ''failed''))"
    for n repo
    by (rule try_eats [OF hungry_bind [OF ask_hungry paced_ret] paced_ret])
  show ?thesis unfolding merge_round_def split_beta replan_def steps.simps
    by (intro look_pace pace_if pace_ret eats_bind [OF tried] pace_rules) simp_all
qed

lemma paced_merge_run [pace_rules]: "paced (merge_run d p nb)"
  unfolding merge_run_def merge_exhausted_steps_def merge_phase_end_def steps.simps
  by (intro pace_rules merge_round_eats merge_wait_eats) simp_all

section \<open>The run\<close>

lemma paced_go_on [pace_rules]: "paced m \<Longrightarrow> (\<And>x. paced (k x)) \<Longrightarrow> paced (go_on m k)"
  unfolding go_on_def by (intro pace_rules)

lemma go_on_ends:
  assumes m: "ends_or_eats m" and k: "\<And>x. paced (k x)"
  shows "ends_or_eats (go_on m k)"
  unfolding go_on_def
proof (rule pace_bind [OF m])
  fix r :: "'a + run_result"
  show "paced (case r of Inl x \<Rightarrow> k x | Inr res \<Rightarrow> ret (Inr res))"
    using k by (intro pace_rules)
  show "pace (\<lambda>s. case r of Inl _ \<Rightarrow> False | Inr _ \<Rightarrow> True)
      (case r of Inl x \<Rightarrow> k x | Inr res \<Rightarrow> ret (Inr res)) (\<lambda>r s. case r of Inl _ \<Rightarrow> False | Inr _ \<Rightarrow> True)"
    by (cases r) (auto intro: pace_ret pace_weaken [OF pace_False])
qed

lemma outer_round_ends: "ends_or_eats (outer_round d p v)"
  unfolding outer_round_def after_apply_def
  by (rule go_on_ends [OF plan_phase_ends]) (intro pace_rules)

lemma paced_record_created [pace_rules]: "paced (record_created_prs d b)"
  unfolding record_created_prs_def Let_def by (intro pace_rules)

lemma paced_starts [pace_rules]:
  "paced (create_pr d)" "paced (secondary_only_end d)" "paced (pr_started d p)"
  unfolding create_pr_def secondary_only_end_def pr_started_def steps.simps
  by (intro pace_rules; simp)+

lemma paced_run: "paced (run_deploy d)"
  unfolding run_deploy_def Let_def steps.simps
  by (intro pace_rules outer_round_ends) (simp_all add: keep_pr_info_def)

lemma run_deploy_returns: "run_deploy d s = (r, s') \<Longrightarrow> r \<noteq> Spinning"
  using paceD [OF paced_run TrueI] by blast

end
