(* ===== verification/DeployProperties.thy ===== *)
theory DeployProperties
  imports DeploySafety DeployProgress
begin

text \<open>
  What every run of the deployment workflow satisfies, stated over its trace, with runs that show each
  case happens.
\<close>

section \<open>Reading a trace\<close>

text \<open>The part of a trace after the last request to review the plan.\<close>

fun asks_review :: "(wf_signal, deploy_cmd) event \<Rightarrow> bool" where
  "asks_review (Issued (VerifyPlan _ _ _)) = True"
| "asks_review _ = False"

fun asks_plan :: "(wf_signal, deploy_cmd) event \<Rightarrow> bool" where
  "asks_plan (Issued (PostPlanComment _ _ _)) = True"
| "asks_plan _ = False"

fun asks_apply :: "(wf_signal, deploy_cmd) event \<Rightarrow> bool" where
  "asks_apply (Issued (PostApplyComment _ _ _)) = True"
| "asks_apply _ = False"

definition since_review :: "(wf_signal, deploy_cmd) event list \<Rightarrow> (wf_signal, deploy_cmd) event list" where
  "since_review tr = rev (takeWhile (\<lambda>e. \<not> asks_review e) (rev tr))"

text \<open>What counts as an approval, as a successful apply, and as a merged pull request.\<close>

fun approving :: "(wf_signal, deploy_cmd) event \<Rightarrow> bool" where
  "approving (Heard S_pr_approved) = True"
| "approving (Got (ApprovePr _ _) r) = answered (\<lambda>_. True) r"
| "approving (Got (PollApproval _ _) r) = answered truthy r"
| "approving _ = False"

fun reports_applied :: "(wf_signal, deploy_cmd) event \<Rightarrow> bool" where
  "reports_applied (Heard S_apply_completed) = True"
| "reports_applied (Got (PollApply _ _) r) = answered (\<lambda>v. before_colon (str_of v) = ''success'') r"
| "reports_applied _ = False"

fun reports_merged :: "(wf_signal, deploy_cmd) event \<Rightarrow> bool" where
  "reports_merged (Heard S_pr_merged) = True"
| "reports_merged (Got (PollPrState _ _) r) = answered (\<lambda>v. str_of v = ''merged'') r"
| "reports_merged (Got (CheckAndMerge _ _) r) = answered (\<lambda>v. str_of v = ''merged'') r"
| "reports_merged (Got RunScriptPr r) = answered (\<lambda>v. opt_int (dict_get (dict_of v) ''pr_number'') = None) r"
| "reports_merged _ = False"

fun passes_review :: "(wf_signal, deploy_cmd) event \<Rightarrow> bool" where
  "passes_review (Got (VerifyPlan _ _ _) r) = no_objection r"
| "passes_review _ = False"

section \<open>The gate remembers the trace\<close>

lemma since_review_Nil [simp]: "since_review [] = []"
  by (simp add: since_review_def)

lemma since_review_snoc [simp]:
  "since_review (tr @ [e]) = (if asks_review e then [] else since_review tr @ [e])"
  by (simp add: since_review_def)

lemma gate_of_Nil:
  "gate_of [] = \<lparr>g_locked = False, g_verified = False, g_approval = NotAsked, g_applies = 0,
     g_applied = False, g_merged = False\<rparr>"
  by (simp add: gate_of_def)

lemma asks_iff [simp]:
  "asks_review e \<longleftrightarrow> (\<exists>n r t. e = Issued (VerifyPlan n r t))"
  "asks_plan e \<longleftrightarrow> (\<exists>n r t. e = Issued (PostPlanComment n r t))"
  "asks_apply e \<longleftrightarrow> (\<exists>n r t. e = Issued (PostApplyComment n r t))"
  by ((cases e rule: asks_review.cases; simp), (cases e rule: asks_plan.cases; simp),
      (cases e rule: asks_apply.cases; simp))

lemma gate_locked: "g_locked (gate_of tr) \<longleftrightarrow> Heard S_locks_granted \<in> set tr"
proof (induction tr rule: rev_induct)
  case (snoc e tr)
  then show ?case
    by (cases e) (auto simp: gate_issued_def got_g_locked gate_heard_def grant_def
        split: deploy_cmd.splits wf_signal.splits)
qed (simp add: gate_of_Nil)

lemma gate_merged: "g_merged (gate_of tr) \<longleftrightarrow> list_ex reports_merged tr"
proof (induction tr rule: rev_induct)
  case (snoc e tr)
  then show ?case
    by (cases e) (auto simp: gate_defs split: deploy_cmd.splits wf_signal.splits)
qed (simp add: gate_of_Nil)

lemma gate_applied: "g_applied (gate_of tr) \<longleftrightarrow> last_word reports_applied asks_apply tr"
proof (induction tr rule: rev_induct)
  case (snoc e tr)
  then show ?case
    by (cases e) (auto simp: last_word_snoc gate_defs split: deploy_cmd.splits wf_signal.splits)
qed (simp add: gate_of_Nil)

lemma gate_verified: "g_verified (gate_of tr) \<Longrightarrow> last_word passes_review asks_plan (since_review tr)"
proof (induction tr rule: rev_induct)
  case (snoc e tr)
  then show ?case
    by (cases e) (auto simp: last_word_snoc gate_defs split: deploy_cmd.splits wf_signal.splits if_splits)
qed (simp add: gate_of_Nil)

lemma gate_applies: "g_applies (gate_of tr) = length (filter asks_apply (since_review tr))"
proof (induction tr rule: rev_induct)
  case (snoc e tr)
  then show ?case
    by (cases e) (auto simp: gate_defs split: deploy_cmd.splits wf_signal.splits)
qed (simp add: gate_of_Nil)

lemma gate_granted: "g_approval (gate_of tr) = Granted \<Longrightarrow> list_ex approving (since_review tr)"
proof (induction tr rule: rev_induct)
  case (snoc e tr)
  then show ?case
    by (cases e) (auto simp: gate_defs split: deploy_cmd.splits wf_signal.splits if_splits)
qed (simp add: gate_of_Nil)

section \<open>Runs to look at\<close>

definition demo :: deploy where
  "demo = \<lparr>d_workflow_id = ''deploy-1'', d_tenant = ''acme'', d_dirs = [''svc/api''], d_user = ''u1'',
     d_parent = None, d_track = None, d_group = None, d_approval = True\<rparr>"

definition answer :: "pyval \<Rightarrow> wf_signal turn" where
  "answer v = \<lparr>arrived = [], reply_of = Done v, at_time = 0\<rparr>"

definition hear :: "wf_signal list \<Rightarrow> wf_signal turn" where
  "hear gs = \<lparr>arrived = gs, reply_of = Done VNone, at_time = 0\<rparr>"

definition fail_turn :: "wf_signal turn" where
  "fail_turn = \<lparr>arrived = [], reply_of = Failed ''database'', at_time = 0\<rparr>"

definition fire :: "wf_signal turn" where
  "fire = \<lparr>arrived = [], reply_of = TimedOut, at_time = 0\<rparr>"

abbreviation fine :: "wf_signal turn" where
  "fine \<equiv> answer VNone"

definition demo_pr :: pyval where
  "demo_pr = VDict [(''pr_number'', VInt 7), (''repo_full_name'', VStr ''acme/infra'')]"

text \<open>Up to the wait for the plan; planned; reviewed, approved and applied; merged.\<close>

definition opened_script :: "wf_signal turn list" where
  "opened_script = [fine, hear [S_locks_granted], fine, fine, fine, answer demo_pr] @ replicate 8 fine"

definition applied_script :: "wf_signal turn list" where
  "applied_script = opened_script @ [hear [S_plan_completed]] @ replicate 16 fine @ [hear [S_apply_completed]]"

definition merged_script :: "wf_signal turn list" where
  "merged_script = applied_script @ [fine, fine, fine, answer (VStr ''merged'')] @ replicate 12 fine"

definition events_of :: "wf_signal turn list \<Rightarrow> (wf_signal, deploy_cmd) event list" where
  "events_of ts = trace (snd (run_deploy demo (init_wf ts)))"

section \<open>Properties of every run\<close>

text \<open>
  C8: an apply is only asked for after the review of the plan was asked for and came back without reporting
  the plan as destructive, with no new plan asked for since.  A review that fails or times out reports nothing, and
  the apply goes on without it (the review fails open).  When approvals are switched on, the request was approved
  after that review was asked for; and at most two applies follow one review.
\<close>

theorem apply_only_reviewed:
  assumes "trace (snd (run_deploy d (init_wf ts))) = pre @ Issued (PostApplyComment n repo proj) # post"
  shows "last_word passes_review asks_plan (since_review pre) \<and>
    (d_approval d \<longrightarrow> list_ex approving (since_review pre)) \<and>
    length (filter asks_apply (since_review pre)) < 2"
proof -
  have "permitted (d_approval d) (gate_of pre) (PostApplyComment n repo proj)"
    by (rule run_deploy_permits [OF assms])
  then show ?thesis using gate_verified gate_granted gate_applies [of pre]
    by (auto simp: permitted_def apply_max_retries_def)
qed

definition first_apply :: "(wf_signal, deploy_cmd) event list" where
  "first_apply = takeWhile (\<lambda>e. \<not> asks_apply e) (events_of merged_script)"

theorem apply_only_reviewed_witness:
  "last_word passes_review asks_plan (since_review first_apply) \<and> list_ex approving (since_review first_apply) \<and>
   length (filter asks_apply (since_review first_apply)) < 2"
proof -
  have "events_of merged_script =
    first_apply @ Issued (PostApplyComment 7 ''acme/infra'' None) # drop (length first_apply + 1) (events_of merged_script)"
    by code_simp
  from apply_only_reviewed [OF this [unfolded events_of_def [of merged_script]]]
  show ?thesis by (simp add: demo_def)
qed

text \<open>
  the run asks for the merge of its pull request only when the last apply was reported to have
  succeeded, by the webhook or by a poll.
\<close>

theorem merge_only_applied:
  assumes "trace (snd (run_deploy d (init_wf ts))) = pre @ Issued (CheckAndMerge n repo) # post"
  shows "last_word reports_applied asks_apply pre"
  using run_deploy_permits [OF assms] by (simp add: permitted_def gate_applied)

definition before_merge :: "(wf_signal, deploy_cmd) event list" where
  "before_merge =
     takeWhile (\<lambda>e. e \<noteq> Issued (CheckAndMerge 7 ''acme/infra'')) (events_of merged_script)"

theorem merge_only_applied_witness: "last_word reports_applied asks_apply before_merge"
proof -
  have "events_of merged_script =
    before_merge @ Issued (CheckAndMerge 7 ''acme/infra'') # drop (length before_merge + 1) (events_of merged_script)"
    by code_simp
  from merge_only_applied [OF this [unfolded events_of_def [of merged_script]]] show ?thesis .
qed

fun announces :: "deploy_cmd \<Rightarrow> bool" where
  "announces (DeploymentStatus DEPLOYED _) = True"
| "announces (ResourceStatus _) = True"
| "announces (MergeSecondary _ _ _) = True"
| "announces _ = False"

text \<open>
  a run reports its deployment as done, sets the resource online or merges a secondary pull request
  only after its pull request was reported as merged, or when the scripts needed none.
\<close>

theorem deployed_only_merged:
  assumes "trace (snd (run_deploy d (init_wf ts))) = pre @ Issued c # post" and "announces c"
  shows "list_ex reports_merged pre"
  using run_deploy_permits [OF assms(1)] assms(2)
  by (cases c rule: announces.cases) (auto simp: permitted_def gate_merged)

definition before_done :: "(wf_signal, deploy_cmd) event list" where
  "before_done =
     takeWhile (\<lambda>e. e \<noteq> Issued (DeploymentStatus DEPLOYED None)) (events_of merged_script)"

theorem deployed_only_merged_witness: "list_ex reports_merged before_done"
proof -
  have "events_of merged_script =
    before_done @ Issued (DeploymentStatus DEPLOYED None) # drop (length before_done + 1) (events_of merged_script)"
    by code_simp
  from deployed_only_merged [OF this [unfolded events_of_def [of merged_script]]] show ?thesis by simp
qed

text \<open>
  the scripts that write files and open pull requests only run once the coordinator granted the
  locks of the run's directories.
\<close>

theorem work_only_with_locks:
  assumes "trace (snd (run_deploy d (init_wf ts))) = pre @ Issued RunScriptPr # post"
  shows "Heard S_locks_granted \<in> set pre"
  using run_deploy_permits [OF assms] by (simp add: permitted_def gate_locked)

definition before_work :: "(wf_signal, deploy_cmd) event list" where
  "before_work = takeWhile (\<lambda>e. e \<noteq> Issued RunScriptPr) (events_of merged_script)"

theorem work_only_with_locks_witness: "Heard S_locks_granted \<in> set before_work"
proof -
  have "events_of merged_script =
    before_work @ Issued RunScriptPr # drop (length before_work + 1) (events_of merged_script)"
    by code_simp
  from work_only_with_locks [OF this [unfolded events_of_def [of merged_script]]] show ?thesis .
qed

text \<open>
  C18: a run that ends with a result, or with an error it raises itself, has asked the coordinator to give its locks
  back; among these the one exception is a request that was aborted while it was queued.  Nothing is said of a
  run that dies of an activity's error it does not catch: it may end with its locks (\<open>failed_stage_update_keeps_locks\<close>).
\<close>

theorem ended_run_released:
  assumes "run_deploy d (init_wf ts) = (r, s)"
  shows "(\<forall>a. r = Value a \<longrightarrow> released d (trace s)) \<and>
    (\<forall>why. r = Raised (AppFailed why) \<longrightarrow> why = ''aborted_lock_conflict'' \<or> released d (trace s))"
  using run_deploy_ends [OF assms] by auto

definition closed_script :: "wf_signal turn list" where
  "closed_script = opened_script @ [hear [S_pr_closed]] @ replicate 5 fine"

theorem ended_run_released_witness:
  "fst (run_deploy demo (init_wf closed_script)) = Raised (AppFailed ''pr_closed'') \<and>
   released demo (events_of closed_script)"
proof -
  have ended: "fst (run_deploy demo (init_wf closed_script)) = Raised (AppFailed ''pr_closed'')"
    by code_simp
  show ?thesis using ended_run_released [OF prod.collapse [symmetric], of demo closed_script] ended
    by (simp add: events_of_def)
qed

text \<open>
  C21: no loop of a run comes round without awaiting an activity, a signal or a timer, whatever the
  answers are; a run that has not ended waits for its engine.
\<close>

theorem deployment_never_spins: "fst (run_deploy d (init_wf ts)) \<noteq> Spinning"
  using run_deploy_returns [of d "init_wf ts"] by (metis prod.collapse)

section \<open>A run that is never granted its locks\<close>

text \<open>The signals that end the wait for the locks.\<close>

definition answers_lock :: "wf_signal \<Rightarrow> bool" where
  "answers_lock g = (case g of S_locks_granted \<Rightarrow> True | S_atlas_lock_abort _ \<Rightarrow> True | _ \<Rightarrow> False)"

abbreviation over_lock :: "wf \<Rightarrow> bool" where
  "over_lock s \<equiv> w_locks_granted s \<or> w_force s"


abbreviation waiting :: "nat \<Rightarrow> wf \<Rightarrow> bool" where
  "waiting \<equiv> idle over_lock answers_lock"














section \<open>What a run leaves undone\<close>

lemmas start_eval = run_deploy_def acquire_phase_def create_pr_def stage_def act_def ask_def wait_cond_def
  bind_def assign_def look_def await_def wait_for_def logged_def take_turn_def deliver_def init_wf_def
  ret_def try_except_def lock_wait_answered

definition failing :: "string \<Rightarrow> wf_signal turn" where
  "failing e = \<lparr>arrived = [], reply_of = Failed e, at_time = 0\<rparr>"

text \<open>
  stage updates are tried once and not guarded, so when the first one fails the run dies with the
  engine's error after it was granted its locks and without giving them back.
\<close>

theorem failed_stage_update_keeps_locks:
  "let (r, s) = run_deploy d (init_wf [fine, hear [S_locks_granted], fine, fine, failing e]) in
   r = Raised (ActivityFailed e) \<and> Heard S_locks_granted \<in> set (trace s) \<and> \<not> released d (trace s)"
  by (simp add: start_eval answer_def hear_def failing_def released_def is_release_def)

text \<open>The end of a run whose pull request was merged by someone else.\<close>

fun completes :: "deploy \<Rightarrow> deploy_cmd \<Rightarrow> bool" where
  "completes d (TrackStage _ name _ _ _) = (name = completed_stage d)"
| "completes d _ = False"

definition incomplete :: "deploy \<Rightarrow> wf \<Rightarrow> bool" where
  "incomplete d s \<longleftrightarrow> list_all (\<lambda>e. case e of Issued c \<Rightarrow> \<not> completes d c | _ \<Rightarrow> True) (trace s)"

lemma incomplete_logged [simp]:
  "incomplete d (logged (Issued c) s) \<longleftrightarrow> incomplete d s \<and> \<not> completes d c"
  "incomplete d (logged (Heard g) s) \<longleftrightarrow> incomplete d s"
  "incomplete d (logged (Got c r) s) \<longleftrightarrow> incomplete d s"
  by (auto simp: incomplete_def)

lemma incomplete_signal: "incomplete d s \<Longrightarrow> incomplete d (on_signal g s)"
  by (cases g) (auto simp: incomplete_def logged_def Let_def split: option.splits)

interpretation undone: workflow_rules on_signal "incomplete d" "\<lambda>c. \<not> completes d c" for d
proof unfold_locales
  fix s :: wf and g t ts
  show "incomplete d s \<Longrightarrow> incomplete d (take_turn t ts s)" by (simp add: incomplete_def)
  show "\<exists>cs. trace (on_signal g s) = trace s @ map Issued cs \<and> list_all (\<lambda>c. \<not> completes d c) cs"
  proof (cases g)
    case (S_merge_conflict_detected repo)
    show ?thesis
    proof (cases "w_pr_number s")
      case (Some n)
      then show ?thesis using S_merge_conflict_detected
        by (intro exI [of _ "[Coord (EnqueueMerge n repo (w_tenant_code s) (w_user_code s))]"])
           (simp add: Let_def)
    qed (simp add: S_merge_conflict_detected Let_def)
  qed simp_all
qed (auto intro: incomplete_signal)

abbreviation leaves_open :: "deploy \<Rightarrow> 'a wprog \<Rightarrow> bool" where
  "leaves_open d m \<equiv> quiet (incomplete d) (\<lambda>_ _. True) (\<lambda>_. True) m"

lemma act_leaves_open [quiet_rules]: "\<not> completes d c \<Longrightarrow> leaves_open d (act c)"
  unfolding act_def ask_def by (intro quiet_rules undone.await_quiet) auto

lemma ask_leaves_open: "\<not> completes d c \<Longrightarrow> leaves_open d (ask c)"
  unfolding ask_def by (intro undone.await_quiet) auto

lemma secondary_stage_open: "secondary_artifact ty @ '': merge pr'' \<noteq> completed_stage d"
proof
  assume eq: "secondary_artifact ty @ '': merge pr'' = completed_stage d"
  have "last (secondary_artifact ty @ '': merge pr'') = CHR ''r''" by simp
  moreover have "last (completed_stage d) \<noteq> CHR ''r''" by (simp add: completed_stage_def)
  ultimately show False by (simp only: eq)
qed

lemma merged_end_open: "leaves_open d (merged_end d p)"
proof -
  have "leaves_open d (merge_secondary_pr d sec)" for sec
    unfolding merge_secondary_pr_def stage_def steps.simps
    by (intro quiet_rules ask_leaves_open) (auto simp: secondary_stage_open)
  then show ?thesis
    unfolding merged_end_def merge_secondary_prs_def save_service_alb_url_def release_def steps.simps
    by (intro quiet_rules) (auto simp: finished_def incomplete_def)
qed

text \<open>
  a run whose pull request was merged by someone else ends without writing the stage that marks the
  pipeline run as completed.
\<close>

theorem merged_by_hand_stays_open:
  assumes "incomplete d s"
  shows "incomplete d (snd (merged_end d p s))"
  using tripleD [OF triple_quiet [OF merged_end_open] assms TrueI prod.collapse [symmetric]] by simp

definition by_hand_script :: "wf_signal turn list" where
  "by_hand_script = opened_script @ [hear [S_pr_merged]] @ replicate 6 fine"

theorem merged_by_hand_stays_open_witness:
  "fst (run_deploy demo (init_wf by_hand_script)) = Value (''DEPLOYED'', Some 7) \<and>
   incomplete demo (snd (run_deploy demo (init_wf by_hand_script))) \<and>
   incomplete demo (snd (merged_end demo (pull_request_of (dict_of demo_pr)) (init_wf [])))"
proof (intro conjI)
  show "fst (run_deploy demo (init_wf by_hand_script)) = Value (''DEPLOYED'', Some 7)" by code_simp
  show "incomplete demo (snd (run_deploy demo (init_wf by_hand_script)))" by code_simp
  show "incomplete demo (snd (merged_end demo (pull_request_of (dict_of demo_pr)) (init_wf [])))"
    by (rule merged_by_hand_stays_open) (simp add: incomplete_def init_wf_def)
qed

text \<open>
  A plan result that arrives while the first plan comment is being posted is forgotten, since the
  planning phase clears it when it starts; the run then waits for a poll.
\<close>

definition early_script :: "wf_signal turn list" where
  "early_script = take 12 opened_script @ [hear [S_plan_completed]]"

lemma early_plan_result_lost:
  "Heard S_plan_completed \<in> set (events_of early_script) \<and>
   w_plan_result (snd (run_deploy demo (init_wf early_script))) = None \<and>
   last (events_of early_script) = Issued (DeploymentStatus PLANNING None)"
  by code_simp

text \<open>
  When the automated approval fails at first and succeeds at a later attempt, the stage that was opened
  for the manual approval is never closed.
\<close>

definition late_approval_script :: "wf_signal turn list" where
  "late_approval_script =
     opened_script @ [hear [S_plan_completed]] @ replicate 9 fine
       @ [failing ''review required''] @ replicate 4 fine @ [fire, fine, fine, fine] @ replicate 6 fine
       @ [hear [S_apply_completed]] @ [fine, fine, fine, answer (VStr ''merged'')] @ replicate 12 fine"

fun tracks :: "string \<Rightarrow> string \<Rightarrow> (wf_signal, deploy_cmd) event \<Rightarrow> bool" where
  "tracks name status (Issued (TrackStage _ n st _ _)) = (n = name \<and> st = status)"
| "tracks name status _ = False"

lemma manual_approval_stage_left_open:
  "fst (run_deploy demo (init_wf late_approval_script)) = Value (''ACTIVE'', Some 7) \<and>
   list_ex (tracks ''infra: waiting for approval'' ''running'') (events_of late_approval_script) \<and>
   \<not> list_ex (tracks ''infra: waiting for approval'' ''success'') (events_of late_approval_script)"
  by code_simp

text \<open>
  When the third attempt to merge succeeds, the stage of the manual merge is closed though it was never
  opened.
\<close>

definition third_merge_script :: "wf_signal turn list" where
  "third_merge_script =
     applied_script @ [fine, fine, fine, fine, fine, answer (VStr ''merged'')] @ replicate 14 fine"

lemma third_merge_closes_unopened_stage:
  "fst (run_deploy demo (init_wf third_merge_script)) = Value (''ACTIVE'', Some 7) \<and>
   list_ex (tracks ''infra: waiting for merge'' ''success'') (events_of third_merge_script) \<and>
   \<not> list_ex (tracks ''infra: waiting for merge'' ''running'') (events_of third_merge_script)"
  by code_simp

end
