(* ===== verification/Orchestrator.thy ===== *)
theory Orchestrator
  imports DeployWorkflow
begin

text \<open>
  The parent of a multiple deployment (\<open>app/temporal/workflows/deployment_orchestrator_workflow.py\<close>)
  and its variables child (\<open>variable_deploy_workflow.py\<close>): one run prepares a batch, takes the locks of
  all its directories, runs the service, the variables and the extra groups in this order as child
  workflows, and gives the locks back.  A child that parks has the parent release and re-acquire the
  shared directories.

  Activities and child workflows are commands; their answers are the script of the run.
\<close>

section \<open>State, signals and commands\<close>

datatype orch_signal =
    O_locks_granted
  | O_child_parked wfid "dir list"
  | O_child_resuming wfid "dir list"
  | O_atlas_lock_abort string

datatype orch_err =
    Said string
  | LocksTimedOut "dir list"
  | LocksAborted string

datatype skip_reason = ServiceFailed | VariablesFailed | GroupFailed string

text \<open>What a child is started with: a deployment, or in production mode a promotion.\<close>

datatype child_start =
    DeployChild string "dir list" "int list" string wfid string string
  | PromoteChild string string "int list" "dir list" "dir list" pyval pyval pyval wfid string string

datatype orch_cmd =
    Prepare config
  | OCoord coord_signal
  | OReportStaleQueueWait nat bool
  | OTrackStage string string string "orch_err option"
  | RunChild wfid child_start
  | RunVariables wfid pyval
  | OMarkError "int list" skip_reason
  | OMarkFailed "int list"
  | SignalChild wfid

record group =
  x_dir :: dir
  x_ids :: "int list"
  x_child :: wfid
  x_group :: string

record group_result =
  xr_dir :: dir
  xr_child :: wfid
  xr_outcome :: "string + pyval"

record orch = "(orch_signal, orch_cmd) env" +
  o_granted :: bool
  o_abort :: "string option"
  o_step :: string
  o_result :: "string option"
  o_variables :: pyval
  o_infra_child :: pyval
  o_track :: pyval
  o_extras :: "group_result list"
  o_tenant :: string
  o_user :: string
  o_park :: "dir list"
  o_resume :: "wfid option"

definition init_orch :: "orch_signal turn list \<Rightarrow> orch" where
  "init_orch ts =
     \<lparr>script = ts, trace = [], clock = 0, o_granted = False, o_abort = None, o_step = ''starting'',
      o_result = None, o_variables = VNone, o_infra_child = VNone, o_track = VNone, o_extras = [],
      o_tenant = [], o_user = [], o_park = [], o_resume = None\<rparr>"

text \<open>The signal handlers; \<open>me\<close> is the workflow's id.\<close>

fun on_batch :: "wfid \<Rightarrow> orch_signal \<Rightarrow> orch \<Rightarrow> orch" where
  "on_batch me O_locks_granted s =
     (let s = s\<lparr>o_granted := True\<rparr> in
      case nonempty (o_resume s) of
        None \<Rightarrow> s
      | Some child \<Rightarrow> logged (Issued (SignalChild child)) (s\<lparr>o_resume := None\<rparr>))"
| "on_batch me (O_child_parked child released) s =
     (if o_park s \<noteq> [] then logged (Issued (OCoord (ReleaseLocks me (Some (o_park s))))) s else s)"
| "on_batch me (O_child_resuming child released) s =
     (let s = s\<lparr>o_resume := Some child, o_granted := False\<rparr> in
      if o_park s = [] then logged (Issued (SignalChild child)) (s\<lparr>o_resume := None\<rparr>)
      else logged (Issued (OCoord (AcquireLocks me (o_park s) (o_user s) None))) s)"
| "on_batch me (O_atlas_lock_abort why) s =
     s\<lparr>o_abort := Some (if why = [] then ''aborted_lock_conflict'' else why)\<rparr>"

type_synonym 'a oprog = "(orch, 'a) prog"

definition oask :: "wfid \<Rightarrow> orch_cmd \<Rightarrow> pyval oprog" where
  "oask me c = await (on_batch me) c"

definition oact :: "wfid \<Rightarrow> orch_cmd \<Rightarrow> unit oprog" where
  "oact me c = seq (oask me c) (ret ())"

section \<open>The prepared batch\<close>

definition strs_of :: "pyval \<Rightarrow> string list" where
  "strs_of v = (case v of VList vs \<Rightarrow> map str_of vs | _ \<Rightarrow> [])"

definition ints_of :: "pyval \<Rightarrow> int list" where
  "ints_of v = (case v of VList vs \<Rightarrow> map (\<lambda>v. case v of VInt n \<Rightarrow> n | _ \<Rightarrow> 0) vs | _ \<Rightarrow> [])"

record batch =
  b_dirs :: "dir list"
  b_child :: wfid
  b_track :: string
  b_prod :: bool
  b_ids :: "int list"
  b_service_dirs :: "dir list"
  b_repo :: pyval
  b_source :: pyval
  b_target :: pyval
  b_variables :: bool
  b_var_params :: pyval
  b_groups :: "group list"

definition group_of :: "config \<Rightarrow> group" where
  "group_of g =
     \<lparr>x_dir = str_of (dict_get g ''project_dir''), x_ids = ints_of (dict_get g ''queue_ids''),
      x_child = str_of (dict_get g ''child_id''),
      x_group = (case map_of g ''pr_group'' of None \<Rightarrow> ''other'' | Some v \<Rightarrow> str_of v)\<rparr>"

definition batch_of :: "config \<Rightarrow> batch" where
  "batch_of p =
     \<lparr>b_dirs = strs_of (dict_get p ''project_dirs''), b_child = str_of (dict_get p ''infra_child_id''),
      b_track = str_of (dict_get p ''track_id''),
      b_prod = (dict_get p ''deploy_mode'' = VStr ''production''),
      b_ids = ints_of (dict_get p ''queue_ids''),
      b_service_dirs = strs_of (dict_get p ''service_dirs''),
      b_repo = dict_get p ''repo_full_name'', b_source = dict_get p ''source_branch'',
      b_target = dict_get p ''target_branch'', b_variables = truthy (dict_get p ''has_variables''),
      b_var_params = dict_get p ''variable_params'',
      b_groups = map group_of (dicts_of (dict_get p ''extra_groups''))\<rparr>"

definition keep_batch :: "config \<Rightarrow> orch \<Rightarrow> orch" where
  "keep_batch p s =
     s\<lparr>o_infra_child := dict_get p ''infra_child_id'', o_track := dict_get p ''track_id'',
       o_park := strs_of (dict_get p ''park_release_dirs'')\<rparr>"

section \<open>The run\<close>

record request =
  q_workflow_id :: wfid
  q_tenant :: string
  q_user :: string
  q_params :: config

text \<open>The answer of the run; the keys an exit leaves out are \<open>None\<close> or empty.\<close>

record batch_result =
  r_status :: string
  r_stage :: "string option"
  r_error :: "orch_err option"
  r_variables :: pyval
  r_infra :: "pyval option"
  r_extras :: "group_result list"

definition failed_early :: "orch_err \<Rightarrow> batch_result" where
  "failed_early e =
     \<lparr>r_status = ''FAILED'', r_stage = None, r_error = Some e, r_variables = VNone, r_infra = None,
      r_extras = []\<rparr>"

definition mark_step :: "string \<Rightarrow> string \<Rightarrow> unit oprog" where
  "mark_step st result = assign (\<lambda>s. s\<lparr>o_step := st, o_result := Some result\<rparr>)"

definition batch_stage :: "wfid \<Rightarrow> batch \<Rightarrow> string \<Rightarrow> string \<Rightarrow> orch_err option \<Rightarrow> unit oprog" where
  "batch_stage me b name status err = oact me (OTrackStage (b_track b) name status err)"

text \<open>Groups whose child was never started are marked as failed.\<close>

definition mark_skipped :: "wfid \<Rightarrow> group list \<Rightarrow> skip_reason \<Rightarrow> unit oprog" where
  "mark_skipped me gs why =
     (let ids = concat (map x_ids gs) in
      if ids = [] then ret () else seq (oact me (OMarkError ids why)) (oact me (OMarkFailed ids)))"

text \<open>The wait for the locks and its two failing exits.\<close>

definition queue_exit :: "wfid \<Rightarrow> batch \<Rightarrow> orch_err \<Rightarrow> string \<Rightarrow> batch_result oprog" where
  "queue_exit me b why result =
     steps [batch_stage me b ''waiting in queue'' ''failed'' (Some why),
            batch_stage me b ''completed'' ''failed'' (Some why),
            mark_step ''failed'' result]
       (ret (failed_early why))"

definition timeout_exit :: "wfid \<Rightarrow> batch \<Rightarrow> batch_result oprog" where
  "timeout_exit me b =
     steps [oact me (OCoord (ReleaseHold me)), oact me (OCoord (ReleaseLocks me (Some (b_dirs b))))]
       (queue_exit me b (LocksTimedOut (b_dirs b)) ''lock_timeout'')"

definition queue_phase :: "wfid \<Rightarrow> string \<Rightarrow> batch \<Rightarrow> batch_result oprog \<Rightarrow> batch_result oprog" where
  "queue_phase me user b go =
     steps [assign (\<lambda>s. s\<lparr>o_step := ''acquiring_locks''\<rparr>),
            batch_stage me b ''waiting in queue'' ''running'' None,
            oact me (OCoord (AcquireLocks me (b_dirs b) user None))]
       (bind (lock_wait (on_batch me) (\<lambda>s. o_granted s \<or> o_abort s \<noteq> None) False OReportStaleQueueWait)
         (\<lambda>ok. if \<not> ok then timeout_exit me b
           else look (\<lambda>s. (o_granted s, o_abort s)) (\<lambda>(granted, abort).
             case abort of
               Some why \<Rightarrow>
                 if granted then go else queue_exit me b (LocksAborted why) ''aborted_lock_conflict''
             | None \<Rightarrow> go)))"

text \<open>Children are started and awaited; an error of a child is a value.\<close>

definition run_child :: "wfid \<Rightarrow> wfid \<Rightarrow> child_start \<Rightarrow> (string + pyval) oprog" where
  "run_child me child start =
     try_except (bind (oask me (RunChild child start)) (\<lambda>v. ret (Inr v))) (\<lambda>e. ret (Inl (text_of e)))"

definition service_start :: "request \<Rightarrow> batch \<Rightarrow> child_start" where
  "service_start q b =
     (if b_prod b then
        PromoteChild (q_tenant q) (q_user q) (b_ids b) (b_service_dirs b) [] (b_repo b) (b_source b)
          (b_target b) (q_workflow_id q) (b_track b) ''service''
      else
        DeployChild (q_tenant q) (b_dirs b) (b_ids b) (q_user q) (q_workflow_id q) (b_track b) ''service'')"

definition group_start :: "request \<Rightarrow> batch \<Rightarrow> group \<Rightarrow> child_start" where
  "group_start q b g =
     (if b_prod b then
        PromoteChild (q_tenant q) (q_user q) (x_ids g) [] [x_dir g] (b_repo b) (b_source b)
          (b_target b) (q_workflow_id q) (b_track b) (x_group g)
      else
        DeployChild (q_tenant q) (b_dirs b) (x_ids g) (q_user q) (q_workflow_id q) (b_track b) (x_group g))"

definition stage_failed ::
  "string \<Rightarrow> string \<Rightarrow> pyval option \<Rightarrow> batch_result oprog" where
  "stage_failed st err infra =
     look (\<lambda>s. (o_variables s, o_extras s)) (\<lambda>(vars, extras).
       ret \<lparr>r_status = ''FAILED'', r_stage = Some st, r_error = Some (Said err), r_variables = vars,
            r_infra = infra, r_extras = extras\<rparr>)"

text \<open>The extra groups, one after the other; \<open>list.index\<close> finds the first group that is equal.\<close>

definition after_group :: "group list \<Rightarrow> group \<Rightarrow> group list" where
  "after_group gs g = tl (dropWhile (\<lambda>x. x \<noteq> g) gs)"

definition note_group :: "group \<Rightarrow> string + pyval \<Rightarrow> unit oprog" where
  "note_group g r =
     assign (\<lambda>s. s\<lparr>o_extras := o_extras s @ [\<lparr>xr_dir = x_dir g, xr_child = x_child g, xr_outcome = r\<rparr>]\<rparr>)"

definition group_failed ::
  "wfid \<Rightarrow> batch \<Rightarrow> pyval option \<Rightarrow> group \<Rightarrow> string \<Rightarrow> batch_result oprog" where
  "group_failed me b infra g err =
     steps [mark_skipped me (after_group (b_groups b) g) (GroupFailed (x_dir g)),
            batch_stage me b ''completed'' ''failed'' (Some (Said err)),
            mark_step ''failed'' ''extra_group_failed'']
       (stage_failed ''extra'' err infra)"

definition batch_done :: "wfid \<Rightarrow> batch \<Rightarrow> pyval option \<Rightarrow> batch_result oprog" where
  "batch_done me b infra =
     steps [mark_step ''completed'' ''success'', batch_stage me b ''completed'' ''success'' None]
       (look (\<lambda>s. (o_variables s, o_extras s)) (\<lambda>(vars, extras).
         ret \<lparr>r_status = ''COMPLETED'', r_stage = None, r_error = None, r_variables = vars,
              r_infra = infra, r_extras = extras\<rparr>))"

fun extra_phase :: "request \<Rightarrow> batch \<Rightarrow> pyval option \<Rightarrow> group list \<Rightarrow> batch_result oprog" where
  "extra_phase q b infra [] = batch_done (q_workflow_id q) b infra"
| "extra_phase q b infra (g # gs) =
     seq (assign (\<lambda>s. s\<lparr>o_step := ''deploying_extra:'' @ x_dir g\<rparr>))
       (bind (run_child (q_workflow_id q) (x_child g) (group_start q b g)) (\<lambda>r.
         seq (note_group g r)
           (case r of
              Inr _ \<Rightarrow> extra_phase q b infra gs
            | Inl err \<Rightarrow> group_failed (q_workflow_id q) b infra g err)))"

text \<open>The variables child is not guarded: its error ends the run.\<close>

definition variables_failed :: "wfid \<Rightarrow> batch \<Rightarrow> pyval option \<Rightarrow> pyval \<Rightarrow> batch_result oprog" where
  "variables_failed me b infra v =
     steps [mark_skipped me (b_groups b) VariablesFailed, mark_step ''failed'' ''variables_failed'']
       (stage_failed ''variables''
         (case opt_str (dict_get (dict_of v) ''error'') of Some e \<Rightarrow> e | None \<Rightarrow> ''variable deployment failed'')
         infra)"

definition variables_phase :: "request \<Rightarrow> batch \<Rightarrow> pyval option \<Rightarrow> batch_result oprog" where
  "variables_phase q b infra =
     (if b_variables b then
        seq (assign (\<lambda>s. s\<lparr>o_step := ''deploying_variables''\<rparr>))
          (bind (oask (q_workflow_id q) (RunVariables (''vars-'' @ q_workflow_id q) (b_var_params b))) (\<lambda>v.
            seq (assign (\<lambda>s. s\<lparr>o_variables := v\<rparr>))
              (if truthy (dict_get (dict_of v) ''all_success'') then extra_phase q b infra (b_groups b)
               else variables_failed (q_workflow_id q) b infra v)))
      else extra_phase q b infra (b_groups b))"

definition service_failed :: "wfid \<Rightarrow> batch \<Rightarrow> string \<Rightarrow> batch_result oprog" where
  "service_failed me b err =
     steps [mark_skipped me (b_groups b) ServiceFailed,
            batch_stage me b ''completed'' ''failed'' (Some (Said err)),
            mark_step ''failed'' ''infra_failed'']
       (look o_extras (\<lambda>extras.
         ret \<lparr>r_status = ''FAILED'', r_stage = Some ''infra'', r_error = Some (Said err),
              r_variables = VNone, r_infra = None, r_extras = extras\<rparr>))"

definition service_phase :: "request \<Rightarrow> batch \<Rightarrow> batch_result oprog" where
  "service_phase q b =
     (if b_ids b \<noteq> [] then
        seq (assign (\<lambda>s. s\<lparr>o_step := ''deploying_infra''\<rparr>))
          (bind (run_child (q_workflow_id q) (b_child b) (service_start q b)) (\<lambda>r.
            case r of
              Inl err \<Rightarrow> service_failed (q_workflow_id q) b err
            | Inr v \<Rightarrow> variables_phase q b (Some v)))
      else variables_phase q b None)"

definition locked_phase :: "request \<Rightarrow> batch \<Rightarrow> batch_result oprog" where
  "locked_phase q b =
     seq (batch_stage (q_workflow_id q) b ''waiting in queue'' ''success'' None)
       (try_finally (service_phase q b)
         (oact (q_workflow_id q) (OCoord (ReleaseLocks (q_workflow_id q) (Some (b_dirs b))))))"

definition run_batch :: "request \<Rightarrow> batch_result oprog" where
  "run_batch q =
     seq (assign (\<lambda>s. s\<lparr>o_tenant := q_tenant q, o_user := q_user q, o_step := ''preparing''\<rparr>))
       (bind (oask (q_workflow_id q)
               (Prepare (AList.update ''orchestrator_id'' (VStr (q_workflow_id q)) (q_params q))))
         (\<lambda>v. let prep = dict_of v in
           if truthy (dict_get prep ''error'') then
             seq (mark_step ''failed'' (str_of (dict_get prep ''error'')))
               (ret (failed_early (Said (str_of (dict_get prep ''error'')))))
           else
             seq (assign (keep_batch prep))
               (queue_phase (q_workflow_id q) (q_user q) (batch_of prep) (locked_phase q (batch_of prep)))))"

section \<open>The variables child\<close>

text \<open>\<open>variable_deploy_workflow.py\<close>; it has no signals and no state besides its step.\<close>

datatype var_cmd = DeployVariables config | VTrackStage pyval string string string

record vars = "(unit, var_cmd) env" +
  v_step :: string

definition init_vars :: "unit turn list \<Rightarrow> vars" where
  "init_vars ts = \<lparr>script = ts, trace = [], clock = 0, v_step = ''starting''\<rparr>"

type_synonym 'a vprog = "(vars, 'a) prog"

definition vask :: "var_cmd \<Rightarrow> pyval vprog" where
  "vask c = await (\<lambda>_ s. s) c"

definition run_variables :: "config \<Rightarrow> pyval vprog" where
  "run_variables params =
     seq (assign (\<lambda>s. s\<lparr>v_step := ''deploying_variables''\<rparr>))
       (bind (try_except (bind (vask (DeployVariables params)) (\<lambda>v. ret (Inr v))) (\<lambda>e. ret (Inl (text_of e))))
         (\<lambda>r. case r of
            Inl err \<Rightarrow>
              steps [assign (\<lambda>s. s\<lparr>v_step := ''failed''\<rparr>),
                     seq (vask (VTrackStage (dict_get params ''track_id'') ''completed'' ''failed'' err)) (ret ())]
                (ret (VDict [(''all_success'', VBool False), (''results'', VList []), (''error'', VStr err)]))
          | Inr v \<Rightarrow>
              let ok = truthy (dict_get (dict_of v) ''all_success'') in
              steps [assign (\<lambda>s. s\<lparr>v_step := (if ok then ''completed'' else ''failed'')\<rparr>),
                     only_if (\<not> ok) (seq (vask (VTrackStage (dict_get params ''track_id'') ''completed'' ''failed''
                       (case opt_str (dict_get (dict_of v) ''error'') of Some e \<Rightarrow> e
                        | None \<Rightarrow> ''one or more variables failed''))) (ret ()))]
                (ret v)))"

end
