(* ===== verification/OrchestratorProperties.thy ===== *)
theory OrchestratorProperties
  imports Orchestrator
begin

text \<open>
  What every run of a multiple deployment satisfies: children are started one after the other in the
  planned order and only under the locks, and the locks are given back on every way out.
\<close>

section \<open>Reading a trace\<close>

fun starts :: "orch_cmd \<Rightarrow> bool" where
  "starts (RunChild _ _) = True"
| "starts (RunVariables _ _) = True"
| "starts _ = False"

text \<open>The child answered, and for the variables it reported success.\<close>

fun child_ok :: "orch_cmd \<Rightarrow> reply \<Rightarrow> bool" where
  "child_ok (RunVariables _ _) (Done v) = truthy (dict_get (dict_of v) ''all_success'')"
| "child_ok (RunChild _ _) (Done v) = True"
| "child_ok _ _ = False"

fun started_by :: "(orch_signal, orch_cmd) event \<Rightarrow> orch_cmd list" where
  "started_by (Issued c) = (if starts c then [c] else [])"
| "started_by _ = []"

fun finished_by :: "(orch_signal, orch_cmd) event \<Rightarrow> orch_cmd list" where
  "finished_by (Got c r) = (if child_ok c r then [c] else [])"
| "finished_by _ = []"

definition started :: "(orch_signal, orch_cmd) event list \<Rightarrow> orch_cmd list" where
  "started tr = concat (map started_by tr)"

definition finished_ok :: "(orch_signal, orch_cmd) event list \<Rightarrow> orch_cmd list" where
  "finished_ok tr = concat (map finished_by tr)"

text \<open>The children of a batch, in the order they have to be deployed.\<close>

definition plan_of :: "request \<Rightarrow> batch \<Rightarrow> orch_cmd list" where
  "plan_of q b =
     (if b_ids b \<noteq> [] then [RunChild (b_child b) (service_start q b)] else []) @
     (if b_variables b then [RunVariables (''vars-'' @ q_workflow_id q) (b_var_params b)] else []) @
     map (\<lambda>g. RunChild (x_child g) (group_start q b g)) (b_groups b)"

definition before_grant :: "(orch_signal, orch_cmd) event list \<Rightarrow> (orch_signal, orch_cmd) event list" where
  "before_grant tr = takeWhile (\<lambda>e. e \<noteq> Heard O_locks_granted) tr"

definition gives_back :: "wfid \<Rightarrow> dir list \<Rightarrow> (orch_signal, orch_cmd) event \<Rightarrow> bool" where
  "gives_back me dirs e \<longleftrightarrow> e = Issued (OCoord (ReleaseLocks me (Some dirs)))"

definition given_back :: "wfid \<Rightarrow> dir list \<Rightarrow> (orch_signal, orch_cmd) event list \<Rightarrow> bool" where
  "given_back me dirs tr \<longleftrightarrow> last_word (gives_back me dirs) (\<lambda>e. started_by e \<noteq> []) tr"

lemma started_simps [simp]:
  "started [] = []" "started (tr @ [e]) = started tr @ started_by e"
  "finished_ok [] = []" "finished_ok (tr @ [e]) = finished_ok tr @ finished_by e"
  by (simp_all add: started_def finished_ok_def)

lemma before_grant_simps [simp]:
  "before_grant [] = []"
  "before_grant (tr @ [e]) =
     (if Heard O_locks_granted \<in> set tr then before_grant tr
      else if e = Heard O_locks_granted then before_grant tr else before_grant tr @ [e])"
  by (auto simp: before_grant_def takeWhile_append intro!: takeWhile_eq_all_conv [THEN iffD2, symmetric])

lemma child_ok_starts: "child_ok c r \<Longrightarrow> starts c"
  by (cases c) (auto elim: child_ok.elims)

lemma routine_quiet [simp]:
  "\<not> starts c \<Longrightarrow> started_by (Issued c) = []" "\<not> starts c \<Longrightarrow> finished_by (Got c r) = []"
  using child_ok_starts by auto

section \<open>The invariant\<close>

definition progress :: "orch_cmd list \<Rightarrow> nat \<Rightarrow> (orch_signal, orch_cmd) event list \<Rightarrow> bool" where
  "progress plan k tr \<longleftrightarrow> k \<le> length plan \<and> started tr = take k plan \<and> finished_ok tr = take k plan"

definition underway :: "orch_cmd list \<Rightarrow> nat \<Rightarrow> (orch_signal, orch_cmd) event list \<Rightarrow> bool" where
  "underway plan k tr \<longleftrightarrow> k < length plan \<and> started tr = take (Suc k) plan \<and> finished_ok tr = take k plan"

definition batch_inv :: "orch_cmd list \<Rightarrow> orch \<Rightarrow> bool" where
  "batch_inv plan s \<longleftrightarrow>
     (\<exists>k. progress plan k (trace s) \<or> underway plan k (trace s)) \<and>
     started (before_grant (trace s)) = [] \<and>
     (o_granted s \<longrightarrow> Heard O_locks_granted \<in> set (trace s))"

lemma progress_routine:
  "\<not> starts c \<Longrightarrow> progress plan k (tr @ [Issued c]) = progress plan k tr"
  "\<not> starts c \<Longrightarrow> progress plan k (tr @ [Got c r]) = progress plan k tr"
  "progress plan k (tr @ [Heard g]) = progress plan k tr"
  "\<not> starts c \<Longrightarrow> underway plan k (tr @ [Issued c]) = underway plan k tr"
  "\<not> starts c \<Longrightarrow> underway plan k (tr @ [Got c r]) = underway plan k tr"
  "underway plan k (tr @ [Heard g]) = underway plan k tr"
  by (auto simp: progress_def underway_def dest: child_ok_starts)

lemma batch_inv_issued: "\<not> starts c \<Longrightarrow> batch_inv plan s \<Longrightarrow> batch_inv plan (logged (Issued c) s)"
  by (auto simp: batch_inv_def logged_def progress_routine)

lemma batch_inv_got: "\<not> starts c \<Longrightarrow> batch_inv plan s \<Longrightarrow> batch_inv plan (logged (Got c r) s)"
  by (auto simp: batch_inv_def logged_def progress_routine)

lemma batch_inv_heard: "batch_inv plan s \<Longrightarrow> batch_inv plan (logged (Heard g) s)"
  by (auto simp: batch_inv_def logged_def progress_routine)

lemma batch_inv_signal: "batch_inv plan s \<Longrightarrow> batch_inv plan (on_batch me g (logged (Heard g) s))"
proof (cases g)
  case O_locks_granted
  assume s: "batch_inv plan s"
  let ?s = "logged (Heard g) s\<lparr>o_granted := True\<rparr>"
  have "batch_inv plan ?s" using batch_inv_heard [OF s, of g] O_locks_granted
    by (simp add: batch_inv_def logged_def)
  then have "batch_inv plan (logged (Issued (SignalChild c)) (?s\<lparr>o_resume := None\<rparr>))" for c
    by (intro batch_inv_issued) (simp_all add: batch_inv_def logged_def)
  with \<open>batch_inv plan ?s\<close> O_locks_granted show ?thesis by (auto simp: Let_def split: option.split)
next
  case (O_child_resuming child dirs)
  assume s: "batch_inv plan s"
  have "batch_inv plan (logged (Heard g) s\<lparr>o_resume := r, o_granted := False\<rparr>)"
    "batch_inv plan (logged (Heard g) s\<lparr>o_granted := False, o_resume := r\<rparr>)" for r
    using batch_inv_heard [OF s, of g] by (simp_all add: batch_inv_def logged_def)
  then show ?thesis using O_child_resuming batch_inv_issued [where plan = plan]
    by (auto simp: Let_def intro!: batch_inv_issued)
next
  case (O_child_parked child dirs)
  assume "batch_inv plan s"
  then show ?thesis using O_child_parked batch_inv_heard by (auto intro!: batch_inv_issued)
next
  case (O_atlas_lock_abort why)
  assume "batch_inv plan s"
  from batch_inv_heard [OF this, of g] O_atlas_lock_abort show ?thesis
    by (simp add: batch_inv_def logged_def)
qed

interpretation ob: workflow_rules "on_batch me" "batch_inv plan" "\<lambda>c. \<not> starts c" for me plan
proof unfold_locales
  fix s :: orch and g t ts
  show "batch_inv plan s \<Longrightarrow> batch_inv plan (take_turn t ts s)" by (simp add: batch_inv_def take_turn_def)
  have none: "\<exists>cs. trace s = trace s @ map Issued cs \<and> list_all (\<lambda>c. \<not> starts c) cs" by simp
  have one: "\<exists>cs. trace s @ [Issued c] = trace s @ map Issued cs \<and> list_all (\<lambda>c. \<not> starts c) cs"
    if "\<not> starts c" for c by (intro exI [of _ "[c]"]) (simp add: that)
  show "\<exists>cs. trace (on_batch me g s) = trace s @ map Issued cs \<and> list_all (\<lambda>c. \<not> starts c) cs"
    using none one by (cases g) (auto simp: Let_def split: option.split)
qed (auto intro: batch_inv_issued batch_inv_got batch_inv_signal)

abbreviation batch_calm :: "((orch_signal, orch_cmd) event list \<Rightarrow> bool) \<Rightarrow> bool" where
  "batch_calm \<equiv> calm (\<lambda>c. \<not> starts c)"

abbreviation keeps :: "orch_cmd list \<Rightarrow> ((orch_signal, orch_cmd) event list \<Rightarrow> bool) \<Rightarrow> 'a oprog \<Rightarrow> bool" where
  "keeps plan T m \<equiv> quiet (batch_inv plan) (\<lambda>_ s. T (trace s)) T m"

lemma batch_calm_facts [intro]:
  "batch_calm (progress plan k)" "batch_calm (underway plan k)" "batch_calm (\<lambda>tr. finished_ok tr = plan)"
  "batch_calm (given_back me dirs)"
  by (auto simp: calm_def progress_routine given_back_def last_word_snoc dest: child_ok_starts)

lemma oact_keeps [quiet_rules]: "\<not> starts c \<Longrightarrow> batch_calm T \<Longrightarrow> keeps plan T (oact me c)"
  unfolding oact_def oask_def by (intro quiet_rules ob.await_quiet) auto

lemma batch_stage_keeps [quiet_rules]: "batch_calm T \<Longrightarrow> keeps plan T (batch_stage me b n st e)"
  unfolding batch_stage_def by (intro quiet_rules) auto

lemma inv_trace: "trace s' = trace s \<Longrightarrow> (o_granted s' \<Longrightarrow> o_granted s) \<Longrightarrow> batch_inv plan s \<Longrightarrow> batch_inv plan s'"
  by (simp add: batch_inv_def)

lemma set_keeps [quiet_rules]:
  "(\<And>s. trace (f s) = trace s) \<Longrightarrow> (\<And>s. o_granted (f s) = o_granted s) \<Longrightarrow> keeps plan T (assign f)"
  by (rule quiet_assign) (auto intro: inv_trace)

lemma mark_keeps [quiet_rules]:
  "keeps plan T (mark_step st r)" "keeps plan T (note_group g res)"
  "batch_calm T \<Longrightarrow> keeps plan T (mark_skipped me gs why)"
  unfolding mark_step_def note_group_def mark_skipped_def Let_def
  by (intro quiet_rules; simp)+

section \<open>The phases\<close>

abbreviation batch_locked :: "(orch_signal, orch_cmd) event list \<Rightarrow> bool" where
  "batch_locked tr \<equiv> Heard O_locks_granted \<in> set tr"

abbreviation at_child :: "orch_cmd list \<Rightarrow> nat \<Rightarrow> orch \<Rightarrow> bool" where
  "at_child plan k s \<equiv> progress plan k (trace s) \<and> batch_locked (trace s)"

abbreviation sure :: "orch_cmd list \<Rightarrow> (orch \<Rightarrow> bool) \<Rightarrow> 'a oprog \<Rightarrow> ('a \<Rightarrow> orch \<Rightarrow> bool) \<Rightarrow> bool" where
  "sure plan P m Q \<equiv> triple (batch_inv plan) (\<lambda>_ _. True) P m Q"

lemma got_underway:
  "underway plan k tr \<Longrightarrow> plan ! k = c \<Longrightarrow>
    (if child_ok c r then progress plan (Suc k) (tr @ [Got c r]) else underway plan k (tr @ [Got c r]))"
  by (auto simp: underway_def progress_def take_Suc_conv_app_nth)

lemma child_triple:
  assumes c: "k < length plan" "plan ! k = c" "starts c"
  shows "sure plan (at_child plan k) (oask me c)
    (\<lambda>v s. child_ok c (Done v) \<longrightarrow> at_child plan (Suc k) s)"
  unfolding oask_def
proof (rule triple_weaken [OF ob.await_triple [where T = "\<lambda>tr. underway plan k tr \<and> batch_locked tr" and P = "at_child plan k"]])
  show "batch_calm (\<lambda>tr. underway plan k tr \<and> batch_locked tr)" by (intro calm_conj calm_member batch_calm_facts)
  show "batch_inv plan (logged (Issued c) s) \<and> underway plan k (trace s @ [Issued c]) \<and> batch_locked (trace s @ [Issued c])"
    if "batch_inv plan s" "at_child plan k s" for s
  proof -
    have "underway plan k (trace s @ [Issued c])" using that c
      by (auto simp: progress_def underway_def take_Suc_conv_app_nth)
    with that show ?thesis by (auto simp: batch_inv_def)
  qed
  show "batch_inv plan (logged (Got c r) s)"
    if "batch_inv plan s" "underway plan k (trace s) \<and> batch_locked (trace s)" for s r
    using that got_underway [of plan k "trace s" c r] c(2) by (auto simp: batch_inv_def split: if_splits)
  show "\<exists>tr. trace s = tr @ [Got c (Done v)] \<and> underway plan k tr \<and> batch_locked tr \<Longrightarrow>
    child_ok c (Done v) \<longrightarrow> at_child plan (Suc k) s" for v s
    using got_underway [of plan k _ c "Done v"] c(2) by (auto split: if_splits)
qed auto

lemma run_child_triple:
  assumes "k < length plan" "plan ! k = RunChild child start"
  shows "sure plan (at_child plan k) (run_child me child start)
    (\<lambda>r s. case r of Inl _ \<Rightarrow> True | Inr _ \<Rightarrow> at_child plan (Suc k) s)"
  unfolding run_child_def
  by (rule triple_try [OF triple_bind [OF child_triple [OF assms]]]) (auto intro!: triple_ret)

lemma triple_keeps:
  "keeps plan T m \<Longrightarrow> (\<And>s. batch_inv plan s \<Longrightarrow> P s \<Longrightarrow> T (trace s)) \<Longrightarrow>
    (\<And>a s. batch_inv plan s \<Longrightarrow> T (trace s) \<Longrightarrow> Q a s) \<Longrightarrow>
    (\<And>e s. batch_inv plan s \<Longrightarrow> T (trace s) \<Longrightarrow> E e s) \<Longrightarrow> triple (batch_inv plan) E P m Q"
  unfolding quiet_def triple_def by blast

lemma triple_keeps_yields:
  "keeps plan T m \<Longrightarrow> yields V m \<Longrightarrow> (\<And>s. batch_inv plan s \<Longrightarrow> P s \<Longrightarrow> T (trace s)) \<Longrightarrow>
    (\<And>a s. batch_inv plan s \<Longrightarrow> T (trace s) \<Longrightarrow> V a \<Longrightarrow> Q a s) \<Longrightarrow>
    (\<And>e s. batch_inv plan s \<Longrightarrow> T (trace s) \<Longrightarrow> E e s) \<Longrightarrow> triple (batch_inv plan) E P m Q"
  unfolding quiet_def triple_def yields_def by blast

text \<open>A completed batch has deployed everything; every failing exit says so.\<close>

abbreviation complete :: "orch_cmd list \<Rightarrow> batch_result \<Rightarrow> orch \<Rightarrow> bool" where
  "complete plan r s \<equiv> r_status r = ''COMPLETED'' \<longrightarrow> finished_ok (trace s) = plan"

lemmas exit_yields = yields_steps yields_look yields_bind yields_if yields_ret

lemma failed_exit:
  assumes "keeps plan (\<lambda>_. True) m" "yields (\<lambda>r. r_status r \<noteq> ''COMPLETED'') m"
  shows "sure plan P m (complete plan)"
  by (rule triple_keeps_yields [OF assms]) auto

lemma exit_keeps:
  "keeps plan (\<lambda>_. True) (group_failed me b infra g err)"
  "keeps plan (\<lambda>_. True) (variables_failed me b infra v)"
  "keeps plan (\<lambda>_. True) (service_failed me b err)"
  unfolding group_failed_def variables_failed_def service_failed_def stage_failed_def split_beta
  by (intro quiet_rules calm_True)+

lemma exit_fails:
  "yields (\<lambda>r. r_status r \<noteq> ''COMPLETED'') (group_failed me b infra g err)"
  "yields (\<lambda>r. r_status r \<noteq> ''COMPLETED'') (variables_failed me b infra v)"
  "yields (\<lambda>r. r_status r \<noteq> ''COMPLETED'') (service_failed me b err)"
  unfolding group_failed_def variables_failed_def service_failed_def stage_failed_def split_beta
  by (intro exit_yields; simp)+

lemma batch_done_triple: "sure plan (at_child plan (length plan)) (batch_done me b infra) (complete plan)"
proof (rule triple_keeps [where T = "\<lambda>tr. finished_ok tr = plan"])
  show "keeps plan (\<lambda>tr. finished_ok tr = plan) (batch_done me b infra)"
    unfolding batch_done_def split_beta by (intro quiet_rules batch_calm_facts)
qed (auto simp: progress_def)

lemma sure_assign:
  assumes "\<And>s. trace (f s) = trace s" "\<And>s. o_granted (f s) = o_granted s"
    and "sure plan (at_child plan k) m Q"
  shows "sure plan (at_child plan k) (seq (assign f) m) Q"
  by (rule triple_bind [OF triple_assign [where Q = "\<lambda>_. at_child plan k"] assms(3)])
     (auto intro: inv_trace simp: assms)

lemma extra_phase_triple:
  "plan_of q b = pre @ map (\<lambda>g. RunChild (x_child g) (group_start q b g)) gs \<Longrightarrow>
    sure (plan_of q b) (at_child (plan_of q b) (length pre)) (extra_phase q b infra gs) (complete (plan_of q b))"
proof (induction gs arbitrary: pre)
  case Nil
  then show ?case using batch_done_triple [of "plan_of q b"] by simp
next
  case (Cons g gs)
  let ?c = "RunChild (x_child g) (group_start q b g)"
  have k: "length pre < length (plan_of q b)" "plan_of q b ! length pre = ?c"
    by (simp_all add: Cons.prems)
  have go: "sure (plan_of q b) (at_child (plan_of q b) (Suc (length pre))) (extra_phase q b infra gs)
    (complete (plan_of q b))"
    using Cons.IH [of "pre @ [?c]"] Cons.prems by simp
  show ?case unfolding extra_phase.simps
  proof (intro sure_assign, simp, simp, rule triple_bind [OF run_child_triple [OF k]])
    fix r
    show "sure (plan_of q b) (\<lambda>s. case r of Inl _ \<Rightarrow> True | Inr _ \<Rightarrow> at_child (plan_of q b) (Suc (length pre)) s)
      (seq (note_group g r) (case r of Inr _ \<Rightarrow> extra_phase q b infra gs
         | Inl err \<Rightarrow> group_failed (q_workflow_id q) b infra g err)) (complete (plan_of q b))"
    proof (cases r)
      case (Inl err)
      have "keeps (plan_of q b) (\<lambda>_. True) (seq (note_group g r) (group_failed (q_workflow_id q) b infra g err))"
        by (intro quiet_rules exit_keeps)
      from failed_exit [OF this yields_bind [OF exit_fails(1)]] show ?thesis by (simp add: Inl)
    next
      case (Inr v)
      then show ?thesis using sure_assign [OF _ _ go] by (simp add: note_group_def)
    qed
  qed
qed

lemma variables_phase_triple:
  assumes "plan_of q b = pre @ (if b_variables b then [RunVariables (''vars-'' @ q_workflow_id q) (b_var_params b)] else []) @
     map (\<lambda>g. RunChild (x_child g) (group_start q b g)) (b_groups b)"
  shows "sure (plan_of q b) (at_child (plan_of q b) (length pre)) (variables_phase q b infra) (complete (plan_of q b))"
proof (cases "b_variables b")
  case False
  then show ?thesis using extra_phase_triple [of q b pre "b_groups b" infra] assms
    by (simp add: variables_phase_def)
next
  case True
  let ?c = "RunVariables (''vars-'' @ q_workflow_id q) (b_var_params b)"
  let ?plan = "plan_of q b"
  have k: "length pre < length ?plan" "?plan ! length pre = ?c" by (simp_all add: assms True)
  have go: "sure ?plan (at_child ?plan (Suc (length pre))) (extra_phase q b infra (b_groups b)) (complete ?plan)"
    using extra_phase_triple [of q b "pre @ [?c]" "b_groups b" infra] assms True by simp
  have "sure ?plan (\<lambda>s. child_ok ?c (Done v) \<longrightarrow> at_child ?plan (Suc (length pre)) s)
    (seq (assign (\<lambda>s. s\<lparr>o_variables := v\<rparr>))
      (if truthy (dict_get (dict_of v) ''all_success'') then extra_phase q b infra (b_groups b)
       else variables_failed (q_workflow_id q) b infra v)) (complete ?plan)" for v
  proof (cases "truthy (dict_get (dict_of v) ''all_success'')")
    case True
    then show ?thesis using sure_assign [OF _ _ go] by simp
  next
    case False
    have "keeps ?plan (\<lambda>_. True) (seq (assign (\<lambda>s. s\<lparr>o_variables := v\<rparr>)) (variables_failed (q_workflow_id q) b infra v))"
      by (intro quiet_rules exit_keeps) (auto intro: inv_trace)
    from failed_exit [OF this yields_bind [OF exit_fails(2)]] False show ?thesis by simp
  qed
  note rest = this
  have "sure ?plan (at_child ?plan (length pre)) (bind (oask (q_workflow_id q) ?c) (\<lambda>v.
    seq (assign (\<lambda>s. s\<lparr>o_variables := v\<rparr>))
      (if truthy (dict_get (dict_of v) ''all_success'') then extra_phase q b infra (b_groups b)
       else variables_failed (q_workflow_id q) b infra v))) (complete ?plan)"
    by (rule triple_bind [OF child_triple [OF k]]) (simp, rule rest)
  then show ?thesis using True by (simp add: variables_phase_def sure_assign)
qed

lemma service_phase_triple:
  "sure (plan_of q b) (at_child (plan_of q b) 0) (service_phase q b) (complete (plan_of q b))"
proof (cases "b_ids b = []")
  case True
  then show ?thesis using variables_phase_triple [of q b "[]"] by (simp add: service_phase_def plan_of_def)
next
  case False
  let ?c = "RunChild (b_child b) (service_start q b)"
  let ?plan = "plan_of q b"
  have k: "0 < length ?plan" "?plan ! 0 = ?c" using False by (simp_all add: plan_of_def)
  have go: "sure ?plan (at_child ?plan (Suc 0)) (variables_phase q b (Some v)) (complete ?plan)" for v
    using variables_phase_triple [of q b "[?c]"] False by (simp add: plan_of_def)
  have fails: "sure ?plan P (service_failed (q_workflow_id q) b err) (complete ?plan)" for P err
    by (rule failed_exit [OF exit_keeps(3) exit_fails(3)])
  have "sure ?plan (at_child ?plan 0) (bind (run_child (q_workflow_id q) (b_child b) (service_start q b)) (\<lambda>r.
    case r of Inl err \<Rightarrow> service_failed (q_workflow_id q) b err | Inr v \<Rightarrow> variables_phase q b (Some v)))
    (complete ?plan)"
    by (rule triple_bind [OF run_child_triple [OF k]]) (auto split: sum.split intro: go fails)
  then show ?thesis using False by (simp add: service_phase_def sure_assign)
qed

text \<open>What a run owes at its end: the locks, when it started a child.\<close>

abbreviation settled :: "request \<Rightarrow> batch \<Rightarrow> orch \<Rightarrow> bool" where
  "settled q b s \<equiv> started (trace s) = [] \<or> given_back (q_workflow_id q) (b_dirs b) (trace s)"

abbreviation owed :: "request \<Rightarrow> batch \<Rightarrow> (orch \<Rightarrow> bool) \<Rightarrow> 'a oprog \<Rightarrow> ('a \<Rightarrow> orch \<Rightarrow> bool) \<Rightarrow> bool" where
  "owed q b P m Q \<equiv> triple (batch_inv (plan_of q b)) (\<lambda>_. settled q b) P m (\<lambda>r s. Q r s \<and> settled q b s)"

lemma batch_release_triple:
  assumes "batch_calm T"
  shows "triple (batch_inv plan) (\<lambda>_ s. given_back me dirs (trace s)) (\<lambda>s. T (trace s))
    (oact me (OCoord (ReleaseLocks me (Some dirs)))) (\<lambda>_ s. T (trace s) \<and> given_back me dirs (trace s))"
  unfolding oact_def oask_def
proof (rule triple_bind [OF ob.await_triple [where T = "\<lambda>tr. T tr \<and> given_back me dirs tr"]])
  show "batch_calm (\<lambda>tr. T tr \<and> given_back me dirs tr)" using assms by auto
  show "batch_inv plan (logged (Issued (OCoord (ReleaseLocks me (Some dirs)))) s) \<and>
    T (trace s @ [Issued (OCoord (ReleaseLocks me (Some dirs)))]) \<and>
    given_back me dirs (trace s @ [Issued (OCoord (ReleaseLocks me (Some dirs)))])"
    if "batch_inv plan s" "T (trace s)" for s
    using that assms
    by (auto simp: calm_def given_back_def last_word_snoc gives_back_def intro: batch_inv_issued)
  show "triple (batch_inv plan) (\<lambda>_ s. given_back me dirs (trace s))
    (\<lambda>s. \<exists>tr. trace s = tr @ [Got (OCoord (ReleaseLocks me (Some dirs))) (Done a)] \<and> T tr \<and> given_back me dirs tr)
    (ret ()) (\<lambda>_ s. T (trace s) \<and> given_back me dirs (trace s))" for a
    using assms by (intro triple_ret) (auto simp: calm_def given_back_def last_word_snoc)
qed (auto intro: batch_inv_got simp: given_back_def last_word_snoc)

lemma locked_phase_triple:
  "owed q b (\<lambda>s. progress (plan_of q b) 0 (trace s) \<and> batch_locked (trace s)) (locked_phase q b) (complete (plan_of q b))"
  unfolding locked_phase_def
proof (rule triple_bind [where R = "\<lambda>_. at_child (plan_of q b) 0"])
  let ?T = "\<lambda>tr. progress (plan_of q b) 0 tr \<and> batch_locked tr"
  have "batch_calm ?T" by (intro calm_conj calm_member batch_calm_facts)
  from batch_stage_keeps [OF this]
  show "triple (batch_inv (plan_of q b)) (\<lambda>_. settled q b) (at_child (plan_of q b) 0)
    (batch_stage (q_workflow_id q) b ''waiting in queue'' ''success'' None) (\<lambda>_. at_child (plan_of q b) 0)"
    by (rule triple_keeps) (auto simp: progress_def)
next
  let ?release = "oact (q_workflow_id q) (OCoord (ReleaseLocks (q_workflow_id q) (Some (b_dirs b))))"
  fix u
  have "batch_calm (\<lambda>tr. r_status a = ''COMPLETED'' \<longrightarrow> finished_ok tr = plan_of q b)" for a
    by (intro calm_imp batch_calm_facts)
  note won = triple_weaken [OF batch_release_triple [OF this]]
  show "owed q b (at_child (plan_of q b) 0) (try_finally (service_phase q b) ?release) (complete (plan_of q b))"
  proof (rule triple_finally [OF service_phase_triple])
    fix a e
    have E: "triple J E P m Q \<Longrightarrow> (\<And>e s. E e s \<Longrightarrow> E' e s) \<Longrightarrow> triple J E' P m Q"
      for J E E' P Q and m :: "unit oprog" unfolding triple_def by blast
    show "triple (batch_inv (plan_of q b)) (\<lambda>_. settled q b) (complete (plan_of q b) a) ?release
      (\<lambda>_ s. complete (plan_of q b) a s \<and> settled q b s)"
      by (rule E [OF won]) auto
    show "triple (batch_inv (plan_of q b)) (\<lambda>_. settled q b) (\<lambda>_. True) ?release (\<lambda>_. settled q b)"
      by (rule E [OF triple_weaken [OF batch_release_triple [OF calm_True]]]) auto
  qed
qed

lemma queue_exit_settled:
  "owed q b (\<lambda>s. progress (plan_of q b) 0 (trace s)) (queue_exit me b why result) (complete (plan_of q b))"
proof (rule triple_keeps_yields)
  show "keeps (plan_of q b) (progress (plan_of q b) 0) (queue_exit me b why result)"
    unfolding queue_exit_def by (intro quiet_rules batch_calm_facts)
  show "yields (\<lambda>r. r_status r \<noteq> ''COMPLETED'') (queue_exit me b why result)"
    unfolding queue_exit_def by (intro exit_yields) (simp add: failed_early_def)
qed (auto simp: progress_def)

lemma timeout_exit_settled:
  "owed q b (\<lambda>s. progress (plan_of q b) 0 (trace s)) (timeout_exit me b) (complete (plan_of q b))"
proof (rule triple_keeps_yields)
  show "keeps (plan_of q b) (progress (plan_of q b) 0) (timeout_exit me b)"
    unfolding timeout_exit_def queue_exit_def by (intro quiet_rules batch_calm_facts) auto
  show "yields (\<lambda>r. r_status r \<noteq> ''COMPLETED'') (timeout_exit me b)"
    unfolding timeout_exit_def queue_exit_def by (intro exit_yields) (simp add: failed_early_def)
qed (auto simp: progress_def)

lemma queue_phase_triple:
  assumes go: "owed q b (\<lambda>s. progress (plan_of q b) 0 (trace s) \<and> batch_locked (trace s)) go (complete (plan_of q b))"
  shows "owed q b (\<lambda>s. progress (plan_of q b) 0 (trace s)) (queue_phase me user b go) (complete (plan_of q b))"
proof -
  let ?plan = "plan_of q b"
  let ?T = "progress ?plan 0"
  let ?over = "\<lambda>s. o_granted s \<or> o_abort s \<noteq> None"
  let ?k = "\<lambda>(granted, abort). case abort of
      Some why \<Rightarrow> if granted then go else queue_exit me b (LocksAborted why) ''aborted_lock_conflict''
    | None \<Rightarrow> go"
  have granted: "owed q b (\<lambda>s. ?T (trace s) \<and> o_granted s) go (complete ?plan)"
    by (rule triple_weaken [OF go]) (auto simp: batch_inv_def)
  have exit: "owed q b (\<lambda>s. ?T (trace s) \<and> R s) (queue_exit me b why res) (complete ?plan)" for R why res
    by (rule triple_weaken [OF queue_exit_settled]) auto
  have timeout: "owed q b (\<lambda>s. ?T (trace s) \<and> R s) (timeout_exit me b) (complete ?plan)" for R
    by (rule triple_weaken [OF timeout_exit_settled]) auto
  have go_on: "owed q b (\<lambda>s. (?T (trace s) \<and> ?over s) \<and> (o_granted s, o_abort s) = x) (?k x) (complete ?plan)" for x
  proof (cases x)
    case (Pair granted abort)
    show ?thesis
    proof (cases "granted \<or> abort = None")
      case True
      then have "?k x = go" by (auto simp: Pair split: option.split)
      moreover have "owed q b (\<lambda>s. (?T (trace s) \<and> ?over s) \<and> (o_granted s, o_abort s) = x) go (complete ?plan)"
        by (rule triple_weaken [OF granted]) (use True in \<open>auto simp: Pair\<close>)
      ultimately show ?thesis by simp
    next
      case False
      then show ?thesis using exit [of "\<lambda>s. ?over s \<and> (o_granted s, o_abort s) = x"]
        by (auto simp: Pair conj_assoc)
    qed
  qed
  have after: "owed q b (\<lambda>s. ?T (trace s) \<and> (ok \<longrightarrow> ?over s))
    (if \<not> ok then timeout_exit me b else look (\<lambda>s. (o_granted s, o_abort s)) ?k) (complete ?plan)" for ok
  proof (cases ok)
    case True
    have "owed q b (\<lambda>s. ?T (trace s) \<and> ?over s) (look (\<lambda>s. (o_granted s, o_abort s)) ?k) (complete ?plan)"
      by (rule triple_look [OF go_on])
    then show ?thesis by (simp add: True del: not_None_eq)
  next
    case False
    then show ?thesis using timeout_exit_settled [of q b me] by simp
  qed
  have wait: "owed q b (\<lambda>s. ?T (trace s)) (bind (lock_wait (on_batch me) ?over False OReportStaleQueueWait)
    (\<lambda>ok. if \<not> ok then timeout_exit me b else look (\<lambda>s. (o_granted s, o_abort s)) ?k)) (complete ?plan)"
    by (rule triple_bind [OF ob.lock_wait_keeps after]) (auto intro: batch_calm_facts)
  have pre: "triple (batch_inv ?plan) (\<lambda>_. settled q b) (\<lambda>s. ?T (trace s)) m (\<lambda>_ s. ?T (trace s))"
    if "keeps ?plan ?T m" for m :: "unit oprog"
    by (rule triple_keeps [OF that]) (auto simp: progress_def)
  show ?thesis unfolding queue_phase_def steps.simps
    by (intro triple_bind [OF pre] wait quiet_rules batch_calm_facts) auto
qed

lemma run_batch_started:
  assumes run: "run_batch q (init_orch (\<lparr>arrived = gs, reply_of = Done v, at_time = n\<rparr> # ts)) = (r, s)"
    and b: "b = batch_of (dict_of v)"
  shows "batch_inv (plan_of q b) s \<and> (\<forall>a. r = Value a \<longrightarrow> complete (plan_of q b) a s \<and> settled q b s) \<and>
    (\<forall>e. r = Raised e \<longrightarrow> settled q b s)"
proof -
  let ?plan = "plan_of q b" and ?me = "q_workflow_id q"
  let ?c = "Prepare (AList.update ''orchestrator_id'' (VStr ?me) (q_params q))"
  let ?s0 = "init_orch (\<lparr>arrived = gs, reply_of = Done v, at_time = n\<rparr> # ts)
    \<lparr>o_tenant := q_tenant q, o_user := q_user q, o_step := ''preparing''\<rparr>"
  have prep: "keeps ?plan (progress ?plan 0) (oask ?me ?c)"
    unfolding oask_def by (intro quiet_rules ob.await_quiet) auto
  have start: "batch_inv ?plan ?s0 \<and> progress ?plan 0 (trace ?s0)"
    by (simp add: init_orch_def batch_inv_def progress_def) (metis le0)
  obtain s1 where s1: "oask ?me ?c ?s0 = (Value v, s1)"
    by (simp add: oask_def await_def init_orch_def logged_def Let_def)
  let ?rest = "if truthy (dict_get (dict_of v) ''error'') then
      seq (mark_step ''failed'' (str_of (dict_get (dict_of v) ''error'')))
        (ret (failed_early (Said (str_of (dict_get (dict_of v) ''error'')))))
    else seq (assign (keep_batch (dict_of v))) (queue_phase ?me (q_user q) b (locked_phase q b))"
  have "triple (batch_inv ?plan) (\<lambda>_ s. progress ?plan 0 (trace s)) (\<lambda>s. progress ?plan 0 (trace s)) (oask ?me ?c)
    (\<lambda>_ s. progress ?plan 0 (trace s))"
    using prep by (rule triple_keeps) auto
  from tripleD [OF this _ _ s1] start have s1_inv: "batch_inv ?plan s1" "progress ?plan 0 (trace s1)" by auto
  have early: "owed q b (\<lambda>s. progress ?plan 0 (trace s)) (seq (mark_step st x) (ret (failed_early e))) (complete ?plan)"
    for st x e
  proof (rule triple_keeps_yields)
    show "keeps ?plan (progress ?plan 0) (seq (mark_step st x) (ret (failed_early e)))" by (intro quiet_rules)
    show "yields (\<lambda>r. r_status r \<noteq> ''COMPLETED'') (seq (mark_step st x) (ret (failed_early e)))"
      by (intro exit_yields) (simp add: failed_early_def)
  qed (auto simp: progress_def)
  have queue: "owed q b (\<lambda>s. progress ?plan 0 (trace s))
    (seq (assign (keep_batch p)) (queue_phase me u b (locked_phase q b))) (complete ?plan)" for p me u
    by (rule triple_bind [OF triple_assign queue_phase_triple [OF locked_phase_triple]])
       (auto simp: keep_batch_def intro: inv_trace)
  have rest: "owed q b (\<lambda>s. progress ?plan 0 (trace s)) ?rest (complete ?plan)"
    by (intro triple_if early queue)
  have "?rest s1 = (r, s)"
    using run unfolding run_batch_def seq_assign bind_value [where m = "oask ?me ?c" and s = ?s0, OF s1] Let_def b .
  from tripleD [OF rest s1_inv this] show ?thesis by simp
qed

section \<open>Progress\<close>

lemma on_batch_script: "script_keeping (on_batch me)"
  unfolding script_keeping_def
proof (intro allI)
  fix g and s :: orch
  show "script (on_batch me g s) = script s" by (cases g) (simp_all add: Let_def split: option.split)
qed

lemma paced_oask [pace_rules]: "paced (oask me c)" "paced (oact me c)"
  unfolding oact_def oask_def
  by (intro pace_rules pace_eats [OF hungry_eats [OF await_hungry [OF on_batch_script]]])+

lemma paced_batch_stage [pace_rules]:
  "paced (batch_stage me b n st e)" "paced (mark_step x y)" "paced (mark_skipped me gs why)"
  "paced (note_group g res)" "paced (run_child me child start)"
  unfolding batch_stage_def mark_step_def mark_skipped_def note_group_def run_child_def Let_def
  by (intro pace_rules; simp)+

lemma paced_batch_exits [pace_rules]:
  "paced (queue_exit me b why x)" "paced (timeout_exit me b)" "paced (stage_failed st err infra)"
  "paced (group_failed me b infra g err)" "paced (batch_done me b infra)"
  "paced (variables_failed me b infra v)" "paced (service_failed me b err)"
  unfolding queue_exit_def timeout_exit_def stage_failed_def group_failed_def batch_done_def
    variables_failed_def service_failed_def steps.simps split_beta
  by (intro pace_rules)+

lemma paced_extra [pace_rules]: "paced (extra_phase q b infra gs)"
  by (induction gs) (auto intro!: pace_rules)

lemma paced_batch: "paced (run_batch q)"
  unfolding run_batch_def queue_phase_def locked_phase_def service_phase_def variables_phase_def keep_batch_def
    steps.simps Let_def
  by (intro pace_rules paced_lock_wait on_batch_script) auto

section \<open>Runs to look at\<close>

definition demo_batch :: request where
  "demo_batch = \<lparr>q_workflow_id = ''batch-1'', q_tenant = ''acme'', q_user = ''u1'', q_params = []\<rparr>"

definition demo_prep :: pyval where
  "demo_prep =
     VDict [(''project_dirs'', VList [VStr ''svc/api'', VStr ''db/main'']), (''track_id'', VStr ''t1''),
       (''infra_child_id'', VStr ''deploy-1''), (''queue_ids'', VList [VInt 1]), (''has_variables'', VBool True),
       (''extra_groups'', VList [VDict [(''project_dir'', VStr ''db/main''), (''queue_ids'', VList [VInt 2]),
         (''child_id'', VStr ''deploy-2'')]])]"

definition oturn :: "orch_signal list \<Rightarrow> reply \<Rightarrow> orch_signal turn" where
  "oturn gs r = \<lparr>arrived = gs, reply_of = r, at_time = 0\<rparr>"

definition batch_script :: "orch_signal turn list" where
  "batch_script =
     [oturn [] (Done VNone), oturn [O_locks_granted] (Done VNone), oturn [] (Done VNone),
      oturn [] (Done VNone), oturn [] (Done (VDict [(''all_success'', VBool True)]))] @
     replicate 4 (oturn [] (Done VNone))"

definition batch_start :: "pyval \<Rightarrow> orch_signal turn list \<Rightarrow> orch" where
  "batch_start v ts = init_orch (\<lparr>arrived = [], reply_of = Done v, at_time = 0\<rparr> # ts)"

section \<open>Properties of every run\<close>

text \<open>
  C20: The children of a batch are started one after the other in the planned order: the service, the
  variables, the extra groups.  A child is only started when all before it succeeded, and a batch that
  reports COMPLETED has deployed all of them.
\<close>

theorem children_in_order:
  assumes "run_batch q (init_orch (\<lparr>arrived = gs, reply_of = Done v, at_time = n\<rparr> # ts)) = (r, s)"
    and "plan = plan_of q (batch_of (dict_of v))"
  shows "(\<exists>k. started (trace s) = take k plan \<and>
      (finished_ok (trace s) = take k plan \<or> finished_ok (trace s) = take (k - 1) plan)) \<and>
    (\<forall>a. r = Value a \<and> r_status a = ''COMPLETED'' \<longrightarrow> finished_ok (trace s) = plan)"
proof -
  note inv = run_batch_started [OF assms(1) refl]
  have "progress plan k tr \<or> underway plan k tr \<Longrightarrow>
    \<exists>k. started tr = take k plan \<and> (finished_ok tr = take k plan \<or> finished_ok tr = take (k - 1) plan)" for k tr
    unfolding progress_def underway_def by (metis diff_Suc_1)
  then have "\<exists>k. started (trace s) = take k plan \<and>
      (finished_ok (trace s) = take k plan \<or> finished_ok (trace s) = take (k - 1) plan)"
    using inv assms(2) unfolding batch_inv_def by blast
  then show ?thesis using inv assms(2) by auto
qed

lemma demo_completes:
  "case run_batch demo_batch (batch_start demo_prep batch_script) of
     (Value a, s) \<Rightarrow> r_status a = ''COMPLETED'' \<and> length (finished_ok (trace s)) = 3 | _ \<Rightarrow> False"
  by code_simp

theorem children_in_order_witness:
  "finished_ok (trace (snd (run_batch demo_batch (batch_start demo_prep batch_script)))) =
     plan_of demo_batch (batch_of (dict_of demo_prep))"
proof -
  obtain a s where run: "run_batch demo_batch (batch_start demo_prep batch_script) = (Value a, s)"
    and a: "r_status a = ''COMPLETED''"
    using demo_completes by (auto split: prod.splits outcome.splits)
  from children_in_order [OF run [unfolded batch_start_def] refl] a show ?thesis by (simp add: run)
qed

text \<open>
  No child is started before the coordinator granted the batch its locks.
\<close>

theorem children_only_granted:
  "started (before_grant (trace (snd (run_batch q
     (init_orch (\<lparr>arrived = gs, reply_of = Done v, at_time = n\<rparr> # ts)))))) = []"
  using run_batch_started [OF prod.collapse [symmetric] refl] by (simp add: batch_inv_def)

text \<open>
  A batch that ends by itself, with a result or with an error, has asked the coordinator for the release
  of all its directories after the last child it started.
\<close>

theorem ended_batch_released:
  assumes "run_batch q (init_orch (\<lparr>arrived = gs, reply_of = Done v, at_time = n\<rparr> # ts)) = (r, s)"
    and "(\<exists>a. r = Value a) \<or> (\<exists>e. r = Raised e)"
    and "started (trace s) \<noteq> []"
  shows "given_back (q_workflow_id q) (b_dirs (batch_of (dict_of v))) (trace s)"
  using run_batch_started [OF assms(1) refl] assms(2,3) by auto

definition failing_script :: "orch_signal turn list" where
  "failing_script = take 4 batch_script @ [oturn [] (Failed ''rate limit''), oturn [] (Done VNone)]"

theorem ended_batch_released_witness:
  "given_back ''batch-1'' [''svc/api'', ''db/main'']
     (trace (snd (run_batch demo_batch (batch_start demo_prep failing_script))))"
proof -
  have ended: "case run_batch demo_batch (batch_start demo_prep failing_script) of
      (Raised (ActivityFailed _), s) \<Rightarrow> started (trace s) \<noteq> [] | _ \<Rightarrow> False"
    by code_simp
  then obtain e s where run: "run_batch demo_batch (batch_start demo_prep failing_script) = (Raised e, s)"
    "started (trace s) \<noteq> []"
    by (auto split: prod.splits outcome.splits failure.splits)
  have "q_workflow_id demo_batch = ''batch-1''" "b_dirs (batch_of (dict_of demo_prep)) = [''svc/api'', ''db/main'']"
    by code_simp+
  with ended_batch_released [OF run(1) [unfolded batch_start_def]] run show ?thesis by simp
qed

text \<open>
  No loop of a batch comes round without awaiting something, whatever the answers are.
\<close>

theorem batch_never_spins: "fst (run_batch q (init_orch ts)) \<noteq> Spinning"
  using paceD [OF paced_batch TrueI prod.collapse [symmetric]] by blast

section \<open>What a run leaves behind\<close>

definition asks_release :: "(orch_signal, orch_cmd) event \<Rightarrow> bool" where
  "asks_release e = (case e of Issued (OCoord (ReleaseLocks _ _)) \<Rightarrow> True | _ \<Rightarrow> False)"

text \<open>
  The stage update that follows the grant is outside the \<open>try\<close> whose \<open>finally\<close> releases: when it fails the
  run dies with its locks.
\<close>

theorem failed_grant_stage_keeps_locks:
  "let (r, s) = run_batch q (init_orch (\<lparr>arrived = [], reply_of = Done demo_prep, at_time = 0\<rparr> #
     [oturn [] (Done VNone), oturn [O_locks_granted] (Done VNone), oturn [] (Failed e)])) in
   r = Raised (ActivityFailed e) \<and> Heard O_locks_granted \<in> set (trace s) \<and> \<not> list_ex asks_release (trace s)"
  by (simp add: run_batch_def queue_phase_def locked_phase_def batch_stage_def oact_def oask_def
      bind_def assign_def look_def await_def wait_for_def logged_def take_turn_def deliver_def init_orch_def
      ret_def keep_batch_def lock_wait_answered demo_prep_def dict_get_def dict_of_def Let_def nonempty_def oturn_def asks_release_def)

text \<open>What the coordinator hears from a run, in order, and what it makes of it.\<close>

fun tells :: "(orch_signal, orch_cmd) event \<Rightarrow> coord_signal list" where
  "tells (Issued (OCoord c)) = [c]"
| "tells _ = []"

definition told :: "(orch_signal, orch_cmd) event list \<Rightarrow> coord_signal list" where
  "told tr = concat (map tells tr)"

definition parked_prep :: pyval where
  "parked_prep =
     VDict [(''project_dirs'', VList [VStr ''svc/api'']), (''park_release_dirs'', VList [VStr ''svc/api'']),
       (''infra_child_id'', VStr ''deploy-1''), (''queue_ids'', VList [VInt 1])]"

text \<open>The child parks, resumes, and fails while the coordinator has queued its parent's request.\<close>

definition parked_script :: "orch_signal turn list" where
  "parked_script =
     [oturn [] (Done VNone), oturn [O_locks_granted] (Done VNone), oturn [] (Done VNone),
      oturn [O_child_parked ''deploy-1'' [''svc/api''], O_child_resuming ''deploy-1'' [''svc/api'']]
        (Failed ''locks not re-acquired''),
      oturn [] (Done VNone), oturn [] (Done VNone)]"

definition parked_run :: "batch_result outcome \<times> orch" where
  "parked_run = run_batch demo_batch (batch_start parked_prep parked_script)"

lemma parked_run_facts:
  "(case fst parked_run of Value a \<Rightarrow> r_status a = ''FAILED'' | _ \<Rightarrow> False)"
  "told (trace (snd parked_run)) =
     [AcquireLocks ''batch-1'' [''svc/api''] ''u1'' None,
      ReleaseLocks ''batch-1'' (Some [''svc/api'']),
      AcquireLocks ''batch-1'' [''svc/api''] ''u1'' None,
      ReleaseLocks ''batch-1'' (Some [''svc/api''])]"
  by code_simp+

definition coordinator_after :: "coord_signal list \<Rightarrow> coordinator" where
  "coordinator_after cs = fold (\<lambda>c s. fst (handle c s)) cs init_coordinator"

text \<open>
  A batch whose child resumes has asked for its locks again; when the child then fails, the run ends
  without withdrawing that request.  If another workflow took the directory while the child was parked,
  its release hands the directory to the batch that is no longer running.
\<close>

theorem ended_batch_is_granted_locks:
  assumes "other \<noteq> ''batch-1''"
  shows "(case fst parked_run of Value a \<Rightarrow> r_status a = ''FAILED'' | _ \<Rightarrow> False) \<and>
    (let sent = told (trace (snd parked_run)) in
     holder_of (locks (coordinator_after
       (take 2 sent @ [AcquireLocks other [''svc/api''] u None] @ drop 2 sent @ [ReleaseLocks other None])))
       ''svc/api'' = Some ''batch-1'')"
  using assms parked_run_facts(1) unfolding parked_run_facts(2)
  by (simp add: coordinator_after_def init_coordinator_def acquire_locks_def release_locks_def blocked_dirs_def
      dirs_to_release_def scan_and_grant_def all_free_def holder_of_def)

theorem ended_batch_is_granted_locks_witness:
  "let sent = told (trace (snd parked_run)) in
     holder_of (locks (coordinator_after
       (take 2 sent @ [AcquireLocks ''deploy-9'' [''svc/api''] ''u2'' None] @ drop 2 sent @
        [ReleaseLocks ''deploy-9'' None]))) ''svc/api'' = Some ''batch-1''"
  using ended_batch_is_granted_locks [of "''deploy-9''" "''u2''"] by simp

text \<open>
  An error of the variables child is not caught: the run dies without the stage that ends the pipeline run,
  and the groups behind it are not marked as failed.
\<close>

fun closes_batch :: "(orch_signal, orch_cmd) event \<Rightarrow> bool" where
  "closes_batch (Issued (OTrackStage _ name _ _)) = (name = ''completed'')"
| "closes_batch (Issued (OMarkFailed _)) = True"
| "closes_batch _ = False"

lemma variables_error_is_not_closed:
  "case run_batch demo_batch (batch_start demo_prep failing_script) of
     (Raised (ActivityFailed _), s) \<Rightarrow> \<not> list_ex closes_batch (trace s) | _ \<Rightarrow> False"
  by code_simp

end
