(* ===== verification/ProductionWorkflow.thy ===== *)
theory ProductionWorkflow
  imports DeployWorkflow
begin

text \<open>
  The production deployment (\<open>app/temporal/workflows/production_deployment_workflow.py\<close>): one run
  merges its feature request to the stage branch, then plans, reviews, approves and applies on the shared
  promotion request, and merges that when everything it holds is applied.  A run whose plan, apply or
  approval keeps failing is parked: it gives the shared locks back, waits for a human, takes the locks
  again and plans anew.

  Activities are commands; their answers are the script of the run.  Texts of alerts, search attributes
  and log lines are left out.
\<close>

section \<open>State, signals and commands\<close>

datatype prod_signal =
    P_locks_granted
  | P_plan_completed
  | P_plan_failed "string option"
  | P_lock_conflict_detected "int option"
  | P_atlas_lock_abort string
  | P_apply_completed
  | P_apply_failed "string option"
  | P_pr_merged
  | P_pr_closed
  | P_pr_approved

text \<open>What is recorded with a failure: the text itself, or what a formatted text says.\<close>

datatype prod_reason =
    Note string
  | LocksNotGranted "dir list"
  | PrNotCreated string
  | StageMergeFailed int
  | PlanAttempts nat
  | ApplyAttempts nat
  | Destructive "string option"
  | Stuck string
  | MergedUnapplied "dir list" "string option"
  | ParkExpired string string
  | LeftOpen
  | MergeManually int

datatype prod_cmd =
    PCoord coord_signal
  | PChildParked wfid "dir list"
  | PChildResuming wfid "dir list"
  | PReportStaleQueueWait "dir list" nat bool
  | PTrackStage string string string "prod_reason option" string
  | PTrackDeployResult string "pr_link list"
  | PStatus deploy_status "prod_reason option"
  | PResourceStatus string
  | PQueueStatus string
  | PRunScriptPr
  | PCheckManualCommit int string
  | PResolveDirs int
  | PTrackUpsert "dir list" string
  | PTrackSetStatus "dir list" string
  | PTrackDeleteDirs "dir list"
  | PApprovePr int string
  | PPollApproval int
  | PMergeDirect int
  | PResolveConflict int
  | PEnsurePromotion string string
  | PSendStartedDm int
  | PSendCompletedDm "int option"
  | PSendP0Alert "int option" string alert_to
  | PPostPlan int "string option"
  | PPostApply int "string option"
  | PPollPlan int "int option" "string option" bool "dir list"
  | PPollApply int "string option" "dir list"
  | PPollPrState int
  | PCheckManualOnDirs "string option" string "dir list"
  | PVerifyPlan int int
  | PPostVerification int pyval
  | PEvaluateGate int "dir list"
  | PMergePromotion int pyval
  | PMergeSecondary int string string
  | PSaveAlbUrl

record pstate = "(prod_signal, prod_cmd) env" +
  p_granted :: bool
  p_force :: bool
  p_force_reason :: string
  p_feature :: "int option"
  p_sha :: "string option"
  p_secondary :: "config list"
  p_project :: "string option"
  p_promo :: "int option"
  p_baseline :: "string option"
  p_plan :: "string option"
  p_plan_error :: "string option"
  p_apply :: "string option"
  p_apply_error :: "string option"
  p_merge :: "string option"
  p_closed :: bool
  p_approved :: bool
  p_step :: string
  p_result :: "string option"
  p_dirs :: "dir list"

text \<open>
  The parameters of \<open>run\<close>, with the workflow's id and the approval switch of the settings.  The
  repository, the shared directories and the group never change during a run.
\<close>

record promotion =
  m_workflow_id :: wfid
  m_tenant :: string
  m_user :: string
  m_dirs :: "dir list"
  m_shared :: "dir list"
  m_repo :: string
  m_source :: string
  m_target :: string
  m_parent :: "string option"
  m_track :: "string option"
  m_group :: "string option"
  m_approval :: bool

definition init_prod :: "promotion \<Rightarrow> prod_signal turn list \<Rightarrow> pstate" where
  "init_prod d ts =
     \<lparr>script = ts, trace = [], clock = 0, p_granted = False, p_force = False, p_force_reason = [],
      p_feature = None, p_sha = None, p_secondary = [], p_project = None, p_promo = None,
      p_baseline = None, p_plan = None, p_plan_error = None, p_apply = None, p_apply_error = None,
      p_merge = None, p_closed = False, p_approved = False, p_step = ''starting'', p_result = None,
      p_dirs = m_dirs d\<rparr>"

definition some_error :: "string option \<Rightarrow> string option \<Rightarrow> string option" where
  "some_error err old = (case nonempty err of None \<Rightarrow> old | Some e \<Rightarrow> Some e)"

fun on_prod :: "prod_signal \<Rightarrow> pstate \<Rightarrow> pstate" where
  "on_prod P_locks_granted s = s\<lparr>p_granted := True\<rparr>"
| "on_prod P_plan_completed s = s\<lparr>p_plan := Some ''success''\<rparr>"
| "on_prod (P_plan_failed err) s =
     s\<lparr>p_plan := Some ''failed'', p_plan_error := some_error err (p_plan_error s)\<rparr>"
| "on_prod (P_lock_conflict_detected n) s =
     s\<lparr>p_plan := Some ''failed'',
       p_plan_error := Some (case n of None \<Rightarrow> ''Atlantis lock conflict''
         | Some k \<Rightarrow> if k = 0 then ''Atlantis lock conflict''
             else ''Atlantis lock conflict (held by PR #'' @ int_str k @ '')'')\<rparr>"
| "on_prod (P_atlas_lock_abort why) s = s\<lparr>p_force := True, p_force_reason := why\<rparr>"
| "on_prod P_apply_completed s = s\<lparr>p_apply := Some ''success''\<rparr>"
| "on_prod (P_apply_failed err) s =
     s\<lparr>p_apply := Some ''failed'', p_apply_error := some_error err (p_apply_error s)\<rparr>"
| "on_prod P_pr_merged s = s\<lparr>p_merge := Some ''merged''\<rparr>"
| "on_prod P_pr_closed s = s\<lparr>p_closed := True\<rparr>"
| "on_prod P_pr_approved s = s\<lparr>p_approved := True\<rparr>"

type_synonym 'a pprog = "(pstate, 'a) prog"

definition pask :: "prod_cmd \<Rightarrow> pyval pprog" where
  "pask c = await on_prod c"

definition pact :: "prod_cmd \<Rightarrow> unit pprog" where
  "pact c = seq (pask c) (ret ())"

definition pwait :: "(pstate \<Rightarrow> bool) \<Rightarrow> bool pprog" where
  "pwait = wait_for on_prod"

section \<open>Building blocks\<close>

definition poll_interval :: int where "poll_interval = 30"
definition parked_poll_interval :: int where "parked_poll_interval = 120"
definition alert_after :: int where "alert_after = 3600"
definition gate_max_retries :: nat where "gate_max_retries = 5"
definition busy_budget :: int where "busy_budget = 1200"
definition busy_repost_after :: int where "busy_repost_after = 120"
definition park_limit :: int where "park_limit = 24 * 3600"

definition promotion_lock_key :: "string \<Rightarrow> dir" where
  "promotion_lock_key repo = ''prod-promotion:'' @ repo"

definition standalone :: "promotion \<Rightarrow> bool" where
  "standalone d \<longleftrightarrow> nonempty (m_parent d) = None"

definition run_track_key :: "promotion \<Rightarrow> string" where
  "run_track_key d = (case nonempty (m_track d) of Some t \<Rightarrow> t | None \<Rightarrow> m_workflow_id d)"

definition prod_completed :: "promotion \<Rightarrow> string" where
  "prod_completed d = (if standalone d then ''completed'' else ''infra: complete'')"

definition prod_group :: "promotion \<Rightarrow> string" where
  "prod_group d = (case nonempty (m_group d) of Some g \<Rightarrow> g | None \<Rightarrow> ''service'')"

definition lock_set :: "promotion \<Rightarrow> dir list" where
  "lock_set d = m_dirs d @ m_shared d @ [promotion_lock_key (m_repo d)]"

text \<open>What a parked run gives back and takes again.\<close>

definition shared_locks :: "promotion \<Rightarrow> dir list" where
  "shared_locks d = promotion_lock_key (m_repo d) # m_shared d"

definition pstage :: "promotion \<Rightarrow> string \<Rightarrow> string \<Rightarrow> prod_reason option \<Rightarrow> unit pprog" where
  "pstage d name status err = pact (PTrackStage (run_track_key d) name status err (prod_group d))"

definition release_lock_set :: "promotion \<Rightarrow> unit pprog" where
  "release_lock_set d = pact (PCoord (ReleaseLocks (m_workflow_id d) (Some (lock_set d))))"

text \<open>All directories the run claims: its own, which phase 1 corrects, and the shared ones.\<close>

definition with_dirs :: "promotion \<Rightarrow> (dir list \<Rightarrow> 'a pprog) \<Rightarrow> 'a pprog" where
  "with_dirs d k = look p_dirs (\<lambda>own. k (own @ m_shared d))"

definition set_track :: "promotion \<Rightarrow> string \<Rightarrow> unit pprog" where
  "set_track d status = with_dirs d (\<lambda>dirs. pact (PTrackSetStatus dirs status))"

definition alert_number :: "pstate \<Rightarrow> int option" where
  "alert_number s = (case p_promo s of None \<Rightarrow> p_feature s | Some n \<Rightarrow> if n = 0 then p_feature s else Some n)"

text \<open>The arguments of \<open>_fail_deployment\<close> that have defaults.\<close>

record exit_how =
  f_status :: deploy_status
  f_title :: string
  f_release :: bool

definition plainly :: exit_how where
  "plainly = \<lparr>f_status = ERROR, f_title = ''Prod Deployment Failed'', f_release = True\<rparr>"

definition fail_deployment ::
  "promotion \<Rightarrow> exit_how \<Rightarrow> prod_reason \<Rightarrow> string \<Rightarrow> string option \<Rightarrow> 'a pprog" where
  "fail_deployment d how why code fail_stage =
     steps [pact (PStatus (f_status how) (Some why)),
            pact (PQueueStatus ''FAILED''),
            set_track d ''FAILED'',
            (case fail_stage of None \<Rightarrow> ret () | Some st \<Rightarrow> pstage d st ''failed'' (Some why)),
            pstage d (prod_completed d) ''failed'' (Some why),
            look alert_number (\<lambda>n. pact (PSendP0Alert n (f_title how) Everyone)),
            only_if (f_release how \<and> standalone d) (release_lock_set d),
            assign (\<lambda>s. s\<lparr>p_step := ''failed'', p_result := Some code\<rparr>)]
       (throw (AppFailed code))"

section \<open>Phase 0: locks\<close>

definition lock_phase :: "promotion \<Rightarrow> unit pprog" where
  "lock_phase d =
     steps [assign (\<lambda>s. s\<lparr>p_step := ''acquiring_locks''\<rparr>),
            pact (PCoord (AcquireLocks (m_workflow_id d) (lock_set d) (m_user d) (nonempty (m_parent d)))),
            bind (lock_wait on_prod (\<lambda>s. p_granted s \<or> p_force s) (\<not> standalone d)
                   (PReportStaleQueueWait (lock_set d)))
              (\<lambda>ok. if ok then ret ()
                else steps [pact (PCoord (ReleaseHold (m_workflow_id d))), release_lock_set d]
                  (fail_deployment d (plainly\<lparr>f_release := False\<rparr>) (LocksNotGranted (lock_set d))
                     ''lock_wait_timeout'' None))]
       (look (\<lambda>s. (p_force s, p_force_reason s)) (\<lambda>(force, why).
         if force then
           fail_deployment d plainly (Note (if why = [] then ''aborted_lock_conflict'' else why))
             ''aborted_lock_conflict'' None
         else ret ()))"

section \<open>Pull request links and secondary requests\<close>

definition pr_entry :: "promotion \<Rightarrow> string \<Rightarrow> string option \<Rightarrow> int option \<Rightarrow> pr_link list" where
  "pr_entry d name repo number =
     (case (nonempty repo, number) of
        (Some r, Some n) \<Rightarrow>
          if n = 0 then []
          else [\<lparr>link_name = name, link_repo = r, link_number = n, link_group = prod_group d\<rparr>]
      | _ \<Rightarrow> [])"

definition record_prs :: "promotion \<Rightarrow> pr_link list \<Rightarrow> unit pprog" where
  "record_prs d prs = only_if (prs \<noteq> []) (pact (PTrackDeployResult (run_track_key d) prs))"

definition secondary_entry :: "promotion \<Rightarrow> config \<Rightarrow> pr_link list" where
  "secondary_entry d sec =
     pr_entry d (if pr_type sec = ''k8s_manifest'' then ''K8S PR'' else ''SERVICE PR'')
       (opt_str (dict_get sec ''repo_full_name'')) (opt_int (dict_get sec ''pr_number''))"

definition record_run_prs :: "promotion \<Rightarrow> unit pprog" where
  "record_run_prs d =
     look (\<lambda>s. (p_feature s, p_secondary s)) (\<lambda>(feature, secs).
       record_prs d (pr_entry d ''INFRA PR'' (Some (m_repo d)) feature @ concat (map (secondary_entry d) secs)))"

definition merge_secondary :: "promotion \<Rightarrow> config \<Rightarrow> unit pprog" where
  "merge_secondary d sec =
     (case secondary_target sec of
        None \<Rightarrow> ret ()
      | Some (n, repo) \<Rightarrow>
          let merge_stage = secondary_artifact (pr_type sec) @ '': merge pr'' in
          steps [only_if (pr_type sec = ''k8s_manifest'') (try_except (pact (PApprovePr n repo)) (\<lambda>_. ret ())),
                 pstage d merge_stage ''running'' None]
            (bind (pask (PMergeSecondary n repo (pr_type sec))) (\<lambda>v.
               if str_of v \<in> {''merged'', ''already_merged''} then pstage d merge_stage ''success'' None
               else steps [pstage d merge_stage ''failed'' (Some (MergeManually n))]
                      (pact (PSendP0Alert (Some n) ''Secondary PR Merge Failed'' Everyone)))))"

definition merge_secondaries :: "promotion \<Rightarrow> unit pprog" where
  "merge_secondaries d = look (\<lambda>s. ordered_secondary_prs (p_secondary s)) (each (merge_secondary d))"

section \<open>The successful end\<close>

text \<open>Whether the promotion request was merged, its number, and the note.\<close>

record prod_result =
  s_merged :: "bool option"
  s_number :: "int option"
  s_note :: "string option"

definition closeout :: "promotion \<Rightarrow> bool \<Rightarrow> string option \<Rightarrow> prod_result pprog" where
  "closeout d merged note =
     steps [assign (\<lambda>s. s\<lparr>p_step := ''closeout''\<rparr>),
            merge_secondaries d,
            look p_promo (\<lambda>n. pact (PSendCompletedDm n)),
            pact (PStatus DEPLOYED None),
            pact (PResourceStatus ''ONLINE''),
            pact (PQueueStatus ''DEPLOYED''),
            try_except (pact PSaveAlbUrl) (\<lambda>_. ret ()),
            pstage d (prod_completed d) ''success'' None,
            only_if (standalone d) (release_lock_set d),
            assign (\<lambda>s. s\<lparr>p_step := ''active'', p_result := Some ''success''\<rparr>)]
       (look p_promo (\<lambda>n. ret \<lparr>s_merged = Some merged, s_number = n, s_note = note\<rparr>))"

section \<open>The promotion request\<close>

text \<open>The parts of the state that are fixed once the promotion request is open.\<close>

record promo =
  t_number :: int
  t_project :: "string option"
  t_baseline :: "string option"
  t_dirs :: "dir list"

datatype kind = KPlan | KApply | KApprove

fun kind_name :: "kind \<Rightarrow> string" where
  "kind_name KPlan = ''plan''" | "kind_name KApply = ''apply''" | "kind_name KApprove = ''approve''"

definition kind_stage :: "kind \<Rightarrow> string" where
  "kind_stage k = ''infra: '' @ kind_name k @ '' pr''"

definition manual_stage :: "kind \<Rightarrow> string" where
  "manual_stage k = ''infra: waiting for manual '' @ kind_name k"

definition prod_post_plan :: "promotion \<Rightarrow> promo \<Rightarrow> unit pprog" where
  "prod_post_plan d t =
     steps [assign (\<lambda>s. s\<lparr>p_plan := None, p_plan_error := None, p_step := ''waiting_for_plan''\<rparr>),
            pact (PPostPlan (t_number t) (t_project t))]
       (pact (PStatus PLANNING None))"

definition ask_manual :: "promotion \<Rightarrow> promo \<Rightarrow> pyval pprog" where
  "ask_manual d t = pask (PCheckManualOnDirs (t_baseline t) (m_source d) (t_dirs t))"

definition manual_tick :: "promotion \<Rightarrow> promo \<Rightarrow> unit pprog" where
  "manual_tick d t =
     bind (ask_manual d t) (\<lambda>touched. look p_apply (\<lambda>apply_confirmed.
       only_if (truthy touched)
         (fail_deployment d (plainly\<lparr>f_title := ''Prod Deployment Terminated: Manual Commit''\<rparr>)
            (Note ''Manual commit detected on this deployment's directories during the prod deploy.'')
            ''manual_commit_detected'' (Some (kind_stage (if apply_confirmed = None then KPlan else KApply))))))"

section \<open>The promotion request was closed or merged\<close>

definition closed_terminal :: "promotion \<Rightarrow> string \<Rightarrow> 'a pprog" where
  "closed_terminal d st =
     fail_deployment d plainly (Note ''The promotion PR was closed before the deployment completed.'')
       ''pr_closed'' (Some st)"

text \<open>
  A merge by someone else is adopted when the own apply is reported as successful, no manual commit
  touched the directories, and no plan follows that apply; an error of a check refuses it.
\<close>

definition adoption_evidence :: "promotion \<Rightarrow> promo \<Rightarrow> bool pprog" where
  "adoption_evidence d t =
     try_except
       (bind (pask (PPollApply (t_number t) (t_project t) (t_dirs t))) (\<lambda>apply_confirmed.
         if before_colon (str_of apply_confirmed) = ''success'' then
           bind (ask_manual d t) (\<lambda>manual.
             if truthy manual then ret False
             else bind (pask (PPollPlan (t_number t) None (t_project t) True (t_dirs t))) (\<lambda>later.
               ret (later = VNone \<or> later = VStr [] \<or> later = VStr ''none'')))
         else ret False))
       (\<lambda>_. ret False)"

definition adopt :: "promotion \<Rightarrow> promo \<Rightarrow> string \<Rightarrow> unit pprog" where
  "adopt d t st =
     steps [assign (\<lambda>s. s\<lparr>p_apply := Some ''success'', p_merge := Some ''merged''\<rparr>),
            pact (PTrackDeleteDirs (t_dirs t))]
       (each (\<lambda>name. pstage d name ''success'' None)
         (st # filter (\<lambda>name. name \<noteq> st) [''infra: apply pr'', ''infra: merge pr'']))"

definition merged_terminal :: "promotion \<Rightarrow> promo \<Rightarrow> string \<Rightarrow> unit pprog" where
  "merged_terminal d t st =
     look p_apply (\<lambda>apply_confirmed.
       if apply_confirmed = Some ''success'' then ret ()
       else bind (adoption_evidence d t) (\<lambda>adopted.
         if adopted then adopt d t st
         else look p_dirs (\<lambda>dirs.
           fail_deployment d (plainly\<lparr>f_title := ''Prod Deploy: PR merged before apply''\<rparr>)
             (MergedUnapplied dirs (t_project t)) ''merged_before_apply'' (Some st))))"

section \<open>Waiting for a plan or an apply\<close>

datatype poll_verdict = Succeeded | Failing | Busy
datatype wait_result = Worked | NotWorked | MergedEarly

definition hint :: "kind \<Rightarrow> pstate \<Rightarrow> string option" where
  "hint k s = (if k = KPlan then p_plan s else p_apply s)"

definition set_hint :: "kind \<Rightarrow> string option \<Rightarrow> pstate \<Rightarrow> pstate" where
  "set_hint k x s = (if k = KPlan then s\<lparr>p_plan := x\<rparr> else s\<lparr>p_apply := x\<rparr>)"

definition set_error :: "kind \<Rightarrow> string option \<Rightarrow> pstate \<Rightarrow> pstate" where
  "set_error k err s =
     (if k = KPlan then s\<lparr>p_plan_error := some_error err (p_plan_error s)\<rparr>
      else s\<lparr>p_apply_error := some_error err (p_apply_error s)\<rparr>)"

definition classify :: "kind \<Rightarrow> pyval \<Rightarrow> poll_verdict option pprog" where
  "classify k v =
     (let raw = str_of v; base = before_colon raw in
      if base = ''busy'' then ret (Some Busy)
      else if startswith base ''lock_conflict'' then
        seq (only_if (k = KPlan) (assign (\<lambda>s. s\<lparr>p_plan_error := Some raw\<rparr>))) (ret (Some Failing))
      else if base = ''success'' then ret (Some Succeeded)
      else if base = ''failed'' then seq (assign (set_error k (after_colon raw))) (ret (Some Failing))
      else ret None)"

definition poll_result :: "promo \<Rightarrow> kind \<Rightarrow> int \<Rightarrow> pyval pprog" where
  "poll_result t k not_before =
     pask (if k = KPlan then PPollPlan (t_number t) (Some not_before) (t_project t) False (t_dirs t)
       else PPollApply (t_number t) (t_project t) (t_dirs t))"

definition repost :: "promo \<Rightarrow> kind \<Rightarrow> unit pprog" where
  "repost t k =
     pact (if k = KPlan then PPostPlan (t_number t) (t_project t) else PPostApply (t_number t) (t_project t))"

text \<open>A verdict is taken over into the attribute; \<open>go\<close> gets what is not one.\<close>

definition taken ::
  "kind \<Rightarrow> poll_verdict option \<Rightarrow> ('x + wait_result) pprog \<Rightarrow> ('x + wait_result) pprog" where
  "taken k v go =
     (if v = Some Succeeded then seq (assign (set_hint k (Some ''success''))) (ret (Inr Worked))
      else if v = Some Failing then seq (assign (set_hint k (Some ''failed''))) (ret (Inr NotWorked))
      else go)"

text \<open>Loop variables: how long busy, since the last repost, how long waited, alerts sent.\<close>

record wait_vars =
  v_busy :: int
  v_repost :: int
  v_waited :: int
  v_alerts :: nat

definition more_busy :: "wait_vars \<Rightarrow> wait_vars" where
  "more_busy v = v\<lparr>v_busy := v_busy v + poll_interval, v_repost := v_repost v + poll_interval\<rparr>"

definition stuck_check :: "promotion \<Rightarrow> kind \<Rightarrow> wait_vars \<Rightarrow> (wait_vars + wait_result) pprog" where
  "stuck_check d k v =
     (if v_waited v < alert_after then ret (Inl v)
      else
        let v = v\<lparr>v_alerts := v_alerts v + 1, v_waited := 0\<rparr> in
        if stuck_max_alerts \<le> v_alerts v then
          fail_deployment d plainly (Stuck (kind_name k)) (kind_name k @ ''_stuck_timeout'') (Some (kind_stage k))
        else seq (look p_promo (\<lambda>n. pact (PSendP0Alert n ''Prod Stuck Alert'' ChannelOnly))) (ret (Inl v)))"

definition no_verdict ::
  "promotion \<Rightarrow> promo \<Rightarrow> kind \<Rightarrow> wait_vars \<Rightarrow> poll_verdict option \<Rightarrow> (wait_vars + wait_result) pprog" where
  "no_verdict d t k v verdict =
     (if verdict = Some Busy then
        let v = more_busy v in
        if busy_budget \<le> v_busy v then ret (Inr NotWorked)
        else if busy_repost_after \<le> v_repost v then seq (repost t k) (ret (Inl (v\<lparr>v_repost := 0\<rparr>)))
        else ret (Inl v)
      else stuck_check d k v)"

definition result_tick ::
  "promotion \<Rightarrow> promo \<Rightarrow> kind \<Rightarrow> int \<Rightarrow> wait_vars \<Rightarrow> (wait_vars + wait_result) pprog" where
  "result_tick d t k not_before v0 =
     (let v = v0\<lparr>v_waited := v_waited v0 + poll_interval\<rparr> in
      bind (pask (PPollPrState (t_number t))) (\<lambda>st.
        if str_of st = ''merged'' then seq (assign (\<lambda>s. s\<lparr>p_merge := Some ''merged''\<rparr>)) (ret (Inl v))
        else if str_of st = ''closed'' then seq (assign (\<lambda>s. s\<lparr>p_closed := True\<rparr>)) (ret (Inl v))
        else seq (manual_tick d t)
          (bind (poll_result t k not_before) (\<lambda>polled. bind (classify k polled) (\<lambda>verdict.
            taken k verdict (no_verdict d t k v verdict))))))"

definition result_wait ::
  "promotion \<Rightarrow> promo \<Rightarrow> kind \<Rightarrow> int \<Rightarrow> wait_vars \<Rightarrow> (wait_vars + wait_result) pprog" where
  "result_wait d t k not_before v =
     bind (pwait (\<lambda>s. hint k s \<noteq> None \<or> p_merge s \<noteq> None \<or> p_closed s \<or> p_force s))
       (\<lambda>flipped. if flipped then ret (Inl v) else result_tick d t k not_before v)"

text \<open>A hint is verified by a poll of its own; without a verdict it is dropped.\<close>

definition verify_hint ::
  "promo \<Rightarrow> kind \<Rightarrow> int \<Rightarrow> wait_vars \<Rightarrow> (wait_vars + wait_result) pprog" where
  "verify_hint t k not_before v =
     bind (poll_result t k not_before) (\<lambda>polled. bind (classify k polled) (\<lambda>verdict.
       taken k verdict
         (seq (assign (set_hint k None)) (ret (Inl (if verdict = Some Busy then more_busy v else v))))))"

definition result_round ::
  "promotion \<Rightarrow> promo \<Rightarrow> kind \<Rightarrow> int \<Rightarrow> wait_vars \<Rightarrow> (wait_vars + wait_result) pprog" where
  "result_round d t k not_before v =
     look (\<lambda>s. (p_merge s \<noteq> None, p_closed s, hint k s \<noteq> None)) (\<lambda>(merged, closed, hinted).
       if merged then seq (merged_terminal d t (kind_stage k)) (ret (Inr MergedEarly))
       else if closed then closed_terminal d (kind_stage k)
       else bind (if hinted then verify_hint t k not_before v else ret (Inl v)) (\<lambda>r.
         case r of Inl v \<Rightarrow> result_wait d t k not_before v | Inr w \<Rightarrow> ret (Inr w)))"

definition wait_for_result :: "promotion \<Rightarrow> promo \<Rightarrow> kind \<Rightarrow> int \<Rightarrow> wait_result pprog" where
  "wait_for_result d t k not_before =
     repeat (result_round d t k not_before) \<lparr>v_busy = 0, v_repost = 0, v_waited = 0, v_alerts = 0\<rparr>"

section \<open>Parking\<close>

definition park_status :: "kind \<Rightarrow> deploy_status" where
  "park_status k = (case k of KPlan \<Rightarrow> PLAN_FAILED | KApply \<Rightarrow> APPLY_FAILED | KApprove \<Rightarrow> APPROVAL_FAILED)"

text \<open>A standalone run talks to the coordinator, a child to its parent.\<close>

definition give_shared :: "promotion \<Rightarrow> unit pprog" where
  "give_shared d =
     pact (if standalone d then PCoord (ReleaseLocks (m_workflow_id d) (Some (shared_locks d)))
       else PChildParked (m_workflow_id d) (shared_locks d))"

definition take_shared :: "promotion \<Rightarrow> unit pprog" where
  "take_shared d =
     pact (if standalone d then PCoord (AcquireLocks (m_workflow_id d) (shared_locks d) (m_user d) None)
       else PChildResuming (m_workflow_id d) (shared_locks d))"

text \<open>Whether there is evidence that a human fixed the cause.\<close>

definition woken :: "promo \<Rightarrow> kind \<Rightarrow> int \<Rightarrow> bool pprog" where
  "woken t k parked_at =
     (if k = KApprove then
        bind (pask (PPollApproval (t_number t))) (\<lambda>v. look p_approved (\<lambda>approved. ret (truthy v \<or> approved)))
      else
        bind (pask (PPollPlan (t_number t) (Some parked_at) (t_project t) False (t_dirs t))) (\<lambda>v.
          if before_colon (str_of v) = ''success'' then ret True
          else if k = KApply then
            bind (pask (PPollApply (t_number t) (t_project t) (t_dirs t)))
              (\<lambda>v. ret (before_colon (str_of v) = ''success''))
          else ret False))"

text \<open>
  One round of the parked wait, with the time since the park and since the last alert: true when the run
  may resume, false when the merge of the request ended the park.
\<close>

definition parked_poll ::
  "promotion \<Rightarrow> promo \<Rightarrow> kind \<Rightarrow> string \<Rightarrow> int \<Rightarrow> int \<times> int \<Rightarrow> (int \<times> int + bool) pprog" where
  "parked_poll d t k why parked_at = (\<lambda>(total, since).
     if park_limit \<le> total then
       fail_deployment d (plainly\<lparr>f_title := ''Prod Deploy DROPPED: park expired''\<rparr>)
         (ParkExpired (kind_name k) why) (kind_name k @ ''_park_expired'') (Some (manual_stage k))
     else
       bind (pask (PPollPrState (t_number t))) (\<lambda>st.
         if str_of st = ''merged'' then seq (merged_terminal d t (manual_stage k)) (ret (Inr False))
         else if str_of st = ''closed'' then closed_terminal d (manual_stage k)
         else bind (woken t k parked_at) (\<lambda>w.
           if w then ret (Inr True)
           else if since < alert_after then ret (Inl (total, since))
           else seq (look p_promo (\<lambda>n. pact (PSendP0Alert n ''Prod Deploy still PARKED'' ChannelOnly)))
                  (ret (Inl (total, 0))))))"

definition parked_round ::
  "promotion \<Rightarrow> promo \<Rightarrow> kind \<Rightarrow> string \<Rightarrow> int \<Rightarrow> int \<times> int \<Rightarrow> (int \<times> int + bool) pprog" where
  "parked_round d t k why parked_at = (\<lambda>(total, since).
     seq (pwait (\<lambda>s. p_merge s \<noteq> None \<or> p_closed s \<or> p_force s \<or> k = KApprove \<and> p_approved s))
       (look (\<lambda>s. (p_merge s \<noteq> None, p_closed s)) (\<lambda>(merged, closed).
         if merged then seq (merged_terminal d t (manual_stage k)) (ret (Inr False))
         else if closed then closed_terminal d (manual_stage k)
         else parked_poll d t k why parked_at
           (total + parked_poll_interval, since + parked_poll_interval))))"

definition resume_timeout :: "promotion \<Rightarrow> kind \<Rightarrow> 'a pprog" where
  "resume_timeout d k =
     seq (only_if (standalone d) (pact (PCoord (ReleaseHold (m_workflow_id d)))))
       (fail_deployment d plainly (Note ''Timed out re-acquiring locks after park resume.'')
          ''resume_lock_timeout'' (Some (manual_stage k)))"

definition resume :: "promotion \<Rightarrow> kind \<Rightarrow> unit pprog" where
  "resume d k =
     steps [set_track d ''RESUMING'',
            assign (\<lambda>s. s\<lparr>p_granted := False, p_step := ''resuming_'' @ kind_name k\<rparr>),
            take_shared d,
            bind (lock_wait on_prod (\<lambda>s. p_granted s \<or> p_force s) (\<not> standalone d)
                   (PReportStaleQueueWait (shared_locks d)))
              (\<lambda>ok. if ok then ret () else resume_timeout d k),
            set_track d ''IN_PROGRESS'']
       (pstage d (manual_stage k) ''success'' None)"

definition park :: "promotion \<Rightarrow> promo \<Rightarrow> kind \<Rightarrow> string \<Rightarrow> unit pprog" where
  "park d t k why =
     steps [assign (\<lambda>s. s\<lparr>p_step := ''blocked_'' @ kind_name k\<rparr>),
            pact (PStatus (park_status k) None),
            pstage d (manual_stage k) ''running'' None,
            give_shared d]
       (look clock (\<lambda>parked_at.
         seq (look p_promo (\<lambda>n. pact (PSendP0Alert n ''Prod Deploy PARKED'' Everyone)))
           (bind (repeat (parked_round d t k why parked_at) (0, 0)) (\<lambda>awake. only_if awake (resume d k)))))"

section \<open>The merge gate\<close>

definition left_open :: "promotion \<Rightarrow> prod_result pprog" where
  "left_open d =
     steps [pstage d ''infra: merge pr'' ''failed'' (Some LeftOpen),
            look p_promo (\<lambda>n. pact (PSendP0Alert n ''Prod promotion PR left open: review needed'' Everyone))]
       (closeout d False (Some ''applied; promotion PR left open''))"

definition gate_success :: "promotion \<Rightarrow> config \<Rightarrow> prod_result pprog" where
  "gate_success d gate =
     steps [assign (\<lambda>s. s\<lparr>p_merge := Some ''merged''\<rparr>),
            pact (PTrackDeleteDirs (case dict_get gate ''merged_dirs'' of VList vs \<Rightarrow> map str_of vs | _ \<Rightarrow> [])),
            pstage d ''infra: merge pr'' ''success'' None]
       (closeout d True None)"

fun gate_tries :: "promotion \<Rightarrow> promo \<Rightarrow> nat \<Rightarrow> prod_result pprog" where
  "gate_tries d t 0 = left_open d"
| "gate_tries d t (Suc n) =
     bind (pask (PEvaluateGate (t_number t) (t_dirs t))) (\<lambda>gate.
       if \<not> truthy (dict_get (dict_of gate) ''mergeable'') then left_open d
       else bind (pask (PMergePromotion (t_number t) (dict_get (dict_of gate) ''head_sha''))) (\<lambda>outcome.
         if str_of outcome = ''merged'' then gate_success d (dict_of gate)
         else if str_of outcome = ''head_moved'' then gate_tries d t n
         else left_open d))"

definition merge_gate :: "promotion \<Rightarrow> promo \<Rightarrow> prod_result pprog" where
  "merge_gate d t =
     steps [assign (\<lambda>s. s\<lparr>p_step := ''merge_gate''\<rparr>), pstage d ''infra: merge pr'' ''running'' None]
       (gate_tries d t gate_max_retries)"

section \<open>Plan, review, approve, apply\<close>

text \<open>
  A round of the outer loop ends with the number of failed plans (\<open>Inl\<close>, a new round) or with the
  result of the run.
\<close>

type_synonym round = "nat + prod_result"

definition adopted_end :: "promotion \<Rightarrow> round pprog" where
  "adopted_end d = bind (closeout d True (Some ''merged with adopted apply'')) (\<lambda>r. ret (Inr r))"

definition park_then :: "promotion \<Rightarrow> promo \<Rightarrow> kind \<Rightarrow> string \<Rightarrow> unit pprog \<Rightarrow> round pprog" where
  "park_then d t k why after =
     seq (park d t k why) (look p_merge (\<lambda>merged.
       if merged \<noteq> None then adopted_end d
       else steps [prod_post_plan d t, after] (ret (Inl 0))))"

definition plan_running :: "promotion \<Rightarrow> unit pprog" where
  "plan_running d = pstage d ''infra: plan pr'' ''running'' None"

definition text_or :: "string option \<Rightarrow> string \<Rightarrow> string" where
  "text_or x y = (case nonempty x of Some s \<Rightarrow> s | None \<Rightarrow> y)"

definition note_or :: "string option \<Rightarrow> prod_reason \<Rightarrow> prod_reason" where
  "note_or x y = (case nonempty x of Some s \<Rightarrow> Note s | None \<Rightarrow> y)"

definition prod_plan_failed :: "promotion \<Rightarrow> promo \<Rightarrow> nat \<Rightarrow> round pprog" where
  "prod_plan_failed d t attempts =
     (if attempts < plan_max_retries then seq (prod_post_plan d t) (ret (Inl attempts))
      else look p_plan_error (\<lambda>err.
        seq (pstage d ''infra: plan pr'' ''failed'' (Some (note_or err (PlanAttempts attempts))))
          (look p_plan_error (\<lambda>err.
            park_then d t KPlan (text_or err ''Terraform plan failed'') (plan_running d)))))"

definition destructive_round :: "promotion \<Rightarrow> promo \<Rightarrow> pyval \<Rightarrow> round pprog" where
  "destructive_round d t verdict =
     steps [pact (PPostVerification (t_number t) verdict),
            pact (PStatus DESTRUCTIVE_PLAN_DETECTED None),
            pstage d ''infra: devlift ai review'' ''failed''
              (Some (Destructive (opt_str (dict_get (dict_of verdict) ''summary''))))]
       (park_then d t KPlan ''Destructive plan detected'' (ret ()))"

text \<open>Blocked on the approval rules: approved again, the apply is repeated without counting it.\<close>

definition apply_failed :: "promotion \<Rightarrow> promo \<Rightarrow> nat \<Rightarrow> (nat + wait_result) pprog" where
  "apply_failed d t attempts =
     look p_apply_error (\<lambda>err.
       let retry = (if attempts + 1 < apply_max_retries then ret (Inl (attempts + 1)) else ret (Inr NotWorked)) in
       if py_in ''must be approved'' (py_lower (text_or err [])) then
         bind (try_except (seq (pact (PApprovePr (t_number t) (m_repo d))) (ret True)) (\<lambda>_. ret False))
           (\<lambda>approved. if approved then ret (Inl attempts) else retry)
       else retry)"

definition apply_try :: "promotion \<Rightarrow> promo \<Rightarrow> int \<Rightarrow> nat \<Rightarrow> (nat + wait_result) pprog" where
  "apply_try d t posted_at attempts =
     steps [assign (\<lambda>s. s\<lparr>p_apply := None, p_apply_error := None, p_step := ''waiting_for_apply''\<rparr>),
            pact (PPostApply (t_number t) (t_project t))]
       (bind (wait_for_result d t KApply posted_at) (\<lambda>r.
         if r = NotWorked then apply_failed d t attempts else ret (Inr r)))"

definition applied_end :: "promotion \<Rightarrow> promo \<Rightarrow> round pprog" where
  "applied_end d t =
     steps [pact (PStatus APPLIED_SUCCESSFULLY None),
            pstage d ''infra: apply pr'' ''success'' None,
            set_track d ''APPLIED'']
       (bind (merge_gate d t) (\<lambda>r. ret (Inr r)))"

definition apply_exhausted :: "promotion \<Rightarrow> promo \<Rightarrow> round pprog" where
  "apply_exhausted d t =
     look p_apply_error (\<lambda>err.
       seq (pstage d ''infra: apply pr'' ''failed'' (Some (note_or err (ApplyAttempts apply_max_retries))))
         (look p_apply_error (\<lambda>err.
           park_then d t KApply (text_or err ''Terraform apply failed'') (plan_running d))))"

definition prod_apply_phase :: "promotion \<Rightarrow> promo \<Rightarrow> int \<Rightarrow> round pprog" where
  "prod_apply_phase d t posted_at =
     steps [manual_tick d t,
            pact (PStatus APPLYING None),
            pstage d ''infra: apply pr'' ''running'' None]
       (bind (repeat (apply_try d t posted_at) 0) (\<lambda>r.
         case r of MergedEarly \<Rightarrow> adopted_end d | Worked \<Rightarrow> applied_end d t | NotWorked \<Rightarrow> apply_exhausted d t))"

definition approve_promotion :: "promotion \<Rightarrow> promo \<Rightarrow> round pprog \<Rightarrow> round pprog" where
  "approve_promotion d t go =
     (if m_approval d then
        seq (assign (\<lambda>s. s\<lparr>p_step := ''approving_promotion_pr''\<rparr>))
          (bind (try_except (seq (pact (PApprovePr (t_number t) (m_repo d))) (ret None)) (\<lambda>e. ret (Some (text_of e))))
            (\<lambda>refused. case refused of
               None \<Rightarrow> go
             | Some err \<Rightarrow> park_then d t KApprove (''PR approval failed: '' @ take 200 err) (ret ())))
      else go)"

definition reviewed_round :: "promotion \<Rightarrow> promo \<Rightarrow> int \<Rightarrow> pyval \<Rightarrow> round pprog" where
  "reviewed_round d t posted_at verdict =
     steps [only_if (truthy (dict_get (dict_of verdict) ''plan_found''))
              (pact (PPostVerification (t_number t) verdict)),
            pact (PStatus PLAN_VERIFIED_SUCCESSFULLY None),
            pstage d ''infra: devlift ai review'' ''success'' None]
       (approve_promotion d t (prod_apply_phase d t posted_at))"

definition planned_round :: "promotion \<Rightarrow> promo \<Rightarrow> int \<Rightarrow> round pprog" where
  "planned_round d t posted_at =
     steps [pact (PStatus PLANNED_SUCCESSFULLY None),
            pstage d ''infra: plan pr'' ''success'' None,
            assign (\<lambda>s. s\<lparr>p_step := ''verifying_plan''\<rparr>),
            pstage d ''infra: devlift ai review'' ''running'' None]
       (bind (try_except (pask (PVerifyPlan (t_number t) posted_at))
               (\<lambda>_. ret (VDict [(''is_destructive'', VBool False)]))) (\<lambda>verdict.
         if truthy (dict_get (dict_of verdict) ''is_destructive'') then destructive_round d t verdict
         else reviewed_round d t posted_at verdict))"

definition outer :: "promotion \<Rightarrow> promo \<Rightarrow> nat \<Rightarrow> round pprog" where
  "outer d t attempts =
     look clock (\<lambda>posted_at.
       bind (wait_for_result d t KPlan posted_at) (\<lambda>r.
         case r of
           MergedEarly \<Rightarrow> adopted_end d
         | NotWorked \<Rightarrow> prod_plan_failed d t (attempts + 1)
         | Worked \<Rightarrow> planned_round d t posted_at))"

definition plan_apply_gate_loop :: "promotion \<Rightarrow> promo \<Rightarrow> prod_result pprog" where
  "plan_apply_gate_loop d t = repeat (outer d t) 0"

section \<open>Opening the promotion request\<close>

definition clean_slate :: "pstate \<Rightarrow> pstate" where
  "clean_slate s =
     s\<lparr>p_plan := None, p_plan_error := None, p_apply := None, p_apply_error := None, p_merge := None,
       p_closed := False, p_approved := False\<rparr>"

definition keep_promotion :: "config \<Rightarrow> pstate \<Rightarrow> pstate" where
  "keep_promotion info s =
     s\<lparr>p_promo := (case dict_get info ''pr_number'' of VInt n \<Rightarrow> Some n | _ \<Rightarrow> None)\<rparr>"

definition keep_baseline :: "config \<Rightarrow> pstate \<Rightarrow> pstate" where
  "keep_baseline info s =
     s\<lparr>p_baseline := (case dict_get info ''head_sha'' of VStr x \<Rightarrow> Some x | _ \<Rightarrow> None)\<rparr>"

definition promo_of :: "promotion \<Rightarrow> pstate \<Rightarrow> promo" where
  "promo_of d s =
     \<lparr>t_number = (case p_promo s of Some n \<Rightarrow> n | None \<Rightarrow> 0), t_project = p_project s,
      t_baseline = p_baseline s, t_dirs = p_dirs s @ m_shared d\<rparr>"

definition promotion_phase :: "promotion \<Rightarrow> prod_result pprog" where
  "promotion_phase d =
     steps [assign (\<lambda>s. s\<lparr>p_step := ''opening_promotion_pr''\<rparr>),
            pstage d ''infra: promotion pr'' ''running'' None]
       (bind (pask (PEnsurePromotion (m_source d) (m_target d))) (\<lambda>v.
         steps [assign (keep_promotion (dict_of v)),
                look p_promo (\<lambda>n. record_prs d (pr_entry d ''PROMOTION PR'' (Some (m_repo d)) n)),
                assign (keep_baseline (dict_of v)),
                assign clean_slate,
                pstage d ''infra: promotion pr'' ''success'' None]
           (look (promo_of d) (\<lambda>t.
             steps [pact (PSendStartedDm (t_number t)), plan_running d, prod_post_plan d t]
               (plan_apply_gate_loop d t)))))"

section \<open>Phase 1: onto the stage branch\<close>

text \<open>
  Approving the feature request: one attempt, then a wait of a poll interval, until it is approved or
  a day has passed.  The loop keeps whether an alert was sent, and the time waited.
\<close>

definition approval_alert :: "promotion \<Rightarrow> int \<Rightarrow> unit pprog" where
  "approval_alert d n =
     seq (pact (PStatus APPROVAL_FAILED None))
       (pact (PSendP0Alert (Some n) ''Prod Deploy: Approval Failed'' Everyone))"

definition approval_poll :: "promotion \<Rightarrow> int \<Rightarrow> int \<Rightarrow> (bool \<times> int + unit) pprog" where
  "approval_poll d n waited =
     bind (pask (PPollApproval n)) (\<lambda>v.
       if truthy v then seq (assign (\<lambda>s. s\<lparr>p_approved := True\<rparr>)) (ret (Inl (True, waited)))
       else if alert_after * int stuck_max_alerts \<le> waited then
         fail_deployment d plainly (Note ''Feature PR approval stuck for 24 hours.'')
           ''approval_stuck_timeout'' (Some ''infra: merge to stage'')
       else seq (only_if (waited mod alert_after < poll_interval)
                  (pact (PSendP0Alert (Some n) ''Prod Deploy: Approval Stuck'' ChannelOnly)))
              (ret (Inl (True, waited))))"

definition approval_round :: "promotion \<Rightarrow> int \<Rightarrow> bool \<times> int \<Rightarrow> (bool \<times> int + unit) pprog" where
  "approval_round d n = (\<lambda>(alerted, waited).
     look p_approved (\<lambda>approved.
       if approved then ret (Inr ())
       else bind (try_except (seq (pact (PApprovePr n (m_repo d))) (ret True)) (\<lambda>_. ret False)) (\<lambda>sent.
         if sent then seq (assign (\<lambda>s. s\<lparr>p_approved := True\<rparr>)) (ret (Inr ()))
         else seq (only_if (\<not> alerted) (approval_alert d n))
                (bind (pwait p_approved) (\<lambda>came.
                  if came then ret (Inl (True, waited)) else approval_poll d n (waited + poll_interval))))))"

definition approve_feature :: "promotion \<Rightarrow> int \<Rightarrow> unit pprog" where
  "approve_feature d n =
     seq (assign (\<lambda>s. s\<lparr>p_step := ''approving_feature_pr''\<rparr>))
       (only_if (m_approval d)
         (steps [assign (\<lambda>s. s\<lparr>p_approved := False\<rparr>), repeat (approval_round d n) (False, 0)]
           (pact (PStatus APPROVED_SUCCESSFULLY None))))"

text \<open>Merging it: three attempts, the resolver after a conflict.\<close>

fun merge_tries :: "promotion \<Rightarrow> int \<Rightarrow> nat \<Rightarrow> unit pprog" where
  "merge_tries d n 0 =
     seq (pstage d ''infra: merge to stage'' ''failed''
           (Some (Note ''Could not merge the feature PR to stage after 3 attempts.'')))
       (fail_deployment d plainly (StageMergeFailed n) ''stage_merge_failed'' None)"
| "merge_tries d n (Suc k) =
     bind (pask (PMergeDirect n)) (\<lambda>outcome.
       if str_of outcome \<in> {''merged'', ''already_merged''} then
         pstage d ''infra: merge to stage'' ''success'' None
       else seq (only_if (str_of outcome = ''conflict'') (pact (PResolveConflict n))) (merge_tries d n k))"

definition merge_feature :: "promotion \<Rightarrow> int \<Rightarrow> unit pprog" where
  "merge_feature d n =
     steps [assign (\<lambda>s. s\<lparr>p_step := ''merging_to_stage''\<rparr>),
            pstage d ''infra: merge to stage'' ''running'' None]
       (merge_tries d n 3)"

text \<open>Directories that are in the request replace the predicted ones.\<close>

definition correct_dirs :: "promotion \<Rightarrow> pyval \<Rightarrow> pstate \<Rightarrow> pstate" where
  "correct_dirs d v s =
     (let real = (case v of VList vs \<Rightarrow> map str_of vs | _ \<Rightarrow> []) in
      if real = [] then s else s\<lparr>p_dirs := filter (\<lambda>dir. dir \<notin> set (m_shared d)) real\<rparr>)"

definition onto_stage :: "promotion \<Rightarrow> int \<Rightarrow> prod_result pprog" where
  "onto_stage d n =
     steps [look p_sha (\<lambda>sha. case sha of
              None \<Rightarrow> ret ()
            | Some sha \<Rightarrow> bind (pask (PCheckManualCommit n sha)) (\<lambda>manual.
                only_if (truthy manual)
                  (fail_deployment d (plainly\<lparr>f_title := ''Deployment Terminated''\<rparr>)
                     (Note ''Manual commit detected on the feature PR before merge to stage.'')
                     ''manual_commit_detected'' (Some ''infra: create pr'')))),
            pstage d ''infra: create pr'' ''success'' None,
            bind (pask (PResolveDirs n)) (\<lambda>v. assign (correct_dirs d v)),
            with_dirs d (\<lambda>dirs. pact (PTrackUpsert dirs ''IN_PROGRESS'')),
            approve_feature d n,
            merge_feature d n]
       (promotion_phase d)"

definition prod_create_pr :: "promotion \<Rightarrow> config pprog" where
  "prod_create_pr d =
     steps [assign (\<lambda>s. s\<lparr>p_step := ''creating_pr''\<rparr>),
            pact (PStatus DEPLOYING None),
            pact (PQueueStatus ''STARTING_DEPLOYMENT''),
            pstage d ''infra: create pr'' ''running'' None]
       (bind (try_except (bind (pask PRunScriptPr) (\<lambda>v. ret (Inr (dict_of v)))) (\<lambda>e. ret (Inl (text_of e)))) (\<lambda>r.
         case r of
           Inr info \<Rightarrow> ret info
         | Inl err \<Rightarrow>
             seq (pstage d ''infra: create pr'' ''failed'' (Some (Note err)))
               (fail_deployment d (plainly\<lparr>f_status := PR_CREATION_FAILED\<rparr>) (PrNotCreated err)
                  ''pr_creation_failed'' None)))"

definition keep_feature :: "config \<Rightarrow> pstate \<Rightarrow> pstate" where
  "keep_feature info s =
     s\<lparr>p_feature := (case dict_get info ''pr_number'' of VInt n \<Rightarrow> Some n | _ \<Rightarrow> None),
       p_sha := opt_str (dict_get info ''commit_sha''),
       p_project := opt_str (dict_get info ''project_name''),
       p_secondary := dicts_of (dict_get info ''secondary_prs'')\<rparr>"

definition secondaries_only :: "promotion \<Rightarrow> prod_result pprog" where
  "secondaries_only d =
     steps [pstage d ''infra: create pr'' ''skipped'' None, merge_secondaries d]
       (seq (closeout d False (Some ''no infra diff: secondary PRs only''))
         (ret \<lparr>s_merged = None, s_number = None, s_note = None\<rparr>))"

definition no_pr :: "promotion \<Rightarrow> 'a pprog" where
  "no_pr d =
     seq (pstage d ''infra: create pr'' ''failed''
           (Some (Note ''No pull request was created: no diff detected.'')))
       (fail_deployment d (plainly\<lparr>f_status := PR_CREATION_FAILED\<rparr>)
          (Note ''No pull request was created: no diff detected or PR creation failed silently.'')
          ''no_pr_created'' None)"

definition run_production :: "promotion \<Rightarrow> prod_result pprog" where
  "run_production d =
     seq (lock_phase d)
       (bind (prod_create_pr d) (\<lambda>info.
         steps [assign (keep_feature info), record_run_prs d]
           (look (\<lambda>s. (p_feature s, p_secondary s)) (\<lambda>(feature, secs).
             let n = (case feature of Some n \<Rightarrow> n | None \<Rightarrow> 0) in
             if n \<noteq> 0 then onto_stage d n
             else if secs \<noteq> [] then secondaries_only d
             else no_pr d))))"

end
