(* ===== verification/ProductionSafety.thy ===== *)
theory ProductionSafety
  imports ProductionWorkflow
begin

text \<open>
  Safety of the production deployment over every script of answers, signals and time-outs: when a run
  may plan, apply and merge, that it holds its locks then, and that it gives them back when it ends.
\<close>

section \<open>Reading a trace\<close>

type_synonym pevent = "(prod_signal, prod_cmd) event"

text \<open>The run gives locks away: to the coordinator, or through its parent.\<close>

fun gives :: "pevent \<Rightarrow> bool" where
  "gives (Issued (PCoord (ReleaseLocks _ _))) = True"
| "gives (Issued (PChildParked _ _)) = True"
| "gives _ = False"

text \<open>After an abort, or when the request is already merged, the locks no longer matter to the run.\<close>

fun excuses :: "pevent \<Rightarrow> bool" where
  "excuses (Heard (P_atlas_lock_abort _)) = True"
| "excuses (Heard P_pr_merged) = True"
| "excuses (Got (PPollPrState _) r) = answered (\<lambda>v. str_of v = ''merged'') r"
| "excuses (Got (PMergePromotion _ _) r) = answered (\<lambda>v. str_of v = ''merged'') r"
| "excuses _ = False"

definition holding :: "pevent list \<Rightarrow> bool" where
  "holding tr \<longleftrightarrow> last_word (\<lambda>e. e = Heard P_locks_granted) gives tr \<or> list_ex excuses tr"

definition says_success :: "reply \<Rightarrow> bool" where
  "says_success = answered (\<lambda>v. before_colon (str_of v) = ''success'')"

fun plans :: "pevent \<Rightarrow> bool" where
  "plans (Issued (PPostPlan _ _)) = True" | "plans _ = False"

fun applies :: "pevent \<Rightarrow> bool" where
  "applies (Issued (PPostPlan _ _)) = True" | "applies (Issued (PPostApply _ _)) = True" | "applies _ = False"

fun gates :: "pevent \<Rightarrow> bool" where
  "gates (Issued (PEvaluateGate _ _)) = True" | "gates (Issued (PMergePromotion _ _)) = True"
| "gates _ = False"

fun planned_ok :: "pevent \<Rightarrow> bool" where
  "planned_ok (Got (PPollPlan _ (Some _) _ False _) r) = says_success r" | "planned_ok _ = False"

text \<open>The review fails open.\<close>

fun reviewed_ok :: "pevent \<Rightarrow> bool" where
  "reviewed_ok (Got (PVerifyPlan _ _) (Done v)) = (\<not> truthy (dict_get (dict_of v) ''is_destructive''))"
| "reviewed_ok (Got (PVerifyPlan _ _) _) = True"
| "reviewed_ok _ = False"

fun approved_ok :: "pevent \<Rightarrow> bool" where
  "approved_ok (Got (PApprovePr _ _) (Done _)) = True" | "approved_ok _ = False"

fun clean_ok :: "pevent \<Rightarrow> bool" where
  "clean_ok (Got (PCheckManualOnDirs _ _ _) (Done v)) = (\<not> truthy v)" | "clean_ok _ = False"

fun applied_ok :: "pevent \<Rightarrow> bool" where
  "applied_ok (Got (PPollApply _ _ _) r) = says_success r" | "applied_ok _ = False"

text \<open>The apply of the given request and directories succeeded.\<close>

fun applied_for :: "int \<Rightarrow> dir list \<Rightarrow> pevent \<Rightarrow> bool" where
  "applied_for n ds (Got (PPollApply m _ es) r) = (m = n \<and> es = ds \<and> says_success r)"
| "applied_for n ds _ = False"

text \<open>The gate let the request pass at this head, for the given directories.\<close>

fun gate_ok :: "int \<Rightarrow> dir list \<Rightarrow> pyval \<Rightarrow> pevent \<Rightarrow> bool" where
  "gate_ok n ds sha (Got (PEvaluateGate m es) (Done v)) =
     (m = n \<and> es = ds \<and> truthy (dict_get (dict_of v) ''mergeable'') \<and> dict_get (dict_of v) ''head_sha'' = sha)"
| "gate_ok n ds sha _ = False"

fun claimed :: "pevent \<Rightarrow> bool" where
  "claimed (Got (PTrackUpsert _ _) (Done _)) = True" | "claimed _ = False"

definition apply_ready :: "promotion \<Rightarrow> pevent list \<Rightarrow> bool" where
  "apply_ready d tr \<longleftrightarrow>
     last_word planned_ok plans tr \<and> last_word reviewed_ok plans tr \<and>
     (m_approval d \<longrightarrow> last_word approved_ok plans tr) \<and> last_word clean_ok plans tr"

definition apply_confirmed :: "int \<Rightarrow> dir list \<Rightarrow> pevent list \<Rightarrow> bool" where
  "apply_confirmed n ds = last_word (applied_for n ds) applies"

definition freed :: "promotion \<Rightarrow> pevent list \<Rightarrow> bool" where
  "freed d tr \<longleftrightarrow>
     (standalone d \<longrightarrow> Issued (PCoord (ReleaseLocks (m_workflow_id d) (Some (lock_set d)))) \<in> set tr)"

text \<open>What the trace so far allows.\<close>

definition allowed :: "promotion \<Rightarrow> pevent list \<Rightarrow> prod_cmd \<Rightarrow> bool" where
  "allowed d tr c =
     (case c of
        PPostPlan _ _ \<Rightarrow> holding tr
      | PPostApply _ _ \<Rightarrow> holding tr \<and> apply_ready d tr
      | PMergePromotion n sha \<Rightarrow>
          holding tr \<and> (\<exists>ds. apply_confirmed n ds tr \<and> last_word (gate_ok n ds sha) gates tr)
      | PMergeDirect _ \<Rightarrow> list_ex claimed tr
      | _ \<Rightarrow> True)"

section \<open>The invariant\<close>

definition safe :: "promotion \<Rightarrow> pstate \<Rightarrow> bool" where
  "safe d s \<longleftrightarrow>
     follows (allowed d) (trace s) \<and> (p_force s \<or> p_merge s \<noteq> None \<longrightarrow> list_ex excuses (trace s))"

definition ends :: "promotion \<Rightarrow> failure \<Rightarrow> pstate \<Rightarrow> bool" where
  "ends d e s \<longleftrightarrow> (\<forall>why. e = AppFailed why \<longrightarrow> freed d (trace s))"

fun prod_routine :: "prod_cmd \<Rightarrow> bool" where
  "prod_routine (PPostPlan _ _) = False"
| "prod_routine (PPostApply _ _) = False"
| "prod_routine (PMergePromotion _ _) = False"
| "prod_routine (PMergeDirect _) = False"
| "prod_routine (PEvaluateGate _ _) = False"
| "prod_routine (PChildParked _ _) = False"
| "prod_routine (PCoord (ReleaseLocks _ _)) = False"
| "prod_routine _ = True"

lemma routine_allowed: "prod_routine c \<Longrightarrow> allowed d tr c"
  by (cases c rule: prod_routine.cases) (auto simp: allowed_def)

lemma routine_events [simp]:
  "prod_routine c \<Longrightarrow> \<not> gives (Issued c)" "prod_routine c \<Longrightarrow> \<not> plans (Issued c)"
  "prod_routine c \<Longrightarrow> \<not> applies (Issued c)" "prod_routine c \<Longrightarrow> \<not> gates (Issued c)"
  by (cases c rule: prod_routine.cases; simp)+

lemma quiet_events [simp]:
  "\<not> gives (Heard g)" "\<not> plans (Heard g)" "\<not> applies (Heard g)" "\<not> gates (Heard g)"
  "\<not> gives (Got c r)" "\<not> plans (Got c r)" "\<not> applies (Got c r)" "\<not> gates (Got c r)"
  by simp_all

abbreviation calm_fact :: "(pevent list \<Rightarrow> bool) \<Rightarrow> bool" where
  "calm_fact \<equiv> calm prod_routine"

lemma calm_facts [intro]:
  "calm_fact holding" "calm_fact (last_word P plans)" "calm_fact (apply_ready d)" "calm_fact (apply_confirmed n ds)"
  "calm_fact (last_word P gates)" "calm_fact (freed d)"
proof -
  have plans: "calm_fact (last_word P plans)" for P by (rule calm_last_word; simp)
  then show "calm_fact (last_word P plans)" .
  show "calm_fact (last_word P gates)" by (rule calm_last_word; simp)
  show "calm_fact (apply_ready d)" unfolding apply_ready_def by (intro calm_conj calm_imp plans)
  show "calm_fact (apply_confirmed n ds)" unfolding apply_confirmed_def by (rule calm_last_word) simp_all
  show "calm_fact holding" by (auto simp: calm_def holding_def last_word_snoc)
  show "calm_fact (freed d)" unfolding freed_def by (intro calm_imp calm_member)
qed

lemma safe_issued: "allowed d (trace s) c \<Longrightarrow> safe d s \<Longrightarrow> safe d (logged (Issued c) s)"
  by (auto simp: safe_def logged_def)

lemma safe_got: "safe d s \<Longrightarrow> safe d (logged (Got c r) s)"
  by (auto simp: safe_def logged_def)

lemma safe_signal: "safe d s \<Longrightarrow> safe d (on_prod g (logged (Heard g) s))"
  by (cases g) (auto simp: safe_def logged_def)

interpretation pw: workflow_rules on_prod "safe d" prod_routine for d
proof unfold_locales
  fix s :: pstate and g t ts
  show "safe d s \<Longrightarrow> safe d (take_turn t ts s)" by (simp add: safe_def take_turn_def)
  show "\<exists>cs. trace (on_prod g s) = trace s @ map Issued cs \<and> list_all prod_routine cs"
    by (cases g) auto
qed (auto intro: safe_issued routine_allowed safe_got safe_signal)

abbreviation hush :: "promotion \<Rightarrow> (pevent list \<Rightarrow> bool) \<Rightarrow> 'a pprog \<Rightarrow> bool" where
  "hush d T m \<equiv> quiet (safe d) (ends d) T m"

abbreviation okay :: "promotion \<Rightarrow> (pstate \<Rightarrow> bool) \<Rightarrow> 'a pprog \<Rightarrow> ('a \<Rightarrow> pstate \<Rightarrow> bool) \<Rightarrow> bool" where
  "okay d P m Q \<equiv> triple (safe d) (ends d) P m Q"

lemma ends_activity [simp]: "ends d (ActivityFailed m) s"
  by (simp add: ends_def)

lemma pask_hush [quiet_rules]:
  "prod_routine c \<Longrightarrow> calm_fact T \<Longrightarrow> (\<And>s m. safe d s \<Longrightarrow> T (trace s) \<Longrightarrow> E (ActivityFailed m) s) \<Longrightarrow>
    quiet (safe d) E T (pask c)"
  unfolding pask_def by (rule pw.await_quiet)

lemma pact_hush [quiet_rules]:
  "prod_routine c \<Longrightarrow> calm_fact T \<Longrightarrow> (\<And>s m. safe d s \<Longrightarrow> T (trace s) \<Longrightarrow> E (ActivityFailed m) s) \<Longrightarrow>
    quiet (safe d) E T (pact c)"
  unfolding pact_def by (intro quiet_rules)

lemma pstage_hush [quiet_rules]: "calm_fact T \<Longrightarrow> hush d T (pstage d' name st err)"
  unfolding pstage_def by (intro quiet_rules) auto

lemma set_track_hush [quiet_rules]: "calm_fact T \<Longrightarrow> hush d T (set_track d' st)"
  unfolding set_track_def with_dirs_def by (intro quiet_rules) auto

text \<open>Assignments that leave the trace and the two flags alone, or lower them.\<close>

lemma assign_hush [quiet_rules]:
  assumes "\<And>s. trace (f s) = trace s" "\<And>s. p_force (f s) = p_force s"
    and "\<And>s. p_merge (f s) = p_merge s \<or> p_merge (f s) = None"
  shows "hush d T (assign f)"
proof (rule quiet_assign)
  fix s :: pstate assume "safe d s"
  then show "safe d (f s)" using assms(3) [of s] by (auto simp: safe_def assms(1,2))
qed (rule assms(1))

text \<open>A command that is not routine: what allows it, and what holds after it.\<close>

lemma pask_triple:
  assumes "calm_fact T'" "\<And>tr. T tr \<Longrightarrow> allowed d tr c \<and> T' (tr @ [Issued c])"
  shows "okay d (\<lambda>s. T (trace s)) (pask c) (\<lambda>v s. \<exists>tr. trace s = tr @ [Got c (Done v)] \<and> T' tr)"
  unfolding pask_def
  by (rule pw.await_triple [where T = T', OF assms(1)]) (use assms(2) in \<open>auto intro: safe_issued safe_got\<close>)

lemma pact_triple:
  assumes "calm_fact T'" "\<And>tr. T tr \<Longrightarrow> allowed d tr c \<and> T' (tr @ [Issued c])"
    and "\<And>tr v. T' tr \<Longrightarrow> T'' (tr @ [Got c (Done v)])"
  shows "okay d (\<lambda>s. T (trace s)) (pact c) (\<lambda>_ s. T'' (trace s))"
  unfolding pact_def
  by (rule triple_bind [OF pask_triple [OF assms(1,2)] triple_ret]) (auto dest: assms(3))

lemma okay_hush:
  "hush d T m \<Longrightarrow> (\<And>s. safe d s \<Longrightarrow> P s \<Longrightarrow> T (trace s)) \<Longrightarrow>
    (\<And>a s. safe d s \<Longrightarrow> T (trace s) \<Longrightarrow> Q a s) \<Longrightarrow> okay d P m Q"
  unfolding quiet_def by (rule triple_weaken)

lemma hush_then: "hush d T m \<Longrightarrow> okay d (\<lambda>s. T (trace s)) n Q \<Longrightarrow> okay d (\<lambda>s. T (trace s)) (seq m n) Q"
  by (rule quiet_seq)

section \<open>The ends of a run\<close>

lemma lock_set_release: "okay d (\<lambda>_. True) (release_lock_set d) (\<lambda>_ s. freed d (trace s))"
  unfolding release_lock_set_def
  by (rule pact_triple [where T = "\<lambda>_. True" and T' = "freed d"]) (auto simp: freed_def allowed_def)

lemma alert_hush [quiet_rules]:
  "calm_fact T \<Longrightarrow> hush d T (look f (\<lambda>n. pact (PSendP0Alert n title to)))"
  by (intro quiet_rules) auto

lemma freed_standalone: "\<not> standalone d \<Longrightarrow> freed d tr"
  by (simp add: freed_def)

lemma fail_tail:
  "okay d (\<lambda>s. freed d (trace s)) (seq (assign (\<lambda>s. s\<lparr>p_step := x, p_result := y\<rparr>)) (throw (AppFailed code))) Q"
  by (rule triple_bind [OF triple_assign [where Q = "\<lambda>_ s. freed d (trace s)"] triple_throw])
     (auto simp: safe_def ends_def)

lemma fail_triple: "f_release how \<Longrightarrow> okay d P (fail_deployment d how why code st) Q"
proof -
  assume how: "f_release how"
  have release: "okay d (\<lambda>_. True) (only_if (f_release how \<and> standalone d) (release_lock_set d)) (\<lambda>_ s. freed d (trace s))"
    using how by (cases "standalone d") (auto simp: only_if_def freed_standalone intro: lock_set_release triple_ret)
  have "okay d (\<lambda>_. True) (fail_deployment d how why code st) Q"
    unfolding fail_deployment_def steps.simps
    by (intro hush_then [where T = "\<lambda>_. True"] triple_bind [OF release] fail_tail quiet_rules calm_True)
       (auto intro: quiet_rules)
  then show ?thesis by (rule triple_weaken) auto
qed

lemma fail_hush [quiet_rules]: "f_release how \<Longrightarrow> hush d T (fail_deployment d how why code st)"
  unfolding quiet_def by (rule fail_triple)

lemma plainly_releases [simp]: "f_release plainly" "f_release (plainly\<lparr>f_title := x\<rparr>)" "f_release (plainly\<lparr>f_status := y\<rparr>)"
  by (simp_all add: plainly_def)

text \<open>A run that gave its locks back already.\<close>

lemma fail_freed:
  "okay d (\<lambda>s. freed d (trace s)) (fail_deployment d (plainly\<lparr>f_release := False\<rparr>) why code None) Q"
proof -
  have release: "hush d (freed d) (only_if (f_release (plainly\<lparr>f_release := False\<rparr>) \<and> standalone d) (release_lock_set d))"
    by (simp add: only_if_def quiet_ret)
  show ?thesis unfolding fail_deployment_def steps.simps option.case
    by (intro hush_then release fail_tail quiet_rules calm_facts) auto
qed

lemma closed_hush [quiet_rules]: "hush d T (closed_terminal d st)"
  unfolding closed_terminal_def by (intro quiet_rules) simp

lemma merge_secondary_hush [quiet_rules]: "calm_fact T \<Longrightarrow> hush d T (merge_secondary d sec)"
  unfolding merge_secondary_def steps.simps by (intro quiet_rules) auto

lemma merge_secondaries_hush [quiet_rules]: "calm_fact T \<Longrightarrow> hush d T (merge_secondaries d)"
  unfolding merge_secondaries_def by (intro quiet_rules)

lemma closeout_triple: "okay d P (closeout d merged note) (\<lambda>_ s. freed d (trace s))"
proof -
  have release: "okay d (\<lambda>_. True) (only_if (standalone d) (release_lock_set d)) (\<lambda>_ s. freed d (trace s))"
    by (cases "standalone d") (auto simp: only_if_def freed_standalone intro: lock_set_release triple_ret)
  have tail: "hush d (freed d) (seq (assign (\<lambda>s. s\<lparr>p_step := x, p_result := y\<rparr>)) (look f (\<lambda>n. ret (g n))))"
    for x y and f :: "pstate \<Rightarrow> int option" and g :: "int option \<Rightarrow> prod_result"
    by (intro quiet_rules) auto
  have "okay d (\<lambda>_. True) (closeout d merged note) (\<lambda>_ s. freed d (trace s))"
    unfolding closeout_def steps.simps
    by (intro hush_then [where T = "\<lambda>_. True"] triple_bind [OF release] triple_quiet tail quiet_rules calm_True) auto
  then show ?thesis by (rule triple_weaken) auto
qed

section \<open>Small steps\<close>

lemma post_plan_triple: "okay d (\<lambda>s. holding (trace s)) (prod_post_plan d t) (\<lambda>_ s. holding (trace s))"
proof -
  have plan: "okay d (\<lambda>s. holding (trace s)) (pact (PPostPlan n pr)) (\<lambda>_ s. holding (trace s))" for n pr
    by (rule pact_triple [OF calm_facts(1)]) (auto simp: allowed_def holding_def last_word_snoc)
  have status: "hush d holding (pact (PStatus st e))" for st e by (intro quiet_rules calm_facts) auto
  have reset: "hush d holding (assign (\<lambda>s. s\<lparr>p_plan := None, p_plan_error := None, p_step := x\<rparr>))" for x
    by (rule assign_hush) simp_all
  show ?thesis unfolding prod_post_plan_def steps.simps
    by (rule hush_then [OF reset triple_bind [OF plan triple_quiet [OF status]]])
qed

lemma manual_tick_hush [quiet_rules]: "calm_fact T \<Longrightarrow> hush d T (manual_tick d t)"
  unfolding manual_tick_def ask_manual_def by (intro quiet_rules) auto

text \<open>After the check nothing manual was found, whatever was known before is still known.\<close>

lemma manual_tick_clean:
  assumes "calm_fact T"
  shows "okay d (\<lambda>s. T (trace s)) (manual_tick d t) (\<lambda>_ s. T (trace s) \<and> last_word clean_ok plans (trace s))"
  unfolding manual_tick_def ask_manual_def
proof (rule triple_bind [OF pask_triple [where T' = T, OF assms]])
  fix v
  let ?c = "PCheckManualOnDirs (t_baseline t) (m_source d) (t_dirs t)"
  let ?P = "\<lambda>s. \<exists>tr. trace s = tr @ [Got ?c (Done v)] \<and> T tr"
  have fail: "okay d P (only_if True (fail_deployment d (plainly\<lparr>f_title := x\<rparr>) why code st)) Q" for P x why code st Q
    by (simp add: only_if_def fail_triple)
  have go: "okay d ?P (ret ()) (\<lambda>_ s. T (trace s) \<and> last_word clean_ok plans (trace s))" if "\<not> truthy v"
    by (rule triple_ret) (use assms that in \<open>auto simp: calm_def last_word_snoc\<close>)
  have "okay d (\<lambda>s. ?P s \<and> p_apply s = a) (only_if (truthy v) (fail_deployment d (plainly\<lparr>f_title := x\<rparr>) why code st))
    (\<lambda>_ s. T (trace s) \<and> last_word clean_ok plans (trace s))" for a x why code st
    by (cases "truthy v") (use fail go in \<open>auto simp: only_if_def intro: triple_weaken\<close>)
  then show "okay d ?P (look p_apply (\<lambda>apply_confirmed. only_if (truthy v)
      (fail_deployment d (plainly\<lparr>f_title := ''Prod Deployment Terminated: Manual Commit''\<rparr>)
        (Note ''Manual commit detected on this deployment's directories during the prod deploy.'')
        ''manual_commit_detected'' (Some (kind_stage (if apply_confirmed = None then KPlan else KApply))))))
    (\<lambda>_ s. T (trace s) \<and> last_word clean_ok plans (trace s))"
    by (rule triple_look)
qed (use assms in \<open>auto simp: calm_def allowed_def\<close>)

text \<open>Adopting a merge writes the merge attribute; the merge was seen before.\<close>

lemma evidence_hush: "calm_fact T \<Longrightarrow> quiet (safe d) E T (adoption_evidence d t)"
  unfolding adoption_evidence_def ask_manual_def by (intro quiet_rules) auto

lemma adopt_hush:
  assumes T: "calm_fact T"
  shows "hush d (\<lambda>tr. T tr \<and> list_ex excuses tr) (adopt d t st)"
proof -
  let ?T = "\<lambda>tr. T tr \<and> list_ex excuses tr"
  have calm: "calm_fact ?T" using T by auto
  have mark: "hush d ?T (assign (\<lambda>s. s\<lparr>p_apply := x, p_merge := y\<rparr>))" for x y
    unfolding quiet_def by (rule triple_assign) (simp add: safe_def)
  show ?thesis unfolding adopt_def steps.simps by (intro quiet_bind mark quiet_rules calm) auto
qed

lemma merged_hush:
  assumes "calm_fact T"
  shows "hush d (\<lambda>tr. T tr \<and> list_ex excuses tr) (merged_terminal d t st)"
  unfolding merged_terminal_def
  by (intro quiet_look quiet_if quiet_ret quiet_bind evidence_hush adopt_hush fail_hush)
     (use assms in \<open>auto\<close>)

section \<open>Waiting for a result\<close>

fun won :: "promo \<Rightarrow> kind \<Rightarrow> pevent list \<Rightarrow> bool" where
  "won t KPlan tr = last_word planned_ok plans tr"
| "won t _ tr = apply_confirmed (t_number t) (t_dirs t) tr"

text \<open>Facts a wait may rely on: the command of the wait may be posted again.\<close>

definition repostable :: "promotion \<Rightarrow> promo \<Rightarrow> kind \<Rightarrow> (pevent list \<Rightarrow> bool) \<Rightarrow> bool" where
  "repostable d t k T \<longleftrightarrow> calm_fact T \<and> okay d (\<lambda>s. T (trace s)) (repost t k) (\<lambda>_ s. T (trace s))"

lemma repostable_plan: "repostable d t KPlan holding"
  unfolding repostable_def repost_def
  by (auto intro!: pact_triple [OF calm_facts(1)] simp: allowed_def holding_def last_word_snoc)

lemma repostable_apply: "repostable d t KApply (\<lambda>tr. holding tr \<and> apply_ready d tr)"
proof -
  have calm: "calm_fact (\<lambda>tr. holding tr \<and> apply_ready d tr)" by (intro calm_conj calm_facts)
  have "okay d (\<lambda>s. holding (trace s) \<and> apply_ready d (trace s)) (pact (PPostApply n pr))
    (\<lambda>_ s. holding (trace s) \<and> apply_ready d (trace s))" for n pr
    by (rule pact_triple [OF calm]) (auto simp: allowed_def holding_def apply_ready_def last_word_snoc)
  then show ?thesis using calm by (simp add: repostable_def repost_def)
qed

lemma won_calm: "calm_fact (won t k)"
proof (cases k)
  case KPlan
  then have "won t k = last_word planned_ok plans" by auto
  then show ?thesis by auto
qed (auto simp: calm_def apply_confirmed_def last_word_snoc)

lemma poll_triple:
  assumes "calm_fact T" "k \<noteq> KApprove"
  shows "okay d (\<lambda>s. T (trace s)) (poll_result t k nb)
    (\<lambda>v s. T (trace s) \<and> (before_colon (str_of v) = ''success'' \<longrightarrow> won t k (trace s)))"
  unfolding poll_result_def
  by (rule triple_weaken [OF pask_triple [where T = T and T' = T, OF assms(1)]])
     (use assms in \<open>cases k; auto simp: calm_def allowed_def last_word_snoc says_success_def answered_def apply_confirmed_def\<close>)+

lemma classify_triple:
  "okay d (\<lambda>s. T (trace s) \<and> (before_colon (str_of v) = ''success'' \<longrightarrow> W (trace s))) (classify k v)
    (\<lambda>r s. T (trace s) \<and> (r = Some Succeeded \<longrightarrow> W (trace s)))"
proof -
  have err: "hush d T' (assign (set_error k x))" for T' x
    by (rule assign_hush) (simp_all add: set_error_def)
  have plan_err: "hush d T' (only_if c (assign (\<lambda>s. s\<lparr>p_plan_error := x\<rparr>)))" for T' c x
    by (intro quiet_only_if assign_hush) simp_all
  have keep: "okay d (\<lambda>s. T (trace s) \<and> R (trace s)) (seq m (ret (Some Failing)))
    (\<lambda>r s. T (trace s) \<and> (r = Some Succeeded \<longrightarrow> W (trace s)))" if "hush d T m" for m R
    by (rule triple_bind [OF okay_hush [OF that, where Q = "\<lambda>_ s. T (trace s)"]]) (auto intro: triple_ret)
  show ?thesis unfolding classify_def Let_def
    by (intro triple_if triple_ret keep err plan_err) auto
qed

abbreviation verdict_post :: "promo \<Rightarrow> kind \<Rightarrow> (pevent list \<Rightarrow> bool) \<Rightarrow> 'x + wait_result \<Rightarrow> pstate \<Rightarrow> bool" where
  "verdict_post t k T r s \<equiv> T (trace s) \<and> (r = Inr Worked \<longrightarrow> won t k (trace s))"

lemma taken_triple:
  assumes "okay d (\<lambda>s. T (trace s)) go (verdict_post t k T)"
  shows "okay d (\<lambda>s. T (trace s) \<and> (v = Some Succeeded \<longrightarrow> won t k (trace s))) (taken k v go) (verdict_post t k T)"
proof -
  have set_hint: "hush d T' (assign (set_hint k x))" for T' x
    by (rule assign_hush) (simp_all add: set_hint_def)
  have take: "okay d P (seq (assign (set_hint k x)) (ret (Inr r))) (verdict_post t k T)"
    if "\<And>s. P s \<Longrightarrow> T (trace s) \<and> (r = Worked \<longrightarrow> won t k (trace s))" for P x r
    by (rule triple_bind [OF okay_hush [OF set_hint [of "\<lambda>tr. T tr \<and> (r = Worked \<longrightarrow> won t k tr)"],
          where Q = "\<lambda>_ s. T (trace s) \<and> (r = Worked \<longrightarrow> won t k (trace s))"]])
       (use that in \<open>auto intro: triple_ret\<close>)
  show ?thesis unfolding taken_def
    by (intro triple_if take triple_weaken [OF assms]) auto
qed

lemma asked_triple:
  assumes "calm_fact T" "k \<noteq> KApprove"
    and "\<And>r. okay d (\<lambda>s. T (trace s)) (go r) (verdict_post t k T)"
  shows "okay d (\<lambda>s. T (trace s)) (bind (poll_result t k nb) (\<lambda>v. bind (classify k v) (\<lambda>r. taken k r (go r))))
    (verdict_post t k T)"
  by (rule triple_bind [OF poll_triple [OF assms(1,2)]], rule triple_bind [OF classify_triple],
      rule taken_triple, rule assms(3))

lemma stuck_hush: "calm_fact T \<Longrightarrow> hush d T (stuck_check d k v)"
  unfolding stuck_check_def Let_def
  by (intro quiet_if quiet_ret quiet_bind fail_hush alert_hush) auto

lemma stuck_not_won: "yields (\<lambda>r. r \<noteq> Inr Worked) (stuck_check d k v)"
proof -
  have "yields V (fail_deployment d how why code st)" for V :: "wait_vars + wait_result \<Rightarrow> bool" and how why code st
    unfolding fail_deployment_def by (intro yields_steps) auto
  then show ?thesis unfolding stuck_check_def Let_def
    by (intro yields_if yields_bind) auto
qed

lemma no_verdict_triple:
  assumes "repostable d t k T"
  shows "okay d (\<lambda>s. T (trace s)) (no_verdict d t k v verdict) (verdict_post t k T)"
proof -
  have calm: "calm_fact T" and again: "okay d (\<lambda>s. T (trace s)) (repost t k) (\<lambda>_ s. T (trace s))"
    using assms by (auto simp: repostable_def)
  have stuck: "okay d (\<lambda>s. T (trace s)) (stuck_check d k v) (verdict_post t k T)" for v
    by (rule triple_weaken [OF quiet_yields [OF stuck_hush [OF calm] stuck_not_won]]) auto
  show ?thesis unfolding no_verdict_def Let_def
    by (intro triple_if triple_ret stuck triple_bind [OF again]) auto
qed

lemma result_tick_triple:
  assumes T: "repostable d t k T" and k: "k \<noteq> KApprove"
  shows "okay d (\<lambda>s. T (trace s)) (result_tick d t k nb v0) (verdict_post t k T)"
proof -
  have calm: "calm_fact T" using T by (simp add: repostable_def)
  have state: "okay d (\<lambda>s. T (trace s)) (pask (PPollPrState n))
    (\<lambda>st s. T (trace s) \<and> (str_of st = ''merged'' \<longrightarrow> list_ex excuses (trace s)))" for n
    by (rule triple_weaken [OF pask_triple [where T = T, OF calm]])
       (use calm in \<open>auto simp: calm_def allowed_def answered_def\<close>)
  have merged: "okay d (\<lambda>s. T (trace s) \<and> list_ex excuses (trace s))
      (seq (assign (\<lambda>s. s\<lparr>p_merge := x\<rparr>)) (ret (Inl v))) (verdict_post t k T)" for x v
    by (rule triple_bind [OF triple_assign [where Q = "\<lambda>_ s. T (trace s)"]])
       (auto simp: safe_def intro: triple_ret)
  have closed: "okay d (\<lambda>s. T (trace s) \<and> R s) (seq (assign (\<lambda>s. s\<lparr>p_closed := x\<rparr>)) (ret (Inl v))) (verdict_post t k T)"
    for x v R
    by (rule triple_bind [OF triple_assign [where Q = "\<lambda>_ s. T (trace s)"]])
       (auto simp: safe_def intro: triple_ret)
  have poll: "okay d (\<lambda>s. T (trace s) \<and> R s) (seq (manual_tick d t)
      (bind (poll_result t k nb) (\<lambda>polled. bind (classify k polled) (\<lambda>verdict.
        taken k verdict (no_verdict d t k v verdict))))) (verdict_post t k T)" for v R
    by (rule triple_bind [OF okay_hush [OF manual_tick_hush [OF calm], where Q = "\<lambda>_ s. T (trace s)"]])
       (auto intro: asked_triple [OF calm k no_verdict_triple [OF T]])
  show ?thesis unfolding result_tick_def Let_def
    by (rule triple_bind [OF state], intro triple_if closed poll triple_weaken [OF merged]) auto
qed

lemma result_wait_triple:
  assumes T: "repostable d t k T" and k: "k \<noteq> KApprove"
  shows "okay d (\<lambda>s. T (trace s)) (result_wait d t k nb v) (verdict_post t k T)"
proof -
  have calm: "calm_fact T" using T by (simp add: repostable_def)
  show ?thesis unfolding result_wait_def pwait_def
    by (rule triple_bind [OF pw.wait_triple [OF calm]],
        intro triple_if triple_ret triple_weaken [OF result_tick_triple [OF T k]]) auto
qed

lemma verify_triple:
  assumes T: "repostable d t k T" and k: "k \<noteq> KApprove"
  shows "okay d (\<lambda>s. T (trace s)) (verify_hint t k nb v) (verdict_post t k T)"
proof -
  have calm: "calm_fact T" using T by (simp add: repostable_def)
  have drop: "okay d (\<lambda>s. T (trace s)) (seq (assign (set_hint k None)) (ret (Inl x))) (verdict_post t k T)" for x
    by (rule triple_bind [OF triple_assign [where Q = "\<lambda>_ s. T (trace s)"]])
       (auto simp: set_hint_def safe_def intro: triple_ret)
  show ?thesis unfolding verify_hint_def by (rule asked_triple [OF calm k drop])
qed

text \<open>What a wait establishes: its facts are kept, and a positive answer is the answer to a poll.\<close>

lemma wait_result_triple:
  assumes T: "repostable d t k T" and k: "k \<noteq> KApprove"
  shows "okay d (\<lambda>s. T (trace s)) (wait_for_result d t k nb) (\<lambda>r s. T (trace s) \<and> (r = Worked \<longrightarrow> won t k (trace s)))"
  unfolding wait_for_result_def
proof (rule triple_repeat [where R = "\<lambda>_ s. T (trace s)"])
  fix v
  have calm: "calm_fact T" using T by (simp add: repostable_def)
  let ?Q = "verdict_post t k T :: wait_vars + wait_result \<Rightarrow> pstate \<Rightarrow> bool"
  have merged: "okay d (\<lambda>s. T (trace s) \<and> list_ex excuses (trace s))
    (seq (merged_terminal d t st) (ret (Inr MergedEarly))) ?Q" for st
    by (rule triple_bind [OF triple_quiet [OF merged_hush [OF calm]]], rule triple_ret) auto
  have closed: "okay d P (closed_terminal d st) ?Q" for P st
    unfolding closed_terminal_def by (rule fail_triple) simp
  have hinted: "okay d (\<lambda>s. T (trace s)) (bind (if hinted then verify_hint t k nb v else ret (Inl v))
    (\<lambda>r. case r of Inl v \<Rightarrow> result_wait d t k nb v | Inr w \<Rightarrow> ret (Inr w))) ?Q" for hinted
  proof (rule triple_bind [where R = "verdict_post t k T"])
    show "okay d (\<lambda>s. T (trace s)) (if hinted then verify_hint t k nb v else ret (Inl v)) (verdict_post t k T)"
      by (intro triple_if verify_triple [OF T k] triple_ret) auto
    show "okay d (verdict_post t k T r) (case r of Inl v \<Rightarrow> result_wait d t k nb v | Inr w \<Rightarrow> ret (Inr w)) ?Q" for r
      by (cases r) (auto intro: triple_weaken [OF result_wait_triple [OF T k]] triple_ret)
  qed
  have "okay d (\<lambda>s. T (trace s) \<and> (p_merge s \<noteq> None, p_closed s, hint k s \<noteq> None) = x)
    (case x of (merged, closed, hinted) \<Rightarrow>
      if merged then seq (merged_terminal d t (kind_stage k)) (ret (Inr MergedEarly))
      else if closed then closed_terminal d (kind_stage k)
      else bind (if hinted then verify_hint t k nb v else ret (Inl v))
        (\<lambda>r. case r of Inl v \<Rightarrow> result_wait d t k nb v | Inr w \<Rightarrow> ret (Inr w))) ?Q" for x
    unfolding split_beta
    by (intro triple_if closed triple_weaken [OF merged] triple_weaken [OF hinted]) (auto simp: safe_def)
  from triple_look [OF this]
  show "okay d (\<lambda>s. T (trace s)) (result_round d t k nb v)
    (\<lambda>r s. case r of Inl y \<Rightarrow> T (trace s) | Inr r \<Rightarrow> T (trace s) \<and> (r = Worked \<longrightarrow> won t k (trace s)))"
    unfolding result_round_def by (rule triple_weaken) (auto split: sum.splits)
qed

section \<open>Locks\<close>

text \<open>A run that says it holds its locks was granted them after it last gave some away.\<close>

definition granted_since :: "pstate \<Rightarrow> bool" where
  "granted_since s \<longleftrightarrow> p_granted s \<longrightarrow> last_word (\<lambda>e. e = Heard P_locks_granted) gives (trace s)"

lemma granted_rising: "rising on_prod prod_routine granted_since"
  unfolding rising_def
proof (intro allI impI conjI)
  fix s :: pstate and g assume "granted_since s"
  then show "granted_since (on_prod g (logged (Heard g) s))"
    by (cases g) (auto simp: granted_since_def logged_def last_word_snoc)
qed (auto simp: granted_since_def logged_def take_turn_def last_word_snoc)

lemma wait_granted:
  assumes "\<And>m b. prod_routine (report m b)"
  shows "okay d granted_since (lock_wait on_prod (\<lambda>s. p_granted s \<or> p_force s) skip report)
    (\<lambda>ok s. ok \<longrightarrow> holding (trace s))"
  by (rule triple_weaken [OF pw.lock_wait_rising [OF granted_rising assms]])
     (auto simp: granted_since_def holding_def safe_def)

lemma pact_granted: "prod_routine c \<Longrightarrow> okay d granted_since (pact c) (\<lambda>_. granted_since)"
  unfolding pact_def pask_def
  by (rule triple_bind [OF pw.await_rising [OF granted_rising]]) (auto intro: triple_ret)

lemma resume_timeout_never: "okay d P (resume_timeout d k) Q"
proof -
  have hold: "hush d (\<lambda>_. True) (only_if (standalone d) (pact (PCoord (ReleaseHold (m_workflow_id d)))))"
    by (intro quiet_rules calm_True) auto
  have "okay d (\<lambda>_. True) (resume_timeout d k) Q"
    unfolding resume_timeout_def by (rule hush_then [OF hold]) (simp add: fail_triple)
  then show ?thesis by (rule triple_weaken) auto
qed

lemma resume_triple: "okay d P (resume d k) (\<lambda>_ s. holding (trace s))"
proof -
  have reset: "okay d (\<lambda>_. True) (assign (\<lambda>s. s\<lparr>p_granted := False, p_step := x\<rparr>)) (\<lambda>_. granted_since)" for x
    by (rule triple_assign) (simp add: safe_def granted_since_def)
  have "prod_routine (if c then PCoord (AcquireLocks w ds u p) else PChildResuming w ds)" for c w ds u p by simp
  note take = pact_granted [OF this]
  have wait: "okay d granted_since
    (bind (lock_wait on_prod (\<lambda>s. p_granted s \<or> p_force s) skip (PReportStaleQueueWait ds))
      (\<lambda>ok. if ok then ret () else resume_timeout d k)) (\<lambda>_ s. holding (trace s))" for skip ds
    by (rule triple_bind [OF wait_granted]) (auto intro: triple_if triple_ret resume_timeout_never)
  have tail: "okay d (\<lambda>s. holding (trace s)) (seq (set_track d x) (pstage d y z w)) (\<lambda>_ s. holding (trace s))" for x y z w
    by (intro triple_quiet quiet_rules calm_facts)
  have "okay d (\<lambda>_. True) (resume d k) (\<lambda>_ s. holding (trace s))"
    unfolding resume_def take_shared_def steps.simps
    by (rule hush_then [OF set_track_hush [OF calm_True]], rule triple_bind [OF reset],
        rule triple_bind [OF take], rule triple_bind [OF wait], rule tail)
  then show ?thesis by (rule triple_weaken) auto
qed

section \<open>Parking\<close>

lemma woken_hush: "calm_fact T \<Longrightarrow> hush d T (woken t k at)"
  unfolding woken_def by (intro quiet_rules) auto

abbreviation park_post :: "'x + bool \<Rightarrow> pstate \<Rightarrow> bool" where
  "park_post r s \<equiv> r = Inr False \<longrightarrow> list_ex excuses (trace s)"

lemma merged_park: "okay d (\<lambda>s. list_ex excuses (trace s)) (seq (merged_terminal d t st) (ret (Inr False))) park_post"
  by (rule triple_bind [OF okay_hush [OF merged_hush [OF calm_True], where Q = "\<lambda>_ s. list_ex excuses (trace s)"]])
     (auto intro: triple_ret)

lemma closed_park: "okay d P (closed_terminal d st) Q"
  unfolding closed_terminal_def by (rule fail_triple) simp

lemma parked_poll_triple: "okay d P (parked_poll d t k why at v) park_post"
proof -
  have state: "okay d (\<lambda>_. True) (pask (PPollPrState n)) (\<lambda>st s. str_of st = ''merged'' \<longrightarrow> list_ex excuses (trace s))" for n
    by (rule triple_weaken [OF pask_triple [where T = "\<lambda>_. True" and T' = "\<lambda>_. True"]])
       (auto simp: allowed_def answered_def)
  have alert: "okay d P (seq (look f (\<lambda>n. pact (PSendP0Alert n x y))) (ret (Inl z))) park_post"
    for P x y and z :: "int \<times> int" and f :: "pstate \<Rightarrow> int option"
    by (rule triple_bind [OF okay_hush [OF alert_hush [OF calm_True], where Q = "\<lambda>_ _. True"]]) (auto intro: triple_ret)
  have awake: "okay d (\<lambda>s. True) (bind (woken t k at) (\<lambda>w. if w then ret (Inr True)
      else if snd v < alert_after then ret (Inl (fst v, snd v)) else seq (look p_promo (\<lambda>n. pact (PSendP0Alert n x y))) (ret (Inl (fst v, 0)))))
      park_post" for x y
    by (rule triple_bind [OF okay_hush [OF woken_hush [OF calm_True], where Q = "\<lambda>_ _. True"]])
       (auto intro!: triple_if triple_ret alert)
  have poll: "okay d (\<lambda>_. True) (parked_poll d t k why at v) park_post"
    unfolding parked_poll_def split_beta
    by (intro triple_if fail_triple triple_bind [OF state] closed_park triple_weaken [OF awake]
          triple_weaken [OF merged_park]; simp)
  then show ?thesis by (rule triple_weaken) auto
qed

lemma parked_round_triple: "okay d (\<lambda>_. True) (parked_round d t k why at v) park_post"
proof -
  let ?k = "\<lambda>(merged, closed). if merged then seq (merged_terminal d t (manual_stage k)) (ret (Inr False))
    else if closed then closed_terminal d (manual_stage k)
    else parked_poll d t k why at (fst v + parked_poll_interval, snd v + parked_poll_interval)"
  have "okay d (\<lambda>s. True \<and> (p_merge s \<noteq> None, p_closed s) = x) (?k x) park_post" for x
    unfolding split_beta
    by (intro triple_if closed_park parked_poll_triple triple_weaken [OF merged_park]) (auto simp: safe_def)
  from triple_look [OF this] have "okay d (\<lambda>_. True) (look (\<lambda>s. (p_merge s \<noteq> None, p_closed s)) ?k) park_post" .
  then show ?thesis unfolding parked_round_def split_beta pwait_def
    by (intro hush_then [where T = "\<lambda>_. True"] pw.wait_quiet calm_True)
qed

text \<open>A park ends with the locks taken again, or because the request was merged.\<close>

lemma park_triple: "okay d P (park d t k why) (\<lambda>_ s. holding (trace s))"
proof -
  have give: "okay d (\<lambda>_. True) (give_shared d) (\<lambda>_ _. True)"
    unfolding give_shared_def
    by (rule pact_triple [where T = "\<lambda>_. True" and T' = "\<lambda>_. True"]) (auto simp: allowed_def)
  have loop: "okay d (\<lambda>_. True) (repeat (parked_round d t k why at) (0, 0)) (\<lambda>awake s. \<not> awake \<longrightarrow> list_ex excuses (trace s))" for at
    by (rule triple_repeat [where R = "\<lambda>_ _. True"], rule triple_weaken [OF parked_round_triple])
       (auto split: sum.splits)
  have wake: "okay d (\<lambda>s. \<not> awake \<longrightarrow> list_ex excuses (trace s)) (only_if awake (resume d k)) (\<lambda>_ s. holding (trace s))" for awake
  proof (cases awake)
    case True
    then show ?thesis using resume_triple by (simp add: only_if_def)
  next
    case False
    have "okay d (\<lambda>s. list_ex excuses (trace s)) (ret ()) (\<lambda>_ s. holding (trace s))"
      by (rule triple_ret) (simp add: holding_def)
    then show ?thesis using False by (simp add: only_if_def)
  qed
  have rest: "okay d (\<lambda>_. True) (look clock (\<lambda>at. seq (look p_promo (\<lambda>n. pact (PSendP0Alert n x y)))
      (bind (repeat (parked_round d t k why at) (0, 0)) (\<lambda>awake. only_if awake (resume d k))))) (\<lambda>_ s. holding (trace s))" for x y
    by (rule triple_look, rule triple_weaken [OF hush_then [OF alert_hush [OF calm_True] triple_bind [OF loop wake]]]) auto
  have "okay d (\<lambda>_. True) (park d t k why) (\<lambda>_ s. holding (trace s))"
    unfolding park_def steps.simps
    by (intro hush_then [where T = "\<lambda>_. True"] triple_bind [OF give] rest quiet_rules calm_True) auto
  then show ?thesis by (rule triple_weaken) auto
qed

section \<open>The merge gate\<close>

abbreviation closing :: "promotion \<Rightarrow> 'a \<Rightarrow> pstate \<Rightarrow> bool" where
  "closing d r s \<equiv> freed d (trace s)"

lemma left_open_triple: "okay d P (left_open d) (closing d)"
proof -
  have "okay d (\<lambda>_. True) (left_open d) (closing d)"
    unfolding left_open_def steps.simps
    by (intro hush_then [where T = "\<lambda>_. True"] closeout_triple quiet_rules calm_True)
  then show ?thesis by (rule triple_weaken) auto
qed

lemma gate_success_triple: "okay d (\<lambda>s. list_ex excuses (trace s)) (gate_success d gate) (closing d)"
proof -
  have mark: "okay d (\<lambda>s. list_ex excuses (trace s)) (assign (\<lambda>s. s\<lparr>p_merge := x\<rparr>)) (\<lambda>_ _. True)" for x
    by (rule triple_assign) (simp add: safe_def)
  show ?thesis unfolding gate_success_def steps.simps
    by (rule triple_bind [OF mark], intro hush_then [where T = "\<lambda>_. True"] closeout_triple quiet_rules calm_True) auto
qed

lemma gate_tries_triple:
  "okay d (\<lambda>s. holding (trace s) \<and> apply_confirmed (t_number t) (t_dirs t) (trace s)) (gate_tries d t n) (closing d)"
proof (induction n)
  case 0
  show ?case using left_open_triple by simp
next
  case (Suc n)
  let ?T = "\<lambda>tr. holding tr \<and> apply_confirmed (t_number t) (t_dirs t) tr"
  let ?m = "t_number t" and ?ds = "t_dirs t"
  have calm: "calm_fact ?T" by (intro calm_conj calm_facts)
  have ask: "okay d (\<lambda>s. ?T (trace s)) (pask (PEvaluateGate ?m ?ds)) (\<lambda>v s. ?T (trace s) \<and>
    (truthy (dict_get (dict_of v) ''mergeable'') \<longrightarrow> last_word (gate_ok ?m ?ds (dict_get (dict_of v) ''head_sha'')) gates (trace s)))" 
    by (rule triple_weaken [OF pask_triple [where T = ?T, OF calm]])
       (auto simp: allowed_def holding_def apply_confirmed_def last_word_snoc)
  have merge: "okay d (\<lambda>s. ?T (trace s) \<and> last_word (gate_ok ?m ?ds sha) gates (trace s)) (pask (PMergePromotion ?m sha))
    (\<lambda>v s. ?T (trace s) \<and> (str_of v = ''merged'' \<longrightarrow> list_ex excuses (trace s)))" for sha
    by (rule triple_weaken [OF pask_triple [where T = "\<lambda>tr. ?T tr \<and> last_word (gate_ok ?m ?ds sha) gates tr", OF calm]])
       (auto simp: allowed_def holding_def apply_confirmed_def last_word_snoc answered_def)
  have merged: "okay d (\<lambda>s. ?T (trace s) \<and> list_ex excuses (trace s)) (gate_success d g) (closing d)" for g
    by (rule triple_weaken [OF gate_success_triple]) auto
  have tried: "okay d (\<lambda>s. ?T (trace s) \<and> last_word (gate_ok ?m ?ds sha) gates (trace s))
    (bind (pask (PMergePromotion ?m sha)) (\<lambda>outcome.
         if str_of outcome = ''merged'' then gate_success d g
         else if str_of outcome = ''head_moved'' then gate_tries d t n
         else left_open d)) (closing d)" for sha g
    by (rule triple_bind [OF merge], intro triple_if left_open_triple)
       (auto intro: triple_weaken [OF merged] triple_weaken [OF Suc.IH])
  show ?case unfolding gate_tries.simps
    by (rule triple_bind [OF ask], intro triple_if left_open_triple) (auto intro: triple_weaken [OF tried])
qed

lemma merge_gate_triple: "okay d (\<lambda>s. holding (trace s) \<and> apply_confirmed (t_number t) (t_dirs t) (trace s)) (merge_gate d t) (closing d)"
  unfolding merge_gate_def steps.simps
  by (intro hush_then [where T = "\<lambda>tr. holding tr \<and> apply_confirmed (t_number t) (t_dirs t) tr"] gate_tries_triple quiet_rules calm_conj calm_facts) auto

section \<open>Rounds\<close>

text \<open>A round goes on with the locks held, or ends with its locks given back.\<close>

abbreviation round_post :: "promotion \<Rightarrow> round \<Rightarrow> pstate \<Rightarrow> bool" where
  "round_post d r s \<equiv> (case r of Inl _ \<Rightarrow> holding (trace s) | Inr _ \<Rightarrow> freed d (trace s))"

lemma ended_round: "okay d P m (closing d) \<Longrightarrow> okay d P (bind m (\<lambda>r. ret (Inr r))) (round_post d)"
  by (rule triple_bind) (auto intro: triple_ret)

lemma adopted_round: "okay d P (adopted_end d) (round_post d)"
  unfolding adopted_end_def by (rule ended_round [OF closeout_triple])

lemma park_then_triple: "hush d holding after \<Longrightarrow> okay d P (park_then d t k why after) (round_post d)"
proof -
  assume after: "hush d holding after"
  have again: "okay d (\<lambda>s. holding (trace s) \<and> p_merge s = x) (steps [prod_post_plan d t, after] (ret (Inl 0))) (round_post d)" for x
    unfolding steps.simps
    by (rule triple_weaken [OF triple_bind [OF post_plan_triple
          triple_bind [OF triple_quiet [OF after] triple_ret [where Q = "round_post d"]]]]) auto
  show ?thesis unfolding park_then_def
    by (rule triple_bind [OF park_triple triple_look]) (intro triple_if adopted_round again)
qed

lemma plan_running_hush: "hush d holding (plan_running d)"
  unfolding plan_running_def by (intro quiet_rules calm_facts)

lemma prod_plan_failed_triple: "okay d (\<lambda>s. holding (trace s)) (prod_plan_failed d t n) (round_post d)"
proof -
  have again: "okay d (\<lambda>s. holding (trace s)) (seq (prod_post_plan d t) (ret (Inl n))) (round_post d)"
    by (rule triple_bind [OF post_plan_triple triple_ret]) simp
  have parked: "okay d (\<lambda>s. holding (trace s) \<and> p_plan_error s = x) (seq (pstage d a b c)
      (look p_plan_error (\<lambda>err. park_then d t KPlan (f err) (plan_running d)))) (round_post d)" for x a b c f
    by (rule triple_weaken [OF hush_then [OF pstage_hush [OF calm_facts(1)] triple_look [OF park_then_triple [OF plan_running_hush]]]]) auto
  show ?thesis unfolding prod_plan_failed_def
    by (intro triple_if again triple_look parked)
qed

lemma destructive_triple: "okay d (\<lambda>s. holding (trace s)) (destructive_round d t v) (round_post d)"
  unfolding destructive_round_def steps.simps
  by (intro hush_then [where T = holding] park_then_triple quiet_rules calm_facts) auto

lemma apply_exhausted_triple: "okay d P (apply_exhausted d t) (round_post d)"
proof -
  have parked: "okay d (\<lambda>s. True \<and> p_apply_error s = x) (seq (pstage d a b c)
      (look p_apply_error (\<lambda>err. park_then d t KApply (f err) (plan_running d)))) (round_post d)" for x a b c f
    by (rule triple_weaken [OF hush_then [OF pstage_hush [OF calm_True] triple_look [OF park_then_triple [OF plan_running_hush]]]]) auto
  have "okay d (\<lambda>_. True) (apply_exhausted d t) (round_post d)"
    unfolding apply_exhausted_def by (intro triple_look parked)
  then show ?thesis by (rule triple_weaken) auto
qed

lemma applied_end_triple: "okay d (\<lambda>s. holding (trace s) \<and> apply_confirmed (t_number t) (t_dirs t) (trace s)) (applied_end d t) (round_post d)"
  unfolding applied_end_def steps.simps
  by (intro hush_then [where T = "\<lambda>tr. holding tr \<and> apply_confirmed (t_number t) (t_dirs t) tr"] ended_round [OF merge_gate_triple]
        quiet_rules calm_conj calm_facts) auto

abbreviation set_to_apply :: "promotion \<Rightarrow> pevent list \<Rightarrow> bool" where
  "set_to_apply d tr \<equiv> holding tr \<and> apply_ready d tr"

lemma set_calm: "calm_fact (set_to_apply d)"
  by (intro calm_conj calm_facts)

lemma apply_failed_quiet: "hush d (set_to_apply d) (apply_failed d t n)"
  unfolding apply_failed_def Let_def by (intro quiet_rules set_calm) auto

lemma apply_failed_not_won: "yields (\<lambda>r. r \<noteq> Inr Worked) (apply_failed d t n)"
  unfolding apply_failed_def Let_def by (intro yields_look yields_if yields_bind) auto

lemma apply_try_triple:
  "okay d (\<lambda>s. set_to_apply d (trace s)) (apply_try d t at n)
    (\<lambda>r s. set_to_apply d (trace s) \<and> (r = Inr Worked \<longrightarrow> apply_confirmed (t_number t) (t_dirs t) (trace s)))"
proof -
  have post: "okay d (\<lambda>s. set_to_apply d (trace s)) (pact (PPostApply m pr)) (\<lambda>_ s. set_to_apply d (trace s))" for m pr
    by (rule pact_triple [OF set_calm]) (auto simp: allowed_def holding_def apply_ready_def last_word_snoc)
  have reset: "hush d (set_to_apply d) (assign (\<lambda>s. s\<lparr>p_apply := x, p_apply_error := y, p_step := z\<rparr>))" for x y z
    by (rule assign_hush) simp_all
  have fails: "okay d (\<lambda>s. set_to_apply d (trace s) \<and> R s) (apply_failed d t n)
    (\<lambda>r s. set_to_apply d (trace s) \<and> (r = Inr Worked \<longrightarrow> apply_confirmed (t_number t) (t_dirs t) (trace s)))" for R
    by (rule triple_weaken [OF quiet_yields [OF apply_failed_quiet apply_failed_not_won]]) auto
  have next_step: "okay d (\<lambda>s. set_to_apply d (trace s) \<and> (r = Worked \<longrightarrow> apply_confirmed (t_number t) (t_dirs t) (trace s)))
    (if r = NotWorked then apply_failed d t n else ret (Inr r))
    (\<lambda>r s. set_to_apply d (trace s) \<and> (r = Inr Worked \<longrightarrow> apply_confirmed (t_number t) (t_dirs t) (trace s)))" for r
    by (intro triple_if fails triple_ret) auto
  have wait: "okay d (\<lambda>s. set_to_apply d (trace s)) (wait_for_result d t KApply at)
    (\<lambda>r s. set_to_apply d (trace s) \<and> (r = Worked \<longrightarrow> apply_confirmed (t_number t) (t_dirs t) (trace s)))"
    by (rule triple_weaken [OF wait_result_triple [OF repostable_apply]]) auto
  show ?thesis unfolding apply_try_def steps.simps
    by (rule hush_then [OF reset triple_bind [OF post triple_bind [OF wait next_step]]])
qed

lemma prod_apply_phase_triple:
  assumes "\<And>tr. holding tr \<and> last_word planned_ok plans tr \<and> last_word reviewed_ok plans tr \<and>
      (m_approval d \<longrightarrow> last_word approved_ok plans tr) \<longleftrightarrow> T tr"
  shows "okay d (\<lambda>s. T (trace s)) (prod_apply_phase d t at) (round_post d)"
proof -
  have T: "calm_fact T" unfolding assms [symmetric] by (intro calm_conj calm_imp calm_facts)
  have tick: "okay d (\<lambda>s. T (trace s)) (manual_tick d t) (\<lambda>_ s. set_to_apply d (trace s))"
    by (rule triple_weaken [OF manual_tick_clean [OF T]]) (auto simp: apply_ready_def simp flip: assms)
  have tries: "okay d (\<lambda>s. set_to_apply d (trace s)) (repeat (apply_try d t at) n)
    (\<lambda>r s. r = Worked \<longrightarrow> holding (trace s) \<and> apply_confirmed (t_number t) (t_dirs t) (trace s))" for n
    by (rule triple_repeat [where R = "\<lambda>_ s. set_to_apply d (trace s)"], rule triple_weaken [OF apply_try_triple])
       (auto split: sum.splits)
  have ends: "okay d (\<lambda>s. r = Worked \<longrightarrow> holding (trace s) \<and> apply_confirmed (t_number t) (t_dirs t) (trace s))
    (case r of MergedEarly \<Rightarrow> adopted_end d | Worked \<Rightarrow> applied_end d t | NotWorked \<Rightarrow> apply_exhausted d t)
    (round_post d)" for r
    by (cases r) (auto intro: adopted_round apply_exhausted_triple triple_weaken [OF applied_end_triple])
  have rest: "okay d (\<lambda>s. set_to_apply d (trace s)) (seq (pact (PStatus APPLYING None))
    (seq (pstage d x y z) (bind (repeat (apply_try d t at) 0) (\<lambda>r.
      case r of MergedEarly \<Rightarrow> adopted_end d | Worked \<Rightarrow> applied_end d t | NotWorked \<Rightarrow> apply_exhausted d t))))
    (round_post d)" for x y z
    by (intro hush_then [where T = "set_to_apply d"] triple_bind [OF tries ends] quiet_rules set_calm) auto
  show ?thesis unfolding prod_apply_phase_def steps.simps by (rule triple_bind [OF tick rest])
qed

abbreviation plan_reviewed :: "pevent list \<Rightarrow> bool" where
  "plan_reviewed tr \<equiv> holding tr \<and> last_word planned_ok plans tr \<and> last_word reviewed_ok plans tr"

lemma reviewed_calm: "calm_fact plan_reviewed"
  by (intro calm_conj calm_facts)

lemma approve_triple: "okay d (\<lambda>s. plan_reviewed (trace s)) (approve_promotion d t (prod_apply_phase d t at)) (round_post d)"
proof (cases "m_approval d")
  case False
  have "okay d (\<lambda>s. plan_reviewed (trace s)) (prod_apply_phase d t at) (round_post d)"
    by (rule prod_apply_phase_triple) (simp add: False)
  then show ?thesis using False unfolding approve_promotion_def by simp
next
  case True
  let ?T = "\<lambda>tr. holding tr \<and> last_word planned_ok plans tr \<and> last_word reviewed_ok plans tr \<and> last_word approved_ok plans tr"
  have step: "hush d plan_reviewed (assign (\<lambda>s. s\<lparr>p_step := x\<rparr>))" for x by (rule assign_hush) simp_all
  have tried: "okay d (\<lambda>s. plan_reviewed (trace s))
    (try_except (seq (pact (PApprovePr n r)) (ret None)) (\<lambda>e. ret (Some (text_of e))))
    (\<lambda>x s. x = None \<longrightarrow> ?T (trace s))" for n r
  proof (rule triple_try [where E' = "\<lambda>_ _. True"])
    have "triple (safe d) (\<lambda>_ _. True) (\<lambda>s. plan_reviewed (trace s)) (pact (PApprovePr n r)) (\<lambda>_ s. ?T (trace s))"
      unfolding pact_def pask_def
      by (rule triple_bind [OF pw.await_triple [where T = plan_reviewed, OF reviewed_calm]])
         (auto intro!: safe_issued safe_got triple_ret simp: allowed_def last_word_snoc holding_def)
    then show "triple (safe d) (\<lambda>_ _. True) (\<lambda>s. plan_reviewed (trace s)) (seq (pact (PApprovePr n r)) (ret None))
      (\<lambda>x s. x = None \<longrightarrow> ?T (trace s))" by (rule triple_bind) (auto intro: triple_ret)
  qed (auto intro: triple_ret)
  have go: "okay d (\<lambda>s. ?T (trace s)) (prod_apply_phase d t at) (round_post d)"
    by (rule prod_apply_phase_triple) (simp add: True)
  have after: "okay d (\<lambda>s. x = None \<longrightarrow> ?T (trace s)) (case x of None \<Rightarrow> prod_apply_phase d t at
     | Some err \<Rightarrow> park_then d t KApprove (f err) (ret ())) (round_post d)" for x f
    by (cases x) (auto intro: go park_then_triple quiet_ret)
  show ?thesis unfolding approve_promotion_def using True
    by (simp add: hush_then [OF step triple_bind [OF tried after]])
qed

lemma reviewed_round_triple: "okay d (\<lambda>s. plan_reviewed (trace s)) (reviewed_round d t at v) (round_post d)"
  unfolding reviewed_round_def steps.simps
  by (intro hush_then [where T = plan_reviewed] approve_triple quiet_rules reviewed_calm) auto

text \<open>The review fails open: an error counts as a plan without danger.\<close>

lemma planned_triple:
  "okay d (\<lambda>s. holding (trace s) \<and> last_word planned_ok plans (trace s)) (planned_round d t at) (round_post d)"
proof -
  let ?T = "\<lambda>tr. holding tr \<and> last_word planned_ok plans tr"
  have calm: "calm_fact ?T" by (intro calm_conj calm_facts)
  have asked: "triple (safe d) (\<lambda>_ s. plan_reviewed (trace s)) (\<lambda>s. ?T (trace s)) (pask (PVerifyPlan n p))
    (\<lambda>v s. ?T (trace s) \<and> (\<not> truthy (dict_get (dict_of v) ''is_destructive'') \<longrightarrow> last_word reviewed_ok plans (trace s)))"
    for n p
    unfolding pask_def
  proof (rule triple_weaken [OF pw.await_triple [where T = ?T and P = "\<lambda>s. ?T (trace s)", OF calm]])
    show "plan_reviewed (trace s)"
      if "trace s = tr @ [Got (PVerifyPlan n p) r]" "\<And>v. r \<noteq> Done v" "?T tr" for s tr r
      using that by (cases r) (auto simp: last_word_snoc holding_def)
  qed (auto intro!: safe_issued safe_got simp: allowed_def last_word_snoc holding_def)
  have review: "okay d (\<lambda>s. ?T (trace s))
    (try_except (pask (PVerifyPlan n p)) (\<lambda>_. ret (VDict [(''is_destructive'', VBool False)])))
    (\<lambda>v s. ?T (trace s) \<and> (\<not> truthy (dict_get (dict_of v) ''is_destructive'') \<longrightarrow> last_word reviewed_ok plans (trace s)))"
    for n p by (rule triple_try [OF asked]) (auto intro: triple_ret)
  have go_on: "okay d (\<lambda>s. ?T (trace s) \<and> (\<not> truthy (dict_get (dict_of v) ''is_destructive'') \<longrightarrow> last_word reviewed_ok plans (trace s)))
    (if truthy (dict_get (dict_of v) ''is_destructive'') then destructive_round d t v else reviewed_round d t at v)
    (round_post d)" for v
    by (intro triple_if triple_weaken [OF destructive_triple] triple_weaken [OF reviewed_round_triple]) auto
  have step: "hush d ?T (assign (\<lambda>s. s\<lparr>p_step := x\<rparr>))" for x by (rule assign_hush) simp_all
  show ?thesis unfolding planned_round_def steps.simps
    by (intro hush_then [where T = ?T] step triple_bind [OF review go_on] pact_hush pstage_hush calm) auto
qed

lemma outer_triple: "okay d (\<lambda>s. holding (trace s)) (outer d t n) (round_post d)"
proof -
  have wait: "okay d (\<lambda>s. holding (trace s) \<and> clock s = at) (wait_for_result d t KPlan at)
    (\<lambda>r s. holding (trace s) \<and> (r = Worked \<longrightarrow> last_word planned_ok plans (trace s)))" for at
    by (rule triple_weaken [OF wait_result_triple [OF repostable_plan]]) auto
  have go_on: "okay d (\<lambda>s. holding (trace s) \<and> (r = Worked \<longrightarrow> last_word planned_ok plans (trace s)))
    (case r of MergedEarly \<Rightarrow> adopted_end d | NotWorked \<Rightarrow> prod_plan_failed d t (n + 1) | Worked \<Rightarrow> planned_round d t at)
    (round_post d)" for r at
    by (cases r) (auto intro: adopted_round triple_weaken [OF prod_plan_failed_triple] triple_weaken [OF planned_triple])
  show ?thesis unfolding outer_def by (rule triple_look, rule triple_bind [OF wait go_on])
qed

lemma loop_triple: "okay d (\<lambda>s. holding (trace s)) (plan_apply_gate_loop d t) (closing d)"
  unfolding plan_apply_gate_loop_def
  by (rule triple_repeat [where R = "\<lambda>_ s. holding (trace s)"], rule outer_triple)

section \<open>The run\<close>

lemma promotion_phase_triple: "okay d (\<lambda>s. holding (trace s)) (promotion_phase d) (closing d)"
proof -
  have set: "hush d holding (assign (\<lambda>s. s\<lparr>p_step := x\<rparr>))" "hush d holding (assign (keep_promotion i))"
    "hush d holding (assign (keep_baseline i))" "hush d holding (assign clean_slate)" for x i
    by (rule assign_hush; simp add: keep_promotion_def keep_baseline_def clean_slate_def)+
  have entry: "hush d holding (look f (\<lambda>n. record_prs d (g n)))" for f :: "pstate \<Rightarrow> int option" and g
    unfolding record_prs_def by (intro quiet_rules calm_facts) auto
  have start: "okay d (\<lambda>s. holding (trace s) \<and> promo_of d s = t)
    (seq (pact (PSendStartedDm n)) (seq (plan_running d) (seq (prod_post_plan d t) (plan_apply_gate_loop d t))))
    (closing d)" for n t
    by (rule triple_weaken [OF hush_then [where T = holding,
          OF pact_hush hush_then [OF plan_running_hush triple_bind [OF post_plan_triple loop_triple]]]]) auto
  have ensure: "hush d holding (pask (PEnsurePromotion x y))" for x y by (intro quiet_rules calm_facts) auto
  show ?thesis unfolding promotion_phase_def steps.simps
    by (intro hush_then [where T = holding] triple_bind [OF triple_quiet [OF ensure]] set entry triple_look start
          pstage_hush calm_facts)
qed

lemma approve_feature_hush: "calm_fact T \<Longrightarrow> hush d T (approve_feature d n)"
proof -
  assume T: "calm_fact T"
  have set: "hush d T (assign (\<lambda>s. s\<lparr>p_step := x\<rparr>))" "hush d T (assign (\<lambda>s. s\<lparr>p_approved := b\<rparr>))" for x b
    by (rule assign_hush; simp)+
  have poll: "hush d T (approval_poll d n w)" for w
    unfolding approval_poll_def
    by (intro quiet_bind quiet_if quiet_ret quiet_only_if set fail_hush pask_hush pact_hush T) auto
  have attempt: "quiet (safe d) E T (try_except (seq (pact (PApprovePr n r)) (ret True)) (\<lambda>_. ret False))" for r E
    by (intro quiet_try quiet_bind quiet_ret pact_hush T) auto
  have alert: "hush d T (approval_alert d n)"
    unfolding approval_alert_def by (intro quiet_bind pact_hush T) auto
  have wait: "hush d T (pwait p_approved)" unfolding pwait_def by (rule pw.wait_quiet [OF T])
  have round: "hush d T (approval_round d n v)" for v
    unfolding approval_round_def split_beta
    by (intro quiet_look quiet_if quiet_bind quiet_ret quiet_only_if set poll attempt alert wait)
  show "hush d T (approve_feature d n)"
    unfolding approve_feature_def steps.simps
    by (intro quiet_bind quiet_only_if quiet_repeat set round pact_hush T) auto
qed

text \<open>The request is merged to the stage branch only after its directories were claimed.\<close>

abbreviation claim_made :: "pevent list \<Rightarrow> bool" where
  "claim_made tr \<equiv> holding tr \<and> list_ex claimed tr"

lemma claim_calm: "calm_fact claim_made"
  by (intro calm_conj calm_facts calm_list_ex)

lemma merge_tries_triple: "okay d (\<lambda>s. claim_made (trace s)) (merge_tries d n k) (\<lambda>_ s. holding (trace s))"
proof (induction k)
  case 0
  show ?case unfolding merge_tries.simps
    by (rule hush_then [OF pstage_hush [OF claim_calm] fail_triple]) simp
next
  case (Suc k)
  have merge: "okay d (\<lambda>s. claim_made (trace s)) (pask (PMergeDirect n)) (\<lambda>_ s. claim_made (trace s))"
    by (rule triple_weaken [OF pask_triple [where T = claim_made, OF claim_calm]])
       (auto simp: allowed_def holding_def last_word_snoc)
  have won: "okay d (\<lambda>s. claim_made (trace s)) (pstage d x y z) (\<lambda>_ s. holding (trace s))" for x y z
    by (rule triple_weaken [OF triple_quiet [OF pstage_hush [OF claim_calm]]]) auto
  have again: "okay d (\<lambda>s. claim_made (trace s)) (seq (only_if c (pact (PResolveConflict n))) (merge_tries d n k))
    (\<lambda>_ s. holding (trace s))" for c
    by (rule hush_then [OF quiet_only_if [OF pact_hush [OF _ claim_calm]] Suc.IH]) auto
  show ?case unfolding merge_tries.simps
    by (rule triple_bind [OF merge]) (intro triple_if won again)
qed

lemma merge_feature_triple: "okay d (\<lambda>s. claim_made (trace s)) (merge_feature d n) (\<lambda>_ s. holding (trace s))"
proof -
  have set: "hush d claim_made (assign (\<lambda>s. s\<lparr>p_step := x\<rparr>))" for x by (rule assign_hush) simp_all
  show ?thesis unfolding merge_feature_def steps.simps
    by (rule hush_then [OF set hush_then [OF pstage_hush [OF claim_calm] merge_tries_triple]])
qed

lemma onto_stage_triple: "okay d (\<lambda>s. holding (trace s)) (onto_stage d n) (closing d)"
proof -
  have manual: "hush d holding (look p_sha (\<lambda>sha. case sha of None \<Rightarrow> ret ()
      | Some sha \<Rightarrow> bind (pask (PCheckManualCommit n sha)) (\<lambda>m. only_if (truthy m)
          (fail_deployment d (plainly\<lparr>f_title := x\<rparr>) y z w))))" for x y z w
    by (intro quiet_look quiet_case_option quiet_ret quiet_bind quiet_only_if fail_hush pask_hush calm_facts) auto
  have dirs: "hush d holding (bind (pask (PResolveDirs n)) (\<lambda>v. assign (correct_dirs d v)))"
    by (intro quiet_bind pask_hush assign_hush calm_facts) (auto simp: correct_dirs_def Let_def)
  have claim: "okay d (\<lambda>s. holding (trace s)) (with_dirs d (\<lambda>dirs. pact (PTrackUpsert dirs x)))
    (\<lambda>_ s. claim_made (trace s))" for x
    unfolding with_dirs_def
    by (rule triple_look, rule triple_weaken [OF pact_triple [where T = holding, OF calm_facts(1)]])
       (auto simp: allowed_def holding_def last_word_snoc)
  show ?thesis unfolding onto_stage_def steps.simps
    by (rule hush_then [OF manual], rule hush_then [OF pstage_hush [OF calm_facts(1)]], rule hush_then [OF dirs],
        rule triple_bind [OF claim], rule hush_then [OF approve_feature_hush [OF claim_calm]],
        rule triple_bind [OF merge_feature_triple], rule promotion_phase_triple)
qed

lemma lock_phase_triple: "okay d granted_since (lock_phase d) (\<lambda>_ s. holding (trace s))"
proof -
  have set: "okay d granted_since (assign (\<lambda>s. s\<lparr>p_step := x\<rparr>)) (\<lambda>_. granted_since)" for x
    by (rule triple_assign) (simp add: safe_def granted_since_def)
  have late: "okay d (\<lambda>_. True) (steps [pact (PCoord (ReleaseHold w)), release_lock_set d]
      (fail_deployment d (plainly\<lparr>f_release := False\<rparr>) y z None)) Q" for w y z and Q :: "unit \<Rightarrow> pstate \<Rightarrow> bool"
    unfolding steps.simps
    by (rule hush_then [where T = "\<lambda>_. True", OF pact_hush triple_bind [OF lock_set_release fail_freed]]) auto
  have late': "okay d P (steps [pact (PCoord (ReleaseHold w)), release_lock_set d]
      (fail_deployment d (plainly\<lparr>f_release := False\<rparr>) y z None)) Q" for P w y z and Q :: "unit \<Rightarrow> pstate \<Rightarrow> bool"
    by (rule triple_weaken [OF late]) auto
  have wait: "okay d granted_since
    (bind (lock_wait on_prod (\<lambda>s. p_granted s \<or> p_force s) skip (PReportStaleQueueWait ds))
      (\<lambda>ok. if ok then ret () else steps [pact (PCoord (ReleaseHold w)), release_lock_set d]
        (fail_deployment d (plainly\<lparr>f_release := False\<rparr>) y z None))) (\<lambda>_ s. holding (trace s))" for skip ds w y z
    by (rule triple_bind [OF wait_granted]; (intro triple_if late' triple_ret)?) simp_all
  have forced: "okay d (\<lambda>s. holding (trace s) \<and> (p_force s, p_force_reason s) = x)
    (case x of (force, why) \<Rightarrow> if force then fail_deployment d plainly (g why) y None else ret ()) (\<lambda>_ s. holding (trace s))"
    for x g y
    by (cases x) (auto intro!: triple_if fail_triple triple_ret)
  show ?thesis unfolding lock_phase_def steps.simps
    by (rule triple_bind [OF set], rule triple_bind [OF pact_granted], simp,
        rule triple_bind [OF wait [unfolded steps.simps]],
        rule triple_look [OF forced])
qed

lemma run_triple: "okay d granted_since (run_production d) (closing d)"
proof -
  have fails: "hush d holding (seq (pstage d x y z) (fail_deployment d (plainly\<lparr>f_status := st\<rparr>) a b c))" for x y z st a b c
    by (intro quiet_bind pstage_hush fail_hush calm_facts) simp
  have attempt: "quiet (safe d) E holding (try_except (bind (pask PRunScriptPr) (\<lambda>v. ret (Inr (f v)))) (\<lambda>e. ret (Inl (g e))))"
    for E and f :: "pyval \<Rightarrow> config" and g :: "failure \<Rightarrow> string"
    by (intro quiet_try quiet_bind quiet_ret pask_hush calm_facts) auto
  have "hush d holding (case r of Inr info \<Rightarrow> ret info | Inl err \<Rightarrow> seq (pstage d x y (z err))
      (fail_deployment d (plainly\<lparr>f_status := st\<rparr>) (a err) b c))" for r x y z st a b c
    by (cases r) (auto intro: fails quiet_ret)
  then have create: "hush d holding (prod_create_pr d)"
    unfolding prod_create_pr_def steps.simps
    by (intro quiet_bind pact_hush pstage_hush assign_hush attempt calm_facts) auto
  have keep: "hush d holding (assign (keep_feature i))" for i
    by (rule assign_hush) (simp_all add: keep_feature_def)
  have links: "hush d holding (record_run_prs d)"
    unfolding record_run_prs_def record_prs_def split_beta
    by (intro quiet_look quiet_only_if pact_hush calm_facts) auto
  have none: "okay d (\<lambda>s. holding (trace s)) (no_pr d) (closing d)"
    unfolding no_pr_def by (rule hush_then [OF pstage_hush [OF calm_facts(1)] fail_triple]) simp
  have only: "okay d (\<lambda>s. holding (trace s)) (secondaries_only d) (closing d)"
    unfolding secondaries_only_def steps.simps
    by (rule hush_then [OF pstage_hush [OF calm_facts(1)] hush_then [OF merge_secondaries_hush [OF calm_facts(1)]
          triple_bind [OF closeout_triple triple_ret]]])
  have branch: "okay d (\<lambda>s. holding (trace s) \<and> (p_feature s, p_secondary s) = x)
    (case x of (feature, secs) \<Rightarrow> let n = (case feature of Some n \<Rightarrow> n | None \<Rightarrow> 0) in
       if n \<noteq> 0 then onto_stage d n else if secs \<noteq> [] then secondaries_only d else no_pr d) (closing d)" for x
    unfolding split_beta Let_def
    by (intro triple_if triple_weaken [OF onto_stage_triple] triple_weaken [OF only] triple_weaken [OF none]) auto
  show ?thesis unfolding run_production_def steps.simps
    by (rule triple_bind [OF lock_phase_triple], rule triple_bind [OF triple_quiet [OF create]],
        rule hush_then [OF keep], rule hush_then [OF links], rule triple_look [OF branch])
qed

lemma run_production_ends:
  assumes "run_production d (init_prod d ts) = (r, s)"
  shows "safe d s \<and> (\<forall>a. r = Value a \<longrightarrow> freed d (trace s)) \<and> (\<forall>e. r = Raised e \<longrightarrow> ends d e s)"
proof -
  have "safe d (init_prod d ts)" "granted_since (init_prod d ts)"
    by (simp_all add: safe_def granted_since_def init_prod_def)
  from tripleD [OF run_triple this assms] show ?thesis by simp
qed

lemma run_production_allows:
  assumes "trace (snd (run_production d (init_prod d ts))) = pre @ Issued c # post"
  shows "allowed d pre c"
  using run_production_ends [OF prod.collapse [symmetric]] assms unfolding safe_def follows_def by blast

end
