(* ===== verification/ProductionProgress.thy ===== *)
theory ProductionProgress
  imports ProductionWorkflow
begin

text \<open>
  Progress of the production deployment: no loop comes round without awaiting, unless the coordinator
  aborted the run; then the wait for a result does.
\<close>

lemma on_prod_script: "script_keeping on_prod"
  unfolding script_keeping_def
proof (intro allI)
  fix g and s :: pstate
  show "script (on_prod g s) = script s" by (cases g) simp_all
qed

lemma pask_hungry: "hungry (pask c)"
  unfolding pask_def by (rule await_hungry [OF on_prod_script])

lemma pact_hungry: "hungry (pact c)"
  unfolding pact_def by (rule hungry_bind [OF pask_hungry paced_ret])

lemma prod_eats: "eats_to B (pask c)" "eats_to B (pact c)"
  by (intro hungry_eats pask_hungry pact_hungry)+

lemma paced_prod [pace_rules]: "paced_to B (pask c)" "paced_to B (pact c)"
  by (rule pace_eats [OF prod_eats(1)], rule pace_eats [OF prod_eats(2)])

lemma paced_pwait [pace_rules]: "paced_to B (pwait C)"
  unfolding pwait_def
  by (rule pace_weaken [OF wait_pace [OF on_prod_script, where P = "\<lambda>_. True"]]) auto

text \<open>What is wrapped into a value that may be returned at once.\<close>

lemma paced_wrap: "paced_to B m \<Longrightarrow> (\<And>a s. V (f a) s) \<Longrightarrow> pace_to B P (bind m (\<lambda>a. ret (f a))) V"
  by (rule pace_weaken [OF pace_bind [where P = "\<lambda>_. True" and R = "\<lambda>_ _. True" and V = V]])
     (auto intro: pace_ret)

lemma paced_prod_parts [pace_rules]:
  "paced_to B (pstage d n st e)" "paced_to B (release_lock_set d)" "paced_to B (set_track d st)"
  "paced_to B (record_prs d prs)" "paced_to B (plan_running d)"
  unfolding pstage_def release_lock_set_def set_track_def with_dirs_def record_prs_def plan_running_def
  by (intro pace_rules)+

lemma paced_fail [pace_rules]: "paced_to B (fail_deployment d how why code st)"
  unfolding fail_deployment_def steps.simps by (intro pace_rules) simp

lemma fail_never: "never_returns (fail_deployment d how why code st)"
  unfolding fail_deployment_def by (intro yields_steps yields_throw)

text \<open>A program that returns no value is as good as one that eats.\<close>

lemma never_eats: "paced_to B m \<Longrightarrow> never_returns m \<Longrightarrow> pace_to B P m V"
  unfolding pace_to_def yields_def by blast

lemmas fail_eats = never_eats [OF paced_fail fail_never]

lemma closed_eats: "pace_to B P (closed_terminal d st) V"
  unfolding closed_terminal_def by (rule fail_eats)

lemma paced_secondaries [pace_rules]: "paced_to B (merge_secondaries d)"
  unfolding merge_secondaries_def merge_secondary_def Let_def steps.simps split_beta by (intro pace_rules)

lemma paced_closeout [pace_rules]: "paced_to B (closeout d merged note)" "paced_to B (adopted_end d)"
  unfolding adopted_end_def closeout_def steps.simps by (intro pace_rules; simp)+

lemma paced_ticks [pace_rules]:
  "paced_to B (prod_post_plan d t)" "paced_to B (ask_manual d t)" "paced_to B (manual_tick d t)"
  "paced_to B (classify k v)" "paced_to B (poll_result t k nb)" "paced_to B (repost t k)"
  "paced_to B (adoption_evidence d t)" "paced_to B (adopt d t st)" "paced_to B (merged_terminal d t st)"
  unfolding prod_post_plan_def ask_manual_def manual_tick_def classify_def poll_result_def repost_def
    adoption_evidence_def adopt_def merged_terminal_def Let_def steps.simps
  by (intro pace_rules; simp add: set_error_def)+

section \<open>The wait for a result\<close>

text \<open>Going round without a turn is only possible in a run that was aborted.\<close>

abbreviation round_ok :: "('x + 'a) pprog \<Rightarrow> bool" where
  "round_ok m \<equiv> pace_to p_force (\<lambda>_. True) m (\<lambda>r s. case r of Inl _ \<Rightarrow> p_force s | Inr _ \<Rightarrow> True)"

lemma round_paced: "round_ok m \<Longrightarrow> paced_to p_force m"
  by (rule pace_weaken) auto

lemma paced_stuck [pace_rules]: "paced_to B (stuck_check d k v)"
  unfolding stuck_check_def Let_def by (intro pace_rules)

lemma paced_no_verdict [pace_rules]: "paced_to B (no_verdict d t k v x)"
  unfolding no_verdict_def Let_def by (intro pace_rules)

lemma paced_taken [pace_rules]: "paced_to B go \<Longrightarrow> paced_to B (taken k x go)"
  unfolding taken_def by (intro pace_rules) (simp_all add: set_hint_def)

lemma verify_eats: "eats_to B (verify_hint t k nb v)"
  unfolding verify_hint_def poll_result_def
  by (intro eats_bind prod_eats pace_rules) (simp add: set_hint_def)

lemma tick_eats: "eats_to B (result_tick d t k nb v)"
  unfolding result_tick_def Let_def by (intro eats_bind prod_eats pace_rules) simp_all

lemma result_wait_pace:
  "pace_to p_force (\<lambda>s. p_merge s = None \<and> \<not> p_closed s \<and> hint k s = None) (result_wait d t k nb v)
    (\<lambda>r s. case r of Inl _ \<Rightarrow> p_force s | Inr _ \<Rightarrow> True)"
  unfolding result_wait_def pwait_def
proof (rule pace_bind [OF wait_pace [OF on_prod_script]])
  show "paced_to p_force (if flipped then ret (Inl v) else result_tick d t k nb v)" for flipped
    by (intro pace_if pace_ret pace_eats [OF tick_eats]) simp
qed (auto intro!: pace_ret intro: pace_eats [OF tick_eats])

lemma paced_result_wait: "paced_to p_force (result_wait d t k nb v)"
  unfolding result_wait_def
  by (intro pace_rules pace_eats [OF tick_eats])

lemma result_round_ok: "round_ok (result_round d t k nb v)"
  unfolding result_round_def
proof (rule pace_look)
  fix x
  let ?P = "\<lambda>s. True \<and> (p_merge s \<noteq> None, p_closed s, hint k s \<noteq> None) = x"
  let ?V = "\<lambda>r s. case r of Inl _ \<Rightarrow> p_force s | Inr _ \<Rightarrow> True"
  let ?k = "\<lambda>r. case r of Inl v \<Rightarrow> result_wait d t k nb v | Inr w \<Rightarrow> ret (Inr w)"
  let ?idle = "\<lambda>s. p_merge s = None \<and> \<not> p_closed s \<and> hint k s = None"
  have merged: "pace_to p_force ?P (seq (merged_terminal d t st) (ret (Inr MergedEarly))) ?V" for st
    by (rule paced_wrap [OF paced_ticks(9)]) simp
  have k: "paced_to p_force (?k r)" for r by (cases r) (auto intro: paced_result_wait pace_ret)
  have hinted: "pace_to p_force P (bind (verify_hint t k nb v) ?k) ?V" for P
    by (rule eats_bind [OF verify_eats k])
  have idle: "pace_to p_force ?idle (bind (ret (Inl v)) ?k) ?V"
  proof (rule pace_bind [where R = "\<lambda>r s. ?idle s \<and> r = Inl v", OF pace_ret k])
    show "pace_to p_force (\<lambda>s. ?idle s \<and> r = Inl v) (?k r) ?V" for r
      by (cases r) (auto intro: pace_weaken [OF result_wait_pace] simp: pace_False)
  qed simp
  show "pace_to p_force ?P (case x of (merged, closed, hinted) \<Rightarrow>
      if merged then seq (merged_terminal d t (kind_stage k)) (ret (Inr MergedEarly))
      else if closed then closed_terminal d (kind_stage k)
      else bind (if hinted then verify_hint t k nb v else ret (Inl v)) ?k) ?V"
  proof (cases x)
    case (fields merged closed hinted)
    show ?thesis
    proof (cases "merged \<or> closed \<or> hinted")
      case True
      then show ?thesis using merged closed_eats hinted by (auto simp: fields)
    next
      case False
      then show ?thesis by (simp add: fields) (rule pace_weaken [OF idle], auto)
    qed
  qed
qed

lemma paced_wait_for_result [pace_rules]: "paced_to p_force (wait_for_result d t k nb)"
  unfolding wait_for_result_def by (rule pace_repeat) (rule result_round_ok)

section \<open>The other loops\<close>

text \<open>A round that always awaits, or ends the loop.\<close>

lemma parked_poll_eats: "eats_to B (parked_poll d t k why at v)"
proof -
  have "paced_to B (woken t k at)" unfolding woken_def by (intro pace_rules)
  then show ?thesis unfolding parked_poll_def split_beta
    by (intro pace_if fail_eats eats_bind prod_eats pace_rules pace_eats [OF closed_eats])
qed

lemma parked_round_ok: "round_ok (parked_round d t k why at v)"
proof -
  let ?V = "\<lambda>r s. case r of Inl _ \<Rightarrow> p_force s | Inr _ \<Rightarrow> True"
  have merged: "pace_to p_force P (seq (merged_terminal d t st) (ret (Inr False))) ?V" for P st
    by (rule paced_wrap [OF paced_ticks(9)]) simp
  have rest: "pace_to p_force P (case x of (merged, closed) \<Rightarrow>
      if merged then seq (merged_terminal d t (manual_stage k)) (ret (Inr False))
      else if closed then closed_terminal d (manual_stage k)
      else parked_poll d t k why at w) ?V" for P x w
    unfolding split_beta by (intro pace_if merged closed_eats pace_eats [OF parked_poll_eats])
  show ?thesis unfolding parked_round_def split_beta
    by (rule pace_bind [where R = "\<lambda>_ _. True", OF paced_pwait])
       (intro pace_look rest [unfolded split_beta] pace_weaken [OF pace_look [OF rest [unfolded split_beta]]]; simp)+
qed

lemma paced_resume [pace_rules]: "paced_to B (resume d k)"
  unfolding resume_def take_shared_def resume_timeout_def steps.simps
  by (intro pace_rules paced_lock_wait on_prod_script) simp_all

lemma paced_park [pace_rules]: "paced_to p_force (park d t k why)"
proof -
  have "paced_to p_force (repeat (parked_round d t k why at) v)" for at v
    by (rule pace_repeat) (rule parked_round_ok)
  then show ?thesis unfolding park_def give_shared_def steps.simps by (intro pace_rules) simp_all
qed

lemma paced_gate_tries [pace_rules]: "paced_to B (gate_tries d t n)"
proof (induction n)
  case 0
  show ?case by (simp add: left_open_def, intro pace_rules)
next
  case (Suc n)
  have ends: "paced_to B (left_open d)" "paced_to B (gate_success d g)" for g
    unfolding left_open_def gate_success_def steps.simps by (intro pace_rules; simp)+
  show ?case unfolding gate_tries.simps by (intro pace_rules ends Suc.IH)
qed

lemma paced_merge_gate [pace_rules]: "paced_to B (merge_gate d t)"
  unfolding merge_gate_def steps.simps by (intro pace_rules) simp

lemma post_plan_eats: "eats_to B (prod_post_plan d t)"
  unfolding prod_post_plan_def steps.simps
  by (rule bind_eats) (intro pace_rules eats_bind prod_eats; simp)+

lemma park_then_ok: "paced_to p_force after \<Longrightarrow> round_ok (park_then d t k why after)"
proof -
  assume after: "paced_to p_force after"
  let ?V = "\<lambda>r s. case r of Inl _ \<Rightarrow> p_force s | Inr _ \<Rightarrow> True"
  have done_: "pace_to p_force P (adopted_end d) ?V" for P
    unfolding adopted_end_def by (rule paced_wrap) (auto intro: paced_closeout)
  have again: "pace_to p_force P (steps [prod_post_plan d t, after] (ret (Inl 0))) ?V" for P
    unfolding steps.simps by (intro eats_bind [OF post_plan_eats] pace_rules after)
  have rest: "pace_to p_force P (look p_merge (\<lambda>m. if m \<noteq> None then adopted_end d
      else steps [prod_post_plan d t, after] (ret (Inl 0)))) ?V" for P
    by (intro pace_look pace_if done_ again)
  show ?thesis unfolding park_then_def
    by (rule pace_bind [where R = "\<lambda>_ _. True", OF paced_park round_paced [OF rest] rest])
qed

lemma paced_park_then [pace_rules]: "paced_to p_force after \<Longrightarrow> paced_to p_force (park_then d t k why after)"
  by (rule round_paced [OF park_then_ok])

lemma pstage_eats: "eats_to B (pstage d n st e)"
  unfolding pstage_def by (rule prod_eats)

lemma plan_failed_ok: "round_ok (prod_plan_failed d t n)"
  unfolding prod_plan_failed_def
  by (intro pace_if pace_look eats_bind [OF post_plan_eats] eats_bind [OF pstage_eats] pace_rules)

lemma apply_failed_paced: "paced_to p_force (apply_failed d t n)"
  unfolding apply_failed_def Let_def by (intro pace_rules)

lemma apply_try_ok: "round_ok (apply_try d t at n)"
  unfolding apply_try_def steps.simps
  by (rule bind_eats) (intro pace_rules eats_bind [OF prod_eats(2)] apply_failed_paced; simp)+

lemma paced_apply_phase [pace_rules]: "paced_to p_force (prod_apply_phase d t at)"
proof -
  have tries: "paced_to p_force (repeat (apply_try d t at) n)" for n
    by (rule pace_repeat) (rule apply_try_ok)
  have ends: "paced_to p_force (applied_end d t)" "paced_to p_force (apply_exhausted d t)"
    unfolding applied_end_def apply_exhausted_def steps.simps by (intro pace_rules)+
  have "paced_to p_force (case r of MergedEarly \<Rightarrow> adopted_end d | Worked \<Rightarrow> applied_end d t
    | NotWorked \<Rightarrow> apply_exhausted d t)" for r
    by (cases r) (auto intro: ends pace_rules)
  then show ?thesis unfolding prod_apply_phase_def steps.simps by (intro pace_rules tries)
qed

lemma paced_reviews [pace_rules]:
  "paced_to p_force (destructive_round d t v)" "paced_to p_force (reviewed_round d t at v)"
  unfolding destructive_round_def reviewed_round_def approve_promotion_def steps.simps
  by (intro pace_rules; simp)+

lemma planned_ok_round: "round_ok (planned_round d t at)"
  unfolding planned_round_def steps.simps
  by (rule eats_bind [OF prod_eats(2)]) (intro pace_rules; simp)

lemma outer_ok: "round_ok (outer d t n)"
proof -
  let ?V = "\<lambda>r s. case r of Inl _ \<Rightarrow> p_force s | Inr _ \<Rightarrow> True"
  have adopted: "round_ok (adopted_end d)" unfolding adopted_end_def by (rule paced_wrap) (auto intro: paced_closeout)
  have rest: "round_ok (case r of MergedEarly \<Rightarrow> adopted_end d | NotWorked \<Rightarrow> prod_plan_failed d t (n + 1)
      | Worked \<Rightarrow> planned_round d t at)" for r at
    by (cases r) (auto intro: adopted plan_failed_ok planned_ok_round)
  have "round_ok (bind (wait_for_result d t KPlan at) (\<lambda>r. case r of MergedEarly \<Rightarrow> adopted_end d
      | NotWorked \<Rightarrow> prod_plan_failed d t (n + 1) | Worked \<Rightarrow> planned_round d t at))" for at
    by (rule pace_bind [where R = "\<lambda>_ _. True", OF paced_wait_for_result round_paced [OF rest] rest])
  note body = this
  show ?thesis unfolding outer_def by (rule pace_look, rule pace_weaken [OF body]) auto
qed

section \<open>The run\<close>

lemma paced_loop [pace_rules]: "paced_to p_force (plan_apply_gate_loop d t)"
  unfolding plan_apply_gate_loop_def by (rule pace_repeat) (rule outer_ok)

lemma paced_promotion_phase [pace_rules]: "paced_to p_force (promotion_phase d)"
  unfolding promotion_phase_def steps.simps
  by (intro pace_rules; simp add: keep_promotion_def keep_baseline_def clean_slate_def)

lemma approval_round_ok: "round_ok (approval_round d n v)"
proof -
  have attempt: "eats_to B (try_except (seq (pact (PApprovePr n r)) (ret True)) (\<lambda>_. ret False))" for r B
    by (rule try_eats [OF hungry_bind [OF pact_hungry paced_ret] paced_ret])
  have poll: "paced_to B (approval_poll d n w)" for w B
    unfolding approval_poll_def by (intro pace_rules; simp)
  have alert: "paced_to B (approval_alert d n)" for B
    unfolding approval_alert_def by (intro pace_rules)
  show ?thesis unfolding approval_round_def split_beta
    by (intro pace_look pace_if pace_ret eats_bind [OF attempt] pace_rules poll alert) simp_all
qed

lemma paced_approve_feature [pace_rules]: "paced_to p_force (approve_feature d n)"
proof -
  have "paced_to p_force (repeat (approval_round d n) v)" for v
    by (rule pace_repeat) (rule approval_round_ok)
  then show ?thesis unfolding approve_feature_def steps.simps by (intro pace_rules) simp_all
qed

lemma paced_merge_feature [pace_rules]: "paced_to B (merge_feature d n)"
proof -
  have "paced_to B (merge_tries d n k)" for k by (induction k) (auto intro!: pace_rules)
  then show ?thesis unfolding merge_feature_def steps.simps by (intro pace_rules) simp_all
qed

lemma paced_production: "paced_to p_force (run_production d)"
proof -
  have phase: "paced_to B (lock_phase d)" for B
    unfolding lock_phase_def steps.simps by (intro pace_rules paced_lock_wait on_prod_script) simp_all
  have create: "paced_to B (prod_create_pr d)" for B
    unfolding prod_create_pr_def steps.simps by (intro pace_rules) simp_all
  have ends: "paced_to B (secondaries_only d)" "paced_to B (no_pr d)" "paced_to B (record_run_prs d)" for B
    unfolding secondaries_only_def no_pr_def record_run_prs_def steps.simps by (intro pace_rules)+
  have stage: "paced_to p_force (onto_stage d n)" for n
    unfolding onto_stage_def with_dirs_def steps.simps
    by (intro pace_rules; simp add: correct_dirs_def Let_def)
  show ?thesis unfolding run_production_def Let_def steps.simps
    by (intro pace_rules phase create ends stage) (simp add: keep_feature_def)
qed

end
