(* ===== verification/ProductionProperties.thy ===== *)
theory ProductionProperties
  imports ProductionSafety ProductionProgress
begin

text \<open>
  What every run of the production deployment satisfies, stated over its trace, with runs that show each
  case happens, and the runs in which it does something it should not.
\<close>

section \<open>Runs to look at\<close>

definition demo_prod :: promotion where
  "demo_prod =
     \<lparr>m_workflow_id = ''prod-1'', m_tenant = ''acme'', m_user = ''u1'', m_dirs = [''svc/api''],
      m_shared = [''gateway''], m_repo = ''acme/infra'', m_source = ''stage'', m_target = ''main'',
      m_parent = None, m_track = None, m_group = None, m_approval = True\<rparr>"

definition pturn :: "prod_signal list \<Rightarrow> reply \<Rightarrow> prod_signal turn" where
  "pturn gs r = \<lparr>arrived = gs, reply_of = r, at_time = 0\<rparr>"

abbreviation pfine :: "prod_signal turn" where "pfine \<equiv> pturn [] (Done VNone)"
abbreviation psays :: "string \<Rightarrow> prod_signal turn" where "psays x \<equiv> pturn [] (Done (VStr x))"
abbreviation phears :: "prod_signal \<Rightarrow> prod_signal turn" where "phears g \<equiv> pturn [g] (Done VNone)"
abbreviation pfires :: "prod_signal turn" where "pfires \<equiv> pturn [] TimedOut"

text \<open>Up to the first plan; planned, reviewed, approved and about to apply; applied; merged.\<close>

definition to_plan :: "prod_signal turn list" where
  "to_plan =
     [phears P_locks_granted] @ replicate 3 pfine @
     [pturn [] (Done (VDict [(''pr_number'', VInt 7), (''project_name'', VStr ''api'')]))] @
     replicate 7 pfine @ [psays ''merged''] @ replicate 2 pfine @
     [pturn [] (Done (VDict [(''pr_number'', VInt 9), (''head_sha'', VStr ''abc'')]))] @ replicate 6 pfine"

definition to_apply :: "prod_signal turn list" where
  "to_apply = to_plan @ [phears P_plan_completed, psays ''success''] @ replicate 11 pfine"

definition to_gate :: "prod_signal turn list" where
  "to_gate = to_apply @ [phears P_apply_completed, psays ''success''] @ replicate 4 pfine"

definition to_end :: "prod_signal turn list" where
  "to_end = to_gate @
     [pturn [] (Done (VDict [(''mergeable'', VBool True), (''head_sha'', VStr ''def'')])), psays ''merged''] @
     replicate 9 pfine"

definition prod_run :: "prod_signal turn list \<Rightarrow> prod_result outcome \<times> pstate" where
  "prod_run ts = run_production demo_prod (init_prod demo_prod ts)"

definition prod_events :: "prod_signal turn list \<Rightarrow> pevent list" where
  "prod_events ts = trace (snd (prod_run ts))"

definition parked_aborted :: "prod_signal turn list" where
  "parked_aborted = to_plan @ [phears (P_plan_failed None), psays ''failed:quota'', pfine, pfine] @
     [phears (P_plan_failed None), psays ''failed:quota''] @ replicate 5 pfine @
     [pfires, pfine, psays ''success'', pfine, phears (P_atlas_lock_abort ''lock conflict'')] @
     replicate 3 pfine"

text \<open>The resume of the parked run was aborted; it plans, waits, and the wait never awaits.\<close>

definition aborted_spins :: "prod_signal turn list" where
  "aborted_spins = parked_aborted @ replicate 2 pfine"

text \<open>The same run when the plan result arrives before the wait.\<close>

definition aborted_applies :: "prod_signal turn list" where
  "aborted_applies = parked_aborted @ [phears P_plan_completed, pfine, psays ''success''] @ replicate 11 pfine"

text \<open>The apply is announced by a comment and the request is merged, before any poll.\<close>

definition hinted_merge :: "prod_signal turn list" where
  "hinted_merge = to_apply @ [pturn [P_apply_completed, P_pr_merged] (Done VNone)] @ replicate 7 pfine"

definition touched_late :: "prod_signal turn list" where
  "touched_late = to_apply @ [pfires, pfine, pturn [] (Done (VBool True))] @ replicate 7 pfine"

section \<open>Properties of every run\<close>

text \<open>
  C9: An apply is only asked for when, after the last plan was asked for, a poll of this project's result said
  success, the review came back without reporting the plan as destructive (a review that failed reports nothing: it
  fails open), the request was approved (when approvals are on), and a look at the directories found no manual
  commit.  The run then holds its locks, except after an abort by the coordinator or when the request was reported
  as merged.
\<close>

theorem production_apply_ready:
  assumes "trace (snd (run_production d (init_prod d ts))) = pre @ Issued (PPostApply n project) # post"
  shows "last_word planned_ok plans pre \<and> last_word reviewed_ok plans pre \<and>
    (m_approval d \<longrightarrow> last_word approved_ok plans pre) \<and> last_word clean_ok plans pre \<and>
    (last_word (\<lambda>e. e = Heard P_locks_granted) gives pre \<or> list_ex excuses pre)"
  using run_production_allows [OF assms] by (simp add: allowed_def apply_ready_def holding_def)

definition before_apply :: "pevent list" where
  "before_apply = takeWhile (\<lambda>e. e \<noteq> Issued (PPostApply 9 (Some ''api''))) (prod_events to_apply)"

theorem production_apply_ready_witness:
  "last_word planned_ok plans before_apply \<and> last_word reviewed_ok plans before_apply \<and>
   last_word approved_ok plans before_apply \<and> last_word clean_ok plans before_apply \<and>
   last_word (\<lambda>e. e = Heard P_locks_granted) gives before_apply"
proof -
  have no_excuse: "\<not> list_ex excuses before_apply" by code_simp
  have "prod_events to_apply =
    before_apply @ Issued (PPostApply 9 (Some ''api'')) # drop (length before_apply + 1) (prod_events to_apply)"
    by code_simp
  from production_apply_ready [OF this [unfolded prod_events_def [of to_apply] prod_run_def]] no_excuse
  show ?thesis by (simp add: demo_prod_def)
qed

text \<open>Commands that act on the shared promotion request.\<close>

fun acts_on_promotion :: "prod_cmd \<Rightarrow> bool" where
  "acts_on_promotion (PPostPlan _ _) = True"
| "acts_on_promotion (PPostApply _ _) = True"
| "acts_on_promotion (PMergePromotion _ _) = True"
| "acts_on_promotion _ = False"

text \<open>
  A run plans, applies and merges only while it holds its locks: they were granted after it last gave some
  away by parking.  The exceptions are a run the coordinator aborted and a request that is merged already.
\<close>

theorem production_holds_locks:
  assumes "trace (snd (run_production d (init_prod d ts))) = pre @ Issued c # post" and "acts_on_promotion c"
  shows "last_word (\<lambda>e. e = Heard P_locks_granted) gives pre \<or> list_ex excuses pre"
  using run_production_allows [OF assms(1)] assms(2)
  by (cases c rule: acts_on_promotion.cases) (auto simp: allowed_def holding_def)

definition before_promotion_plan :: "pevent list" where
  "before_promotion_plan = takeWhile (\<lambda>e. e \<noteq> Issued (PPostPlan 9 (Some ''api''))) (prod_events to_plan)"

theorem production_holds_locks_witness:
  "last_word (\<lambda>e. e = Heard P_locks_granted) gives before_promotion_plan"
proof -
  have "prod_events to_plan = before_promotion_plan @ Issued (PPostPlan 9 (Some ''api'')) #
    drop (length before_promotion_plan + 1) (prod_events to_plan)"
    by code_simp
  from production_holds_locks [OF this [unfolded prod_events_def [of to_plan] prod_run_def]]
  have "last_word (\<lambda>e. e = Heard P_locks_granted) gives before_promotion_plan \<or> list_ex excuses before_promotion_plan"
    by simp
  moreover have "\<not> list_ex excuses before_promotion_plan" by code_simp
  ultimately show ?thesis by simp
qed

text \<open>
  The promotion request is merged only when the newest verdict of the merge gate allowed it for exactly
  this head, and a poll confirmed the run's own apply after the last one was asked for, the two for the same directories.
\<close>

theorem promotion_merge_gated:
  assumes "trace (snd (run_production d (init_prod d ts))) = pre @ Issued (PMergePromotion n sha) # post"
  shows "\<exists>ds. last_word (gate_ok n ds sha) gates pre \<and> last_word (applied_for n ds) applies pre"
  using run_production_allows [OF assms] by (auto simp: allowed_def apply_confirmed_def)

definition before_promotion_merge :: "pevent list" where
  "before_promotion_merge = takeWhile (\<lambda>e. e \<noteq> Issued (PMergePromotion 9 (VStr ''def''))) (prod_events to_end)"

theorem promotion_merge_gated_witness:
  "\<exists>ds. last_word (gate_ok 9 ds (VStr ''def'')) gates before_promotion_merge \<and>
   last_word (applied_for 9 ds) applies before_promotion_merge"
proof -
  have "prod_events to_end = before_promotion_merge @ Issued (PMergePromotion 9 (VStr ''def'')) #
    drop (length before_promotion_merge + 1) (prod_events to_end)"
    by code_simp
  from promotion_merge_gated [OF this [unfolded prod_events_def [of to_end] prod_run_def]] show ?thesis .
qed

text \<open>
  The feature request is merged to the stage branch only after its directories were claimed, so nothing
  reaches the promotion request without a record of its owner.
\<close>

theorem content_claimed_first:
  assumes "trace (snd (run_production d (init_prod d ts))) = pre @ Issued (PMergeDirect n) # post"
  shows "list_ex claimed pre"
  using run_production_allows [OF assms] by (simp add: allowed_def)

definition before_stage_merge :: "pevent list" where
  "before_stage_merge = takeWhile (\<lambda>e. e \<noteq> Issued (PMergeDirect 7)) (prod_events to_plan)"

theorem content_claimed_first_witness: "list_ex claimed before_stage_merge"
proof -
  have "prod_events to_plan = before_stage_merge @ Issued (PMergeDirect 7) #
    drop (length before_stage_merge + 1) (prod_events to_plan)"
    by code_simp
  from content_claimed_first [OF this [unfolded prod_events_def [of to_plan] prod_run_def]] show ?thesis .
qed

text \<open>
  C19: A standalone production run that ends with a result, or with an error it raises itself, has asked for the
  release of its whole lock set.  A run that is a child of another leaves the release to its parent, and nothing is
  said of a run that dies of an activity's error it does not catch.
\<close>

theorem ended_production_released:
  assumes "run_production d (init_prod d ts) = (r, s)" and "standalone d"
    and "(\<exists>a. r = Value a) \<or> (\<exists>why. r = Raised (AppFailed why))"
  shows "Issued (PCoord (ReleaseLocks (m_workflow_id d) (Some (lock_set d)))) \<in> set (trace s)"
  using run_production_ends [OF assms(1)] assms(2,3) by (auto simp: freed_def ends_def)

theorem ended_production_released_witness:
  "Issued (PCoord (ReleaseLocks ''prod-1'' (Some [''svc/api'', ''gateway'', ''prod-promotion:acme/infra'']))) \<in>
     set (prod_events touched_late)"
proof -
  have ended: "fst (prod_run touched_late) = Raised (AppFailed ''manual_commit_detected'')" by code_simp
  have locks: "lock_set demo_prod = [''svc/api'', ''gateway'', ''prod-promotion:acme/infra'']" "standalone demo_prod"
    by code_simp+
  from ended_production_released [OF prod.collapse [symmetric] locks(2), of touched_late] ended locks(1)
  show ?thesis by (simp add: prod_events_def prod_run_def demo_prod_def)
qed

text \<open>
  C22: Only a run that received an abort can come round a loop without awaiting.
\<close>

theorem production_spins_only_aborted:
  assumes "run_production d (init_prod d ts) = (Spinning, s)"
  shows "p_force s"
  using paceD [OF paced_production TrueI assms] by simp

theorem production_spins_only_aborted_witness: "p_force (snd (prod_run aborted_spins))"
proof -
  have "fst (prod_run aborted_spins) = Spinning" by code_simp
  then have "prod_run aborted_spins = (Spinning, snd (prod_run aborted_spins))" by (simp add: prod_eq_iff)
  from production_spins_only_aborted [OF this [unfolded prod_run_def [of aborted_spins]]] show ?thesis
    by (simp add: prod_run_def)
qed

section \<open>What goes wrong\<close>

text \<open>
  The wait for a result ends its inner wait when the run is aborted, but does not look at the abort: it goes
  round without awaiting for ever.
\<close>

theorem aborted_wait_spins:
  assumes "p_force s" "p_merge s = None" "\<not> p_closed s" "hint k s = None"
  shows "fst (wait_for_result d t k not_before s) = Spinning"
  using assms
  by (simp add: wait_for_result_def repeat.simps [of "result_round d t k not_before"] result_round_def look_def
      bind_def ret_def result_wait_def pwait_def wait_for_def)

theorem aborted_wait_spins_witness:
  "fst (wait_for_result demo_prod
          \<lparr>t_number = 9, t_project = Some ''api'', t_baseline = None, t_dirs = [''svc/api'']\<rparr> KPlan 0
          (init_prod demo_prod []\<lparr>p_force := True\<rparr>)) = Spinning"
  by (rule aborted_wait_spins) (simp_all add: init_prod_def hint_def)

text \<open>
  An abort while a parked run takes its locks again is treated like a grant: the run goes on to plan and to
  apply without them.
\<close>

theorem aborted_resume_applies_unlocked:
  "list_ex applies (prod_events aborted_applies) \<and>
   last (prod_events aborted_applies) = Got (PPostApply 9 (Some ''api'')) (Done VNone) \<and>
   \<not> last_word (\<lambda>e. e = Heard P_locks_granted) gives (prod_events aborted_applies)"
  by (intro conjI; code_simp)

text \<open>
  A merge is adopted when the apply was announced by a signal, without the poll every other signal is
  checked by: the run is reported as deployed though nothing confirmed its apply.
\<close>

theorem hinted_apply_is_adopted:
  "fst (prod_run hinted_merge) =
     Value \<lparr>s_merged = Some True, s_number = Some 9, s_note = Some ''merged with adopted apply''\<rparr> \<and>
   Issued (PStatus DEPLOYED None) \<in> set (prod_events hinted_merge) \<and>
   \<not> list_ex applied_ok (prod_events hinted_merge)"
  by (intro conjI; code_simp)

text \<open>
  A manual commit found while the run waits for its apply closes the stage of the plan; the stage of the
  apply stays open.
\<close>

fun writes_stage :: "string \<Rightarrow> string \<Rightarrow> pevent \<Rightarrow> bool" where
  "writes_stage name status (Issued (PTrackStage _ n st _ _)) = (n = name \<and> st = status)"
| "writes_stage _ _ _ = False"

lemma late_commit_closes_wrong_stage:
  "list_ex (writes_stage ''infra: apply pr'' ''running'') (prod_events touched_late)"
  "list_ex (writes_stage ''infra: plan pr'' ''failed'') (prod_events touched_late)"
  "\<not> list_ex (writes_stage ''infra: apply pr'' ''failed'') (prod_events touched_late)"
  by code_simp+

end
