(* ===== verification/MergeGate.thy ===== *)
theory MergeGate
  imports Values Orders
begin

text \<open>
  What stands between a production deployment and the main branch
  (\<open>app/temporal/activities/production_deploy_activities.py\<close> and
  \<open>app/db/models/production_deployment_track_model.py\<close>): the table of the directories whose content is on
  the stage branch and not yet on main, the operations of the workflows on it, the gate that decides
  whether the promotion request may be merged, and the check for manual commits.  GitHub's and the workflow server's
  answers are arguments.
\<close>

section \<open>Paths\<close>

definition slash :: char where "slash = CHR ''/''"

text \<open>\<open>p.rsplit("/", 1)[0]\<close> of a path that has a slash, and \<open>[-1]\<close>.\<close>

definition parent_dir :: "string \<Rightarrow> string" where
  "parent_dir p = (if slash \<in> set p then rev (tl (dropWhile (\<lambda>c. c \<noteq> slash) (rev p))) else p)"

definition base_name :: "string \<Rightarrow> string" where
  "base_name p = rev (takeWhile (\<lambda>c. c \<noteq> slash) (rev p))"

text \<open>\<open>path.startswith(d.rstrip("/") + "/")\<close>.\<close>

definition covers :: "string \<Rightarrow> string \<Rightarrow> bool" where
  "covers d path = startswith path (rstrip_by (\<lambda>c. c = slash) d @ [slash])"

definition owner_repo :: "string \<Rightarrow> (string, string \<times> string) result" where
  "owner_repo full =
     (if slash \<in> set full
      then Inr (takeWhile (\<lambda>c. c \<noteq> slash) full, tl (dropWhile (\<lambda>c. c \<noteq> slash) full))
      else Inl (''repo_full_name must be 'owner/repo', got: '' @ full))"

definition is_production_path :: "string \<Rightarrow> bool" where
  "is_production_path path =
     (let parts = py_split slash path in
      if parts = [] then False
      else if parts ! 0 = ''layers'' then True
      else if parts ! 0 = ''environment'' then
        if length parts = 2 then endswith (parts ! 1) ''.hcl''
        else length parts \<ge> 2 \<and> py_in ''prod'' (parts ! 1)
      else False)"

section \<open>The table\<close>

datatype track_status = IN_PROGRESS | APPLIED | RESUMING | FAILED

fun status_value :: "track_status \<Rightarrow> string" where
  "status_value IN_PROGRESS = ''IN_PROGRESS''" | "status_value APPLIED = ''APPLIED''"
| "status_value RESUMING = ''RESUMING''" | "status_value FAILED = ''FAILED''"

text \<open>\<open>ProductionDeploymentStatusEnum(text)\<close>; \<open>None\<close> is the \<open>ValueError\<close>.\<close>

definition status_of :: "string \<Rightarrow> track_status option" where
  "status_of v = find (\<lambda>s. status_value s = v) [IN_PROGRESS, APPLIED, RESUMING, FAILED]"

record track_row =
  tr_name :: string
  tr_dir :: string
  tr_workflow_id :: string
  tr_tenant :: string
  tr_repo :: string
  tr_status :: track_status

type_synonym track_table = "track_row list"

text \<open>A claim of one directory: the row, whoever has it, is taken over, or a new one is added.\<close>

definition claim :: "string \<Rightarrow> string \<Rightarrow> string \<Rightarrow> track_status \<Rightarrow> string \<Rightarrow> track_table \<Rightarrow> track_table" where
  "claim w tenant repo st d t =
     (if list_ex (\<lambda>r. tr_dir r = d) t
      then map (\<lambda>r. if tr_dir r = d
                     then r\<lparr>tr_workflow_id := w, tr_tenant := tenant, tr_repo := repo, tr_status := st\<rparr> else r) t
      else t @ [\<lparr>tr_name = take 255 (base_name d), tr_dir = d, tr_workflow_id = w, tr_tenant = tenant,
                 tr_repo = repo, tr_status = st\<rparr>])"

definition production_track_upsert ::
  "string list \<Rightarrow> string \<Rightarrow> string \<Rightarrow> string \<Rightarrow> string option \<Rightarrow> track_table \<Rightarrow> track_table option" where
  "production_track_upsert dirs w tenant repo status t =
     (let v = or_blank status in
      case status_of (if v = [] then ''IN_PROGRESS'' else v) of
        None \<Rightarrow> None
      | Some st \<Rightarrow> Some (foldl (\<lambda>t d. claim w tenant repo st d t) t dirs))"

text \<open>Only the rows the workflow still owns.\<close>

definition production_track_set_status ::
  "string list \<Rightarrow> string \<Rightarrow> string \<Rightarrow> track_table \<Rightarrow> track_table option" where
  "production_track_set_status dirs w status t =
     (case status_of status of
        None \<Rightarrow> None
      | Some st \<Rightarrow>
          Some (map (\<lambda>r. if tr_dir r \<in> set dirs \<and> tr_workflow_id r = w then r\<lparr>tr_status := st\<rparr> else r) t))"

definition production_track_delete_dirs :: "string \<Rightarrow> string list \<Rightarrow> track_table \<Rightarrow> track_table \<times> nat" where
  "production_track_delete_dirs repo dirs t =
     (let gone = (\<lambda>r. tr_repo r = repo \<and> tr_dir r \<in> set dirs) in
      (filter (\<lambda>r. \<not> gone r) t, length (filter gone t)))"

section \<open>The gate\<close>

datatype blocker =
    Devlift string track_status string
  | Manual string

fun blocker_dir :: "blocker \<Rightarrow> string" where
  "blocker_dir (Devlift d st w) = d" | "blocker_dir (Manual d) = d"

record gate =
  mergeable :: bool
  head_sha :: pyval
  merged_dirs :: "string list"
  blockers :: "blocker list"
  applied_waiting :: "string list"

definition rows_of :: "string \<Rightarrow> track_table \<Rightarrow> track_table" where
  "rows_of repo t = filter (\<lambda>r. tr_repo r = repo) t"

definition track_by_dir :: "track_table \<Rightarrow> (string, track_row) dict" where
  "track_by_dir rows = foldl (\<lambda>m r. AList.update (tr_dir r) r m) [] rows"

text \<open>
  Orphan healing.  \<open>live\<close> is what the workflow server says of each workflow, \<open>None\<close> when it cannot be
  reached; a failing lookup of one workflow counts as not running.
\<close>

definition pending :: "string list \<Rightarrow> track_row \<Rightarrow> bool" where
  "pending my r = (tr_status r \<in> {IN_PROGRESS, RESUMING} \<and> tr_dir r \<notin> set my)"

definition heal_row :: "string list \<Rightarrow> (string \<Rightarrow> bool) option \<Rightarrow> track_row \<Rightarrow> track_row" where
  "heal_row my live r =
     (case live of None \<Rightarrow> r
      | Some running \<Rightarrow>
          if pending my r \<and> \<not> running (tr_workflow_id r) then r\<lparr>tr_status := FAILED\<rparr> else r)"

definition classify_path :: "string list \<Rightarrow> (string, track_row) dict \<Rightarrow> string \<Rightarrow> blocker option" where
  "classify_path my track path =
     (if list_ex (\<lambda>d. covers d path) my then None
      else case find (\<lambda>(d, meta). covers d path) track of
        Some (d, meta) \<Rightarrow>
          if tr_status meta = APPLIED then None
          else Some (Devlift d (tr_status meta) (tr_workflow_id meta))
      | None \<Rightarrow> Some (Manual (parent_dir path)))"

fun collect_blockers :: "(string \<Rightarrow> blocker option) \<Rightarrow> string list \<Rightarrow> string list \<Rightarrow> blocker list" where
  "collect_blockers f seen [] = []"
| "collect_blockers f seen (p # ps) =
     (case f p of None \<Rightarrow> collect_blockers f seen ps
      | Some b \<Rightarrow>
          if blocker_dir b \<in> set seen then collect_blockers f seen ps
          else b # collect_blockers f (blocker_dir b # seen) ps)"

definition waiting_dirs :: "string list \<Rightarrow> (string, track_row) dict \<Rightarrow> string list \<Rightarrow> string list" where
  "waiting_dirs my track paths =
     map fst (filter (\<lambda>(d, meta). tr_status meta = APPLIED \<and> d \<notin> set my \<and> list_ex (covers d) paths) track)"

text \<open>
  The verdict and the table the healing leaves: what it found is forgotten when its commit fails, though the
  verdict uses it.
\<close>

definition evaluate_merge_gate ::
  "string \<Rightarrow> string list \<Rightarrow> pyval \<Rightarrow> string list \<Rightarrow> (string \<Rightarrow> bool) option \<Rightarrow> bool \<Rightarrow> track_table \<Rightarrow>
   gate \<times> track_table" where
  "evaluate_merge_gate repo my sha all_paths live committed t =
     (let prod_paths = filter is_production_path all_paths;
          track = map (\<lambda>(d, meta). (d, heal_row my live meta)) (track_by_dir (rows_of repo t));
          t' = (if committed then map (\<lambda>r. if tr_repo r = repo then heal_row my live r else r) t else t);
          bs = collect_blockers (classify_path my track) [] prod_paths;
          waiting = waiting_dirs my track prod_paths
      in (\<lparr>mergeable = (bs = []), head_sha = sha, merged_dirs = sorted_set (my @ waiting),
           blockers = bs, applied_waiting = waiting\<rparr>, t'))"

section \<open>The deployment's own directories, and manual commits\<close>

definition resolve_deployment_dirs :: "string list \<Rightarrow> string list" where
  "resolve_deployment_dirs paths =
     sorted_set (map parent_dir (filter (\<lambda>p. startswith p ''environment/'' \<and> slash \<in> set p) paths))"

definition devlift_bot_logins :: "string list" where
  "devlift_bot_logins = [''devlift-regobs[bot]'', ''devlift-ai[bot]'']"

text \<open>\<open>compared\<close> is GitHub's comparison of the two heads, files and authors, \<open>None\<close> when it failed.\<close>

definition check_manual_commit_on_dirs ::
  "string \<Rightarrow> string \<Rightarrow> string list \<Rightarrow> (string list \<times> string list) option \<Rightarrow> bool" where
  "check_manual_commit_on_dirs base head dirs compared =
     (if base = head then False
      else case compared of None \<Rightarrow> True
      | Some (files, authors) \<Rightarrow>
          let touched = filter (\<lambda>f. list_ex (\<lambda>d. covers d f) dirs) files in
          if touched = [] then False
          else if authors \<noteq> [] \<and> list_all (\<lambda>a. a \<in> set devlift_bot_logins) authors then False
          else True)"

section \<open>Finding and merging the requests\<close>

text \<open>\<open>merge_pr_direct\<close>: the merge's answer is \<open>Inl\<close> the text of the exception it raised.\<close>

definition merge_pr_direct :: "config \<Rightarrow> (string, config) result \<Rightarrow> string" where
  "merge_pr_direct pr merged =
     (if truthy (dict_get pr ''merged'') then ''already_merged''
      else case merged of
        Inl err \<Rightarrow> if py_in ''conflict'' (py_lower err) then ''conflict'' else ''failed''
      | Inr r \<Rightarrow> if truthy (dict_get r ''merged'') then ''merged'' else ''failed'')"

definition merge_promotion_pr :: "(string, config) result \<Rightarrow> string" where
  "merge_promotion_pr merged =
     (case merged of Inl err \<Rightarrow> ''failed''
      | Inr r \<Rightarrow>
          if truthy (dict_get r ''merged'') then ''merged''
          else if truthy (dict_get r ''head_moved'') then ''head_moved'' else ''failed'')"

definition value_or :: "pyval \<Rightarrow> pyval \<Rightarrow> pyval" where
  "value_or v w = (if truthy v then v else w)"

datatype promotion_err = NotFoundNorCreated pyval | ExistsButNotOpen

record promotion_pr =
  pp_number :: pyval
  pp_url :: pyval
  pp_head :: pyval
  pp_created :: bool

text \<open>
  \<open>ensure_promotion_pr\<close>: the answer to the creation, the open request a search would find, and the
  request's details.  A creation that finds an open request says so in its message.
\<close>

definition message_text :: "pyval \<Rightarrow> string" where
  "message_text v = py_lower (if truthy v then py_str v else [])"

definition ensure_promotion_pr ::
  "config \<Rightarrow> pyval \<Rightarrow> (pyval \<Rightarrow> config) \<Rightarrow> (promotion_err, promotion_pr) result" where
  "ensure_promotion_pr created_pr found info =
     (let number = dict_get created_pr ''pr_number'';
          err = value_or (dict_get created_pr ''error'') (dict_get created_pr ''message'');
          new = (number \<noteq> VNone \<and> \<not> py_in ''found'' (message_text (dict_get created_pr ''message'')));
          finish = (\<lambda>number new.
            let sha = dict_get created_pr ''head_sha''; url = dict_get created_pr ''pr_url'';
                known = (truthy sha \<and> truthy url)
            in \<lparr>pp_number = number,
                pp_url = (if known then url else value_or url (dict_get (info number) ''html_url'')),
                pp_head = (if known then sha else value_or sha (dict_get (info number) ''head_sha'')),
                pp_created = new\<rparr>)
      in if truthy number then Inr (finish number new)
         else if \<not> py_in ''already exists'' (message_text err)
         then Inl (NotFoundNorCreated (value_or (dict_get created_pr ''error'') (VDict created_pr)))
         else if \<not> truthy found then Inl ExistsButNotOpen
         else Inr (finish found False))"

text \<open>The verdict as the workflow receives it.\<close>

fun blocker_value :: "blocker \<Rightarrow> pyval" where
  "blocker_value (Devlift d st w) =
     VDict [(''dir'', VStr d), (''kind'', VStr ''devlift''), (''status'', VStr (status_value st)), (''workflow_id'', VStr w)]"
| "blocker_value (Manual d) =
     VDict [(''dir'', VStr d), (''kind'', VStr ''manual''), (''status'', VNone), (''workflow_id'', VNone)]"

definition gate_value :: "gate \<Rightarrow> pyval" where
  "gate_value g =
     VDict [(''mergeable'', VBool (mergeable g)), (''head_sha'', head_sha g),
            (''merged_dirs'', VList (map VStr (merged_dirs g))),
            (''blockers'', VList (map blocker_value (blockers g))),
            (''applied_waiting'', VList (map VStr (applied_waiting g)))]"

end
