(* ===== verification/MergeGateProperties.thy ===== *)
theory MergeGateProperties
  imports MergeGate
begin

text \<open>
  What the gate and its table promise: which requests the gate lets through, that healing never opens
  it, that a row is \<open>APPLIED\<close> only by the workflow that owns it, and where nested directories defeat it.
\<close>

section \<open>Paths\<close>

lemma parent_dir_split:
  assumes "slash \<in> set p" shows "p = parent_dir p @ slash # base_name p"
proof -
  obtain x ys where d: "dropWhile (\<lambda>c. c \<noteq> slash) (rev p) = x # ys" and x: "x = slash"
    using assms by (metis (mono_tags, lifting) dropWhile_eq_Nil_conv hd_dropWhile list.exhaust list.sel(1) set_rev)
  have "rev p = takeWhile (\<lambda>c. c \<noteq> slash) (rev p) @ slash # ys"
    using takeWhile_dropWhile_id [of "\<lambda>c. c \<noteq> slash" "rev p"] d x by simp
  then have "p = rev ys @ slash # rev (takeWhile (\<lambda>c. c \<noteq> slash) (rev p))"
    by (metis append.assoc append_Cons append_Nil rev.simps(2) rev_append rev_rev_ident)
  then show ?thesis using d assms by (simp add: parent_dir_def base_name_def)
qed

text \<open>A directory covers what lies below it, with or without trailing slashes.\<close>

lemma covers_below: "covers d (d @ slash # p)"
proof -
  obtain rest where r: "d = rstrip_by (\<lambda>c. c = slash) d @ rest" "\<forall>c \<in> set rest. c = slash"
    using rstrip_by_split by blast
  have "\<exists>more. rest @ slash # p = slash # more" using r(2) by (cases rest) auto
  then obtain more where "rest @ slash # p = slash # more" by blast
  then have "d @ slash # p = rstrip_by (\<lambda>c. c = slash) d @ slash # more" using r(1) by (metis append.assoc)
  then show ?thesis by (auto simp: covers_def prefix_def)
qed

lemma parent_covers: "slash \<in> set p \<Longrightarrow> covers (parent_dir p) p"
  using covers_below [of "parent_dir p" "base_name p"] parent_dir_split [of p] by simp

section \<open>The table\<close>

lemma status_of_value [simp]: "status_of (status_value s) = Some s"
  by (cases s) (simp_all add: status_of_def)

lemma status_of_Some: "status_of v = Some s \<Longrightarrow> v = status_value s"
  by (auto simp: status_of_def split: if_splits)

text \<open>The column \<open>dir\<close> is unique.\<close>

abbreviation unique_dirs :: "track_table \<Rightarrow> bool" where
  "unique_dirs t \<equiv> distinct (map tr_dir t)"

lemma claim_dirs: "map tr_dir (claim w tenant repo st d t) = (if d \<in> tr_dir ` set t then map tr_dir t else map tr_dir t @ [d])"
  by (auto simp: claim_def list_ex_iff)

lemma unique_claim: "unique_dirs t \<Longrightarrow> unique_dirs (claim w tenant repo st d t)"
  by (simp add: claim_dirs)

lemma claimed_rows:
  "r \<in> set (claim w tenant repo st d t) \<Longrightarrow>
   (if tr_dir r = d then tr_workflow_id r = w \<and> tr_repo r = repo \<and> tr_status r = st else r \<in> set t)"
  by (auto simp: claim_def list_ex_iff split: if_splits)

lemma claims_rows:
  "r \<in> set (foldl (\<lambda>t d. claim w tenant repo st d t) t dirs) \<Longrightarrow>
   (if tr_dir r \<in> set dirs then tr_workflow_id r = w \<and> tr_repo r = repo \<and> tr_status r = st else r \<in> set t)"
proof (induction dirs arbitrary: t)
  case (Cons d dirs)
  from Cons.IH [of "claim w tenant repo st d t"] Cons.prems show ?case
    by (auto dest: claimed_rows split: if_splits)
qed simp

lemma unique_claims: "unique_dirs t \<Longrightarrow> unique_dirs (foldl (\<lambda>t d. claim w tenant repo st d t) t dirs)"
  by (induction dirs arbitrary: t) (simp_all add: unique_claim)

lemma claim_keeps_dirs: "tr_dir ` set (claim w tenant repo st d t) = insert d (tr_dir ` set t)"
  using arg_cong [OF claim_dirs, of set w tenant repo st d t] by (auto split: if_splits)

lemma claims_dirs: "tr_dir ` set (foldl (\<lambda>t d. claim w tenant repo st d t) t dirs) = set dirs \<union> tr_dir ` set t"
  by (induction dirs arbitrary: t) (auto simp: claim_keeps_dirs)

lemma upsert_rows:
  assumes "production_track_upsert dirs w tenant repo v t = Some t'" and "r \<in> set t'"
  shows "if tr_dir r \<in> set dirs
    then tr_workflow_id r = w \<and> tr_repo r = repo \<and>
      status_value (tr_status r) = (if or_blank v = [] then ''IN_PROGRESS'' else or_blank v)
    else r \<in> set t"
proof -
  obtain st where st: "status_of (if or_blank v = [] then ''IN_PROGRESS'' else or_blank v) = Some st"
    and t': "t' = foldl (\<lambda>t d. claim w tenant repo st d t) t dirs"
    using assms(1) by (auto simp: production_track_upsert_def Let_def split: option.splits)
  from claims_rows [OF assms(2) [unfolded t']] status_of_Some [OF st] show ?thesis by simp
qed

lemma set_status_rows:
  assumes "production_track_set_status dirs w v t = Some t'" and "r \<in> set t'"
  shows "if tr_dir r \<in> set dirs \<and> tr_workflow_id r = w then status_value (tr_status r) = v else r \<in> set t"
proof -
  obtain st where st: "status_of v = Some st"
    and t': "t' = map (\<lambda>r. if tr_dir r \<in> set dirs \<and> tr_workflow_id r = w then r\<lparr>tr_status := st\<rparr> else r) t"
    using assms(1) by (auto simp: production_track_set_status_def split: option.splits)
  obtain r0 where "r0 \<in> set t" "r = (if tr_dir r0 \<in> set dirs \<and> tr_workflow_id r0 = w then r0\<lparr>tr_status := st\<rparr> else r0)"
    using assms(2) unfolding t' by auto
  then show ?thesis using status_of_Some [OF st] by (cases "tr_dir r0 \<in> set dirs \<and> tr_workflow_id r0 = w") auto
qed

lemma set_status_dirs: "production_track_set_status dirs w v t = Some t' \<Longrightarrow> map tr_dir t' = map tr_dir t"
  by (auto simp: production_track_set_status_def split: option.splits)

lemma heal_row_simps [simp]:
  "tr_dir (heal_row my live r) = tr_dir r" "tr_workflow_id (heal_row my live r) = tr_workflow_id r"
  "tr_repo (heal_row my live r) = tr_repo r"
  "tr_status (heal_row my live r) = APPLIED \<longleftrightarrow> tr_status r = APPLIED"
  by (auto simp: heal_row_def pending_def split: option.splits)

lemma heal_applied: "tr_status r = APPLIED \<Longrightarrow> heal_row my live r = r"
  by (auto simp: heal_row_def pending_def split: option.splits)

lemma evaluated_dirs: "map tr_dir (snd (evaluate_merge_gate repo my sha paths live ok t)) = map tr_dir t"
  by (auto simp: evaluate_merge_gate_def Let_def)

section \<open>The verdict\<close>

lemma update_new: "k \<notin> fst ` set m \<Longrightarrow> AList.update k v m = m @ [(k, v)]"
  by (induction m) auto

lemma track_by_dir_unique: "unique_dirs rows \<Longrightarrow> track_by_dir rows = map (\<lambda>r. (tr_dir r, r)) rows"
proof (induction rows rule: rev_induct)
  case (snoc r rows)
  then have "tr_dir r \<notin> fst ` set (map (\<lambda>r. (tr_dir r, r)) rows)" by auto
  then show ?case using snoc by (simp add: track_by_dir_def update_new)
qed (simp add: track_by_dir_def)

lemma unique_rows_of: "unique_dirs t \<Longrightarrow> unique_dirs (rows_of repo t)"
  by (simp add: rows_of_def distinct_map_filter)

text \<open>Whose directory a production path is in: the deployment's, else that of the first row that covers it.\<close>

definition released :: "string list \<Rightarrow> track_table \<Rightarrow> string \<Rightarrow> bool" where
  "released my rows p \<longleftrightarrow>
     list_ex (\<lambda>d. covers d p) my \<or>
     (case find (\<lambda>r. covers (tr_dir r) p) rows of None \<Rightarrow> False | Some r \<Rightarrow> tr_status r = APPLIED)"

lemma find_map: "find P (map f xs) = map_option f (find (P \<circ> f) xs)"
  by (induction xs) auto

lemma classify_path_None_iff:
  assumes "\<And>r. tr_status (h r) = APPLIED \<longleftrightarrow> tr_status r = APPLIED"
  shows "classify_path my (map (\<lambda>r. (tr_dir r, h r)) rows) p = None \<longleftrightarrow> released my rows p"
  using assms by (auto simp: classify_path_def released_def find_map comp_def split: option.splits)

lemma collect_Nil_iff:
  "collect_blockers f seen ps = [] \<longleftrightarrow>
   (\<forall>p \<in> set ps. case f p of None \<Rightarrow> True | Some b \<Rightarrow> blocker_dir b \<in> set seen)"
  by (induction f seen ps rule: collect_blockers.induct) (auto split: option.splits)

lemma collect_sound: "set (collect_blockers f seen ps) \<subseteq> {b. \<exists>p \<in> set ps. f p = Some b}"
  by (induction ps arbitrary: seen) (simp_all split: option.splits, blast)

lemma collect_distinct:
  "distinct (map blocker_dir (collect_blockers f seen ps)) \<and>
   set (map blocker_dir (collect_blockers f seen ps)) \<inter> set seen = {}"
proof (induction ps arbitrary: seen)
  case (Cons p ps)
  show ?case
  proof (cases "f p")
    case (Some b)
    with Cons.IH [of seen] Cons.IH [of "blocker_dir b # seen"] show ?thesis by auto
  qed (use Cons.IH [of seen] in simp)
qed simp

lemma evaluated:
  assumes "unique_dirs t"
  shows "fst (evaluate_merge_gate repo my sha paths live ok t) =
    (let prod_paths = filter is_production_path paths;
         track = map (\<lambda>r. (tr_dir r, heal_row my live r)) (rows_of repo t);
         bs = collect_blockers (classify_path my track) [] prod_paths;
         waiting = waiting_dirs my track prod_paths
     in \<lparr>mergeable = (bs = []), head_sha = sha, merged_dirs = sorted_set (my @ waiting),
         blockers = bs, applied_waiting = waiting\<rparr>)"
  using track_by_dir_unique [OF unique_rows_of [OF assms]]
  by (simp add: evaluate_merge_gate_def Let_def comp_def)

lemma mergeable_iff:
  assumes "unique_dirs t"
  shows "mergeable (fst (evaluate_merge_gate repo my sha paths live ok t)) \<longleftrightarrow>
    (\<forall>p \<in> set paths. is_production_path p \<longrightarrow> released my (rows_of repo t) p)"
proof -
  let ?f = "classify_path my (map (\<lambda>r. (tr_dir r, heal_row my live r)) (rows_of repo t))"
  have "mergeable (fst (evaluate_merge_gate repo my sha paths live ok t)) \<longleftrightarrow>
    (\<forall>p \<in> set (filter is_production_path paths). ?f p = None)"
    unfolding evaluated [OF assms] Let_def gate.simps collect_Nil_iff by (auto simp: option.case_eq_if)
  then show ?thesis unfolding classify_path_None_iff [of "heal_row my live", OF heal_row_simps(4)] by auto
qed

lemma waiting_healed:
  "waiting_dirs my (map (\<lambda>r. (tr_dir r, heal_row my live r)) rows) ps =
   waiting_dirs my (map (\<lambda>r. (tr_dir r, r)) rows) ps"
  by (simp add: waiting_dirs_def filter_map comp_def)

section \<open>What the gate promises\<close>

text \<open>
  The gate lets a promotion request through exactly when every production path it changes lies in a directory
  of the deployment itself or in one whose row says \<open>APPLIED\<close>: whatever the liveness lookup answers, and whether
  or not the healed rows are committed.
\<close>

theorem gate_open_iff:
  assumes "unique_dirs t"
  shows "mergeable (fst (evaluate_merge_gate repo my sha paths live ok t)) \<longleftrightarrow>
    (\<forall>p \<in> set paths. is_production_path p \<longrightarrow>
       (\<exists>d \<in> set my. covers d p) \<or>
       (case find (\<lambda>r. covers (tr_dir r) p) (rows_of repo t) of
          None \<Rightarrow> False | Some r \<Rightarrow> tr_status r = APPLIED))"
  unfolding mergeable_iff [OF assms] released_def list_ex_iff ..

definition demo_rows :: track_table where
  "demo_rows =
     [\<lparr>tr_name = ''api'', tr_dir = ''environment/prod-01/api'', tr_workflow_id = ''w1'', tr_tenant = ''acme'',
       tr_repo = ''acme/infra'', tr_status = APPLIED\<rparr>,
      \<lparr>tr_name = ''db'', tr_dir = ''environment/prod-01/db'', tr_workflow_id = ''w2'', tr_tenant = ''acme'',
       tr_repo = ''acme/infra'', tr_status = IN_PROGRESS\<rparr>]"

theorem gate_open_iff_witness:
  "mergeable (fst (evaluate_merge_gate ''acme/infra'' [''environment/prod-01/web''] VNone
      [''environment/prod-01/web/a.hcl'', ''environment/prod-01/api/a.hcl''] None True demo_rows)) \<and>
   \<not> mergeable (fst (evaluate_merge_gate ''acme/infra'' [''environment/prod-01/web''] VNone
      [''environment/prod-01/web/a.hcl'', ''environment/prod-01/db/a.hcl''] None True demo_rows))"
proof -
  have u: "unique_dirs demo_rows" by (simp add: demo_rows_def)
  show ?thesis
    unfolding gate_open_iff [OF u] by code_simp
qed

text \<open>
  C13: A verdict is well formed.  Its blockers are of different directories.  A blocker of another deployment is a row
  of the repository whose status is not \<open>APPLIED\<close>, and it covers a changed production path outside the deployment's
  own directories; a manual blocker is the parent directory of such a path that no row of the repository covers.  The
  directories to drop after the merge are the deployment's own and the applied ones that ride along, in order and
  without repetition, and nobody else's row is among them unless it is \<open>APPLIED\<close>.
\<close>

theorem verdict_well_formed:
  assumes "unique_dirs t" and "g = fst (evaluate_merge_gate repo my sha paths live ok t)"
  shows "(mergeable g = (blockers g = [])) \<and> distinct (map blocker_dir (blockers g)) \<and>
    (\<forall>d st w. Devlift d st w \<in> set (blockers g) \<longrightarrow>
       st \<noteq> APPLIED \<and>
       (\<exists>r \<in> set (rows_of repo t). tr_dir r = d \<and> tr_workflow_id r = w \<and> tr_status r \<noteq> APPLIED) \<and>
       (\<exists>p \<in> set paths. is_production_path p \<and> covers d p \<and> \<not> list_ex (\<lambda>d. covers d p) my)) \<and>
    (\<forall>d. Manual d \<in> set (blockers g) \<longrightarrow>
       (\<exists>p \<in> set paths. is_production_path p \<and> d = parent_dir p \<and> \<not> list_ex (\<lambda>d. covers d p) my \<and>
          (\<forall>r \<in> set (rows_of repo t). \<not> covers (tr_dir r) p))) \<and>
    sorted (merged_dirs g) \<and> distinct (merged_dirs g) \<and>
    set (merged_dirs g) = set my \<union> set (applied_waiting g) \<and>
    (\<forall>d \<in> set (applied_waiting g). d \<notin> set my \<and>
       (\<exists>r \<in> set (rows_of repo t). tr_dir r = d \<and> tr_status r = APPLIED))"
proof -
  let ?track = "map (\<lambda>r. (tr_dir r, heal_row my live r)) (rows_of repo t)"
  let ?ps = "filter is_production_path paths"
  have g: "blockers g = collect_blockers (classify_path my ?track) [] ?ps" "mergeable g = (blockers g = [])"
    "applied_waiting g = waiting_dirs my ?track ?ps" "merged_dirs g = sorted_set (my @ applied_waiting g)"
    unfolding assms(2) evaluated [OF assms(1)] by (simp_all add: Let_def)
  have "st \<noteq> APPLIED \<and>
       (\<exists>r \<in> set (rows_of repo t). tr_dir r = d \<and> tr_workflow_id r = w \<and> tr_status r \<noteq> APPLIED) \<and>
       (\<exists>p \<in> set paths. is_production_path p \<and> covers d p \<and> \<not> list_ex (\<lambda>d. covers d p) my)"
    if b: "Devlift d st w \<in> set (blockers g)" for d st w
  proof -
    obtain p where p: "p \<in> set paths" "is_production_path p" "classify_path my ?track p = Some (Devlift d st w)"
      using b collect_sound unfolding g(1) by force
    then obtain m where m: "find (\<lambda>(d, meta). covers d p) ?track = Some (d, m)" "tr_status m \<noteq> APPLIED"
      "tr_status m = st" "tr_workflow_id m = w" and own: "\<not> list_ex (\<lambda>d. covers d p) my"
      by (auto simp: classify_path_def split: if_splits option.splits prod.splits)
    then have "(d, m) \<in> set ?track" "covers d p" by (auto simp: find_Some_iff dest: nth_mem)
    then obtain r where r: "r \<in> set (rows_of repo t)" "tr_dir r = d" "m = heal_row my live r" by auto
    then have "tr_status r \<noteq> APPLIED" "tr_workflow_id r = w"
      using m(2,4) by (auto simp: heal_row_def pending_def split: option.splits if_splits)
    with r(1,2) m(2,3) own p \<open>covers d p\<close> show ?thesis by blast
  qed
  moreover have "\<exists>p \<in> set paths. is_production_path p \<and> d = parent_dir p \<and> \<not> list_ex (\<lambda>d. covers d p) my \<and>
      (\<forall>r \<in> set (rows_of repo t). \<not> covers (tr_dir r) p)"
    if b: "Manual d \<in> set (blockers g)" for d
  proof -
    obtain p where p: "p \<in> set paths" "is_production_path p" "classify_path my ?track p = Some (Manual d)"
      using b collect_sound unfolding g(1) by force
    then have "d = parent_dir p" "\<not> list_ex (\<lambda>d. covers d p) my" "find (\<lambda>(d, meta). covers d p) ?track = None"
      by (auto simp: classify_path_def split: if_splits option.splits prod.splits)
    with p show ?thesis by (auto simp: find_None_iff)
  qed
  moreover have "d \<notin> set my \<and> (\<exists>r \<in> set (rows_of repo t). tr_dir r = d \<and> tr_status r = APPLIED)"
    if "d \<in> set (applied_waiting g)" for d
    using that unfolding g(3) waiting_dirs_def by auto
  moreover have "distinct (map blocker_dir (blockers g))" unfolding g(1) using collect_distinct by blast
  ultimately show ?thesis using g(2,4) by simp
qed

theorem verdict_well_formed_witness:
  "let g = fst (evaluate_merge_gate ''acme/infra'' [''environment/prod-01/web''] VNone
      [''environment/prod-01/db/a.hcl'', ''environment/prod-01/api/a.hcl''] None True demo_rows)
   in distinct (map blocker_dir (blockers g)) \<and>
      set (merged_dirs g) = {''environment/prod-01/web'', ''environment/prod-01/api''} \<and>
      blockers g = [Devlift ''environment/prod-01/db'' IN_PROGRESS ''w2'']"
proof -
  let ?g = "fst (evaluate_merge_gate ''acme/infra'' [''environment/prod-01/web''] VNone
      [''environment/prod-01/db/a.hcl'', ''environment/prod-01/api/a.hcl''] None True demo_rows)"
  have u: "unique_dirs demo_rows" by (simp add: demo_rows_def)
  have "set (applied_waiting ?g) = {''environment/prod-01/api''}"
    "blockers ?g = [Devlift ''environment/prod-01/db'' IN_PROGRESS ''w2'']" by code_simp+
  then show ?thesis using verdict_well_formed [OF u refl] by (simp add: insert_commute)
qed

text \<open>
  C16: Healing makes the alert truer and never opens the gate: whatever the workflow server answers, or fails to
  answer, the same request is let through, with the same directories merged and the same directories blocked,
  and in the table only claims of workflows that are not running become \<open>FAILED\<close>.
\<close>

theorem healing_never_opens:
  assumes "unique_dirs t"
  shows "mergeable (fst (evaluate_merge_gate repo my sha paths live ok t)) =
      mergeable (fst (evaluate_merge_gate repo my sha paths None False t)) \<and>
    merged_dirs (fst (evaluate_merge_gate repo my sha paths live ok t)) =
      merged_dirs (fst (evaluate_merge_gate repo my sha paths None False t)) \<and>
    map blocker_dir (blockers (fst (evaluate_merge_gate repo my sha paths live ok t))) =
      map blocker_dir (blockers (fst (evaluate_merge_gate repo my sha paths None False t))) \<and>
    list_all2 (\<lambda>r r'. r' = r \<or>
        r' = r\<lparr>tr_status := FAILED\<rparr> \<and> tr_repo r = repo \<and> tr_status r \<in> {IN_PROGRESS, RESUMING} \<and>
        (\<exists>running. live = Some running \<and> \<not> running (tr_workflow_id r)))
      t (snd (evaluate_merge_gate repo my sha paths live ok t))"
proof -
  let ?c = "\<lambda>live. classify_path my (map (\<lambda>r. (tr_dir r, heal_row my live r)) (rows_of repo t))"
  have dirs: "map_option blocker_dir (?c live p) = map_option blocker_dir (?c None p)" for p
    by (auto simp: classify_path_def find_map comp_def split: option.splits)
  have same: "map blocker_dir (collect_blockers f seen ps) = map blocker_dir (collect_blockers f' seen ps)"
    if "\<And>p. map_option blocker_dir (f p) = map_option blocker_dir (f' p)" for f f' :: "string \<Rightarrow> blocker option" and seen ps
  proof (induction ps arbitrary: seen)
    case (Cons p ps)
    from that [of p] Cons.IH show ?case by (cases "f p"; cases "f' p") auto
  qed simp
  have "list_all2 (\<lambda>r r'. r' = r \<or>
        r' = r\<lparr>tr_status := FAILED\<rparr> \<and> tr_repo r = repo \<and> tr_status r \<in> {IN_PROGRESS, RESUMING} \<and>
        (\<exists>running. live = Some running \<and> \<not> running (tr_workflow_id r)))
      t (snd (evaluate_merge_gate repo my sha paths live ok t))"
    by (auto simp: evaluate_merge_gate_def Let_def list_all2_conv_all_nth heal_row_def pending_def split: option.splits)
  moreover have "merged_dirs (fst (evaluate_merge_gate repo my sha paths live ok t)) =
      merged_dirs (fst (evaluate_merge_gate repo my sha paths None False t))"
    unfolding evaluated [OF assms] Let_def gate.simps waiting_healed ..
  moreover have "map blocker_dir (blockers (fst (evaluate_merge_gate repo my sha paths live ok t))) =
      map blocker_dir (blockers (fst (evaluate_merge_gate repo my sha paths None False t)))"
    unfolding evaluated [OF assms] Let_def gate.simps by (rule same [OF dirs])
  ultimately show ?thesis unfolding mergeable_iff [OF assms] by blast
qed

theorem healing_never_opens_witness:
  "mergeable (fst (evaluate_merge_gate ''acme/infra'' [] VNone [''environment/prod-01/db/a.hcl'']
      (Some (\<lambda>w. False)) True demo_rows)) =
   mergeable (fst (evaluate_merge_gate ''acme/infra'' [] VNone [''environment/prod-01/db/a.hcl'']
      None False demo_rows)) \<and>
   map tr_status (snd (evaluate_merge_gate ''acme/infra'' [] VNone [''environment/prod-01/db/a.hcl'']
      (Some (\<lambda>w. False)) True demo_rows)) = [APPLIED, FAILED]"
proof -
  have u: "unique_dirs demo_rows" by (simp add: demo_rows_def)
  have "map tr_status (snd (evaluate_merge_gate ''acme/infra'' [] VNone [''environment/prod-01/db/a.hcl'']
      (Some (\<lambda>w. False)) True demo_rows)) = [APPLIED, FAILED]" by code_simp
  then show ?thesis using healing_never_opens [OF u] by blast
qed

section \<open>Who may say that a directory is applied\<close>

text \<open>The operations of all workflows on the table, one after the other; a refused one changes nothing.\<close>

datatype track_op =
    Claim "string list" string string string "string option"
  | SetStatus "string list" string string
  | DeleteDirs string "string list"
  | Evaluate string "string list" "(string \<Rightarrow> bool) option" bool

definition or_same :: "'a option \<Rightarrow> 'a \<Rightarrow> 'a" where
  "or_same x y = (case x of None \<Rightarrow> y | Some z \<Rightarrow> z)"

fun track_exec :: "track_op \<Rightarrow> track_table \<Rightarrow> track_table" where
  "track_exec (Claim dirs w tenant repo v) t = or_same (production_track_upsert dirs w tenant repo v t) t"
| "track_exec (SetStatus dirs w v) t = or_same (production_track_set_status dirs w v t) t"
| "track_exec (DeleteDirs repo dirs) t = fst (production_track_delete_dirs repo dirs t)"
| "track_exec (Evaluate repo my live ok) t = snd (evaluate_merge_gate repo my VNone [] live ok t)"

definition track_run :: "track_op list \<Rightarrow> track_table" where
  "track_run ops = fold track_exec ops []"

lemma track_run_simps [simp]:
  "track_run [] = []" "track_run (ops @ [x]) = track_exec x (track_run ops)"
  by (simp_all add: track_run_def)

text \<open>Claims start as \<open>IN_PROGRESS\<close>, as the workflows make them; nobody claims a directory as applied.\<close>

fun honest :: "track_op \<Rightarrow> bool" where
  "honest (Claim _ _ _ _ v) = (or_blank v \<in> {[], ''IN_PROGRESS''})" | "honest _ = True"

fun claims_dir :: "string \<Rightarrow> track_op \<Rightarrow> bool" where
  "claims_dir d (Claim dirs _ _ _ _) = (d \<in> set dirs)" | "claims_dir d _ = False"

fun declares :: "track_row \<Rightarrow> track_op \<Rightarrow> bool" where
  "declares r (SetStatus dirs w v) = (v = ''APPLIED'' \<and> w = tr_workflow_id r \<and> tr_dir r \<in> set dirs)"
| "declares r _ = False"

lemma unique_exec: "unique_dirs t \<Longrightarrow> unique_dirs (track_exec x t)"
proof (cases x)
  case (Claim dirs w tenant repo v)
  then show "unique_dirs t \<Longrightarrow> ?thesis"
    by (auto simp: or_same_def production_track_upsert_def Let_def unique_claims split: option.splits)
next
  case (SetStatus dirs w v)
  then show "unique_dirs t \<Longrightarrow> ?thesis" by (auto simp: or_same_def set_status_dirs split: option.splits)
qed (auto simp: production_track_delete_dirs_def Let_def distinct_map_filter evaluated_dirs)

lemma unique_run: "unique_dirs (track_run ops)"
  by (induction ops rule: rev_induct) (simp_all add: unique_exec)

text \<open>An applied row was applied before, unless this very step declares it.\<close>

lemma exec_applied:
  assumes "r \<in> set (track_exec x t)" and "tr_status r = APPLIED" and "honest x"
  shows "declares r x \<or> r \<in> set t \<and> \<not> claims_dir (tr_dir r) x"
proof (cases x)
  case (Claim dirs w tenant repo v)
  have "production_track_upsert dirs w tenant repo v t \<noteq> None"
    using assms(3) Claim status_of_value [of IN_PROGRESS] by (auto simp: production_track_upsert_def)
  then obtain t' where t': "production_track_upsert dirs w tenant repo v t = Some t'" by blast
  then have "r \<in> set t'" using assms(1) Claim by (simp add: or_same_def)
  from upsert_rows [OF t' this] assms(2,3) Claim show ?thesis by (auto split: if_splits)
next
  case (SetStatus dirs w v)
  then show ?thesis using assms by (auto simp: or_same_def split: option.splits if_splits dest!: set_status_rows)
next
  case (DeleteDirs repo dirs)
  then show ?thesis using assms by (auto simp: production_track_delete_dirs_def Let_def)
next
  case (Evaluate repo my live ok)
  then show ?thesis using assms
    by (auto simp: evaluate_merge_gate_def Let_def heal_applied split: if_splits)
qed

text \<open>
  C12: Whatever the workflows do to the table and in whatever order, a row says \<open>APPLIED\<close> only if the
  workflow it names declared so for this directory, and nobody claimed the directory after that.
\<close>

theorem applied_by_its_owner:
  assumes "\<forall>x \<in> set ops. honest x" and "r \<in> set (track_run ops)" and "tr_status r = APPLIED"
  shows "\<exists>before x after. ops = before @ x # after \<and> declares r x \<and> (\<forall>y \<in> set after. \<not> claims_dir (tr_dir r) y)"
  using assms(1,2)
proof (induction ops rule: rev_induct)
  case (snoc x ops)
  from exec_applied [of r x "track_run ops"] snoc.prems assms(3)
  consider (now) "declares r x" | (before) "r \<in> set (track_run ops)" "\<not> claims_dir (tr_dir r) x" by auto
  then show ?case
  proof cases
    case before
    with snoc obtain pre y post where "ops = pre @ y # post" "declares r y" "\<forall>z \<in> set post. \<not> claims_dir (tr_dir r) z"
      by auto
    with before show ?thesis by (intro exI [of _ pre] exI [of _ y] exI [of _ "post @ [x]"]) auto
  next
    case now
    then show ?thesis by (intro exI [of _ ops] exI [of _ x] exI [of _ "[]"]) simp
  qed
qed simp

definition demo_ops :: "track_op list" where
  "demo_ops =
     [Claim [''environment/prod-01/api''] ''w1'' ''acme'' ''acme/infra'' None,
      Claim [''environment/prod-01/api''] ''w2'' ''acme'' ''acme/infra'' (Some ''IN_PROGRESS''),
      SetStatus [''environment/prod-01/api''] ''w2'' ''APPLIED'',
      SetStatus [''environment/prod-01/api''] ''w1'' ''FAILED'']"

definition demo_row :: track_row where
  "demo_row = \<lparr>tr_name = ''api'', tr_dir = ''environment/prod-01/api'', tr_workflow_id = ''w2'', tr_tenant = ''acme'',
     tr_repo = ''acme/infra'', tr_status = APPLIED\<rparr>"

theorem applied_by_its_owner_witness:
  "track_run demo_ops = [demo_row] \<and> (\<exists>before x after. demo_ops = before @ x # after \<and> declares demo_row x)"
proof -
  have run: "track_run demo_ops = [demo_row]" by code_simp
  have "\<forall>x \<in> set demo_ops. honest x" by (simp add: demo_ops_def or_blank_def)
  from applied_by_its_owner [OF this, of demo_row] run show ?thesis by (auto simp: demo_row_def)
qed

text \<open>
  The late write of a workflow whose directories were claimed by another one meanwhile changes nothing.
\<close>

theorem late_write_changes_nothing:
  assumes "production_track_upsert dirs w tenant repo v t = Some t'" and "w' \<noteq> w" and "set dirs' \<subseteq> set dirs"
  shows "track_exec (SetStatus dirs' w' status) t' = t'"
proof -
  have "\<not> (tr_dir r \<in> set dirs' \<and> tr_workflow_id r = w')" if "r \<in> set t'" for r
    using upsert_rows [OF assms(1) that] assms(2,3) by (auto split: if_splits)
  then have "map (\<lambda>r. if tr_dir r \<in> set dirs' \<and> tr_workflow_id r = w' then r\<lparr>tr_status := st\<rparr> else r) t' = t'" for st
    by (intro map_idI) auto
  then show ?thesis by (simp add: or_same_def production_track_set_status_def split: option.splits)
qed

theorem late_write_changes_nothing_witness:
  "track_exec (SetStatus [''environment/prod-01/api''] ''w1'' ''FAILED'')
     (track_run (take 2 demo_ops)) = track_run (take 2 demo_ops)"
proof -
  have "production_track_upsert [''environment/prod-01/api''] ''w2'' ''acme'' ''acme/infra'' (Some ''IN_PROGRESS'')
    (track_run (take 1 demo_ops)) = Some (track_run (take 2 demo_ops))" by code_simp
  from late_write_changes_nothing [OF this, of "''w1''"] show ?thesis by simp
qed

section \<open>The deployment's own content\<close>

lemma resolved_dirs:
  "set (resolve_deployment_dirs paths) = parent_dir ` {p \<in> set paths. startswith p ''environment/'' \<and> slash \<in> set p}"
  by (simp add: resolve_deployment_dirs_def)

lemma environment_slash: "startswith p ''environment/'' \<Longrightarrow> slash \<in> set p"
  by (auto simp: prefix_def slash_def)

text \<open>
  What a deployment's own feature request changed under \<open>environment/\<close> never blocks the merge of its
  promotion, whatever the table holds.
\<close>

theorem own_content_never_blocks:
  assumes "p \<in> set mine" and "startswith p ''environment/''"
  shows "classify_path (resolve_deployment_dirs mine) track p = None"
proof -
  have "parent_dir p \<in> set (resolve_deployment_dirs mine)" and "covers (parent_dir p) p"
    using assms environment_slash parent_covers by (auto simp: resolved_dirs)
  then show ?thesis by (auto simp: classify_path_def list_ex_iff)
qed

theorem own_content_never_blocks_witness:
  "classify_path (resolve_deployment_dirs [''environment/prod-01/web/a.hcl'', ''README.md'']) []
     ''environment/prod-01/web/a.hcl'' = None"
  by (rule own_content_never_blocks) (simp_all add: prefix_def)

section \<open>Where nested directories defeat the gate\<close>

text \<open>
  C39: A deployment that changes a file shared by a region (\<open>env.hcl\<close>) or by all environments owns, for the gate,
  everything below: the unapplied content of another running deployment, or of a manual commit, is merged with
  it.
\<close>

theorem shared_file_claims_subtree:
  "(\<forall>p \<in> set mine. \<forall>q. startswith p ''environment/'' \<longrightarrow> covers (parent_dir p) q \<longrightarrow>
      classify_path (resolve_deployment_dirs mine) track q = None) \<and>
   mergeable (fst (evaluate_merge_gate ''acme/infra''
      (resolve_deployment_dirs [''environment/prod-01/env.hcl'']) (VStr ''abc'')
      [''environment/prod-01/env.hcl'', ''environment/prod-01/db/a.hcl''] None True demo_rows)) \<and>
   tr_status (demo_rows ! 1) = IN_PROGRESS \<and> covers (tr_dir (demo_rows ! 1)) ''environment/prod-01/db/a.hcl''"
proof (intro conjI ballI allI impI)
  fix p q assume "p \<in> set mine" "startswith p ''environment/''" "covers (parent_dir p) q"
  then have "parent_dir p \<in> set (resolve_deployment_dirs mine)" "covers (parent_dir p) q"
    using environment_slash by (auto simp: resolved_dirs)
  then show "classify_path (resolve_deployment_dirs mine) track q = None" by (auto simp: classify_path_def list_ex_iff)
qed (code_simp+)

theorem shared_file_claims_subtree_witness:
  "classify_path (resolve_deployment_dirs [''environment/prod-01/env.hcl'']) [] ''environment/prod-01/db/a.hcl'' = None"
proof -
  have "covers (parent_dir ''environment/prod-01/env.hcl'') ''environment/prod-01/db/a.hcl''" by code_simp
  then show ?thesis
    using conjunct1 [OF shared_file_claims_subtree [of "[''environment/prod-01/env.hcl'']" "[]"]]
    by (simp add: prefix_def)
qed

text \<open>
  The table knows one row per directory, whatever the repository: a claim of the same directory in another
  repository takes the row over, and the content of the first deployment is a manual commit to its own gate's
  peers from then on.
\<close>

theorem other_repository_takes_row:
  "track_run [Claim [''environment/prod-01/api''] ''w1'' ''acme'' ''acme/infra'' None,
     SetStatus [''environment/prod-01/api''] ''w1'' ''APPLIED'',
     Claim [''environment/prod-01/api''] ''w9'' ''acme'' ''acme/other'' None] =
     [demo_row\<lparr>tr_workflow_id := ''w9'', tr_repo := ''acme/other'', tr_status := IN_PROGRESS\<rparr>] \<and>
   blockers (fst (evaluate_merge_gate ''acme/infra'' [] (VStr ''abc'') [''environment/prod-01/api/a.hcl''] None True
     (track_run [Claim [''environment/prod-01/api''] ''w1'' ''acme'' ''acme/infra'' None,
        SetStatus [''environment/prod-01/api''] ''w1'' ''APPLIED'',
        Claim [''environment/prod-01/api''] ''w9'' ''acme'' ''acme/other'' None]))) =
     [Manual ''environment/prod-01/api'']"
  by (intro conjI; code_simp)

end
