(* ===== verification/GatedPromotion.thy ===== *)
theory GatedPromotion
  imports ProductionProperties MergeGateProperties
begin

text \<open>
  The production workflow and the gate activity together: what is known of the content of a promotion request at the
  moment the workflow asks for its merge.
\<close>

text \<open>
  What the gate activity finds when it looks at the request: its head and its changed files at GitHub, the liveness
  answers of the workflow server and whether the healing is committed, and the track table.
\<close>

record gate_view =
  v_sha :: pyval
  v_files :: "string list"
  v_live :: "(string \<Rightarrow> bool) option"
  v_committed :: bool
  v_table :: track_table

text \<open>
  \<open>view i n\<close> is what is found for request \<open>n\<close> by the activity whose answer is the \<open>i\<close>-th event of the trace.  The
  activity serves the run when each of its answers is the verdict on what it found.
\<close>

definition gate_served :: "string \<Rightarrow> (nat \<Rightarrow> int \<Rightarrow> gate_view) \<Rightarrow> pevent list \<Rightarrow> bool" where
  "gate_served repo view tr \<longleftrightarrow>
     (\<forall>i < length tr. \<forall>n my v. tr ! i = Got (PEvaluateGate n my) (Done v) \<longrightarrow>
        unique_dirs (v_table (view i n)) \<and>
        v = gate_value (fst (evaluate_merge_gate repo my (v_sha (view i n)) (v_files (view i n)) (v_live (view i n))
              (v_committed (view i n)) (v_table (view i n)))))"

text \<open>The last word is that of some event no later one takes back.\<close>

lemma last_word_at:
  "last_word P Q tr \<Longrightarrow> \<exists>i < length tr. P (tr ! i) \<and> (\<forall>j. i < j \<and> j < length tr \<longrightarrow> \<not> Q (tr ! j))"
proof (induction tr rule: rev_induct)
  case (snoc e tr)
  show ?case
  proof (cases "P e")
    case True
    then show ?thesis by (intro exI [of _ "length tr"]) auto
  next
    case False
    with snoc.prems have e: "\<not> Q e" and "last_word P Q tr" by (simp_all add: last_word_snoc)
    from snoc.IH [OF this(2)] obtain i where i: "i < length tr" "P (tr ! i)"
      and later: "\<forall>j. i < j \<and> j < length tr \<longrightarrow> \<not> Q (tr ! j)" by blast
    have "\<not> Q ((tr @ [e]) ! j)" if "i < j" "j < length (tr @ [e])" for j
      using that e later by (cases "j < length tr") (auto simp: nth_append less_Suc_eq)
    with i show ?thesis by (intro exI [of _ i]) (simp add: nth_append)
  qed
qed simp

lemma gate_value_get [simp]:
  "dict_get (dict_of (gate_value g)) ''mergeable'' = VBool (mergeable g)"
  "dict_get (dict_of (gate_value g)) ''head_sha'' = head_sha g"
  "dict_get (dict_of (gate_value g)) ''merged_dirs'' = VList (map VStr (merged_dirs g))"
  by (simp_all add: gate_value_def dict_of_def dict_get_def)

lemma head_sha_evaluated [simp]: "head_sha (fst (evaluate_merge_gate repo my sha paths live ok t)) = sha"
  by (simp add: evaluate_merge_gate_def Let_def)

text \<open>
  C11: When the workflow asks for the merge of the promotion request at some head, the newest answer of the gate was
  given for exactly this head, and every production path among the files the gate found changed in the request lies in
  the deployment's own directories or in one whose row in the table the gate read said \<open>APPLIED\<close>.  The
  deployment's own directories are those whose apply on this request was confirmed by a poll after the last apply was
  asked for.
\<close>

theorem promotion_carries_only_applied:
  assumes "trace (snd (run_production d (init_prod d ts))) = pre @ Issued (PMergePromotion n sha) # post"
    and "gate_served (m_repo d) view pre"
  shows "\<exists>i my v. i < length pre \<and> pre ! i = Got (PEvaluateGate n my) (Done v) \<and>
    (\<forall>j. i < j \<and> j < length pre \<longrightarrow> \<not> gates (pre ! j)) \<and> v_sha (view i n) = sha \<and>
    (\<forall>p \<in> set (v_files (view i n)). is_production_path p \<longrightarrow>
       released my (rows_of (m_repo d) (v_table (view i n))) p) \<and>
    last_word (applied_for n my) applies pre"
proof -
  obtain my where gate: "last_word (gate_ok n my sha) gates pre" and applied: "last_word (applied_for n my) applies pre"
    using run_production_allows [OF assms(1)] by (auto simp: allowed_def apply_confirmed_def)
  obtain i where i: "i < length pre" "gate_ok n my sha (pre ! i)" "\<forall>j. i < j \<and> j < length pre \<longrightarrow> \<not> gates (pre ! j)"
    using last_word_at [OF gate] by blast
  obtain v where v: "pre ! i = Got (PEvaluateGate n my) (Done v)" "truthy (dict_get (dict_of v) ''mergeable'')"
    "dict_get (dict_of v) ''head_sha'' = sha"
    using i(2) by (cases "(n, my, sha, pre ! i)" rule: gate_ok.cases) auto
  let ?v = "view i n"
  have t: "unique_dirs (v_table ?v)" and verdict: "v = gate_value (fst (evaluate_merge_gate (m_repo d) my (v_sha ?v)
      (v_files ?v) (v_live ?v) (v_committed ?v) (v_table ?v)))"
    using assms(2) i(1) v(1) unfolding gate_served_def by blast+
  have "v_sha ?v = sha" using v(3) verdict by simp
  moreover have "\<forall>p \<in> set (v_files ?v). is_production_path p \<longrightarrow> released my (rows_of (m_repo d) (v_table ?v)) p"
    using v(2) verdict mergeable_iff [OF t] by simp
  ultimately show ?thesis using i v(1) applied by blast
qed

text \<open>The run that merges, with the answer the activity gives for two rows of other deployments.\<close>

definition demo_view :: gate_view where
  "demo_view = \<lparr>v_sha = VStr ''def'', v_files = [''environment/prod-01/api/a.hcl'', ''docs/a.md''], v_live = None,
     v_committed = True, v_table = demo_rows\<rparr>"

definition demo_verdict :: pyval where
  "demo_verdict = gate_value (fst (evaluate_merge_gate ''acme/infra'' [''svc/api'', ''gateway''] (v_sha demo_view)
     (v_files demo_view) (v_live demo_view) (v_committed demo_view) (v_table demo_view)))"

definition gated_end :: "prod_signal turn list" where
  "gated_end = to_gate @ [pturn [] (Done demo_verdict), psays ''merged''] @ replicate 9 pfine"

definition before_gated_merge :: "pevent list" where
  "before_gated_merge = takeWhile (\<lambda>e. e \<noteq> Issued (PMergePromotion 9 (VStr ''def''))) (prod_events gated_end)"

fun expected_verdict :: "pevent \<Rightarrow> bool" where
  "expected_verdict (Got (PEvaluateGate n my) (Done v)) = (my = [''svc/api'', ''gateway''] \<and> v = demo_verdict)"
| "expected_verdict _ = True"

theorem promotion_carries_only_applied_witness:
  "\<exists>i my v. before_gated_merge ! i = Got (PEvaluateGate 9 my) (Done v) \<and>
     released my (rows_of ''acme/infra'' demo_rows) ''environment/prod-01/api/a.hcl'' \<and>
     last_word (applied_for 9 my) applies before_gated_merge"
proof -
  have run: "prod_events gated_end = before_gated_merge @ Issued (PMergePromotion 9 (VStr ''def'')) #
    drop (length before_gated_merge + 1) (prod_events gated_end)"
    by code_simp
  have "list_all expected_verdict before_gated_merge" by code_simp
  then have only: "expected_verdict e" if "e \<in> set before_gated_merge" for e using that by (simp add: list_all_iff)
  have u: "unique_dirs (v_table demo_view)" by (simp add: demo_view_def demo_rows_def)
  have served: "gate_served (m_repo demo_prod) (\<lambda>_ _. demo_view) before_gated_merge"
    unfolding gate_served_def demo_prod_def promotion.simps
  proof (intro allI impI conjI u)
    fix i n my v
    assume "i < length before_gated_merge" "before_gated_merge ! i = Got (PEvaluateGate n my) (Done v)"
    then have "expected_verdict (Got (PEvaluateGate n my) (Done v))" using only nth_mem by metis
    then have my: "my = [''svc/api'', ''gateway'']" and v: "v = demo_verdict" by (simp_all only: expected_verdict.simps)
    show "v = gate_value (fst (evaluate_merge_gate ''acme/infra'' my (v_sha demo_view) (v_files demo_view)
        (v_live demo_view) (v_committed demo_view) (v_table demo_view)))"
      unfolding my v demo_verdict_def ..
  qed
  have prod: "is_production_path ''environment/prod-01/api/a.hcl''" by code_simp
  have changed: "''environment/prod-01/api/a.hcl'' \<in> set (v_files demo_view)" by (simp add: demo_view_def)
  have repo: "m_repo demo_prod = ''acme/infra''" "v_table demo_view = demo_rows"
    by (simp_all add: demo_prod_def demo_view_def)
  from promotion_carries_only_applied [OF run [unfolded prod_events_def [of gated_end] prod_run_def] served]
  show ?thesis using prod changed unfolding repo by blast
qed

end
