(* ===== verification/CoordinatorLoops.thy ===== *)
theory CoordinatorLoops
  imports Coordinator
begin

text \<open>
  The coordinator's long-running parts (\<open>coordinator_workflow.py\<close>, \<open>run\<close> and
  \<open>_merge_queue_loop\<close>): the merge loop as a state machine over the same coordinator state,
  and the continue-as-new reset that carries the state into a fresh run.
\<close>

section \<open>The merge queue loop\<close>

text \<open>
  Where the loop is parked: waiting for an item, awaiting the resolve activity, or waiting for
  the pull request to merge or close.  \<open>item_live\<close> is whether the item the loop refers to is
  still the object at the front of the queue (the test-only reset replaces the queue).
  \<open>MDead\<close>: \<open>pop(0)\<close> on an empty list raised.
\<close>

datatype merge_phase = MWaiting | MResolving | MHolding | MDead

record merge_loop =
  coord :: coordinator
  phase :: merge_phase
  item_live :: bool

text \<open>\<open>MActivityDone\<close> covers success and failure of the activity: both are caught and logged.\<close>

datatype merge_event = MSignal coord_signal | MPick | MActivityDone | MReleased | MTimeout

definition init_loop :: merge_loop where
  "init_loop = \<lparr>coord = init_coordinator, phase = MWaiting, item_live = True\<rparr>"

definition front_released :: "merge_loop \<Rightarrow> bool" where
  "front_released l =
     (item_live l \<and>
      (case merge_queue (coord l) of [] \<Rightarrow> False | m # _ \<Rightarrow> mi_released m = Some True))"

definition pop_front :: "merge_loop \<Rightarrow> merge_loop" where
  "pop_front l =
     (case merge_queue (coord l) of
        [] \<Rightarrow> l\<lparr>phase := MDead\<rparr>
      | m # ms \<Rightarrow> l\<lparr>coord := (coord l)\<lparr>merge_queue := ms\<rparr>, phase := MWaiting\<rparr>)"

text \<open>
  One event; \<open>None\<close> when the event cannot happen in this state.  The second component is the
  pull request whose conflict resolution starts.
\<close>

fun merge_step :: "merge_event \<Rightarrow> merge_loop \<Rightarrow> (merge_loop \<times> int list) option" where
  "merge_step (MSignal e) l =
     Some (l\<lparr>coord := fst (handle e (coord l)), item_live := (item_live l \<and> e \<noteq> ResetState)\<rparr>, [])"
| "merge_step MPick l =
     (case merge_queue (coord l) of
        [] \<Rightarrow> None
      | m # ms \<Rightarrow>
          if phase l = MWaiting
          then Some (l\<lparr>coord := (coord l)\<lparr>merge_queue := m\<lparr>mi_released := Some False\<rparr> # ms\<rparr>,
                       phase := MResolving, item_live := True\<rparr>, [pr_number m])
          else None)"
| "merge_step MActivityDone l =
     (if phase l = MResolving then Some (l\<lparr>phase := MHolding\<rparr>, []) else None)"
| "merge_step MReleased l =
     (if phase l = MHolding \<and> front_released l then Some (pop_front l, []) else None)"
| "merge_step MTimeout l =
     (if phase l = MHolding then Some (pop_front l, []) else None)"

fun merge_run :: "merge_event list \<Rightarrow> merge_loop \<Rightarrow> (merge_loop \<times> int list) option" where
  "merge_run [] l = Some (l, [])"
| "merge_run (e # es) l =
     (case merge_step e l of
        None \<Rightarrow> None
      | Some (l1, ps) \<Rightarrow>
          (case merge_run es l1 of None \<Rightarrow> None | Some (l2, qs) \<Rightarrow> Some (l2, ps @ qs)))"

text \<open>The queue entries whose resolution has not started yet, and the ones a history adds.\<close>

definition unpicked :: "merge_loop \<Rightarrow> int list" where
  "unpicked l = map pr_number
     (if phase l = MWaiting then merge_queue (coord l) else tl (merge_queue (coord l)))"

fun enqueued :: "merge_event list \<Rightarrow> int list" where
  "enqueued [] = []"
| "enqueued (MSignal (EnqueueMerge n r t u) # es) = n # enqueued es"
| "enqueued (_ # es) = enqueued es"

definition loop_inv :: "merge_loop \<Rightarrow> bool" where
  "loop_inv l \<longleftrightarrow> phase l \<noteq> MDead \<and> (phase l \<noteq> MWaiting \<longrightarrow> merge_queue (coord l) \<noteq> [])"

lemma merge_queue_scan [simp]: "merge_queue (fst (scan_and_grant s)) = merge_queue s"
  by (simp add: scan_and_grant_def split: prod.splits)

lemma merge_queue_handle:
  "e \<noteq> ResetState \<Longrightarrow>
   map pr_number (merge_queue (fst (handle e s))) =
     map pr_number (merge_queue s) @ enqueued [MSignal e]"
  by (cases e)
     (auto simp: handler_defs abort_projections pr_merge_completed_def split: list.splits)

lemma merge_step_fifo:
  assumes "merge_step e l = Some (l', ps)" and "loop_inv l" and "e \<noteq> MSignal ResetState"
  shows "loop_inv l' \<and> ps @ unpicked l' = unpicked l @ enqueued [e]"
proof (cases e)
  case (MSignal sig)
  with assms have l': "l' = l\<lparr>coord := fst (handle sig (coord l)), item_live := item_live l\<rparr>"
    and ps: "ps = []" and sig: "sig \<noteq> ResetState" by auto
  note q = merge_queue_handle [OF sig, of "coord l"]
  have ne: "merge_queue (coord l) \<noteq> [] \<Longrightarrow> merge_queue (fst (handle sig (coord l))) \<noteq> []"
    using q by (metis Nil_is_append_conv map_is_Nil_conv)
  have "map pr_number (tl (merge_queue (fst (handle sig (coord l))))) =
        map pr_number (tl (merge_queue (coord l))) @ enqueued [e]"
    if "merge_queue (coord l) \<noteq> []"
    using q that MSignal by (simp add: map_tl)
  with assms(2) ne q MSignal show ?thesis
    by (auto simp: l' ps loop_inv_def unpicked_def)
next
  case MPick
  with assms show ?thesis
    by (auto simp: loop_inv_def unpicked_def split: list.splits if_splits)
next
  case MActivityDone
  with assms show ?thesis by (auto simp: loop_inv_def unpicked_def split: if_splits)
next
  case MReleased
  with assms show ?thesis
    by (auto simp: loop_inv_def unpicked_def pop_front_def split: list.splits if_splits)
next
  case MTimeout
  with assms show ?thesis
    by (auto simp: loop_inv_def unpicked_def pop_front_def split: list.splits if_splits)
qed

lemma enqueued_Cons: "enqueued (e # es) = enqueued [e] @ enqueued es"
proof (cases e)
  case (MSignal x)
  then show ?thesis by (cases x) auto
qed auto

text \<open>
  C29: The merge queue is processed strictly one at a time and first in, first out.  In any history
  of the loop without the test-only reset, the pull requests whose resolution has started,
  followed by those still waiting, are exactly the ones that waited at the beginning followed by
  the ones enqueued since, in arrival order; and the loop never pops an empty queue.
\<close>

theorem merge_queue_fifo:
  assumes "merge_run es l = Some (l', started)" and "loop_inv l" and "MSignal ResetState \<notin> set es"
  shows "started @ unpicked l' = unpicked l @ enqueued es \<and> phase l' \<noteq> MDead"
proof -
  have "loop_inv l' \<and> started @ unpicked l' = unpicked l @ enqueued es"
    using assms
  proof (induction es arbitrary: l l' started)
    case Nil
    then show ?case by simp
  next
    case (Cons e es)
    from Cons.prems(1) obtain l1 ps qs where s: "merge_step e l = Some (l1, ps)"
      and r: "merge_run es l1 = Some (l', qs)" and st: "started = ps @ qs"
      by (auto split: option.splits)
    have one: "loop_inv l1" "ps @ unpicked l1 = unpicked l @ enqueued [e]"
      using merge_step_fifo [OF s Cons.prems(2)] Cons.prems(3) by auto
    from Cons.IH [OF r one(1)] Cons.prems(3)
    have "loop_inv l'" "qs @ unpicked l' = unpicked l1 @ enqueued es" by auto
    with one(2) st show ?case by (simp add: enqueued_Cons [of e es])
  qed
  then show ?thesis by (simp add: loop_inv_def)
qed

lemma merge_queue_fifo_witness:
  "\<exists>l' started.
     merge_run [MSignal (EnqueueMerge 7 ''r'' ''t'' ''u''), MPick,
                MSignal (EnqueueMerge 8 ''r'' ''t'' ''u''), MActivityDone,
                MSignal (PrMergeCompleted 7), MReleased] init_loop = Some (l', started) \<and>
     started @ unpicked l' = [7, 8] \<and> phase l' \<noteq> MDead"
proof -
  let ?es = "[MSignal (EnqueueMerge 7 ''r'' ''t'' ''u''), MPick,
                MSignal (EnqueueMerge 8 ''r'' ''t'' ''u''), MActivityDone,
                MSignal (PrMergeCompleted 7), MReleased]"
  obtain l' started where r: "merge_run ?es init_loop = Some (l', started)"
    by (simp add: init_loop_def init_coordinator_def enqueue_merge_def pr_merge_completed_def
          front_released_def)
  have "started @ unpicked l' = unpicked init_loop @ enqueued ?es \<and> phase l' \<noteq> MDead"
    by (rule merge_queue_fifo [OF r]) (simp_all add: loop_inv_def init_loop_def)
  then have "started @ unpicked l' = [7, 8] \<and> phase l' \<noteq> MDead"
    by (simp add: unpicked_def init_loop_def init_coordinator_def)
  with r show ?thesis by blast
qed

section \<open>Continue-as-new\<close>

text \<open>The snapshot handed to \<open>workflow.continue_as_new\<close> and what \<open>run\<close> makes of it.\<close>

record carried_state =
  cs_locks :: "lock_table option"
  cs_hold_queue :: "hold list option"
  cs_merge_queue :: "merge_item list option"

definition snapshot :: "coordinator \<Rightarrow> carried_state" where
  "snapshot s = \<lparr>cs_locks = Some (locks s), cs_hold_queue = Some (hold_queue s),
                 cs_merge_queue = Some (merge_queue s)\<rparr>"

definition or_empty :: "'a list option \<Rightarrow> 'a list" where
  "or_empty x = (case x of None \<Rightarrow> [] | Some xs \<Rightarrow> xs)"

definition start_run :: "carried_state option \<Rightarrow> coordinator" where
  "start_run carried =
     (case carried of
        None \<Rightarrow> init_coordinator
      | Some c \<Rightarrow> \<lparr>locks = or_empty (cs_locks c), hold_queue = or_empty (cs_hold_queue c),
                   merge_queue = or_empty (cs_merge_queue c)\<rparr>)"

text \<open>
  When the run is reset: a reset is due (the server suggests it, the history passed the own
  threshold, or the 30-day timer fired), the merge queue is empty and no handler is running.
\<close>

definition history_reset_at :: nat where "history_reset_at = 5000"

definition reset_due :: "bool \<Rightarrow> nat \<Rightarrow> bool \<Rightarrow> bool" where
  "reset_due suggested history timer_fired = (suggested \<or> history > history_reset_at \<or> timer_fired)"

definition reset_gate :: "bool \<Rightarrow> coordinator \<Rightarrow> bool" where
  "reset_gate handlers_finished s = (merge_queue s = [] \<and> handlers_finished)"

lemma start_run_snapshot [simp]: "start_run (Some (snapshot s)) = s"
  by (simp add: start_run_def snapshot_def or_empty_def)

section \<open>The reentrant request that queues\<close>

text \<open>
  A child workflow queued while its parent holds one of its directories is skipped by the grant
  scan of every other workflow's release: the scan asks for all directories to be free and never
  looks at \<open>parent_holder_id\<close>, although a fresh request of the child, which does look at it, may
  be grantable in the same lock table (the witness: \<open>C\<close>, child of \<open>P\<close>, queues behind \<open>X\<close>; when
  \<open>X\<close> releases, \<open>C\<close> stays queued while the same request sent again would be granted).
\<close>

theorem queued_child_is_skipped:
  assumes "h \<in> set (hold_queue s)" and "parent_holder_id h = Some p" and "d \<in> set (required_dirs h)"
    and "map_of (locks s) d = Some p" and "v \<noteq> p"
  shows "h \<notin> set (granted_holds (ReleaseLocks v r) s)"
proof
  let ?L = "drop_owned v (dirs_to_release v r (locks s)) (locks s)"
  assume "h \<in> set (granted_holds (ReleaseLocks v r) s)"
  then have "map_of ?L d = None"
    using assms(3) grant_scan_grants [OF prod.collapse [symmetric]] by (metis granted_holds.simps(2))
  with assms(4,5) show False by (simp add: lock_table split: if_splits)
qed

definition behind_x :: coordinator where
  "behind_x = fold coord_step
     [AcquireLocks ''P'' [''a''] ''u'' None, AcquireLocks ''X'' [''b''] ''u'' None,
      AcquireLocks ''C'' [''a'', ''b''] ''u'' (Some ''P'')] init_coordinator"

lemma behind_x_value:
  "behind_x = \<lparr>locks = [(''a'', ''P''), (''b'', ''X'')],
     hold_queue = [\<lparr>workflow_id = ''C'', required_dirs = [''a'', ''b''], user_code = ''u'',
                    parent_holder_id = Some ''P''\<rparr>], merge_queue = []\<rparr>"
  by (simp add: behind_x_def acquire_locks_def init_coordinator_def blocked_dirs_def)

lemma queued_child_is_skipped_witness:
  "hd (hold_queue behind_x) \<notin> set (granted_holds (ReleaseLocks ''X'' (Some [''b''])) behind_x) \<and>
   map workflow_id (hold_queue (coord_step (ReleaseLocks ''X'' (Some [''b''])) behind_x)) = [''C''] \<and>
   snd (acquire_locks ''C'' [''a'', ''b''] ''u'' (Some ''P'')
          (coord_step (ReleaseLocks ''X'' (Some [''b''])) behind_x)) = [LocksGranted ''C'']"
proof (intro conjI)
  show "hd (hold_queue behind_x) \<notin> set (granted_holds (ReleaseLocks ''X'' (Some [''b''])) behind_x)"
    by (rule queued_child_is_skipped [where p = "''P''" and d = "''a''"]) (simp_all add: behind_x_value)
qed (simp_all add: behind_x_value acquire_locks_def release_locks_def blocked_dirs_def
       scan_and_grant_def dirs_to_release_def all_free_def)

end
