(* ===== verification/CoordinatorInterleaving.thy ===== *)
theory CoordinatorInterleaving
  imports Coordinator "HOL-Library.Multiset"
begin

text \<open>
  The coordinator's handlers as the event loop runs them (\<open>coordinator_workflow.py\<close>).  Every
  \<open>await\<close> of an outgoing signal suspends the handler, and other signals are handled meanwhile.
  A \<open>for hold in self._hold_queue\<close> loop keeps iterating the list object it started on, by
  index, while \<open>self._hold_queue\<close> may be extended, shortened or rebound to a new list; so the
  queue lives in a store of list objects and \<open>f_cur\<close> is the object the attribute refers to.
  \<open>f_sent\<close> logs the signals sent to other workflows.
\<close>

section \<open>Handlers with their suspension points\<close>

text \<open>
  A suspended handler: inside the grant scan of object \<open>o\<close> before index \<open>i\<close> with the entries it
  granted so far, or inside the abort loop of object \<open>o\<close> before index \<open>i\<close> with the entries it
  keeps so far.
\<close>

datatype task =
    ScanTask nat nat "hold list"
  | AbortTask wfid "dir list" string nat nat "hold list"

record fstate =
  f_locks :: lock_table
  f_objs :: "nat \<Rightarrow> hold list"
  f_cur :: nat
  f_next :: nat
  f_tasks :: "task list"
  f_errors :: nat
  f_merge :: "merge_item list"
  f_sent :: "out_signal list"

datatype fevent = FSignal coord_signal | FResume nat

definition init_fstate :: fstate where
  "init_fstate = \<lparr>f_locks = [], f_objs = (\<lambda>_. []), f_cur = 0, f_next = 1, f_tasks = [], f_errors = 0,
     f_merge = [], f_sent = []\<rparr>"

definition f_queue :: "fstate \<Rightarrow> hold list" where
  "f_queue s = f_objs s (f_cur s)"

text \<open>\<open>self._hold_queue = q\<close>: a new list object.\<close>

definition rebind :: "hold list \<Rightarrow> fstate \<Rightarrow> fstate" where
  "rebind q s = s\<lparr>f_objs := (f_objs s)(f_next s := q), f_cur := f_next s, f_next := Suc (f_next s)\<rparr>"

text \<open>The scan loop up to its next grant: the index after it, the entry, the new lock table.\<close>

fun scan_from :: "hold list \<Rightarrow> nat \<Rightarrow> lock_table \<Rightarrow> (nat \<times> hold \<times> lock_table) option" where
  "scan_from [] i L = None"
| "scan_from (h # hs) i L =
     (if all_free L (required_dirs h)
      then Some (Suc i, h, assign_all (workflow_id h) (required_dirs h) L)
      else scan_from hs (Suc i) L)"

text \<open>
  \<open>for t in triggered: self._hold_queue.remove(t)\<close> on the list the attribute refers to now;
  \<open>remove\<close> raises when the entry is not there.
\<close>

fun remove_each :: "hold list \<Rightarrow> hold list \<Rightarrow> hold list \<times> bool" where
  "remove_each [] q = (q, True)"
| "remove_each (t # ts) q = (if t \<in> set q then remove_each ts (remove1 t q) else (q, False))"

definition finish_scan :: "hold list \<Rightarrow> fstate \<Rightarrow> fstate" where
  "finish_scan triggered s =
     (case remove_each triggered (f_queue s) of
        (q, ok) \<Rightarrow> s\<lparr>f_objs := (f_objs s)(f_cur s := q),
                     f_errors := (if ok then f_errors s else Suc (f_errors s))\<rparr>)"

text \<open>Run a scan until it suspends or ends; the entries granted on the way.\<close>

definition run_scan :: "nat \<Rightarrow> nat \<Rightarrow> hold list \<Rightarrow> fstate \<Rightarrow> fstate \<times> hold list" where
  "run_scan ob i triggered s =
     (case scan_from (drop i (f_objs s ob)) i (f_locks s) of
        None \<Rightarrow> (finish_scan triggered s, [])
      | Some (j, h, L) \<Rightarrow>
          (s\<lparr>f_locks := L, f_tasks := f_tasks s @ [ScanTask ob j (triggered @ [h])],
             f_sent := f_sent s @ [LocksGranted (workflow_id h)]\<rparr>, [h]))"

text \<open>The abort loop up to its next \<open>await\<close>: the entry it aborts, or the end of the list.\<close>

fun abort_from :: "dir list \<Rightarrow> hold list \<Rightarrow> nat \<Rightarrow> hold list \<Rightarrow> (nat \<times> hold) option \<times> hold list" where
  "abort_from ds [] i kept = (None, kept)"
| "abort_from ds (h # hs) i kept =
     (if overlaps ds h then (Some (Suc i, h), kept) else abort_from ds hs (Suc i) (kept @ [h]))"

definition run_abort ::
  "wfid \<Rightarrow> dir list \<Rightarrow> string \<Rightarrow> nat \<Rightarrow> nat \<Rightarrow> hold list \<Rightarrow> fstate \<Rightarrow> fstate \<times> hold list" where
  "run_abort w ds why ob i kept s =
     (case abort_from ds (drop i (f_objs s ob)) i kept of
        (Some (j, h), kept') \<Rightarrow>
          (s\<lparr>f_tasks := f_tasks s @ [AbortTask w ds why ob j kept'],
             f_sent := f_sent s @ [AtlasLockAbort (workflow_id h) why]\<rparr>, [])
      | (None, kept') \<Rightarrow>
          (let s1 = rebind kept' s; s2 = s1\<lparr>f_locks := drop_owned w ds (f_locks s1)\<rparr>
           in run_scan (f_cur s2) 0 [] s2))"

fun run_task :: "task \<Rightarrow> fstate \<Rightarrow> fstate \<times> hold list" where
  "run_task (ScanTask ob i triggered) s = run_scan ob i triggered s"
| "run_task (AbortTask w ds why ob i kept) s = run_abort w ds why ob i kept s"

text \<open>One turn of the event loop: a signal arrives, or a suspended handler's \<open>await\<close> returns.\<close>

fun fstep :: "fevent \<Rightarrow> fstate \<Rightarrow> fstate \<times> hold list" where
  "fstep (FSignal (AcquireLocks w ds u p)) s =
     (let h = \<lparr>workflow_id = w, required_dirs = ds, user_code = u, parent_holder_id = p\<rparr>
      in if blocked_dirs (f_locks s) ds p = []
         then (s\<lparr>f_locks := claim_free w ds (f_locks s), f_sent := f_sent s @ [LocksGranted w]\<rparr>, [h])
         else (s\<lparr>f_objs := (f_objs s)(f_cur s := f_queue s @ [h])\<rparr>, []))"
| "fstep (FSignal (ReleaseHold w)) s = (rebind (filter (\<lambda>h. workflow_id h \<noteq> w) (f_queue s)) s, [])"
| "fstep (FSignal (ReleaseLocks w r)) s =
     (let s1 = s\<lparr>f_locks := drop_owned w (dirs_to_release w r (f_locks s)) (f_locks s)\<rparr>
      in run_scan (f_cur s1) 0 [] s1)"
| "fstep (FSignal (AbortQueuedForDirs w ds why)) s = run_abort w ds why (f_cur s) 0 [] s"
| "fstep (FSignal ResetState) s = (rebind [] (s\<lparr>f_locks := [], f_merge := []\<rparr>), [])"
| "fstep (FSignal (PrMergeCompleted n)) s =
     (case f_merge s of
        [] \<Rightarrow> (s, [])
      | m # ms \<Rightarrow> (if pr_number m = n then s\<lparr>f_merge := m\<lparr>mi_released := Some True\<rparr> # ms\<rparr> else s, []))"
| "fstep (FSignal (EnqueueMerge n r t u)) s =
     (s\<lparr>f_merge := f_merge s @
        [\<lparr>pr_number = n, git_repository = r, mi_tenant_code = t, mi_user_code = u, mi_released = None\<rparr>]\<rparr>, [])"
| "fstep (FResume i) s =
     (if i < length (f_tasks s)
      then run_task (f_tasks s ! i) (s\<lparr>f_tasks := take i (f_tasks s) @ drop (Suc i) (f_tasks s)\<rparr>)
      else (s, []))"

abbreviation fnext :: "fevent \<Rightarrow> fstate \<Rightarrow> fstate" where
  "fnext e s \<equiv> fst (fstep e s)"

section \<open>The lock contract holds under every interleaving\<close>

fun task_relinquishes :: "wfid \<Rightarrow> dir \<Rightarrow> task \<Rightarrow> bool" where
  "task_relinquishes w d (ScanTask ob i ts) = False"
| "task_relinquishes w d (AbortTask v ds why ob i kept) = (v = w \<and> d \<in> set ds)"

fun f_relinquishes :: "wfid \<Rightarrow> dir \<Rightarrow> fevent \<Rightarrow> fstate \<Rightarrow> bool" where
  "f_relinquishes w d (FSignal e) s = relinquishes e w d"
| "f_relinquishes w d (FResume i) s = (i < length (f_tasks s) \<and> task_relinquishes w d (f_tasks s ! i))"

lemma scan_from_mono:
  "scan_from q i L = Some (j, h, L') \<Longrightarrow> map_of L d = Some w \<Longrightarrow> map_of L' d = Some w"
  by (induction q i L rule: scan_from.induct) (auto simp: lock_table all_free_iff split: if_splits)

lemma scan_from_grant:
  "scan_from q i L = Some (j, h, L') \<Longrightarrow> d \<in> set (required_dirs h) \<Longrightarrow>
   map_of L' d = Some (workflow_id h) \<and> map_of L d = None"
  by (induction q i L rule: scan_from.induct) (auto simp: lock_table all_free_iff split: if_splits)

lemma f_locks_finish_scan [simp]: "f_locks (finish_scan ts s) = f_locks s"
  by (simp add: finish_scan_def split: prod.splits)

lemma f_locks_rebind [simp]: "f_locks (rebind q s) = f_locks s"
  by (simp add: rebind_def)

lemma run_scan_keeps: "map_of (f_locks s) d = Some w \<Longrightarrow> map_of (f_locks (fst (run_scan ob i ts s))) d = Some w"
  by (auto simp: run_scan_def split: option.splits dest: scan_from_mono)

lemma run_scan_grant:
  "h \<in> set (snd (run_scan ob i ts s)) \<Longrightarrow> d \<in> set (required_dirs h) \<Longrightarrow>
   map_of (f_locks (fst (run_scan ob i ts s))) d = Some (workflow_id h)"
  by (auto simp: run_scan_def split: option.splits dest: scan_from_grant)

lemma run_abort_keeps:
  "map_of (f_locks s) d = Some w \<Longrightarrow> \<not> (v = w \<and> d \<in> set ds) \<Longrightarrow>
   map_of (f_locks (fst (run_abort v ds why ob i kept s))) d = Some w"
  by (auto simp: run_abort_def Let_def lock_table split: prod.splits option.splits
           intro!: run_scan_keeps)

lemma run_abort_grant:
  "h \<in> set (snd (run_abort v ds why ob i kept s)) \<Longrightarrow> d \<in> set (required_dirs h) \<Longrightarrow>
   map_of (f_locks (fst (run_abort v ds why ob i kept s))) d = Some (workflow_id h)"
  by (auto simp: run_abort_def Let_def split: prod.splits option.splits dest: run_scan_grant)

lemma run_task_keeps:
  "map_of (f_locks s) d = Some w \<Longrightarrow> \<not> task_relinquishes w d t \<Longrightarrow>
   map_of (f_locks (fst (run_task t s))) d = Some w"
  by (cases t) (auto intro: run_scan_keeps run_abort_keeps)

lemma run_task_grant:
  "h \<in> set (snd (run_task t s)) \<Longrightarrow> d \<in> set (required_dirs h) \<Longrightarrow>
   map_of (f_locks (fst (run_task t s))) d = Some (workflow_id h)"
  by (cases t) (auto intro: run_scan_grant run_abort_grant)

lemma fstep_keeps:
  assumes "map_of (f_locks s) d = Some w" and "\<not> f_relinquishes w d e s"
  shows "map_of (f_locks (fnext e s)) d = Some w"
proof (cases e)
  case (FResume i)
  with assms show ?thesis by (auto intro: run_task_keeps)
next
  case (FSignal sig)
  show ?thesis
  proof (cases sig)
    case (AcquireLocks v ds u p)
    with assms FSignal show ?thesis by (auto simp: Let_def lock_table)
  next
    case (ReleaseLocks v r)
    have "map_of (drop_owned v (dirs_to_release v r (f_locks s)) (f_locks s)) d = Some w"
      using assms FSignal ReleaseLocks
      by (auto simp: lock_table dirs_to_release_def split: option.splits if_splits)
    with FSignal ReleaseLocks show ?thesis by (auto simp: Let_def intro: run_scan_keeps)
  next
    case (AbortQueuedForDirs v ds why)
    with assms FSignal show ?thesis by (auto intro: run_abort_keeps)
  qed (use assms FSignal in \<open>auto split: list.splits if_splits\<close>)
qed

lemma fstep_grant_sound:
  assumes "h \<in> set (snd (fstep e s))" and "d \<in> set (required_dirs h)"
  shows "\<exists>v. map_of (f_locks (fnext e s)) d = Some v \<and> (v = workflow_id h \<or> parent_holder_id h = Some v)"
proof (cases e)
  case (FResume i)
  with assms show ?thesis by (auto split: if_splits dest: run_task_grant)
next
  case (FSignal sig)
  show ?thesis
  proof (cases sig)
    case (AcquireLocks v ds u p)
    with assms FSignal show ?thesis
      by (auto simp: Let_def lock_table blocked_dirs_Nil_iff split: if_splits option.splits)
  next
    case (ReleaseLocks v r)
    with assms FSignal show ?thesis by (auto simp: Let_def dest: run_scan_grant)
  next
    case (AbortQueuedForDirs v ds why)
    with assms FSignal show ?thesis by (auto dest: run_abort_grant)
  qed (use assms FSignal in \<open>auto split: list.splits if_splits\<close>)
qed

interpretation fine: lock_service
  "\<lambda>s d. map_of (f_locks s) d" fnext f_relinquishes
  "\<lambda>e s. map (\<lambda>h. (workflow_id h, required_dirs h, parent_holder_id h)) (snd (fstep e s))"
  by unfold_locales (auto intro: fstep_keeps dest: fstep_grant_sound)

text \<open>
  C28: Mutual exclusion does not depend on handlers running one at a time.  However the suspended
  handlers of the coordinator interleave, once \<open>w\<close> holds a directory and until a release, abort or
  reset lets go of it, only \<open>w\<close> or a request that names \<open>w\<close> as its parent is granted it.
\<close>

theorem interleaved_mutual_exclusion:
  assumes "map_of (f_locks s) d = Some w"
    and "never fnext (f_relinquishes w d) (es @ [e']) s"
    and "h \<in> set (snd (fstep e' (fold fnext es s)))" and "d \<in> set (required_dirs h)"
  shows "workflow_id h = w \<or> parent_holder_id h = Some w"
proof -
  have "(workflow_id h, required_dirs h, parent_holder_id h) \<in>
      set (map (\<lambda>h. (workflow_id h, required_dirs h, parent_holder_id h))
             (snd (fstep e' (fold fnext es s))))"
    using assms(3) by force
  from fine.exclusive [OF assms(1,2) this assms(4)] show ?thesis .
qed

lemma interleaved_mutual_exclusion_witness:
  "let s = init_fstate\<lparr>f_locks := [(''a'', ''P'')]\<rparr>;
       h = \<lparr>workflow_id = ''C'', required_dirs = [''a''], user_code = ''u'', parent_holder_id = Some ''P''\<rparr>
   in h \<in> set (snd (fstep (FSignal (AcquireLocks ''C'' [''a''] ''u'' (Some ''P''))) s)) \<and>
      (workflow_id h = ''P'' \<or> parent_holder_id h = Some ''P'')"
proof -
  let ?s = "init_fstate\<lparr>f_locks := [(''a'', ''P'')]\<rparr>"
  let ?h = "\<lparr>workflow_id = ''C'', required_dirs = [''a''], user_code = ''u'', parent_holder_id = Some ''P''\<rparr>"
  let ?e = "FSignal (AcquireLocks ''C'' [''a''] ''u'' (Some ''P''))"
  have g: "?h \<in> set (snd (fstep ?e ?s))" by (simp add: blocked_dirs_def Let_def)
  have "workflow_id ?h = ''P'' \<or> parent_holder_id ?h = Some ''P''"
    by (rule interleaved_mutual_exclusion [where s = ?s and d = "''a''" and es = "[]" and e' = ?e])
       (simp_all add: blocked_dirs_def Let_def)
  with g show ?thesis by (simp add: Let_def)
qed

section \<open>Without interleaving, the handlers are the atomic ones\<close>

text \<open>Resume the oldest suspended handler until none is left, at most \<open>n\<close> times.\<close>

fun drain :: "nat \<Rightarrow> fstate \<Rightarrow> fstate" where
  "drain 0 s = s"
| "drain (Suc n) s = (if f_tasks s = [] then s else drain n (fnext (FResume 0) s))"

definition fabs :: "fstate \<Rightarrow> coordinator" where
  "fabs s = \<lparr>locks = f_locks s, hold_queue = f_queue s, merge_queue = f_merge s\<rparr>"

abbreviation grants_of :: "hold list \<Rightarrow> out_signal list" where
  "grants_of hs \<equiv> map (\<lambda>h. LocksGranted (workflow_id h)) hs"

lemma drain_done [simp]: "f_tasks s = [] \<Longrightarrow> drain n s = s"
  by (cases n) auto

lemma drain_step: "f_tasks s = [t] \<Longrightarrow> drain (Suc n) s = drain n (fst (run_task t (s\<lparr>f_tasks := []\<rparr>)))"
  by simp

lemma scan_from_None: "scan_from q i L = None \<Longrightarrow> grant_scan q L = (L, [])"
  by (induction q i L rule: scan_from.induct) (auto split: if_splits)

lemma scan_from_lt: "scan_from q i L = Some (j, h, L1) \<Longrightarrow> i < j \<and> j \<le> i + length q"
  by (induction q i L rule: scan_from.induct) (auto split: if_splits)

lemma scan_from_Some:
  "scan_from q i L = Some (j, h, L1) \<Longrightarrow> grant_scan (drop (j - i) q) L1 = (L', ts) \<Longrightarrow>
   grant_scan q L = (L', h # ts)"
proof (induction q i L rule: scan_from.induct)
  case (2 k hs i L)
  show ?case
  proof (cases "all_free L (required_dirs k)")
    case True
    with 2 show ?thesis by auto
  next
    case False
    with "2.prems"(1) have r: "scan_from hs (Suc i) L = Some (j, h, L1)" by simp
    have "Suc i < j" using scan_from_lt [OF r] by simp
    then have "drop (j - i) (k # hs) = drop (j - Suc i) hs"
      by (metis Suc_diff_Suc Suc_lessD drop_Suc_Cons)
    with "2.prems"(2) "2.IH" [OF False r] False show ?thesis by auto
  qed
qed simp

text \<open>A scan that nothing disturbs ends with the table and the removals of \<open>grant_scan\<close>, having sent its grants.\<close>

lemma drain_scan:
  assumes "f_tasks s = []" and "grant_scan (drop i (f_objs s ob)) (f_locks s) = (L', ts)"
  shows "\<exists>n. drain n (fst (run_scan ob i acc s)) =
    finish_scan (acc @ ts) (s\<lparr>f_locks := L', f_sent := f_sent s @ grants_of ts\<rparr>)"
  using assms
proof (induction "length (f_objs s ob) - i" arbitrary: i s acc ts rule: less_induct)
  case less
  show ?case
  proof (cases "scan_from (drop i (f_objs s ob)) i (f_locks s)")
    case None
    with scan_from_None [OF None] less.prems have "ts = []" "L' = f_locks s" by auto
    with None show ?thesis by (intro exI [of _ 0]) (simp add: run_scan_def)
  next
    case (Some r)
    then obtain j h L1 where r: "scan_from (drop i (f_objs s ob)) i (f_locks s) = Some (j, h, L1)"
      by (cases r) auto
    have ij: "i < j" and j: "j \<le> i + length (drop i (f_objs s ob))"
      using scan_from_lt [OF r] by auto
    obtain L2 ts2 where g: "grant_scan (drop (j - i) (drop i (f_objs s ob))) L1 = (L2, ts2)"
      by (cases "grant_scan (drop (j - i) (drop i (f_objs s ob))) L1")
    with scan_from_Some [OF r g] less.prems have L2: "L2 = L'" and ts: "ts = h # ts2" by auto
    let ?s = "s\<lparr>f_locks := L1, f_sent := f_sent s @ [LocksGranted (workflow_id h)]\<rparr>"
    have run: "fst (run_scan ob i acc s) = ?s\<lparr>f_tasks := [ScanTask ob j (acc @ [h])]\<rparr>"
      using less.prems(1) r by (simp add: run_scan_def)
    have ex: "\<exists>n. drain n (fst (run_scan ob j (acc @ [h]) ?s)) =
          finish_scan ((acc @ [h]) @ ts2) (?s\<lparr>f_locks := L', f_sent := f_sent ?s @ grants_of ts2\<rparr>)"
    proof (rule less.hyps)
      show "length (f_objs ?s ob) - j < length (f_objs s ob) - i"
        using ij j by (cases "i < length (f_objs s ob)") auto
      show "f_tasks ?s = []" using less.prems(1) by simp
      have "drop (j - i) (drop i (f_objs s ob)) = drop j (f_objs s ob)"
        using ij by simp
      with g L2 show "grant_scan (drop j (f_objs ?s ob)) (f_locks ?s) = (L', ts2)" by simp
    qed
    then obtain n where "drain n (fst (run_scan ob j (acc @ [h]) ?s)) =
          finish_scan ((acc @ [h]) @ ts2) (?s\<lparr>f_locks := L', f_sent := f_sent ?s @ grants_of ts2\<rparr>)" ..
    moreover have "?s\<lparr>f_tasks := []\<rparr> = ?s" using less.prems(1) by simp
    ultimately have "drain (Suc n) (fst (run_scan ob i acc s)) =
        finish_scan (acc @ ts) (s\<lparr>f_locks := L', f_sent := f_sent s @ grants_of ts\<rparr>)"
      by (simp add: run ts)
    then show ?thesis by blast
  qed
qed

lemma grant_scan_subseq: "grant_scan q L = (L', ts) \<Longrightarrow> mset ts \<subseteq># mset q"
proof (induction q L arbitrary: L' ts rule: grant_scan.induct)
  case (2 h hs L)
  then show ?case
    by (auto split: if_splits prod.splits intro: subset_mset.order_trans)
qed simp

lemma remove_each_all: "mset ts \<subseteq># mset q \<Longrightarrow> remove_each ts q = (remove_all ts q, True)"
proof (induction ts arbitrary: q)
  case (Cons t ts)
  then have "t \<in> set q" by (metis insert_subset_eq_iff mset.simps(2) set_mset_mset)
  moreover from Cons.prems have "mset ts \<subseteq># mset (remove1 t q)"
    by (simp add: insert_subset_eq_iff)
  ultimately show ?case using Cons.IH by simp
qed simp

text \<open>What is left of a state whose handlers have all returned.\<close>

definition settled :: "fstate \<Rightarrow> nat \<Rightarrow> coordinator \<Rightarrow> out_signal list \<Rightarrow> bool" where
  "settled t errors c sent \<longleftrightarrow> f_tasks t = [] \<and> f_errors t = errors \<and> fabs t = c \<and> f_sent t = sent"

lemma drain_release_scan:
  assumes "f_tasks s = []"
  shows "\<exists>n. settled (drain n (fst (run_scan (f_cur s) 0 [] s))) (f_errors s) (fst (scan_and_grant (fabs s)))
    (f_sent s @ snd (scan_and_grant (fabs s)))"
proof -
  obtain L' ts where g: "grant_scan (f_queue s) (f_locks s) = (L', ts)"
    by (cases "grant_scan (f_queue s) (f_locks s)")
  let ?s = "s\<lparr>f_locks := L', f_sent := f_sent s @ grants_of ts\<rparr>"
  obtain n where n: "drain n (fst (run_scan (f_cur s) 0 [] s)) = finish_scan ts ?s"
    using g drain_scan [OF assms, where i = 0 and ob = "f_cur s" and L' = L' and ts = ts and acc = "[]"]
    by (auto simp: f_queue_def)
  have r: "remove_each ts (f_queue s) = (remove_all ts (f_queue s), True)"
    by (rule remove_each_all) (rule grant_scan_subseq [OF g])
  have "f_queue ?s = f_queue s" by (simp add: f_queue_def)
  then have "finish_scan ts ?s = ?s\<lparr>f_objs := (f_objs s)(f_cur s := remove_all ts (f_queue s))\<rparr>"
    using r by (simp add: finish_scan_def)
  then show ?thesis
    using n g assms by (intro exI [of _ n]) (simp add: settled_def fabs_def scan_and_grant_def f_queue_def)
qed

lemma abort_from_None:
  "abort_from ds q i kept = (None, kept') \<Longrightarrow>
   kept' = kept @ filter (\<lambda>h. \<not> overlaps ds h) q \<and> filter (overlaps ds) q = []"
  by (induction ds q i kept rule: abort_from.induct) (auto split: if_splits)

lemma abort_from_Some:
  "abort_from ds q i kept = (Some (j, h), kept') \<Longrightarrow>
   i < j \<and> j \<le> i + length q \<and> filter (overlaps ds) q = h # filter (overlaps ds) (drop (j - i) q) \<and>
   kept' @ filter (\<lambda>h. \<not> overlaps ds h) (drop (j - i) q) = kept @ filter (\<lambda>h. \<not> overlaps ds h) q"
proof (induction ds q i kept rule: abort_from.induct)
  case (2 ds k hs i kept)
  show ?case
  proof (cases "overlaps ds k")
    case True
    with 2 show ?thesis by auto
  next
    case False
    with 2 have IH: "Suc i < j" "j \<le> Suc i + length hs"
      "filter (overlaps ds) hs = h # filter (overlaps ds) (drop (j - Suc i) hs)"
      "kept' @ filter (\<lambda>h. \<not> overlaps ds h) (drop (j - Suc i) hs) =
       (kept @ [k]) @ filter (\<lambda>h. \<not> overlaps ds h) hs" by auto
    then have "drop (j - i) (k # hs) = drop (j - Suc i) hs"
      by (metis Suc_diff_Suc Suc_lessD drop_Suc_Cons)
    with IH False show ?thesis by auto
  qed
qed simp

text \<open>
  The abort loop, undisturbed, tells every overlapping entry and reaches the point where the scan over the kept
  entries starts.
\<close>

abbreviation aborts_of :: "string \<Rightarrow> hold list \<Rightarrow> out_signal list" where
  "aborts_of why hs \<equiv> map (\<lambda>h. AtlasLockAbort (workflow_id h) why) hs"

definition abort_end :: "wfid \<Rightarrow> dir list \<Rightarrow> hold list \<Rightarrow> out_signal list \<Rightarrow> fstate \<Rightarrow> fstate" where
  "abort_end w ds kept sent s =
     (let s1 = rebind kept s in s1\<lparr>f_locks := drop_owned w ds (f_locks s1), f_sent := f_sent s1 @ sent\<rparr>)"

lemma run_abort_split:
  "run_abort w ds why ob i kept s =
     (case abort_from ds (drop i (f_objs s ob)) i kept of
        (Some (j, h), kept') \<Rightarrow>
          (s\<lparr>f_tasks := f_tasks s @ [AbortTask w ds why ob j kept'],
             f_sent := f_sent s @ [AtlasLockAbort (workflow_id h) why]\<rparr>, [])
      | (None, kept') \<Rightarrow>
          run_scan (f_cur (abort_end w ds kept' [] s)) 0 [] (abort_end w ds kept' [] s))"
  by (simp add: run_abort_def abort_end_def Let_def split: prod.split option.split)

lemma abort_end_later:
  "abort_end w ds rest sent (s\<lparr>f_sent := f_sent s @ [x]\<rparr>) = abort_end w ds rest (x # sent) s"
  by (simp add: abort_end_def rebind_def Let_def)

lemma drain_abort:
  assumes "f_tasks s = []" and "kept @ filter (\<lambda>h. \<not> overlaps ds h) (drop i (f_objs s ob)) = rest"
    and "aborts_of why (filter (overlaps ds) (drop i (f_objs s ob))) = sent"
  shows "\<exists>n. drain n (fst (run_abort w ds why ob i kept s)) =
             fst (run_scan (f_cur (abort_end w ds rest sent s)) 0 [] (abort_end w ds rest sent s))"
  using assms
proof (induction "length (f_objs s ob) - i" arbitrary: i kept s sent rule: less_induct)
  case less
  obtain r kept' where r: "abort_from ds (drop i (f_objs s ob)) i kept = (r, kept')"
    by (cases "abort_from ds (drop i (f_objs s ob)) i kept")
  show ?case
  proof (cases r)
    case None
    with r abort_from_None [of ds "drop i (f_objs s ob)" i kept kept'] less.prems
    show ?thesis by (intro exI [of _ 0]) (simp add: run_abort_split)
  next
    case (Some jh)
    then obtain j h where jh: "r = Some (j, h)" by (cases jh) simp
    let ?s = "s\<lparr>f_sent := f_sent s @ [AtlasLockAbort (workflow_id h) why]\<rparr>"
    let ?sent = "aborts_of why (filter (overlaps ds) (drop j (f_objs s ob)))"
    note step = abort_from_Some [OF r [unfolded jh]]
    have ij: "i < j" "j \<le> i + length (drop i (f_objs s ob))" using step by auto
    have rejoin: "drop (j - i) (drop i (f_objs s ob)) = drop j (f_objs s ob)" using ij by simp
    have kept: "kept' @ filter (\<lambda>h. \<not> overlaps ds h) (drop j (f_objs ?s ob)) = rest"
      using step less.prems(2) unfolding rejoin by simp
    have sent: "sent = AtlasLockAbort (workflow_id h) why # ?sent"
      using step less.prems(3) unfolding rejoin by auto
    have "length (f_objs ?s ob) - j < length (f_objs s ob) - i"
      using ij by (cases "i < length (f_objs s ob)") auto
    from less.hyps [OF this _ kept, of ?sent] less.prems(1) obtain n where
      "drain n (fst (run_abort w ds why ob j kept' ?s)) =
         fst (run_scan (f_cur (abort_end w ds rest ?sent ?s)) 0 [] (abort_end w ds rest ?sent ?s))" by auto
    then have n: "drain n (fst (run_abort w ds why ob j kept' ?s)) =
         fst (run_scan (f_cur (abort_end w ds rest sent s)) 0 [] (abort_end w ds rest sent s))"
      by (simp only: abort_end_later sent)
    let ?t = "?s\<lparr>f_tasks := [AbortTask w ds why ob j kept']\<rparr>"
    have run: "fst (run_abort w ds why ob i kept s) = ?t"
      using r jh less.prems(1) by (simp add: run_abort_split [of w ds why ob i])
    have emptied: "?t\<lparr>f_tasks := []\<rparr> = ?s" using less.prems(1) by simp
    have "drain (Suc n) ?t = drain n (fst (run_abort w ds why ob j kept' ?s))"
      using drain_step [of ?t "AbortTask w ds why ob j kept'" n] unfolding emptied by simp
    with n show ?thesis unfolding run by metis
  qed
qed

lemma drain_add: "drain m (drain n s) = drain (n + m) s"
  by (induction n arbitrary: s) auto

text \<open>
  C3: Run to completion, the interleaved handlers are the atomic ones.  From a state with no suspended handler,
  handling any signal and resuming its handler until it ends gives exactly the lock table, hold queue and merge queue
  that the atomic handler computes, sends exactly the signals it sends, in the same order, and no \<open>remove\<close> fails.
\<close>

theorem sequential_refines_atomic:
  assumes "f_tasks s = []"
  shows "\<exists>n. settled (drain n (fnext (FSignal e) s)) (f_errors s) (coord_step e (fabs s))
    (f_sent s @ snd (handle e (fabs s)))"
proof (cases e)
  case (AcquireLocks w ds u p)
  with assms show ?thesis
    by (intro exI [of _ 0]) (simp add: Let_def acquire_locks_def settled_def fabs_def f_queue_def)
next
  case (ReleaseHold w)
  with assms show ?thesis
    by (intro exI [of _ 0]) (simp add: release_hold_def settled_def fabs_def f_queue_def rebind_def)
next
  case (ReleaseLocks w r)
  let ?s = "s\<lparr>f_locks := drop_owned w (dirs_to_release w r (f_locks s)) (f_locks s)\<rparr>"
  have "f_tasks ?s = []" using assms by simp
  from drain_release_scan [OF this] show ?thesis
    using ReleaseLocks by (simp add: Let_def release_locks_def fabs_def f_queue_def)
next
  case (AbortQueuedForDirs w ds why)
  let ?rest = "filter (\<lambda>h. \<not> overlaps ds h) (f_queue s)" and ?sent = "aborts_of why (filter (overlaps ds) (f_queue s))"
  let ?s = "abort_end w ds ?rest ?sent s"
  have s: "f_tasks ?s = []" "f_errors ?s = f_errors s" "f_sent ?s = f_sent s @ ?sent"
    "fabs ?s = (fabs s)\<lparr>hold_queue := ?rest, locks := drop_owned w ds (f_locks s)\<rparr>"
    using assms by (simp_all add: abort_end_def rebind_def fabs_def f_queue_def Let_def)
  obtain n where n: "drain n (fst (run_abort w ds why (f_cur s) 0 [] s)) = fst (run_scan (f_cur ?s) 0 [] ?s)"
    using drain_abort [OF assms, where kept = "[]" and i = 0 and ob = "f_cur s" and rest = ?rest and ds = ds
        and w = w and why = why and sent = ?sent]
    by (auto simp: f_queue_def)
  obtain m where m: "settled (drain m (fst (run_scan (f_cur ?s) 0 [] ?s))) (f_errors ?s)
      (fst (scan_and_grant (fabs ?s))) (f_sent ?s @ snd (scan_and_grant (fabs ?s)))"
    using drain_release_scan [OF s(1)] by blast
  have "drain (n + m) (fst (run_abort w ds why (f_cur s) 0 [] s)) =
        drain m (fst (run_scan (f_cur ?s) 0 [] ?s))"
    by (simp add: drain_add [symmetric] n)
  with m AbortQueuedForDirs show ?thesis
    unfolding s(2-4)
    by (intro exI [of _ "n + m"]) (simp add: abort_projections, simp add: fabs_def)
next
  case ResetState
  with assms show ?thesis
    by (intro exI [of _ 0]) (simp add: reset_state_def settled_def fabs_def f_queue_def rebind_def)
next
  case (PrMergeCompleted n)
  with assms show ?thesis
    by (intro exI [of _ 0])
      (simp add: pr_merge_completed_def settled_def fabs_def f_queue_def split: list.split)
next
  case (EnqueueMerge n r t u)
  with assms show ?thesis
    by (intro exI [of _ 0]) (simp add: enqueue_merge_def settled_def fabs_def f_queue_def)
qed

text \<open>\<open>A\<close> holds two directories two others wait for, and releases them; an abort and a merge request follow.\<close>

definition two_waiters :: fstate where
  "two_waiters = fold fnext
     [FSignal (AcquireLocks ''A'' [''x'', ''y''] ''u'' None), FSignal (AcquireLocks ''B'' [''x''] ''u'' None),
      FSignal (AcquireLocks ''C'' [''y''] ''u'' None)] init_fstate"

lemma two_waiters_value:
  "f_tasks two_waiters = []" "f_errors two_waiters = 0" "f_sent two_waiters = [LocksGranted ''A'']"
  "snd (handle (ReleaseLocks ''A'' None) (fabs two_waiters)) = [LocksGranted ''B'', LocksGranted ''C'']"
  "hold_queue (coord_step (ReleaseLocks ''A'' None) (fabs two_waiters)) = []"
  by code_simp+

theorem sequential_refines_atomic_witness:
  "\<exists>n. f_sent (drain n (fnext (FSignal (ReleaseLocks ''A'' None)) two_waiters)) =
       [LocksGranted ''A'', LocksGranted ''B'', LocksGranted ''C''] \<and>
     f_queue (drain n (fnext (FSignal (ReleaseLocks ''A'' None)) two_waiters)) = []"
proof -
  obtain n where n: "settled (drain n (fnext (FSignal (ReleaseLocks ''A'' None)) two_waiters)) (f_errors two_waiters)
      (coord_step (ReleaseLocks ''A'' None) (fabs two_waiters))
      (f_sent two_waiters @ snd (handle (ReleaseLocks ''A'' None) (fabs two_waiters)))"
    using sequential_refines_atomic [OF two_waiters_value(1)] by blast
  let ?t = "drain n (fnext (FSignal (ReleaseLocks ''A'' None)) two_waiters)"
  have "f_sent ?t = [LocksGranted ''A'', LocksGranted ''B'', LocksGranted ''C'']"
    using n by (simp only: settled_def two_waiters_value append.simps)
  moreover have "f_queue ?t = hold_queue (fabs ?t)" by (simp add: fabs_def)
  moreover have "hold_queue (fabs ?t) = []"
    using n by (simp only: settled_def two_waiters_value(5))
  ultimately show ?thesis by metis
qed

section \<open>A grant to a waiter that has withdrawn\<close>

lemma f_objs_finish [simp]: "ob \<noteq> f_cur s \<Longrightarrow> f_objs (finish_scan ts s) ob = f_objs s ob"
  by (simp add: finish_scan_def split: prod.split)

lemma finish_scan_fields [simp]:
  "f_tasks (finish_scan ts s) = f_tasks s" "f_cur (finish_scan ts s) = f_cur s"
  by (simp_all add: finish_scan_def split: prod.split)

lemma finish_nothing [simp]: "finish_scan [] s = s"
  by (simp add: finish_scan_def f_queue_def)









section \<open>A wake-up that interleaved scans lose\<close>

text \<open>
  Two scans suspended on one list object: the scan that ends first removes its granted entries from the list, the other
  goes on by index and passes over the entries that moved up.  Here \<open>B\<close> and \<open>E\<close> wait for what \<open>Z\<close> holds, \<open>C\<close> and \<open>D\<close>
  for what \<open>A\<close> holds.  \<open>Z\<close> releases and its scan grants \<open>B\<close> and \<open>E\<close>; while it awaits the signal to \<open>E\<close>, \<open>A\<close> releases
  and that scan grants \<open>C\<close>.  Both scans end, no handler is left, \<open>y\<close> is free, and \<open>D\<close>, which waits for \<open>y\<close> alone, is
  still queued.
\<close>

definition skipped_run :: "fevent list" where
  "skipped_run =
     [FSignal (AcquireLocks ''A'' [''w'', ''y''] ''u'' None), FSignal (AcquireLocks ''Z'' [''z'', ''v''] ''u'' None),
      FSignal (AcquireLocks ''B'' [''z''] ''u'' None), FSignal (AcquireLocks ''C'' [''w''] ''u'' None),
      FSignal (AcquireLocks ''D'' [''y''] ''u'' None), FSignal (AcquireLocks ''E'' [''v''] ''u'' None),
      FSignal (ReleaseLocks ''Z'' None), FResume 0, FSignal (ReleaseLocks ''A'' None), FResume 0, FResume 0]"

lemma interleaved_scans_lose_wakeup:
  "f_tasks (fold fnext skipped_run init_fstate) = []"
  "map workflow_id (f_queue (fold fnext skipped_run init_fstate)) = [''D'']"
  "map required_dirs (f_queue (fold fnext skipped_run init_fstate)) = [[''y'']]"
  "map_of (f_locks (fold fnext skipped_run init_fstate)) ''y'' = None"
  by code_simp+

end
