(* ===== verification/CoordinatorLife.thy ===== *)
theory CoordinatorLife
  imports CoordinatorLoops CoordinatorInterleaving
begin

text \<open>
  The life of a coordinator across its runs (\<open>coordinator_workflow.py\<close>, \<open>run\<close>): the interleaved
  handlers, the merge loop and the continue-as-new resets, as one machine.  A reset starts a run
  from the carried snapshot and loses what is not in it: suspended handlers, the merge loop's
  position and every list object but the queue.
\<close>

section \<open>One run, and the reset\<close>

text \<open>
  \<open>mphase\<close> and \<open>mlive\<close> are the merge loop's position and whether its item is still the object at
  the front of the queue; \<open>f_sent\<close> and \<open>f_errors\<close> of the handlers are logs that no run can read.
\<close>

record run_state =
  handlers :: fstate
  mphase :: merge_phase
  mlive :: bool

definition init_run :: run_state where
  "init_run = \<lparr>handlers = init_fstate, mphase = MWaiting, mlive = True\<rparr>"

definition loop_of :: "run_state \<Rightarrow> merge_loop" where
  "loop_of r = \<lparr>coord = fabs (handlers r), phase = mphase r, item_live = mlive r\<rparr>"

definition put_loop :: "merge_loop \<Rightarrow> run_state \<Rightarrow> run_state" where
  "put_loop l r = r\<lparr>handlers := (handlers r)\<lparr>f_merge := merge_queue (coord l)\<rparr>,
     mphase := phase l, mlive := item_live l\<rparr>"

text \<open>
  \<open>workflow.continue_as_new\<close>: the merge loop is cancelled and a run starts on the snapshot.  The
  object that holds the queue keeps its name; no other list object is left.
\<close>

definition continued :: "run_state \<Rightarrow> run_state" where
  "continued r =
     (let h = handlers r; c = start_run (Some (snapshot (fabs h))) in
      \<lparr>handlers = \<lparr>f_locks = locks c, f_objs = (\<lambda>_. [])(f_cur h := hold_queue c), f_cur = f_cur h,
         f_next = f_next h, f_tasks = [], f_errors = f_errors h, f_merge = merge_queue c, f_sent = f_sent h\<rparr>,
       mphase = MWaiting, mlive = True\<rparr>)"

text \<open>
  One event: a turn of the event loop, a step of the merge loop, or a look at the reset condition.
  \<open>LReset\<close> carries what the server suggests, the history length, whether the 30-day timer fired,
  and whether some handler still awaits a signal with nothing left to do after it (an
  \<open>acquire_locks\<close> that granted), which is no suspended task here but holds the gate closed.
\<close>

datatype life_event = LTurn fevent | LMerge merge_event | LReset bool nat bool bool

fun life_step :: "life_event \<Rightarrow> run_state \<Rightarrow> (run_state \<times> int list) option" where
  "life_step (LTurn e) r =
     Some (r\<lparr>handlers := fnext e (handlers r), mlive := (mlive r \<and> e \<noteq> FSignal ResetState)\<rparr>, [])"
| "life_step (LMerge (MSignal e)) r = None"
| "life_step (LMerge e) r =
     (case merge_step e (loop_of r) of None \<Rightarrow> None | Some (l, ps) \<Rightarrow> Some (put_loop l r, ps))"
| "life_step (LReset suggested history timer_fired awaiting) r =
     Some (if reset_due suggested history timer_fired \<and>
              reset_gate (f_tasks (handlers r) = [] \<and> \<not> awaiting) (fabs (handlers r))
           then continued r else r, [])"

text \<open>A whole life, with the pull requests whose conflict resolution it starts; \<open>None\<close> when an event cannot happen.\<close>

fun life :: "life_event list \<Rightarrow> run_state \<Rightarrow> (run_state \<times> int list) option" where
  "life [] r = Some (r, [])"
| "life (e # es) r =
     (case life_step e r of
        None \<Rightarrow> None
      | Some (r1, ps) \<Rightarrow> (case life es r1 of None \<Rightarrow> None | Some (r2, qs) \<Rightarrow> Some (r2, ps @ qs)))"

fun is_reset :: "life_event \<Rightarrow> bool" where
  "is_reset (LReset suggested history timer_fired awaiting) = True"
| "is_reset _ = False"

text \<open>What there is to see of a run: its locks and queues, its suspended handlers, its logs, the merge loop's position.\<close>

definition observe :: "run_state \<Rightarrow> coordinator \<times> task list \<times> nat \<times> out_signal list \<times> merge_phase" where
  "observe r = (fabs (handlers r), f_tasks (handlers r), f_errors (handlers r), f_sent (handlers r), mphase r)"

section \<open>States that differ only in what no handler can reach\<close>

fun task_obj :: "task \<Rightarrow> nat" where
  "task_obj (ScanTask ob i ts) = ob"
| "task_obj (AbortTask w ds why ob i kept) = ob"

definition objects :: "fstate \<Rightarrow> nat set" where
  "objects s = insert (f_cur s) (task_obj ` set (f_tasks s))"

definition agree :: "nat set \<Rightarrow> fstate \<Rightarrow> fstate \<Rightarrow> bool" where
  "agree A s t \<longleftrightarrow> t = s\<lparr>f_objs := f_objs t\<rparr> \<and> (\<forall>ob \<in> A \<union> objects s. f_objs t ob = f_objs s ob)"

lemma agreeE:
  assumes "agree A s t"
  obtains g where "t = s\<lparr>f_objs := g\<rparr>" and "\<And>ob. ob \<in> A \<or> ob = f_cur s \<Longrightarrow> g ob = f_objs s ob"
    and "\<And>k. k \<in> set (f_tasks s) \<Longrightarrow> g (task_obj k) = f_objs s (task_obj k)"
  using assms by (auto simp: agree_def objects_def)

lemma agreeI:
  "(\<And>ob. ob \<in> A \<or> ob = f_cur s \<Longrightarrow> g ob = f_objs s ob) \<Longrightarrow>
   (\<And>k. k \<in> set (f_tasks s) \<Longrightarrow> g (task_obj k) = f_objs s (task_obj k)) \<Longrightarrow>
   agree A s (s\<lparr>f_objs := g\<rparr>)"
  by (auto simp: agree_def objects_def)

lemma agree_parts:
  assumes "agree A s t"
  shows "f_locks t = f_locks s" "f_cur t = f_cur s" "f_next t = f_next s" "f_tasks t = f_tasks s"
    "f_errors t = f_errors s" "f_merge t = f_merge s" "f_sent t = f_sent s" "f_queue t = f_queue s"
  using assms by (auto simp: f_queue_def elim!: agreeE)

lemma agree_obj: "agree (insert ob A) s t \<Longrightarrow> f_objs t ob = f_objs s ob"
  by (simp add: agree_def)

lemma agree_fabs: "agree A s t \<Longrightarrow> fabs t = fabs s"
  by (simp add: fabs_def agree_parts)

lemma agree_refl: "agree A s s"
  by (simp add: agree_def)

text \<open>Writing the same list into an object of both, and changing the same other fields of both.\<close>

lemma agree_write: "agree A s t \<Longrightarrow> agree A (s\<lparr>f_objs := (f_objs s)(ob := q)\<rparr>) (t\<lparr>f_objs := (f_objs t)(ob := q)\<rparr>)"
  by (elim agreeE) (auto simp: agree_def objects_def)

lemma agree_fields:
  "agree A s t \<Longrightarrow> agree A (s\<lparr>f_locks := L\<rparr>) (t\<lparr>f_locks := L\<rparr>)"
  "agree A s t \<Longrightarrow> agree A (s\<lparr>f_sent := x\<rparr>) (t\<lparr>f_sent := x\<rparr>)"
  "agree A s t \<Longrightarrow> agree A (s\<lparr>f_errors := n\<rparr>) (t\<lparr>f_errors := n\<rparr>)"
  "agree A s t \<Longrightarrow> agree A (s\<lparr>f_merge := m\<rparr>) (t\<lparr>f_merge := m\<rparr>)"
  by (elim agreeE; force simp: agree_def objects_def)+

lemma agree_park: "agree {task_obj k} s t \<Longrightarrow> agree {} (s\<lparr>f_tasks := f_tasks s @ [k]\<rparr>) (t\<lparr>f_tasks := f_tasks t @ [k]\<rparr>)"
  by (elim agreeE) (auto simp: agree_def objects_def)

lemma agree_take:
  "agree {} s t \<Longrightarrow> i < length (f_tasks s) \<Longrightarrow>
   agree {task_obj (f_tasks s ! i)} (s\<lparr>f_tasks := take i (f_tasks s) @ drop (Suc i) (f_tasks s)\<rparr>)
     (t\<lparr>f_tasks := take i (f_tasks t) @ drop (Suc i) (f_tasks t)\<rparr>)"
  by (elim agreeE) (auto simp: agree_def objects_def dest: in_set_takeD in_set_dropD)

lemma agree_weaken: "agree A s t \<Longrightarrow> agree {} s t"
  by (simp add: agree_def)

lemma agree_finish: "agree A s t \<Longrightarrow> agree {} (finish_scan ts s) (finish_scan ts t)"
  by (elim agreeE) (auto simp: agree_def objects_def finish_scan_def f_queue_def split: prod.split)

lemma agree_rebind: "agree A s t \<Longrightarrow> agree {} (rebind q s) (rebind q t)"
  by (elim agreeE) (auto simp: agree_def objects_def rebind_def)

lemma agree_run_scan:
  assumes "agree {ob} s t"
  shows "agree {} (fst (run_scan ob i ts s)) (fst (run_scan ob i ts t))"
proof (cases "scan_from (drop i (f_objs s ob)) i (f_locks s)")
  case None
  with assms show ?thesis by (simp add: run_scan_def agree_parts [OF assms] agree_obj [OF assms] agree_finish [OF assms])
next
  case (Some r)
  then obtain j h L where r: "scan_from (drop i (f_objs s ob)) i (f_locks s) = Some (j, h, L)" by (cases r) auto
  from assms obtain g where t: "t = s\<lparr>f_objs := g\<rparr>" and g: "g ob = f_objs s ob" "g (f_cur s) = f_objs s (f_cur s)"
    "\<And>k. k \<in> set (f_tasks s) \<Longrightarrow> g (task_obj k) = f_objs s (task_obj k)" by (auto elim: agreeE)
  have "g x = f_objs s x" if "x \<in> insert (f_cur s) (insert ob (task_obj ` set (f_tasks s)))" for x
    using that g by auto
  then show ?thesis by (simp add: t g run_scan_def r agree_def objects_def)
qed

lemma agree_run_abort:
  assumes "agree {ob} s t"
  shows "agree {} (fst (run_abort w ds why ob i kept s)) (fst (run_abort w ds why ob i kept t))"
proof -
  obtain x kept' where x: "abort_from ds (drop i (f_objs s ob)) i kept = (x, kept')"
    by (cases "abort_from ds (drop i (f_objs s ob)) i kept")
  from assms obtain g where t: "t = s\<lparr>f_objs := g\<rparr>" and g: "g ob = f_objs s ob" "g (f_cur s) = f_objs s (f_cur s)"
    "\<And>k. k \<in> set (f_tasks s) \<Longrightarrow> g (task_obj k) = f_objs s (task_obj k)" by (auto elim: agreeE)
  show ?thesis
  proof (cases x)
    case None
    let ?cut = "\<lambda>s. (rebind kept' s)\<lparr>f_locks := drop_owned w ds (f_locks s)\<rparr>"
    have "agree {} (rebind kept' s) (rebind kept' t)" by (rule agree_rebind [OF assms])
    then have "agree {} (?cut s) (?cut t)" by (simp add: t agree_fields(1))
    then have "agree {f_cur (?cut s)} (?cut s) (?cut t)" by (simp add: agree_def objects_def)
    from agree_run_scan [OF this] show ?thesis
      using None x g t by (simp add: run_abort_def Let_def) (simp add: rebind_def)
  next
    case (Some jh)
    have "g x = f_objs s x" if "x \<in> insert (f_cur s) (insert ob (task_obj ` set (f_tasks s)))" for x
      using that g by auto
    with Some show ?thesis by (cases jh) (simp add: t g run_abort_def x agree_def objects_def)
  qed
qed

lemma agree_fnext:
  assumes "agree {} s t"
  shows "agree {} (fnext e s) (fnext e t)"
proof (cases e)
  case (FResume i)
  show ?thesis
  proof (cases "i < length (f_tasks s)")
    case True
    note a = agree_take [OF assms True]
    from True FResume show ?thesis
      using agree_run_scan agree_run_abort a
      by (cases "f_tasks s ! i") (simp_all add: agree_parts [OF assms])
  next
    case False
    with FResume assms show ?thesis by (simp add: agree_parts [OF assms])
  qed
next
  case (FSignal sig)
  show ?thesis
  proof (cases sig)
    case (AcquireLocks w ds u p)
    with FSignal assms show ?thesis
      by (elim agreeE) (auto simp: Let_def agree_def objects_def f_queue_def)
  next
    case (ReleaseHold w)
    with FSignal assms show ?thesis by (simp add: agree_parts [OF assms] agree_rebind [OF assms])
  next
    case (ReleaseLocks w r)
    let ?cut = "\<lambda>s. s\<lparr>f_locks := drop_owned w (dirs_to_release w r (f_locks s)) (f_locks s)\<rparr>"
    have "agree {} (?cut s) (?cut t)" using agree_fields(1) [OF assms] by (simp add: agree_parts [OF assms])
    then have "agree {f_cur s} (?cut s) (?cut t)" by (simp add: agree_def objects_def)
    from agree_run_scan [OF this] show ?thesis
      using FSignal ReleaseLocks by (simp add: Let_def agree_parts [OF assms])
  next
    case (AbortQueuedForDirs w ds why)
    have "agree {f_cur s} s t" using assms by (simp add: agree_def objects_def)
    from agree_run_abort [OF this] show ?thesis
      using FSignal AbortQueuedForDirs by (simp add: agree_parts [OF assms])
  next
    case ResetState
    have "agree {} (s\<lparr>f_locks := [], f_merge := []\<rparr>) (t\<lparr>f_locks := [], f_merge := []\<rparr>)"
      using agree_fields(4) [OF agree_fields(1) [OF assms]] by simp
    from agree_rebind [OF this] show ?thesis using FSignal ResetState by simp
  next
    case (PrMergeCompleted n)
    with FSignal assms show ?thesis
      by (auto simp: agree_parts [OF assms] intro: agree_fields(4) split: list.split)
  next
    case (EnqueueMerge n r t u)
    with FSignal assms show ?thesis by (auto simp: agree_parts [OF assms] intro: agree_fields(4))
  qed
qed


section \<open>A reset is not seen\<close>

lemma f_merge_scan [simp]: "f_merge (finish_scan ts s) = f_merge s" "f_merge (rebind q s) = f_merge s"
  by (simp_all add: finish_scan_def rebind_def split: prod.split)

lemma f_merge_run_scan [simp]: "f_merge (fst (run_scan ob i ts s)) = f_merge s"
  by (simp add: run_scan_def split: option.split)

lemma f_merge_run_task [simp]: "f_merge (fst (run_task t s)) = f_merge s"
  by (cases t) (simp_all add: run_abort_def Let_def split: option.split prod.split)

lemma f_merge_fnext:
  assumes "e \<noteq> FSignal ResetState" and "f_merge s \<noteq> []"
  shows "f_merge (fnext e s) \<noteq> []"
proof (cases e)
  case (FResume i)
  with assms show ?thesis by simp
next
  case (FSignal sig)
  have "f_merge (fnext (FSignal (AbortQueuedForDirs w ds why)) s) = f_merge s" for w ds why
    by (simp add: run_abort_def Let_def split: option.split prod.split)
  with assms FSignal show ?thesis by (cases sig) (auto simp: Let_def split: list.split)
qed

text \<open>\<open>unseen r q\<close>: \<open>r\<close> and \<open>q\<close> differ only in what neither a handler nor the merge loop will read.\<close>

definition unseen :: "run_state \<Rightarrow> run_state \<Rightarrow> bool" where
  "unseen r q \<longleftrightarrow> mphase q = mphase r \<and> (mphase r \<noteq> MWaiting \<longrightarrow> mlive q = mlive r) \<and>
     agree {} (handlers r) (handlers q)"

definition busy_inv :: "run_state \<Rightarrow> bool" where
  "busy_inv r \<longleftrightarrow> mphase r \<noteq> MDead \<and> (mphase r \<noteq> MWaiting \<longrightarrow> f_merge (handlers r) \<noteq> [])"

lemma unseen_observe:
  assumes "unseen r q"
  shows "observe q = observe r"
proof -
  have a: "agree {} (handlers r) (handlers q)" using assms by (simp add: unseen_def)
  with assms show ?thesis by (simp add: unseen_def observe_def agree_parts [OF a] agree_fabs [OF a])
qed

lemma merge_step_unseen:
  assumes "unseen r q"
  shows "(case merge_step e (loop_of r) of
            None \<Rightarrow> merge_step e (loop_of q) = None
          | Some (l, ps) \<Rightarrow> \<exists>b. merge_step e (loop_of q) = Some (l\<lparr>item_live := b\<rparr>, ps) \<and>
              (phase l \<noteq> MWaiting \<longrightarrow> b = item_live l)) \<or> (\<exists>x. e = MSignal x)"
proof -
  have "agree {} (handlers r) (handlers q)" using assms by (simp add: unseen_def)
  note f = agree_fabs [OF this]
  show ?thesis
  proof (cases "mphase r = MWaiting")
    case True
    with assms have "mphase q = MWaiting" by (simp add: unseen_def)
    with True show ?thesis
      by (cases e; cases "merge_queue (fabs (handlers r))") (auto simp: loop_of_def f intro: exI [of _ True])
  next
    case False
    with assms have "loop_of q = loop_of r" by (simp add: unseen_def loop_of_def f)
    moreover have "\<exists>b. l = l\<lparr>item_live := b\<rparr> \<and> (phase l \<noteq> MWaiting \<longrightarrow> b = item_live l)" for l :: merge_loop
      by (intro exI [of _ "item_live l"]) simp
    ultimately show ?thesis by (cases "merge_step e (loop_of r)") auto
  qed
qed

lemma merge_step_inv:
  assumes "merge_step e (loop_of r) = Some (l, ps)" and "busy_inv r" and "\<forall>x. e \<noteq> MSignal x"
  shows "busy_inv (put_loop l r)"
proof -
  have "loop_inv (loop_of r)" using assms(2) by (simp add: loop_inv_def busy_inv_def loop_of_def fabs_def)
  then have "loop_inv l" using merge_step_fifo [OF assms(1)] assms(3) by blast
  then show ?thesis by (simp add: loop_inv_def busy_inv_def put_loop_def)
qed

lemma unseen_put: "unseen r q \<Longrightarrow> (phase l \<noteq> MWaiting \<longrightarrow> b = item_live l) \<Longrightarrow>
  unseen (put_loop l r) (put_loop (l\<lparr>item_live := b\<rparr>) q)"
  by (simp add: unseen_def put_loop_def agree_fields(4))

lemma life_step_unseen:
  assumes "unseen r q" and "busy_inv r" and "\<not> is_reset e" and "e \<noteq> LTurn (FSignal ResetState)"
  shows "(life_step e r = None \<and> life_step e q = None) \<or>
    (\<exists>r' q' ps. life_step e r = Some (r', ps) \<and> life_step e q = Some (q', ps) \<and> unseen r' q' \<and> busy_inv r')"
proof (cases e)
  case (LTurn f)
  have "agree {} (fnext f (handlers r)) (fnext f (handlers q))"
    using assms(1) agree_fnext by (simp add: unseen_def)
  then show ?thesis
    using assms LTurn f_merge_fnext [of f "handlers r"] by (auto simp: unseen_def busy_inv_def)
next
  case (LMerge f)
  show ?thesis
  proof (cases "\<exists>x. f = MSignal x")
    case True
    with LMerge show ?thesis by auto
  next
    case False
    then have step: "life_step e s = (case merge_step f (loop_of s) of
        None \<Rightarrow> None | Some (l, ps) \<Rightarrow> Some (put_loop l s, ps))" for s
      using LMerge by (cases f) simp_all
    show ?thesis
    proof (cases "merge_step f (loop_of r)")
      case None
      with merge_step_unseen [OF assms(1), of f] False show ?thesis by (auto simp: step)
    next
      case (Some lp)
      then obtain l ps where l: "merge_step f (loop_of r) = Some (l, ps)" by (cases lp) auto
      from merge_step_unseen [OF assms(1), of f] False obtain b where
        b: "merge_step f (loop_of q) = Some (l\<lparr>item_live := b\<rparr>, ps)" "phase l \<noteq> MWaiting \<longrightarrow> b = item_live l"
        by (auto simp: l)
      have "unseen (put_loop l r) (put_loop (l\<lparr>item_live := b\<rparr>) q)" by (rule unseen_put [OF assms(1) b(2)])
      moreover have "busy_inv (put_loop l r)" using merge_step_inv [OF l assms(2)] False by blast
      ultimately show ?thesis by (simp add: step l b)
    qed
  qed
next
  case (LReset a n b c)
  with assms show ?thesis by simp
qed

lemma continued_unseen:
  assumes "unseen r q" and "busy_inv r" and "reset_gate (f_tasks (handlers r) = [] \<and> \<not> awaiting) (fabs (handlers r))"
  shows "unseen (continued r) q \<and> busy_inv (continued r)"
proof -
  from assms(3) have idle: "f_merge (handlers r) = []" "f_tasks (handlers r) = []"
    by (simp_all add: reset_gate_def fabs_def)
  with assms(2) have "mphase r = MWaiting" by (auto simp: busy_inv_def)
  moreover from assms(1) obtain g where "handlers q = (handlers r)\<lparr>f_objs := g\<rparr>" "g (f_cur (handlers r)) = f_queue (handlers r)"
    by (auto simp: unseen_def f_queue_def elim!: agreeE)
  ultimately show ?thesis using assms(1) idle
    by (cases "handlers r") (auto simp: unseen_def busy_inv_def continued_def Let_def agree_def objects_def fabs_def)
qed

lemma life_unseen:
  assumes "unseen r q" and "busy_inv r" and "LTurn (FSignal ResetState) \<notin> set es"
  shows "map_option (map_prod observe id) (life es r) =
         map_option (map_prod observe id) (life (filter (\<lambda>e. \<not> is_reset e) es) q)"
  using assms
proof (induction es arbitrary: r q)
  case Nil
  then show ?case by (simp add: unseen_observe)
next
  case (Cons e es)
  show ?case
  proof (cases "is_reset e")
    case True
    then obtain a n b c where e: "e = LReset a n b c" by (cases e) auto
    let ?due = "reset_due a n b \<and> reset_gate (f_tasks (handlers r) = [] \<and> \<not> c) (fabs (handlers r))"
    let ?r = "if ?due then continued r else r"
    have ok: "unseen ?r q \<and> busy_inv ?r"
    proof (cases ?due)
      case True
      from continued_unseen [OF Cons.prems(1,2) conjunct2 [OF True]] show ?thesis unfolding if_P [OF True] .
    next
      case False
      from conjI [OF Cons.prems(1,2)] show ?thesis unfolding if_not_P [OF False] .
    qed
    then have u: "unseen ?r q" and b: "busy_inv ?r" by blast+
    have "LTurn (FSignal ResetState) \<notin> set es" using Cons.prems(3) by simp
    note IH = Cons.IH [OF u b this]
    have "life_step e r = Some (?r, [])" by (simp only: e life_step.simps)
    then have "life (e # es) r = life es ?r"
      by (simp only: life.simps option.case prod.case append.simps) (simp split: option.split prod.split)
    with IH True show ?thesis by simp
  next
    case False
    have es: "LTurn (FSignal ResetState) \<notin> set es" "e \<noteq> LTurn (FSignal ResetState)" using Cons.prems(3) by auto
    from life_step_unseen [OF Cons.prems(1,2) False es(2)] consider
      "life_step e r = None" "life_step e q = None"
    | r' q' ps where "life_step e r = Some (r', ps)" "life_step e q = Some (q', ps)" "unseen r' q'" "busy_inv r'" by metis
    then show ?thesis
    proof cases
      case 1
      with False show ?thesis by simp
    next
      case 2
      note IH = Cons.IH [OF 2(3,4) es(1)]
      show ?thesis
      proof (cases "life es r'")
        case None
        with IH have "life (filter (\<lambda>e. \<not> is_reset e) es) q' = None" by simp
        with None 2 False show ?thesis by simp
      next
        case (Some x)
        then obtain r2 qs where r2: "life es r' = Some (r2, qs)" by (cases x) auto
        with IH obtain q2 where "life (filter (\<lambda>e. \<not> is_reset e) es) q' = Some (q2, qs)" "observe q2 = observe r2"
          by (cases "life (filter (\<lambda>e. \<not> is_reset e) es) q'") (auto simp: id_def)
        with r2 2 False show ?thesis by simp
      qed
    qed
  qed
qed

text \<open>
  C30: Resetting the history loses nothing.  Take any life of a coordinator, with its handlers interleaved at their
  awaits, its merge loop at any position and looks at the reset condition anywhere in between, and without the test-only
  \<open>reset_state\<close>.  The life with its continue-as-new resets and the one that runs forever on the same events can take
  the same steps and end with the same locks, hold queue, merge queue, suspended handlers, failed removals and merge loop
  position; they send the same signals in the same order and start the same conflict resolutions.  The gate matters: a
  reset with a merge item in process or a suspended handler would lose them.
\<close>

theorem continue_as_new_transparent:
  assumes "LTurn (FSignal ResetState) \<notin> set es"
  shows "map_option (map_prod observe id) (life es init_run) =
         map_option (map_prod observe id) (life (filter (\<lambda>e. \<not> is_reset e) es) init_run)"
proof (rule life_unseen)
  show "unseen init_run init_run" by (simp add: unseen_def agree_refl)
  show "busy_inv init_run" by (simp add: busy_inv_def init_run_def)
qed (rule assms)

text \<open>
  The run: an item is picked while handlers come and go; a reset is due all along but waits for the item and for
  the suspended handler.
\<close>

definition long_life :: "life_event list" where
  "long_life =
     [LTurn (FSignal (AcquireLocks ''A'' [''x''] ''u'' None)), LTurn (FSignal (AcquireLocks ''B'' [''x''] ''u'' None)),
      LTurn (FSignal (EnqueueMerge 7 ''r'' ''t'' ''u'')), LMerge MPick, LReset True 6000 False False,
      LMerge MActivityDone, LMerge MTimeout, LTurn (FSignal (ReleaseLocks ''A'' None)), LReset True 6000 False False,
      LTurn (FResume 0), LReset True 6000 False False, LTurn (FSignal (ReleaseLocks ''B'' None))]"

lemma long_life_value:
  "LTurn (FSignal ResetState) \<notin> set long_life"
  "map_option (map_prod observe id) (life (filter (\<lambda>e. \<not> is_reset e) long_life) init_run) =
   Some ((init_coordinator, [], 0, [LocksGranted ''A'', LocksGranted ''B''], MWaiting), [7])"
  by code_simp+

lemma continue_as_new_transparent_witness:
  "map_option (map_prod observe id) (life long_life init_run) =
   Some ((init_coordinator, [], 0, [LocksGranted ''A'', LocksGranted ''B''], MWaiting), [7])"
  using continue_as_new_transparent [OF long_life_value(1)] by (simp only: long_life_value(2))

end
