(* ===== verification/KongPath.thy ===== *)
theory KongPath
  imports Prelude "HOL-Library.Word"
begin

text \<open>
  Kong route paths: the compiler from plain UI paths to Kong regexes
  (\<open>app/utils/kong_path_compiler.py\<close>) and the validator of route parameters
  (\<open>app/domain/validators/kong_route_validator.py\<close>).
\<close>

section \<open>The path compiler\<close>

datatype path_error = EmptyRoutePath

definition regex_meta :: "char list" where
  "regex_meta = ''.^$*+?()[]{}|'' @ [CHR 0x5C]"

definition escape_literal :: "string \<Rightarrow> string" where
  "escape_literal seg = concat (map (\<lambda>c. if c \<in> set regex_meta then [CHR 0x5C, c] else [c]) seg)"

definition named_group :: "string \<Rightarrow> string \<Rightarrow> string" where
  "named_group name body = ''(?<'' @ name @ ''>'' @ body @ '')''"

text \<open>The loop over the segments; \<open>n\<close> is \<open>wildcard_n\<close>.\<close>

fun compile_segments :: "nat \<Rightarrow> string list \<Rightarrow> string list" where
  "compile_segments n [] = []"
| "compile_segments n (seg # segs) =
     (if seg = [] then [] # compile_segments n segs
      else if seg = ''*'' then
        named_group (if n = 0 then ''rest'' else ''rest'' @ nat_str n) ''.+''
          # compile_segments (Suc n) segs
      else if startswith seg '':'' \<and> length seg > 1 then
        named_group (tl seg) ''[^/]+'' # compile_segments n segs
      else if startswith seg ''{'' \<and> endswith seg ''}'' \<and> length seg > 2 then
        named_group (butlast (tl seg)) ''[^/]+'' # compile_segments n segs
      else escape_literal seg # compile_segments n segs)"

definition compile_route_path :: "string \<Rightarrow> (path_error, string) result" where
  "compile_route_path path0 =
     (let path = py_strip path0 in
      if path = [] then Inl EmptyRoutePath
      else if startswith path ''~'' \<or> endswith path ''$'' then Inr path
      else (let path' = (if startswith path ''/'' then path else ''/'' @ path)
            in Inr (''~'' @ py_join ''/'' (compile_segments 0 (py_split (CHR ''/'') path')) @ ''$'')))"

lemma escape_literal_simps [simp]:
  "escape_literal [] = []"
  "escape_literal (c # s) = (if c \<in> set regex_meta then [CHR 0x5C, c] else [c]) @ escape_literal s"
  by (simp_all add: escape_literal_def)

lemma length_compile_segments [simp]: "length (compile_segments n segs) = length segs"
  by (induction n segs rule: compile_segments.induct) auto

lemma compile_segments_Nil_iff [simp]: "compile_segments n segs = [] \<longleftrightarrow> segs = []"
  by (metis length_0_conv length_compile_segments)

lemma strip_tilde: "py_strip (''~'' @ s @ ''$'') = ''~'' @ s @ ''$''"
  unfolding py_strip_def by (rule strip_by_id) (simp_all add: py_isspace_def)

text \<open>
  C36: Compiling is idempotent: a compiled path compiles to itself, so callers that already send Kong
  regexes and callers that send plain paths can share the compiler.
\<close>

theorem compile_route_path_idempotent:
  assumes "compile_route_path p = Inr q"
  shows "compile_route_path q = Inr q"
proof (cases "startswith (py_strip p) ''~'' \<or> endswith (py_strip p) ''$''")
  case True
  with assms have "q = py_strip p" and "py_strip p \<noteq> []"
    by (auto simp: compile_route_path_def Let_def split: if_splits)
  with True show ?thesis by (simp add: compile_route_path_def Let_def)
next
  case False
  with assms obtain r where q: "q = ''~'' @ r @ ''$''"
    by (auto simp: compile_route_path_def Let_def split: if_splits)
  then have "py_strip q = q" by (simp only: strip_tilde)
  with q show ?thesis by (simp add: compile_route_path_def Let_def)
qed

lemma compile_route_path_idempotent_witness:
  "compile_route_path ''/files/:id'' = Inr ''~/files/(?<id>[^/]+)$'' \<and>
   compile_route_path ''~/files/(?<id>[^/]+)$'' = Inr ''~/files/(?<id>[^/]+)$''"
proof -
  have c: "compile_route_path ''/files/:id'' = Inr ''~/files/(?<id>[^/]+)$''"
    by code_simp
  with compile_route_path_idempotent [OF c] show ?thesis by simp
qed

section \<open>The route validator\<close>

datatype kong_error =
    MethodEmpty
  | MethodInvalid string
  | PathEmpty
  | PathFormat string
  | PathTooLong
  | PathWhitespace
  | PathEscapedAngle
  | PathBareAngle
  | PathRegexSyntax string
  | ApiNameEmpty
  | ApiNameTooLong
  | GroupKeyEmpty
  | GroupKeyTooLong
  | GroupKeyInvalid string
  | PluginsNotList
  | PluginNameInvalid pyval
  | PriorityNotInt pyval
  | PriorityNegative
  | PriorityTooLarge
  | ProductEmpty
  | ProductTooLong
  | RegionEmpty
  | RegionTooLong

definition http_methods :: "string list" where
  "http_methods = [''GET'', ''POST'', ''PUT'', ''DELETE'', ''PATCH'', ''OPTIONS'', ''HEAD'']"

definition validate_http_method :: "string \<Rightarrow> (kong_error list, unit) result" where
  "validate_http_method m =
     raise_if (if m = [] \<or> is_blank m then [MethodEmpty]
               else if py_upper (py_strip m) \<notin> set http_methods then [MethodInvalid m] else [])"

text \<open>The pattern \<open>^~/.+\$$\<close>: a dot matches anything but a newline.\<close>

definition route_path_format :: "string \<Rightarrow> bool" where
  "route_path_format s =
     (let t = chop_newline s in
      startswith t ''~/'' \<and> endswith t ''$'' \<and> length t \<ge> 4 \<and> CHR 0x0A \<notin> set t)"

text \<open>
  Replace every \<open>(?<name>\<close> (the pattern \<open>\(\?<[^>]+>\<close>), scanning from the left: with nothing for
  the bare-bracket test, with \<open>(?P<name>\<close> for the syntax test.
\<close>

function sub_named_groups :: "(string \<Rightarrow> string) \<Rightarrow> string \<Rightarrow> string" where
  "sub_named_groups f [] = []"
| "sub_named_groups f (c # s) =
     (let name = takeWhile (\<lambda>x. x \<noteq> CHR ''>'') (drop 2 s); rest = dropWhile (\<lambda>x. x \<noteq> CHR ''>'') (drop 2 s)
      in if startswith (c # s) ''(?<'' \<and> name \<noteq> [] \<and> rest \<noteq> []
         then f name @ sub_named_groups f (tl rest)
         else c # sub_named_groups f s)"
  by pat_completeness auto
termination
proof (relation "measure (\<lambda>(f, s). length s)")
  fix f :: "string \<Rightarrow> string" and c s name rest
  assume "name = takeWhile (\<lambda>x. x \<noteq> CHR ''>'') (drop 2 s)"
    and rest: "rest = dropWhile (\<lambda>x. x \<noteq> CHR ''>'') (drop 2 s)"
  have "length (tl rest) \<le> length (drop 2 s)"
    unfolding rest by (metis diff_le_self length_dropWhile_le length_tl order_trans)
  then show "((f, tl rest), (f, c # s)) \<in> measure (\<lambda>(f, s). length s)" by simp
qed auto

definition drop_named_groups :: "string \<Rightarrow> string" where
  "drop_named_groups s = sub_named_groups (\<lambda>name. []) s"

definition to_python_groups :: "string \<Rightarrow> string" where
  "to_python_groups s = sub_named_groups (\<lambda>name. ''(?P<'' @ name @ ''>'') s"

text \<open>The text handed to \<open>re.compile\<close>.\<close>

definition python_pattern :: "string \<Rightarrow> string" where
  "python_pattern s =
     (let t = drop 2 s; u = (if endswith t ''$'' then butlast t else t) in to_python_groups u)"

text \<open>
  \<open>re_error\<close> is the syntax check of \<open>re.compile\<close>: the message of the \<open>re.error\<close> it raises on a
  pattern, if it raises one.
\<close>

definition route_path_errors :: "(string \<Rightarrow> string option) \<Rightarrow> string \<Rightarrow> kong_error list" where
  "route_path_errors re_error s =
     (if \<not> route_path_format s then [PathFormat s] else []) @
     (if length s > 500 then [PathTooLong] else []) @
     (if list_ex (\<lambda>c. c \<in> {CHR '' '', CHR 0x09, CHR 0x0A}) s then [PathWhitespace] else []) @
     (if py_in [CHR 0x5C, CHR ''<''] s \<or> py_in [CHR 0x5C, CHR ''>''] s then [PathEscapedAngle] else []) @
     (let t = drop_named_groups s in
      if CHR ''<'' \<in> set t \<or> CHR ''>'' \<in> set t then [PathBareAngle] else []) @
     (case re_error (python_pattern s) of None \<Rightarrow> [] | Some msg \<Rightarrow> [PathRegexSyntax msg])"

definition validate_route_path ::
  "(string \<Rightarrow> string option) \<Rightarrow> string \<Rightarrow> (kong_error list, unit) result" where
  "validate_route_path re_error p =
     raise_if (if p = [] \<or> is_blank p then [PathEmpty]
               else route_path_errors re_error (py_strip p))"

definition validate_api_name :: "string \<Rightarrow> (kong_error list, unit) result" where
  "validate_api_name n =
     raise_if (if n = [] \<or> is_blank n then [ApiNameEmpty]
               else if length (py_strip n) > 100 then [ApiNameTooLong] else [])"

definition is_word_char :: "char \<Rightarrow> bool" where
  "is_word_char c = (is_alnum c \<or> c = CHR ''_'')"

text \<open>\<open>^[A-Za-z0-9_]+(-[A-Za-z0-9_]+)*$\<close>: non-empty words joined by single hyphens.\<close>

definition group_key_ok :: "string \<Rightarrow> bool" where
  "group_key_ok s =
     list_all (\<lambda>w. w \<noteq> [] \<and> list_all is_word_char w) (py_split (CHR ''-'') (chop_newline s))"

definition validate_route_group_key :: "string \<Rightarrow> (kong_error list, unit) result" where
  "validate_route_group_key k =
     raise_if (if k = [] \<or> is_blank k then [GroupKeyEmpty]
               else (if length (py_strip k) > 100 then [GroupKeyTooLong] else []) @
                    (if \<not> group_key_ok (py_strip k) then [GroupKeyInvalid (py_strip k)] else []))"

fun plugin_errors :: "pyval list \<Rightarrow> kong_error list" where
  "plugin_errors [] = []"
| "plugin_errors (p # ps) =
     (case p of
        VStr s \<Rightarrow> if is_blank s then [PluginNameInvalid p] else []
      | _ \<Rightarrow> [PluginNameInvalid p]) @ plugin_errors ps"

definition validate_plugins :: "pyval \<Rightarrow> (kong_error list, unit) result" where
  "validate_plugins plugins =
     (case plugins of
        VNone \<Rightarrow> Inr ()
      | VList ps \<Rightarrow> raise_if (plugin_errors ps)
      | _ \<Rightarrow> Inl [PluginsNotList])"

definition max_regex_priority :: int where
  "max_regex_priority = 2 ^ 31 - 1"

definition validate_regex_priority :: "pyval \<Rightarrow> (kong_error list, unit) result" where
  "validate_regex_priority v =
     (case v of
        VNone \<Rightarrow> Inr ()
      | VInt n \<Rightarrow> raise_if (if n < 0 then [PriorityNegative]
                            else if n > max_regex_priority then [PriorityTooLarge] else [])
      | _ \<Rightarrow> Inl [PriorityNotInt v])"

definition validate_create_route_request ::
  "(string \<Rightarrow> string option) \<Rightarrow> string \<Rightarrow> string \<Rightarrow> string \<Rightarrow> string option \<Rightarrow> string option \<Rightarrow>
   (kong_error list, unit) result" where
  "validate_create_route_request re_error api_name http_method route_path product_name region =
     raise_if
       (errors_of (validate_api_name api_name) @
        errors_of (validate_http_method http_method) @
        errors_of (validate_route_path re_error route_path) @
        (case product_name of None \<Rightarrow> []
         | Some p \<Rightarrow> if is_blank p then [ProductEmpty]
                     else if length p > 100 then [ProductTooLong] else []) @
        (case region of None \<Rightarrow> []
         | Some r \<Rightarrow> if is_blank r then [RegionEmpty]
                     else if length r > 50 then [RegionTooLong] else []))"

section \<open>Properties of the compiler and the validator\<close>

lemma escape_literal_Nil_iff [simp]: "escape_literal s = [] \<longleftrightarrow> s = []"
  by (cases s) auto

lemma newline_escape: "CHR 0x0A \<notin> set s \<Longrightarrow> CHR 0x0A \<notin> set (escape_literal s)"
  by (induction s) auto

lemma newline_nat_str [simp]: "CHR 0x0A \<notin> set (nat_str n)"
  using nat_str_digits [of "CHR 0x0A" n] by (auto simp: py_isdigit_def)

lemma newline_compile_segments:
  "\<forall>w \<in> set segs. CHR 0x0A \<notin> set w \<Longrightarrow> \<forall>w \<in> set (compile_segments n segs). CHR 0x0A \<notin> set w"
proof (induction n segs rule: compile_segments.induct)
  case (2 n seg segs)
  have t: "set (tl seg) \<subseteq> set seg" by (cases seg) auto
  then have "set (butlast (tl seg)) \<subseteq> set seg" by (meson in_set_butlastD subsetD subsetI)
  with t "2.prems" have "CHR 0x0A \<notin> set (tl seg)" "CHR 0x0A \<notin> set (butlast (tl seg))" by auto
  with 2 show ?case by (auto simp: named_group_def newline_escape)
qed simp

lemma set_py_join: "set (py_join d ws) \<subseteq> set d \<union> (\<Union>w \<in> set ws. set w)"
  by (induction d ws rule: py_join.induct) auto

lemma set_py_split: "w \<in> set (py_split d s) \<Longrightarrow> set w \<subseteq> set s"
proof (induction s arbitrary: w)
  case (Cons c s)
  then show ?case by (cases "py_split d s") (force split: if_splits)+
qed simp

lemma py_join_Nil_iff: "py_join (x # d) ws = [] \<longleftrightarrow> ws = [] \<or> ws = [[]]"
  by (cases ws; cases "tl ws") auto

text \<open>What a freshly compiled path looks like.\<close>

lemma compile_fresh:
  assumes "compile_route_path p = Inr q" and "\<not> (startswith (py_strip p) ''~'' \<or> endswith (py_strip p) ''$'')"
  obtains t where "q = ''~/'' @ py_join ''/'' (compile_segments 0 (py_split (CHR ''/'') t)) @ ''$''"
    and "set t \<subseteq> set p" and "t = [] \<longleftrightarrow> py_strip p = ''/''"
proof -
  let ?s = "py_strip p"
  define path where "path = (if startswith ?s ''/'' then ?s else ''/'' @ ?s)"
  obtain t where t: "path = CHR ''/'' # t"
    by (cases "startswith ?s ''/''") (auto simp: path_def prefix_def)
  have "?s \<noteq> []" and q: "q = ''~'' @ py_join ''/'' (compile_segments 0 (py_split (CHR ''/'') path)) @ ''$''"
    using assms by (auto simp: compile_route_path_def Let_def path_def split: if_splits)
  have "q = ''~/'' @ py_join ''/'' (compile_segments 0 (py_split (CHR ''/'') t)) @ ''$''"
    by (simp add: q t py_join_Cons)
  moreover have "set t \<subseteq> set p"
  proof -
    have "set t \<subseteq> set ?s" using t by (auto simp: path_def split: if_splits)
    then show ?thesis using strip_by_set [of py_isspace p] by (auto simp: py_strip_def)
  qed
  moreover have "t = [] \<longleftrightarrow> ?s = ''/''"
    using t \<open>?s \<noteq> []\<close> by (auto simp: path_def split: if_splits)
  ultimately show ?thesis using that by blast
qed

text \<open>
  The compiler agrees with the validator on the shape of a route path: a plain path on one line
  compiles to a text of the form \<open>~/...$\<close> that the validator's format check accepts, with the one
  exception of the root path \<open>/\<close>, whose compiled form \<open>~/$\<close> the check refuses.
\<close>

theorem compiled_path_format:
  assumes "compile_route_path p = Inr q" and "CHR 0x0A \<notin> set p"
    and "\<not> (startswith (py_strip p) ''~'' \<or> endswith (py_strip p) ''$'')"
  shows "route_path_format q \<longleftrightarrow> py_strip p \<noteq> ''/''"
proof -
  obtain t where q: "q = ''~/'' @ py_join ''/'' (compile_segments 0 (py_split (CHR ''/'') t)) @ ''$''"
    and t: "set t \<subseteq> set p" and root: "t = [] \<longleftrightarrow> py_strip p = ''/''"
    using compile_fresh [OF assms(1,3)] by blast
  let ?j = "py_join ''/'' (compile_segments 0 (py_split (CHR ''/'') t))"
  have "CHR 0x0A \<notin> set w" if "w \<in> set (py_split (CHR ''/'') t)" for w
    using set_py_split [OF that] t assms(2) by auto
  then have "\<forall>w \<in> set (compile_segments 0 (py_split (CHR ''/'') t)). CHR 0x0A \<notin> set w"
    by (intro newline_compile_segments) auto
  then have nl: "CHR 0x0A \<notin> set ?j"
    using set_py_join [of "''/''" "compile_segments 0 (py_split (CHR ''/'') t)"] by auto
  have "?j = [] \<longleftrightarrow> t = []"
  proof
    assume "?j = []"
    then have "compile_segments 0 (py_split (CHR ''/'') t) = [[]]"
      by (simp add: py_join_Nil_iff)
    then have "length (py_split (CHR ''/'') t) = 1"
      by (metis length_compile_segments length_Cons list.size(3) One_nat_def)
    then obtain w where w: "py_split (CHR ''/'') t = [w]"
      by (metis length_0_conv length_Suc_conv One_nat_def)
    then have "t = w" using join_split [of "CHR ''/''" t] by simp
    moreover have "w = []"
      using \<open>compile_segments 0 (py_split (CHR ''/'') t) = [[]]\<close> w
      by (auto simp: named_group_def split: if_splits)
    ultimately show "t = []" by simp
  qed simp
  moreover have "route_path_format q \<longleftrightarrow> ?j \<noteq> []"
    using nl by (auto simp: q route_path_format_def chop_newline_def Let_def suffix_def Suc_le_eq)
  ultimately show ?thesis using root by simp
qed

lemma compiled_path_format_witness:
  "route_path_format ''~/api/v1/users$'' \<and> \<not> route_path_format ''~/$'' \<and>
   compile_route_path ''/api/v1/users'' = Inr ''~/api/v1/users$'' \<and> compile_route_path ''/'' = Inr ''~/$''"
proof -
  have a: "compile_route_path ''/api/v1/users'' = Inr ''~/api/v1/users$''"
    and b: "compile_route_path ''/'' = Inr ''~/$''" by code_simp+
  have "route_path_format ''~/api/v1/users$'' \<longleftrightarrow> py_strip ''/api/v1/users'' \<noteq> ''/''"
    by (rule compiled_path_format [OF a]) code_simp+
  moreover have "route_path_format ''~/$'' \<longleftrightarrow> py_strip ''/'' \<noteq> ''/''"
    by (rule compiled_path_format [OF b]) code_simp+
  moreover have "py_strip ''/api/v1/users'' \<noteq> ''/'' \<and> py_strip ''/'' = ''/''" by code_simp
  ultimately show ?thesis using a b by simp
qed

text \<open>
  The route group key check accepts exactly the tags its rule describes: at most 100 characters,
  letters, digits, underscores and hyphens only, with no leading, trailing or doubled hyphen.
\<close>

theorem group_key_accepts_iff:
  "validate_route_group_key k = Inr () \<longleftrightarrow>
     py_strip k \<noteq> [] \<and> length (py_strip k) \<le> 100 \<and>
     list_all (\<lambda>c. is_word_char c \<or> c = CHR ''-'') (py_strip k) \<and>
     hd (py_strip k) \<noteq> CHR ''-'' \<and> last (py_strip k) \<noteq> CHR ''-'' \<and> \<not> py_in ''--'' (py_strip k)"
proof -
  let ?s = "py_strip k"
  have "group_key_ok ?s \<longleftrightarrow>
      (\<forall>w \<in> set (py_split (CHR ''-'') ?s). w \<noteq> []) \<and>
      (\<forall>w \<in> set (py_split (CHR ''-'') ?s). \<forall>c \<in> set w. is_word_char c)"
    by (auto simp: group_key_ok_def list_all_iff)
  also have "\<dots> \<longleftrightarrow> ?s \<noteq> [] \<and> hd ?s \<noteq> CHR ''-'' \<and> last ?s \<noteq> CHR ''-'' \<and> \<not> py_in ''--'' ?s \<and>
      list_all (\<lambda>c. is_word_char c \<or> c = CHR ''-'') ?s"
    by (auto simp: split_all_nonempty split_all_chars list_all_iff)
  finally show ?thesis
    by (auto simp: validate_route_group_key_def is_blank_def)
qed

text \<open>
  A priority the validator accepts is absent or fits the column that stores it: an accepted
  integer is non-negative and survives storage in a signed 32-bit column unchanged.
\<close>

theorem accepted_priority_fits_int4:
  "validate_regex_priority v = Inr () \<longleftrightarrow>
     v = VNone \<or> (\<exists>n. v = VInt n \<and> 0 \<le> n \<and> sint (word_of_int n :: 32 word) = n)"
proof -
  have fits: "sint (word_of_int n :: 32 word) = n" if "0 \<le> n" "n \<le> 2 ^ 31 - 1" for n :: int
    using that by (simp add: int_word_sint)
  have bound: "n \<le> 2 ^ 31 - 1" if "sint (word_of_int n :: 32 word) = n" for n :: int
    using sint_lt [of "word_of_int n :: 32 word"] that by simp
  show ?thesis
    by (cases v) (auto simp: validate_regex_priority_def max_regex_priority_def
        intro: fits dest: bound)
qed

text \<open>
  A create-route request is accepted exactly when every field is valid on its own, and a refused
  request reports the errors of all fields, in field order, not just the first one.
\<close>

theorem create_route_request_collects:
  "(validate_create_route_request re n m p pn rg = Inr () \<longleftrightarrow>
      validate_api_name n = Inr () \<and> validate_http_method m = Inr () \<and>
      validate_route_path re p = Inr () \<and>
      (case pn of None \<Rightarrow> True | Some x \<Rightarrow> \<not> is_blank x \<and> length x \<le> 100) \<and>
      (case rg of None \<Rightarrow> True | Some x \<Rightarrow> \<not> is_blank x \<and> length x \<le> 50)) \<and>
   errors_of (validate_create_route_request re n m p None None) =
     errors_of (validate_api_name n) @ errors_of (validate_http_method m) @
     errors_of (validate_route_path re p)"
proof -
  have e: "errors_of r = [] \<longleftrightarrow> r = Inr ()" if "r = raise_if es" for r :: "(kong_error list, unit) result" and es
    using that by simp
  show ?thesis
    unfolding validate_create_route_request_def
    by (auto simp: e [OF validate_api_name_def] e [OF validate_http_method_def]
        e [OF validate_route_path_def] split: option.splits)
qed

end
