(* ===== verification/KongOverlap.thy ===== *)
theory KongOverlap
  imports KongPath
begin

text \<open>
  Route groups: their names (\<open>app/domain/policies/kong_route_group_naming.py\<close>) and the rule that
  two groups may claim one path only at different priorities
  (\<open>app/domain/validators/kong_path_overlap_validator.py\<close>).
\<close>

section \<open>Group names\<close>

definition service_suffix :: string where
  "service_suffix = ''-service''"

definition default_group_key :: "string option \<Rightarrow> string" where
  "default_group_key api_name =
     (let name = py_strip (or_blank api_name) in
      if name = [] then []
      else if endswith name service_suffix then name else name @ service_suffix)"

text \<open>The tags in use, compared without case.\<close>

definition used_tags :: "string list \<Rightarrow> string list" where
  "used_tags taken = map (\<lambda>t. py_lower (py_strip t)) (filter (\<lambda>t. \<not> is_blank t) taken)"

definition tag_candidate :: "string \<Rightarrow> nat \<Rightarrow> string" where
  "tag_candidate base n = base @ ''-tag'' @ nat_str n"

text \<open>\<open>while len(out) < count and n < 100\<close>.\<close>

function tag_loop :: "string \<Rightarrow> string list \<Rightarrow> nat \<Rightarrow> nat \<Rightarrow> string list \<Rightarrow> string list" where
  "tag_loop base used count n out =
     (if length out < count \<and> n < 100
      then tag_loop base used count (Suc n)
        (if py_lower (tag_candidate base n) \<notin> set used then out @ [tag_candidate base n] else out)
      else out)"
  by pat_completeness auto
termination
  by (relation "measure (\<lambda>(base, used, count, n, out). 100 - n)") auto

declare tag_loop.simps [simp del]

definition tag_names :: "string option \<Rightarrow> string list \<Rightarrow> nat \<Rightarrow> string list" where
  "tag_names base_key taken count =
     (let base = py_strip (or_blank base_key) in
      if base = [] then [] else tag_loop base (used_tags taken) count 1 [])"

definition preload_for :: "string option \<Rightarrow> string list \<Rightarrow> string" where
  "preload_for base_key taken =
     (let base = py_strip (or_blank base_key) in
      if base = [] then []
      else if py_lower base \<notin> set (used_tags taken) then base
      else (case tag_names (Some base) taken 1 of [] \<Rightarrow> [] | t # _ \<Rightarrow> t))"

definition suggest_tags :: "string option \<Rightarrow> string list \<Rightarrow> nat \<Rightarrow> string list" where
  "suggest_tags api_name taken count = tag_names (Some (default_group_key api_name)) taken count"

definition preload_tag :: "string option \<Rightarrow> string list \<Rightarrow> string" where
  "preload_tag api_name taken = preload_for (Some (default_group_key api_name)) taken"

text \<open>The sentence of the chat reply, by what it tells: the group chosen, or the default and a hint.\<close>

datatype group_note = ChosenGroup string | DefaultGroup string string

definition describe_group_choice :: "string option \<Rightarrow> string option \<Rightarrow> string list \<Rightarrow> group_note" where
  "describe_group_choice api_name tag taken =
     (let chosen = py_strip (or_blank tag) in
      if chosen \<noteq> [] then ChosenGroup chosen
      else (let default = default_group_key api_name in
            DefaultGroup default
              (case suggest_tags api_name taken 1 of [] \<Rightarrow> default @ ''-tag1'' | t # _ \<Rightarrow> t)))"

text \<open>The loop is a search: the first \<open>count\<close> unused candidates among the first 99.\<close>

lemma tag_loop_eq:
  "length out \<le> count \<Longrightarrow>
   tag_loop base used count n out =
     out @ take (count - length out)
       (filter (\<lambda>t. py_lower t \<notin> set used) (map (tag_candidate base) [n..<100]))"
proof (induction base used count n out rule: tag_loop.induct)
  case (1 base used count n out)
  show ?case
  proof (cases "length out < count \<and> n < 100")
    case True
    then have u: "[n..<100] = n # [Suc n..<100]" by (simp add: upt_rec)
    have step: "Suc (count - Suc (length out)) = count - length out" using True by (simp add: Suc_diff_Suc)
    show ?thesis
      using True "1.IH" by (subst tag_loop.simps) (auto simp: u step [symmetric])
  next
    case False
    with "1.prems" show ?thesis
      by (subst tag_loop.simps) auto
  qed
qed

lemma Nil_nat_str [simp]: "[] \<noteq> nat_str n"
  using nat_str_nonempty [of n] by metis

lemma nat_str_inj: "nat_str m = nat_str n \<Longrightarrow> m = n"
proof (induction m arbitrary: n rule: nat_str.induct)
  case (1 m)
  have digit: "char_of (48 + k) = (char_of (48 + l) :: char) \<Longrightarrow> k < 10 \<Longrightarrow> l < 10 \<Longrightarrow> k = l" for k l :: nat
    using digit_char_of by (metis add_left_cancel)
  have m: "nat_str m = (if m < 10 then [char_of (48 + m)] else nat_str (m div 10) @ [char_of (48 + m mod 10)])"
    and n: "nat_str n = (if n < 10 then [char_of (48 + n)] else nat_str (n div 10) @ [char_of (48 + n mod 10)])"
    by (subst nat_str.simps, rule refl)+
  show ?case
  proof (cases "m < 10")
    case True
    with "1.prems" m n have "n < 10" by (cases "n < 10") auto
    with True "1.prems" m n show ?thesis by (auto dest: digit)
  next
    case False
    with "1.prems" m n have n10: "\<not> n < 10" by (cases "n < 10") auto
    have "nat_str (m div 10) @ [char_of (48 + m mod 10)] = nat_str (n div 10) @ [char_of (48 + n mod 10)]"
      using False n10 "1.prems" m n by metis
    then have "nat_str (m div 10) = nat_str (n div 10)"
      and c: "char_of (48 + m mod 10) = (char_of (48 + n mod 10) :: char)"
      by (simp_all only: append1_eq_conv)
    then have "m div 10 = n div 10" by (intro "1.IH" [OF False])
    moreover have "m mod 10 = n mod 10" by (rule digit [OF c]) simp_all
    ultimately show ?thesis by (metis div_mult_mod_eq)
  qed
qed

lemma inj_tag_candidate: "inj (tag_candidate base)"
  by (rule injI) (auto simp: tag_candidate_def dest: nat_str_inj)

text \<open>
  The tag suggester finds exactly the first free names: the list it returns is the first
  \<open>count\<close> of \<open>base-tag1\<close> to \<open>base-tag99\<close> that nobody uses (case ignored), without repetition.
\<close>

theorem tag_names_first_free:
  "tag_names base_key taken count =
     (let base = py_strip (or_blank base_key) in
      if base = [] then []
      else take count [t \<leftarrow> map (tag_candidate base) [1..<100]. py_lower t \<notin> set (used_tags taken)]) \<and>
   distinct (tag_names base_key taken count)"
proof -
  let ?b = "py_strip (or_blank base_key)"
  have e: "tag_names base_key taken count =
      (if ?b = [] then []
       else take count [t \<leftarrow> map (tag_candidate ?b) [1..<100]. py_lower t \<notin> set (used_tags taken)])"
    by (simp add: tag_names_def Let_def tag_loop_eq)
  have "distinct (map (tag_candidate ?b) [1..<100])"
    using inj_tag_candidate by (simp add: distinct_map inj_on_def inj_def)
  then have "distinct [t \<leftarrow> map (tag_candidate ?b) [1..<100]. py_lower t \<notin> set (used_tags taken)]"
    by (rule distinct_filter)
  with e show ?thesis by (simp add: Let_def distinct_take)
qed

lemma tag_names_unused: "t \<in> set (tag_names b taken c) \<Longrightarrow> py_lower t \<notin> set (used_tags taken)"
  by (auto simp: tag_names_def Let_def tag_loop_eq dest!: in_set_takeD split: if_splits)

lemma tag_names_nonempty: "t \<in> set (tag_names b taken c) \<Longrightarrow> t \<noteq> []"
  by (auto simp: tag_names_def Let_def tag_loop_eq tag_candidate_def dest!: in_set_takeD split: if_splits)

lemma tag_names_one_Nil:
  "tag_names (Some b) taken 1 = [] \<longleftrightarrow>
   py_strip b = [] \<or> (\<forall>n \<in> {1..<100}. py_lower (tag_candidate (py_strip b) n) \<in> set (used_tags taken))"
  by (auto simp: tag_names_def Let_def tag_loop_eq or_blank_def filter_empty_conv)

text \<open>
  The tag offered first is never one the service already uses, and nothing is offered only when
  the base name is blank or the base and all of its 99 numbered names are taken.
\<close>

theorem preload_for_is_free:
  "(preload_for base_key taken = [] \<longleftrightarrow>
      (let base = py_strip (or_blank base_key) in
       base = [] \<or> set (py_lower base # map (\<lambda>n. py_lower (tag_candidate base n)) [1..<100])
         \<subseteq> set (used_tags taken))) \<and>
   \<not> (preload_for base_key taken \<noteq> [] \<and> py_lower (preload_for base_key taken) \<in> set (used_tags taken))"
proof -
  let ?b = "py_strip (or_blank base_key)"
  let ?ts = "tag_names (Some ?b) taken 1"
  have ne: "?ts = t # ts \<Longrightarrow> ?b \<noteq> [] \<Longrightarrow> t \<noteq> []" for t ts
    using tag_names_nonempty [of t "Some ?b" taken 1] by simp
  have free: "?ts = t # ts \<Longrightarrow> py_lower t \<notin> set (used_tags taken)" for t ts
    using tag_names_unused [of t "Some ?b" taken 1] by simp
  have nil: "?ts = [] \<longleftrightarrow> ?b = [] \<or> (\<forall>n \<in> {1..<100}. py_lower (tag_candidate ?b n) \<in> set (used_tags taken))"
    using tag_names_one_Nil [of ?b taken] by simp
  show ?thesis
  proof (cases "?b = [] \<or> py_lower ?b \<notin> set (used_tags taken)")
    case True
    then show ?thesis by (auto simp: preload_for_def Let_def)
  next
    case False
    then show ?thesis
      using ne free nil by (cases ?ts) (auto simp: preload_for_def Let_def)
  qed
qed

section \<open>Path overlaps\<close>

record existing_route =
  er_path :: string
  er_method :: string
  er_group_key :: string
  er_priority :: int
  er_code :: "string option"

text \<open>A stored route with its group, as the repository loads it.\<close>

record route_group_row =
  rg_key :: "string option"
  rg_priority :: "int option"

record route_row =
  rr_path :: "string option"
  rr_method :: "string option"
  rr_api_name :: "string option"
  rr_group :: "route_group_row option"
  rr_code :: "string option"

record path_overlap =
  po_path :: string
  po_method :: string
  po_their_tag :: string
  po_their_priority :: int
  po_your_tag :: string
  po_your_priority :: int
  po_their_code :: "string option"

definition is_override :: "path_overlap \<Rightarrow> bool" where
  "is_override v = (po_your_priority v > po_their_priority v)"

definition overlap_message :: "path_overlap \<Rightarrow> string" where
  "overlap_message v =
     (if is_override v
      then po_method v @ '' '' @ po_path v @ '': '' @ [CHR 0x27] @ po_your_tag v @ [CHR 0x27] @
           '' at priority '' @ int_str (po_your_priority v) @ '' will override '' @
           [CHR 0x27] @ po_their_tag v @ [CHR 0x27] @ '' at '' @ int_str (po_their_priority v) @
           ''. Kong serves the higher priority; the other group keeps the path but is shadowed.''
      else po_method v @ '' '' @ po_path v @ '' is already in route group '' @
           [CHR 0x27] @ po_their_tag v @ [CHR 0x27] @ '' at priority '' @ int_str (po_their_priority v) @
           ''. Two groups matching one path need a tie-break: give '' @
           [CHR 0x27] @ po_your_tag v @ [CHR 0x27] @ '' a regex_priority above '' @
           int_str (po_their_priority v) @ '' to override it, or add the path under the '' @
           [CHR 0x27] @ po_their_tag v @ [CHR 0x27] @ '' tag instead.'')"

datatype overlap_error = BadRoutePath path_error | PathConflicts "path_overlap list"

definition error_messages :: "overlap_error \<Rightarrow> string list" where
  "error_messages e = (case e of BadRoutePath _ \<Rightarrow> [] | PathConflicts vs \<Rightarrow> map overlap_message vs)"

text \<open>Both stored spellings of a path: with and without the final anchor.\<close>

definition path_keys :: "string \<Rightarrow> (path_error, string \<times> string) result" where
  "path_keys p =
     (case compile_route_path p of
        Inl e \<Rightarrow> Inl e
      | Inr c \<Rightarrow> Inr (if endswith c ''$'' then (c, butlast c) else (c, c @ ''$'')))"

text \<open>\<open>from_models\<close>: a row with no group falls into the default group of its own service.\<close>

definition row_tag :: "string option \<Rightarrow> route_row \<Rightarrow> string" where
  "row_tag default_tag row =
     (let tag = py_strip (or_blank (Option.bind (rr_group row) rg_key)) in
      if tag \<noteq> [] then tag
      else if default_group_key (rr_api_name row) \<noteq> [] then default_group_key (rr_api_name row)
      else py_strip (or_blank default_tag))"

fun from_models :: "string option \<Rightarrow> route_row list \<Rightarrow> existing_route list" where
  "from_models default_tag [] = []"
| "from_models default_tag (row # rows) =
     (if row_tag default_tag row = [] then from_models default_tag rows
      else \<lparr>er_path = or_blank (rr_path row),
            er_method = py_upper (py_strip (or_blank (rr_method row))),
            er_group_key = row_tag default_tag row,
            er_priority = (case Option.bind (rr_group row) rg_priority of None \<Rightarrow> 0 | Some n \<Rightarrow> n),
            er_code = rr_code row\<rparr> # from_models default_tag rows)"

text \<open>
  The index: every spelling of a path to the routes of other groups that claim it.  A route is kept
  with its position in the list, which stands for its identity.
\<close>

type_synonym route_index = "(string, (nat \<times> existing_route) list) dict"

definition index_add :: "string \<Rightarrow> nat \<times> existing_route \<Rightarrow> route_index \<Rightarrow> route_index" where
  "index_add k r idx = AList.update k ((case map_of idx k of None \<Rightarrow> [] | Some rs \<Rightarrow> rs) @ [r]) idx"

definition index_get :: "route_index \<Rightarrow> string \<Rightarrow> (nat \<times> existing_route) list" where
  "index_get idx k = (case map_of idx k of None \<Rightarrow> [] | Some rs \<Rightarrow> rs)"

text \<open>The rows that take part: same method, not being rewritten by the caller, with a path.\<close>

definition considered :: "string \<Rightarrow> string list \<Rightarrow> existing_route \<Rightarrow> bool" where
  "considered method ignore_codes r =
     (er_method r = method \<and>
      \<not> (case er_code r of None \<Rightarrow> False | Some c \<Rightarrow> c \<noteq> [] \<and> c \<in> set ignore_codes) \<and>
      er_path r \<noteq> [])"

fun index_routes ::
  "string \<Rightarrow> string \<Rightarrow> string list \<Rightarrow> nat \<Rightarrow> existing_route list \<Rightarrow> route_index \<times> string list \<Rightarrow>
   (path_error, route_index \<times> string list) result" where
  "index_routes method tag ignore n [] acc = Inr acc"
| "index_routes method tag ignore n (r # rs) (idx, mine) =
     (if \<not> considered method ignore r then index_routes method tag ignore (Suc n) rs (idx, mine)
      else (case path_keys (er_path r) of
          Inl e \<Rightarrow> Inl e
        | Inr (k1, k2) \<Rightarrow>
            if py_strip (er_group_key r) = tag
            then index_routes method tag ignore (Suc n) rs (idx, mine @ [k1, k2])
            else index_routes method tag ignore (Suc n) rs
                   (index_add k2 (n, r) (index_add k1 (n, r) idx), mine)))"

text \<open>\<open>{id(r): r for ...}\<close> keeps one entry per row; \<open>max\<close> returns the first of the best.\<close>

fun dedupe_rows :: "(nat \<times> existing_route) list \<Rightarrow> (nat \<times> existing_route) list \<Rightarrow> existing_route list" where
  "dedupe_rows seen [] = map snd seen"
| "dedupe_rows seen (r # rs) =
     (if fst r \<in> fst ` set seen then dedupe_rows seen rs else dedupe_rows (seen @ [r]) rs)"

fun worst_blocker :: "existing_route \<Rightarrow> existing_route list \<Rightarrow> existing_route" where
  "worst_blocker best [] = best"
| "worst_blocker best (r # rs) =
     worst_blocker (if er_priority r > er_priority best then r else best) rs"

fun classify_paths ::
  "string \<Rightarrow> string \<Rightarrow> int \<Rightarrow> route_index \<times> string list \<Rightarrow> string option list \<Rightarrow>
   path_overlap list \<times> path_overlap list \<Rightarrow> (path_error, path_overlap list \<times> path_overlap list) result" where
  "classify_paths method tag prio im [] acc = Inr acc"
| "classify_paths method tag prio (idx, mine) (raw # raws) (conflicts, overrides) =
     (if is_blank (or_blank raw) then classify_paths method tag prio (idx, mine) raws (conflicts, overrides)
      else (case path_keys (or_blank raw) of
          Inl e \<Rightarrow> Inl e
        | Inr (k1, k2) \<Rightarrow>
            if k1 \<in> set mine \<or> k2 \<in> set mine
            then classify_paths method tag prio (idx, mine) raws (conflicts, overrides)
            else (case dedupe_rows [] (index_get idx k1 @ index_get idx k2) of
                [] \<Rightarrow> classify_paths method tag prio (idx, mine) raws (conflicts, overrides)
              | b # bs \<Rightarrow>
                  let worst = worst_blocker b bs;
                      v = \<lparr>po_path = k1, po_method = method, po_their_tag = er_group_key worst,
                           po_their_priority = er_priority worst, po_your_tag = tag,
                           po_your_priority = prio, po_their_code = er_code worst\<rparr>
                  in classify_paths method tag prio (idx, mine) raws
                       (if is_override v then (conflicts, overrides @ [v]) else (conflicts @ [v], overrides)))))"

definition plan ::
  "string option list \<Rightarrow> string option \<Rightarrow> string option \<Rightarrow> int option \<Rightarrow> existing_route list \<Rightarrow> string list \<Rightarrow>
   (path_error, path_overlap list \<times> path_overlap list) result" where
  "plan paths http_method group_key priority existing ignore_codes =
     (let method = py_upper (py_strip (or_blank http_method));
          tag = py_strip (or_blank group_key);
          mine = (case priority of None \<Rightarrow> 0 | Some n \<Rightarrow> n)
      in case index_routes method tag ignore_codes 0 existing ([], []) of
           Inl e \<Rightarrow> Inl e
         | Inr im \<Rightarrow> classify_paths method tag mine im paths ([], []))"

definition validate_overlaps ::
  "string option list \<Rightarrow> string option \<Rightarrow> string option \<Rightarrow> int option \<Rightarrow> existing_route list \<Rightarrow> string list \<Rightarrow>
   (overlap_error, path_overlap list) result" where
  "validate_overlaps paths http_method group_key priority existing ignore_codes =
     (case plan paths http_method group_key priority existing ignore_codes of
        Inl e \<Rightarrow> Inl (BadRoutePath e)
      | Inr (conflicts, overrides) \<Rightarrow>
          if conflicts \<noteq> [] then Inl (PathConflicts conflicts) else Inr overrides)"

subsection \<open>The rule without the index\<close>

definition claims :: "existing_route \<Rightarrow> string \<Rightarrow> bool" where
  "claims r k = (case path_keys (er_path r) of Inl _ \<Rightarrow> False | Inr (a, b) \<Rightarrow> k = a \<or> k = b)"

definition own_group :: "string \<Rightarrow> existing_route \<Rightarrow> bool" where
  "own_group tag r = (py_strip (er_group_key r) = tag)"

definition rivals :: "string \<Rightarrow> string \<Rightarrow> string list \<Rightarrow> existing_route list \<Rightarrow> existing_route list" where
  "rivals method tag ignore rs = filter (\<lambda>r. considered method ignore r \<and> \<not> own_group tag r) rs"

definition owned :: "string \<Rightarrow> string \<Rightarrow> string list \<Rightarrow> existing_route list \<Rightarrow> string \<Rightarrow> bool" where
  "owned method tag ignore rs k =
     list_ex (\<lambda>r. considered method ignore r \<and> own_group tag r \<and> claims r k) rs"

definition verdict ::
  "string \<Rightarrow> string \<Rightarrow> int \<Rightarrow> string list \<Rightarrow> existing_route list \<Rightarrow> string option \<Rightarrow> path_overlap option" where
  "verdict method tag prio ignore rs raw =
     (case path_keys (or_blank raw) of
        Inl _ \<Rightarrow> None
      | Inr (k1, k2) \<Rightarrow>
          if owned method tag ignore rs k1 \<or> owned method tag ignore rs k2 then None
          else (case filter (\<lambda>r. claims r k1) (rivals method tag ignore rs) @
                     filter (\<lambda>r. claims r k2 \<and> \<not> claims r k1) (rivals method tag ignore rs) of
              [] \<Rightarrow> None
            | b # bs \<Rightarrow>
                let worst = worst_blocker b bs in
                Some \<lparr>po_path = k1, po_method = method, po_their_tag = er_group_key worst,
                      po_their_priority = er_priority worst, po_your_tag = tag,
                      po_your_priority = prio, po_their_code = er_code worst\<rparr>))"

definition unreadable :: "string \<Rightarrow> string list \<Rightarrow> existing_route \<Rightarrow> bool" where
  "unreadable method ignore r = (considered method ignore r \<and> is_blank (er_path r))"

lemma path_keys_blank: "path_keys p = Inl e \<longleftrightarrow> is_blank p"
  by (cases e) (auto simp: path_keys_def compile_route_path_def is_blank_def Let_def split: sum.splits if_splits)

lemma path_keys_distinct: "path_keys p = Inr (a, b) \<Longrightarrow> a \<noteq> b"
  by (auto simp: path_keys_def suffix_def split: sum.splits if_splits)

lemma index_get_add [simp]:
  "index_get (index_add k r idx) j = (if j = k then index_get idx k @ [r] else index_get idx j)"
  by (simp add: index_add_def index_get_def update_conv' fun_upd_def)

lemma index_routes_get:
  "index_routes method tag ignore n rs (idx, mine) = Inr (idx', mine') \<Longrightarrow>
   index_get idx' k = index_get idx k @
     filter (\<lambda>(i, r). considered method ignore r \<and> \<not> own_group tag r \<and> claims r k) (List.enumerate n rs)"
proof (induction rs arbitrary: n idx mine)
  case (Cons r rs)
  show ?case
  proof (cases "considered method ignore r")
    case False
    with Cons show ?thesis by simp
  next
    case True
    with Cons.prems obtain k1 k2 where k: "path_keys (er_path r) = Inr (k1, k2)"
      by (auto split: sum.splits)
    with Cons.prems Cons.IH True path_keys_distinct [OF k] show ?thesis
      by (cases "own_group tag r") (auto simp: own_group_def claims_def)
  qed
qed simp

lemma index_routes_mine:
  "index_routes method tag ignore n rs (idx, mine) = Inr (idx', mine') \<Longrightarrow>
   k \<in> set mine' \<longleftrightarrow> k \<in> set mine \<or> owned method tag ignore rs k"
proof (induction rs arbitrary: n idx mine)
  case (Cons r rs)
  show ?case
  proof (cases "considered method ignore r")
    case False
    with Cons show ?thesis by (simp add: owned_def)
  next
    case True
    with Cons.prems obtain k1 k2 where k: "path_keys (er_path r) = Inr (k1, k2)"
      by (auto split: sum.splits)
    with Cons.prems Cons.IH True show ?thesis
      by (cases "own_group tag r") (auto simp: own_group_def claims_def owned_def)
  qed
qed (simp add: owned_def)

lemma index_routes_total:
  "isl (index_routes method tag ignore n rs (idx, mine)) \<longleftrightarrow> list_ex (unreadable method ignore) rs"
proof (induction rs arbitrary: n idx mine)
  case (Cons r rs)
  show ?case
  proof (cases "considered method ignore r \<and> \<not> is_blank (er_path r)")
    case True
    then obtain k1 k2 where "path_keys (er_path r) = Inr (k1, k2)"
      using path_keys_blank by (cases "path_keys (er_path r)") auto
    with True Cons show ?thesis by (simp add: unreadable_def)
  next
    case False
    then show ?thesis
    proof (cases "considered method ignore r")
      case True
      with False obtain e where "path_keys (er_path r) = Inl e" by (metis path_keys_blank)
      with True False show ?thesis by (simp add: unreadable_def)
    qed (simp add: Cons.IH unreadable_def)
  qed
qed simp
lemma dedupe_rows_distinct:
  "distinct (map fst rs) \<Longrightarrow>
   dedupe_rows seen rs = map snd (seen @ filter (\<lambda>r. fst r \<notin> fst ` set seen) rs)"
proof (induction rs arbitrary: seen)
  case (Cons r rs)
  have "filter (\<lambda>x. fst x \<noteq> fst r \<and> fst x \<notin> fst ` set seen) rs = filter (\<lambda>x. fst x \<notin> fst ` set seen) rs"
  proof (rule filter_cong [OF refl])
    fix x assume "x \<in> set rs"
    then have "fst x \<in> fst ` set rs" by (rule imageI)
    moreover have "fst r \<notin> fst ` set rs" using Cons.prems by simp
    ultimately show "(fst x \<noteq> fst r \<and> fst x \<notin> fst ` set seen) = (fst x \<notin> fst ` set seen)" by metis
  qed
  with Cons show ?case by simp
qed simp

lemma dedupe_rows_append:
  "distinct (map fst (seen @ rs)) \<Longrightarrow> dedupe_rows seen (rs @ ss) = dedupe_rows (seen @ rs) ss"
  by (induction rs arbitrary: seen) auto

lemma map_snd_filter_enumerate:
  "map snd (filter (\<lambda>(i, r). P r) (List.enumerate n rs)) = filter P rs"
  by (induction rs arbitrary: n) auto

text \<open>The rows found under the two spellings, each once, in the order the index yields them.\<close>

lemma blockers_eq:
  assumes "index_routes method tag ignore 0 rs ([], []) = Inr (idx, mine)"
  shows "dedupe_rows [] (index_get idx k1 @ index_get idx k2) =
    filter (\<lambda>r. claims r k1) (rivals method tag ignore rs) @
    filter (\<lambda>r. claims r k2 \<and> \<not> claims r k1) (rivals method tag ignore rs)"
proof -
  define R where "R = (\<lambda>r. considered method ignore r \<and> \<not> own_group tag r)"
  define E where "E = List.enumerate 0 rs"
  have get: "index_get idx k = filter (\<lambda>(i, r). R r \<and> claims r k) E" for k
    using index_routes_get [OF assms, of k] by (simp add: R_def E_def index_get_def conj_assoc)
  have dE: "distinct (map fst E)" by (simp add: E_def distinct_enumerate)
  then have d: "distinct (map fst (index_get idx k))" for k
    unfolding get by (simp add: distinct_map inj_on_def)
  have "dedupe_rows [] (index_get idx k1 @ index_get idx k2) = dedupe_rows (index_get idx k1) (index_get idx k2)"
    using dedupe_rows_append [of "[]" "index_get idx k1"] d by simp
  also have "\<dots> = map snd (index_get idx k1 @ filter (\<lambda>r. fst r \<notin> fst ` set (index_get idx k1)) (index_get idx k2))"
    by (rule dedupe_rows_distinct [OF d])
  also have "filter (\<lambda>r. fst r \<notin> fst ` set (index_get idx k1)) (index_get idx k2) =
      filter (\<lambda>(i, r). R r \<and> claims r k2 \<and> \<not> claims r k1) E"
  proof -
    have "fst x \<in> fst ` set (index_get idx k1) \<longleftrightarrow> R (snd x) \<and> claims (snd x) k1" if "x \<in> set E" for x
    proof
      assume "fst x \<in> fst ` set (index_get idx k1)"
      then obtain y where "y \<in> set E" "fst y = fst x" "R (snd y)" "claims (snd y) k1" by (auto simp: get)
      with that dE show "R (snd x) \<and> claims (snd x) k1"
        by (metis distinct_map inj_onD)
    qed (use that in \<open>auto simp: get intro!: rev_image_eqI\<close>)
    then show ?thesis by (auto simp: get split_def intro!: filter_cong)
  qed
  finally show ?thesis
    using map_snd_filter_enumerate [of "\<lambda>r. R r \<and> claims r k1" 0 rs]
      map_snd_filter_enumerate [of "\<lambda>r. R r \<and> claims r k2 \<and> \<not> claims r k1" 0 rs]
    by (simp add: get E_def rivals_def R_def conj_ac)
qed

lemma classify_paths_eq:
  assumes "index_routes method tag ignore 0 rs ([], []) = Inr (idx, mine)"
  shows "classify_paths method tag prio (idx, mine) raws (cs, os) =
    (let vs = List.map_filter (verdict method tag prio ignore rs) raws
     in Inr (cs @ filter (\<lambda>v. \<not> is_override v) vs, os @ filter is_override vs))"
proof (induction raws arbitrary: cs os)
  case Nil
  show ?case by (simp add: List.map_filter_def)
next
  case (Cons raw raws)
  have own: "k \<in> set mine \<longleftrightarrow> owned method tag ignore rs k" for k
    using index_routes_mine [OF assms] by simp
  show ?case
  proof (cases "path_keys (or_blank raw)")
    case (Inl e)
    then show ?thesis
      using Cons path_keys_blank [of "or_blank raw" e]
      by (simp add: verdict_def List.map_filter_def Let_def)
  next
    case (Inr p)
    obtain k1 k2 where p: "p = (k1, k2)" by (cases p)
    have "\<not> is_blank (or_blank raw)"
      using Inr path_keys_blank [of "or_blank raw" EmptyRoutePath] by auto
    then show ?thesis
      using Inr p Cons
      by (auto simp: verdict_def own blockers_eq [OF assms] List.map_filter_def Let_def
          is_override_def split: list.split)
  qed
qed

lemma plan_eq:
  "plan paths m g p existing ignore =
    (let method = py_upper (py_strip (or_blank m)); tag = py_strip (or_blank g);
         prio = (case p of None \<Rightarrow> 0 | Some n \<Rightarrow> n)
     in if list_ex (unreadable method ignore) existing then Inl EmptyRoutePath
        else let vs = List.map_filter (verdict method tag prio ignore existing) paths
             in Inr (filter (\<lambda>v. \<not> is_override v) vs, filter is_override vs))"
proof -
  let ?m = "py_upper (py_strip (or_blank m))" and ?t = "py_strip (or_blank g)"
  have total: "isl (index_routes ?m ?t ignore 0 existing ([], [])) \<longleftrightarrow> list_ex (unreadable ?m ignore) existing"
    by (rule index_routes_total)
  show ?thesis
  proof (cases "index_routes ?m ?t ignore 0 existing ([], [])")
    case (Inl e)
    then show ?thesis using total by (cases e) (simp add: plan_def Let_def)
  next
    case (Inr im)
    then show ?thesis using total
      by (cases im) (simp add: plan_def Let_def classify_paths_eq)
  qed
qed

text \<open>
  The overlap planner's index is only an optimisation: its answer is the one of the rule read
  off row by row.  It fails exactly when a row that takes part has a blank path; otherwise every
  incoming path gets the verdict of the direct search, split into conflicts and overrides in order.
\<close>

theorem plan_is_direct_search:
  "plan paths m g p existing ignore =
    (let method = py_upper (py_strip (or_blank m)); tag = py_strip (or_blank g);
         prio = (case p of None \<Rightarrow> 0 | Some n \<Rightarrow> n)
     in if list_ex (unreadable method ignore) existing then Inl EmptyRoutePath
        else let vs = List.map_filter (verdict method tag prio ignore existing) paths
             in Inr (filter (\<lambda>v. \<not> is_override v) vs, filter is_override vs))"
  by (rule plan_eq)
lemma worst_blocker_max:
  "worst_blocker b bs \<in> set (b # bs) \<and> (\<forall>r \<in> set (b # bs). er_priority r \<le> er_priority (worst_blocker b bs))"
proof (induction bs arbitrary: b)
  case (Cons r bs)
  show ?case using Cons [of "if er_priority r > er_priority b then r else b"] by auto
qed simp

text \<open>The groups that also claim a path, and the verdict they lead to.\<close>

definition path_rivals :: "string \<Rightarrow> string \<Rightarrow> string list \<Rightarrow> existing_route list \<Rightarrow> string \<Rightarrow> existing_route list" where
  "path_rivals method tag ignore rs p =
     (case path_keys p of Inl _ \<Rightarrow> []
      | Inr (k1, k2) \<Rightarrow>
          if owned method tag ignore rs k1 \<or> owned method tag ignore rs k2 then []
          else filter (\<lambda>r. claims r k1 \<or> claims r k2) (rivals method tag ignore rs))"

lemma verdict_rivals:
  "case verdict method tag prio ignore rs raw of
     None \<Rightarrow> path_rivals method tag ignore rs (or_blank raw) = []
   | Some v \<Rightarrow> po_your_priority v = prio \<and>
       (\<exists>r \<in> set (path_rivals method tag ignore rs (or_blank raw)).
          er_priority r = po_their_priority v \<and> er_group_key r = po_their_tag v \<and> er_code r = po_their_code v) \<and>
       (\<forall>r \<in> set (path_rivals method tag ignore rs (or_blank raw)). er_priority r \<le> po_their_priority v)"
proof (cases "path_keys (or_blank raw)")
  case (Inl e)
  then show ?thesis by (simp add: verdict_def path_rivals_def)
next
  case (Inr p)
  obtain k1 k2 where p: "p = (k1, k2)" by (cases p)
  let ?R = "rivals method tag ignore rs"
  let ?B = "filter (\<lambda>r. claims r k1) ?R @ filter (\<lambda>r. claims r k2 \<and> \<not> claims r k1) ?R"

  show ?thesis
  proof (cases "owned method tag ignore rs k1 \<or> owned method tag ignore rs k2")
    case True
    with Inr p show ?thesis by (auto simp: verdict_def path_rivals_def)
  next
    case False
    with Inr p have pr: "set (path_rivals method tag ignore rs (or_blank raw)) = set ?B"
      by (simp add: path_rivals_def) blast
    show ?thesis
    proof (cases ?B)
      case Nil
      with pr have "path_rivals method tag ignore rs (or_blank raw) = []" by simp
      with Nil False Inr p show ?thesis by (simp add: verdict_def)
    next
      case (Cons b bs)
      from worst_blocker_max [of b bs] Cons False Inr p show ?thesis
        unfolding pr by (auto simp: verdict_def Let_def)
    qed
  qed
qed

definition outranked :: "string \<Rightarrow> string \<Rightarrow> int \<Rightarrow> string list \<Rightarrow> existing_route list \<Rightarrow> string \<Rightarrow> bool" where
  "outranked method tag prio ignore rs p \<longleftrightarrow>
     (case path_keys p of
        Inl _ \<Rightarrow> True
      | Inr (k1, k2) \<Rightarrow>
          owned method tag ignore rs k1 \<or> owned method tag ignore rs k2 \<or>
          (\<forall>r \<in> set (rivals method tag ignore rs). claims r k1 \<or> claims r k2 \<longrightarrow> er_priority r < prio))"

lemma path_rivals_below:
  "(\<forall>r \<in> set (path_rivals method tag ignore rs p). er_priority r < prio) \<longleftrightarrow> outranked method tag prio ignore rs p"
  by (auto simp: path_rivals_def outranked_def split: sum.split)

text \<open>
  C27: When the stored rows of the method are readable, a request passes exactly when every incoming path either does
  not compile, or is one this group already owns under one of its two spellings, or is claimed, under either spelling,
  only by other groups of strictly lower priority.  Paths the group owns already are not looked at again, whatever
  their priority; so no accepted save leaves two groups of equal priority on a path it adds.
\<close>

theorem validate_overlaps_iff_outranks:
  assumes "\<not> list_ex (unreadable (py_upper (py_strip (or_blank m))) ignore) existing"
  shows "(\<exists>overrides. validate_overlaps paths m g (Some prio) existing ignore = Inr overrides) \<longleftrightarrow>
    (let method = py_upper (py_strip (or_blank m)); tag = py_strip (or_blank g) in
     \<forall>raw \<in> set paths.
       case path_keys (or_blank raw) of
         Inl _ \<Rightarrow> True
       | Inr (k1, k2) \<Rightarrow>
           owned method tag ignore existing k1 \<or> owned method tag ignore existing k2 \<or>
           (\<forall>r \<in> set (rivals method tag ignore existing). claims r k1 \<or> claims r k2 \<longrightarrow> er_priority r < prio))"
proof -
  let ?v = "verdict (py_upper (py_strip (or_blank m))) (py_strip (or_blank g)) prio ignore existing"
  let ?P = "\<lambda>raw. path_rivals (py_upper (py_strip (or_blank m))) (py_strip (or_blank g)) ignore existing (or_blank raw)"
  have "(\<exists>overrides. validate_overlaps paths m g (Some prio) existing ignore = Inr overrides) \<longleftrightarrow>
      (\<forall>raw \<in> set paths. \<forall>v. ?v raw = Some v \<longrightarrow> is_override v)"
  proof -
    let ?vs = "List.map_filter ?v paths"
    have vs: "set ?vs = {v. \<exists>raw \<in> set paths. ?v raw = Some v}"
      by (force simp: List.map_filter_def)
    have "plan paths m g (Some prio) existing ignore = Inr (filter (\<lambda>v. \<not> is_override v) ?vs, filter is_override ?vs)"
      using assms by (simp add: plan_eq Let_def)
    then have "(\<exists>overrides. validate_overlaps paths m g (Some prio) existing ignore = Inr overrides) \<longleftrightarrow>
        (\<forall>v \<in> set ?vs. is_override v)"
      by (auto simp: validate_overlaps_def filter_empty_conv)
    then show ?thesis unfolding vs by blast
  qed
  also have "\<dots> \<longleftrightarrow> (\<forall>raw \<in> set paths. \<forall>r \<in> set (?P raw). er_priority r < prio)"
  proof (rule ball_cong [OF refl])
    fix raw
    show "(\<forall>v. ?v raw = Some v \<longrightarrow> is_override v) \<longleftrightarrow> (\<forall>r \<in> set (?P raw). er_priority r < prio)"
      using verdict_rivals [of "py_upper (py_strip (or_blank m))" "py_strip (or_blank g)" ignore existing raw prio]
      by (cases "?v raw") (fastforce simp: is_override_def)+
  qed
  also have "\<dots> \<longleftrightarrow> (\<forall>raw \<in> set paths. outranked (py_upper (py_strip (or_blank m))) (py_strip (or_blank g))
      prio ignore existing (or_blank raw))"
    by (simp only: path_rivals_below)
  finally show ?thesis unfolding outranked_def Let_def .
qed

definition gateway_rows :: "existing_route list" where
  "gateway_rows =
     [\<lparr>er_path = ''/health'', er_method = ''GET'', er_group_key = ''goms-service'', er_priority = 0, er_code = Some ''KR1''\<rparr>,
      \<lparr>er_path = ''~/health'', er_method = ''GET'', er_group_key = ''public'', er_priority = 200, er_code = Some ''KR2''\<rparr>]"

lemma validate_overlaps_iff_outranks_witness:
  "(\<exists>overrides. validate_overlaps [Some ''/health''] (Some ''get'') (Some ''ops'') (Some 201) gateway_rows [] = Inr overrides) \<and>
   \<not> (\<exists>overrides. validate_overlaps [Some ''/health''] (Some ''get'') (Some ''ops'') (Some 200) gateway_rows [] = Inr overrides)"
proof -
  have ok: "\<not> list_ex (unreadable (py_upper (py_strip (or_blank (Some ''get'')))) []) gateway_rows" by code_simp
  have "path_keys (or_blank (Some ''/health'')) = Inr (''~/health$'', ''~/health'')"
    "map (\<lambda>r. (claims r ''~/health$'' \<or> claims r ''~/health'', er_priority r))
       (rivals (py_upper (py_strip (or_blank (Some ''get'')))) (py_strip (or_blank (Some ''ops''))) [] gateway_rows) =
     [(True, 0), (True, 200)]"
    "owned (py_upper (py_strip (or_blank (Some ''get'')))) (py_strip (or_blank (Some ''ops''))) [] gateway_rows ''~/health$'' = False"
    "owned (py_upper (py_strip (or_blank (Some ''get'')))) (py_strip (or_blank (Some ''ops''))) [] gateway_rows ''~/health'' = False"
    by code_simp+
  then show ?thesis
    unfolding validate_overlaps_iff_outranks [OF ok] Let_def by (auto simp: map_eq_Cons_conv)
qed

end
