(* ===== verification/InfraConfig.thy ===== *)
theory InfraConfig
  imports Values
begin

text \<open>
  The rules of an infrastructure request's configuration
  (\<open>app/domain/validators/infra_config_validator.py\<close>): how each resource type carries its name,
  the per-field checks, and which keys a caller may pass through.
\<close>

section \<open>Name table\<close>

record name_spec =
  stored_key :: string
  request_keys :: "string list"
  derived_keys :: "string list"

abbreviation s3_type :: string where "s3_type \<equiv> ''s3_infrastructuretype_ref''"
abbreviation sqs_type :: string where "sqs_type \<equiv> ''sqs_infrastructuretype_ref''"
abbreviation dynamodb_type :: string where "dynamodb_type \<equiv> ''dynamodb_infrastructuretype_ref''"
abbreviation redis_type :: string where "redis_type \<equiv> ''elasticache_redis_infrastructuretype_ref''"
abbreviation k8s_postgres_type :: string where
  "k8s_postgres_type \<equiv> ''devlift_k8s_postgres_infrastructuretype_ref''"
abbreviation aurora_postgres_type :: string where
  "aurora_postgres_type \<equiv> ''aurora_postgres_infrastructuretype_ref''"
abbreviation aurora_mysql_type :: string where
  "aurora_mysql_type \<equiv> ''aurora_mysql_infrastructuretype_ref''"

definition name_specs :: "(string, name_spec) dict" where
  "name_specs =
     [(s3_type, \<lparr>stored_key = ''identifier'', request_keys = [''identifier''],
        derived_keys = [''bucket_name'', ''bucket_arn'']\<rparr>),
      (sqs_type, \<lparr>stored_key = ''identifier'', request_keys = [''identifier''],
        derived_keys = [''queue_name'', ''queue_url'', ''queue_arn'', ''dlq_name'', ''dlq_url'', ''dlq_arn'']\<rparr>),
      (dynamodb_type, \<lparr>stored_key = ''identifier'', request_keys = [''identifier''],
        derived_keys = [''table_name'']\<rparr>),
      (redis_type, \<lparr>stored_key = ''identifier'', request_keys = [''identifier'', ''redis_cluster_name''],
        derived_keys = [''redis_cluster_name'', ''user_id'']\<rparr>),
      (k8s_postgres_type, \<lparr>stored_key = ''server_name'', request_keys = [''identifier'', ''server_name''],
        derived_keys = []\<rparr>),
      (aurora_postgres_type, \<lparr>stored_key = ''db_server_name'', request_keys = [''db_server_name'', ''identifier''],
        derived_keys = []\<rparr>),
      (aurora_mysql_type, \<lparr>stored_key = ''db_server_name'', request_keys = [''db_server_name'', ''identifier''],
        derived_keys = []\<rparr>)]"

definition spec_for :: "string \<Rightarrow> name_spec option" where
  "spec_for t = map_of name_specs t"

definition name_key_for :: "string \<Rightarrow> string option" where
  "name_key_for t = map_option stored_key (spec_for t)"

section \<open>Field checks\<close>

datatype infra_error =
    NameMissing
  | NameLength nat
  | NameFifoSuffix string
  | NameChars string
  | NameEnds string
  | PartitionKeyMissing
  | PartitionKeyInvalid string
  | PartitionKeyTypeMissing
  | PartitionKeyTypeInvalid string
  | AccountIdInvalid string string
  | AccountIdsNotList
  | AccountIdDuplicate string
  | NotWholeNumber string string
  | OutOfRange string int int int
  | OnlyWhitespace string
  | SurroundingSpace string string
  | ResourceNameRequired string
  | FieldRequired string
  | ResolvedNameTooLong string string nat nat

definition sqs_name_char :: "char \<Rightarrow> bool" where
  "sqs_name_char c = (is_alnum c \<or> c = CHR ''_'' \<or> c = CHR ''-'')"

definition s3_name_char :: "char \<Rightarrow> bool" where
  "s3_name_char c = (is_lower c \<or> py_isdigit c \<or> c = CHR ''.'' \<or> c = CHR ''-'')"

definition dynamodb_name_char :: "char \<Rightarrow> bool" where
  "dynamodb_name_char c = (is_alnum c \<or> c = CHR ''.'' \<or> c = CHR ''_'' \<or> c = CHR ''-'')"

definition validate_sqs_identifier :: "pyval \<Rightarrow> (infra_error, unit) result" where
  "validate_sqs_identifier v =
     (let name = clean_value v in
      and_then (refuse_if (name = []) NameMissing)
     (and_then (refuse_if (length name > 80) (NameLength (length name)))
     (and_then (refuse_if (endswith (py_lower name) ''.fifo'') (NameFifoSuffix name))
               (refuse_if (\<not> (list_all sqs_name_char name \<and> 1 \<le> length name \<and> length name \<le> 80)) (NameChars name)))))"

definition s3_edge_char :: "char \<Rightarrow> bool" where
  "s3_edge_char c = (is_lower c \<or> py_isdigit c)"

definition validate_s3_identifier :: "pyval \<Rightarrow> (infra_error, unit) result" where
  "validate_s3_identifier v =
     (let name = clean_value v in
      and_then (refuse_if (name = []) NameMissing)
     (and_then (refuse_if (length name < 3 \<or> length name > 63) (NameLength (length name)))
     (and_then (refuse_if (\<not> (list_all s3_name_char name \<and> 3 \<le> length name \<and> length name \<le> 63)) (NameChars name))
               (refuse_if (\<not> s3_edge_char (hd name) \<or> \<not> s3_edge_char (last name)) (NameEnds name)))))"

definition dynamodb_identifier_min :: nat where "dynamodb_identifier_min = 3"
definition dynamodb_identifier_max :: nat where "dynamodb_identifier_max = 200"

definition validate_dynamodb_identifier :: "pyval \<Rightarrow> (infra_error, unit) result" where
  "validate_dynamodb_identifier v =
     (let name = clean_value v in
      and_then (refuse_if (name = []) NameMissing)
     (and_then (refuse_if (length name < dynamodb_identifier_min \<or> length name > dynamodb_identifier_max)
                  (NameLength (length name)))
               (refuse_if (\<not> list_all dynamodb_name_char name) (NameChars name))))"

definition validate_dynamodb_partition_key :: "pyval \<Rightarrow> (infra_error, unit) result" where
  "validate_dynamodb_partition_key v =
     (let key = clean_value v in
      and_then (refuse_if (key = []) PartitionKeyMissing)
               (refuse_if (\<not> (list_all dynamodb_name_char key \<and> length key \<le> 255)) (PartitionKeyInvalid key)))"

definition validate_partition_key_type :: "pyval \<Rightarrow> (infra_error, unit) result" where
  "validate_partition_key_type v =
     (let value = py_upper (clean_value v) in
      and_then (refuse_if (value = []) PartitionKeyTypeMissing)
               (refuse_if (value \<notin> {''S'', ''N'', ''B''}) (PartitionKeyTypeInvalid (py_str v))))"

definition validate_aws_account_id :: "pyval \<Rightarrow> string \<Rightarrow> (infra_error, unit) result" where
  "validate_aws_account_id v field =
     (let value = clean_value v in
      refuse_if (\<not> (length value = 12 \<and> list_all py_isdigit value)) (AccountIdInvalid field value))"

text \<open>The loop over the account ids, with the ids seen so far.\<close>

fun check_account_ids :: "string list \<Rightarrow> pyval list \<Rightarrow> (infra_error, unit) result" where
  "check_account_ids seen [] = Inr ()"
| "check_account_ids seen (v # vs) =
     (let value = clean_value v in
      if value = [] then check_account_ids seen vs
      else and_then (validate_aws_account_id (VStr value) ''cross_account_id'')
          (and_then (refuse_if (value \<in> set seen) (AccountIdDuplicate value))
                    (check_account_ids (value # seen) vs)))"

definition validate_cross_account_ids :: "pyval \<Rightarrow> (infra_error, unit) result" where
  "validate_cross_account_ids v =
     (if \<not> truthy v then Inr ()
      else (case v of VList vs \<Rightarrow> check_account_ids [] vs | _ \<Rightarrow> Inl AccountIdsNotList))"

definition sqs_int_ranges :: "(string, int \<times> int) dict" where
  "sqs_int_ranges =
     [(''max_receive_count'', (1, 1000)),
      (''visibility_timeout_seconds'', (0, 43200)),
      (''message_retention_seconds'', (60, 1209600)),
      (''dlq_message_retention_seconds'', (60, 1209600))]"

definition check_range :: "string \<Rightarrow> int \<Rightarrow> int \<Rightarrow> int \<Rightarrow> (infra_error, unit) result" where
  "check_range label lo hi n = refuse_if (\<not> (lo \<le> n \<and> n \<le> hi)) (OutOfRange label lo hi n)"

definition validate_int_range :: "pyval \<Rightarrow> string \<Rightarrow> (infra_error, unit) result" where
  "validate_int_range v field =
     (case map_of sqs_int_ranges field of
        None \<Rightarrow> Inr ()
      | Some (lo, hi) \<Rightarrow>
          (case v of
             VInt n \<Rightarrow> check_range field lo hi n
           | _ \<Rightarrow>
               let text = clean_value v in
               if text = [] then Inr ()
               else (case py_int text of
                   None \<Rightarrow> Inl (NotWholeNumber field text)
                 | Some n \<Rightarrow> check_range field lo hi n)))"

definition validate_s3_fields :: "config \<Rightarrow> (infra_error, unit) result" where
  "validate_s3_fields cfg =
     (let account_id = dict_get cfg ''cross_account_account_id'' in
      if clean_value account_id \<noteq> []
      then validate_aws_account_id account_id ''cross_account_account_id'' else Inr ())"

definition validate_sqs_fields :: "config \<Rightarrow> (infra_error, unit) result" where
  "validate_sqs_fields cfg =
     and_then
       (check_each (\<lambda>field. if dict_get cfg field \<noteq> VNone then validate_int_range (dict_get cfg field) field
                            else Inr ()) (map fst sqs_int_ranges))
       (validate_cross_account_ids (dict_get cfg ''cross_account_ids''))"

definition validate_dynamodb_fields :: "config \<Rightarrow> (infra_error, unit) result" where
  "validate_dynamodb_fields cfg =
     and_then
       (if dict_get cfg ''partition_key'' \<noteq> VNone
        then validate_dynamodb_partition_key (dict_get cfg ''partition_key'') else Inr ())
       (if clean_value (dict_get cfg ''partition_key_type'') \<noteq> []
        then validate_partition_key_type (dict_get cfg ''partition_key_type'') else Inr ())"

text \<open>The dispatch tables \<open>_NAME_VALIDATORS\<close>, \<open>_FIELD_VALIDATORS\<close> and \<open>_REQUIRED_FIELDS\<close>.\<close>

definition name_validators :: "(string, pyval \<Rightarrow> (infra_error, unit) result) dict" where
  "name_validators =
     [(s3_type, validate_s3_identifier), (sqs_type, validate_sqs_identifier),
      (dynamodb_type, validate_dynamodb_identifier)]"

definition field_validators :: "(string, config \<Rightarrow> (infra_error, unit) result) dict" where
  "field_validators =
     [(s3_type, validate_s3_fields), (sqs_type, validate_sqs_fields),
      (dynamodb_type, validate_dynamodb_fields)]"

definition required_fields :: "string \<Rightarrow> string list" where
  "required_fields t = (if t = dynamodb_type then [''partition_key''] else [])"

section \<open>Reading and writing the name\<close>

text \<open>The first key whose value is not blank.\<close>

fun first_name :: "config \<Rightarrow> string list \<Rightarrow> string option" where
  "first_name cfg [] = None"
| "first_name cfg (k # ks) =
     (if clean_value (dict_get cfg k) \<noteq> [] then Some (clean_value (dict_get cfg k)) else first_name cfg ks)"

definition submitted_name :: "config option \<Rightarrow> string \<Rightarrow> string option" where
  "submitted_name cfg t =
     (case spec_for t of None \<Rightarrow> None | Some spec \<Rightarrow> first_name (dict_or cfg) (request_keys spec))"

definition stored_name :: "config option \<Rightarrow> string \<Rightarrow> string option" where
  "stored_name locator t =
     (case spec_for t of None \<Rightarrow> None
      | Some spec \<Rightarrow> first_name (dict_or locator) (stored_key spec # request_keys spec))"

definition with_name :: "config option \<Rightarrow> string \<Rightarrow> string \<Rightarrow> config" where
  "with_name cfg t name =
     (case spec_for t of None \<Rightarrow> dict_or cfg
      | Some spec \<Rightarrow>
          AList.update (hd (request_keys spec)) (VStr name)
            (dict_keep (\<lambda>k. k \<notin> set (request_keys spec)) (dict_or cfg)))"

definition identity_keys :: "string \<Rightarrow> string list" where
  "identity_keys t = (case spec_for t of None \<Rightarrow> [] | Some spec \<Rightarrow> request_keys spec @ derived_keys spec)"

definition passthrough_extra :: "config option \<Rightarrow> string \<Rightarrow> string list \<Rightarrow> config" where
  "passthrough_extra cfg t also_exclude =
     dict_keep (\<lambda>k. k \<notin> set (identity_keys t) \<union> {''region''} \<union> set also_exclude) (dict_or cfg)"

section \<open>The whole configuration\<close>

definition check_one_name_key :: "config \<Rightarrow> string \<Rightarrow> (infra_error, unit) result" where
  "check_one_name_key cfg key =
     (case dict_get cfg key of
        VStr raw \<Rightarrow>
          if raw = [] then Inr ()
          else and_then (refuse_if (py_strip raw = []) (OnlyWhitespace key))
                        (refuse_if (raw \<noteq> py_strip raw) (SurroundingSpace key raw))
      | _ \<Rightarrow> Inr ())"

definition check_no_surrounding_space :: "config \<Rightarrow> string \<Rightarrow> (infra_error, unit) result" where
  "check_no_surrounding_space cfg t =
     (case spec_for t of None \<Rightarrow> Inr ()
      | Some spec \<Rightarrow> check_each (check_one_name_key cfg) (request_keys spec))"

definition check_name :: "config \<Rightarrow> string \<Rightarrow> bool \<Rightarrow> string option \<Rightarrow> name_spec \<Rightarrow> (infra_error, unit) result" where
  "check_name cfg t require_all existing_name spec =
     (case submitted_name (Some cfg) t of
        None \<Rightarrow> refuse_if require_all (ResourceNameRequired (stored_key spec))
      | Some name \<Rightarrow>
          if Some name \<noteq> existing_name
          then (case map_of name_validators t of None \<Rightarrow> Inr () | Some f \<Rightarrow> f (VStr name))
          else Inr ())"

definition validate_config ::
  "config option \<Rightarrow> string \<Rightarrow> bool \<Rightarrow> string option \<Rightarrow> (infra_error, unit) result" where
  "validate_config cfg0 t require_all existing_name =
     (let cfg = dict_or cfg0 in
      case spec_for t of
        None \<Rightarrow> Inr ()
      | Some spec \<Rightarrow>
          and_then (check_no_surrounding_space cfg t)
         (and_then (check_name cfg t require_all existing_name spec)
         (and_then (check_each (\<lambda>f. refuse_if (require_all \<and> dict_get cfg f = VNone) (FieldRequired f))
                      (required_fields t))
                   (case map_of field_validators t of None \<Rightarrow> Inr () | Some f \<Rightarrow> f cfg))))"

definition resolved_name_limits :: "string \<Rightarrow> (string \<times> nat) list" where
  "resolved_name_limits t =
     (if t = s3_type then [(''bucket_name'', 63)]
      else if t = sqs_type then [(''queue_name'', 80), (''dlq_name'', 80)]
      else if t = dynamodb_type then [(''table_name'', 255)] else [])"

definition check_resolved_name :: "config \<Rightarrow> string \<Rightarrow> string \<times> nat \<Rightarrow> (infra_error, unit) result" where
  "check_resolved_name locator typed kl =
     (let resolved = clean_value (dict_get locator (fst kl)) in
      if resolved = [] \<or> length resolved \<le> snd kl then Inr ()
      else Inl (ResolvedNameTooLong typed resolved (snd kl)
             (let overhead = (if typed \<noteq> [] then int (length resolved) - int (length typed) else 0)
              in nat (max (int (snd kl) - overhead) 0))))"

definition validate_resolved_names :: "config option \<Rightarrow> string \<Rightarrow> (infra_error, unit) result" where
  "validate_resolved_names locator0 t =
     (let locator = dict_or locator0;
          typed = clean_value (dict_get locator (case name_key_for t of None \<Rightarrow> ''identifier'' | Some k \<Rightarrow> k))
      in check_each (check_resolved_name locator typed) (resolved_name_limits t))"

section \<open>Properties\<close>

lemma name_spec_cases:
  assumes "spec_for t = Some spec"
  obtains "t = s3_type" | "t = sqs_type" | "t = dynamodb_type" | "t = redis_type" | "t = k8s_postgres_type"
    | "t = aurora_postgres_type" | "t = aurora_mysql_type"
  using assms by (auto simp: spec_for_def name_specs_def split: if_splits)

lemma request_keys_nonempty: "spec_for t = Some spec \<Longrightarrow> request_keys spec \<noteq> []"
  by (auto simp: spec_for_def name_specs_def split: if_splits)

lemma stored_key_identity: "spec_for t = Some spec \<Longrightarrow> stored_key spec \<in> set (request_keys spec)"
  by (auto simp: spec_for_def name_specs_def split: if_splits)

lemma first_name_Some:
  "first_name cfg ks = Some n \<Longrightarrow> n \<noteq> [] \<and> py_strip n = n \<and> (\<exists>k \<in> set ks. n = clean_value (dict_get cfg k))"
  by (induction ks) (auto split: if_splits)

lemma first_name_None: "first_name cfg ks = None \<longleftrightarrow> (\<forall>k \<in> set ks. clean_value (dict_get cfg k) = [])"
  by (induction ks) auto

lemma first_name_cong:
  "(\<And>k. k \<in> set ks \<Longrightarrow> clean_value (dict_get c k) = clean_value (dict_get d k)) \<Longrightarrow> first_name c ks = first_name d ks"
  by (induction ks) auto

text \<open>
  Seeding a name round-trips: after \<open>with_name\<close> the configuration carries exactly that name,
  whatever name keys it held before, and every key that does not name the resource is untouched.
\<close>

theorem with_name_round_trip:
  assumes "spec_for t = Some spec" and "name \<noteq> []" and "py_strip name = name"
  shows "submitted_name (Some (with_name cfg t name)) t = Some name \<and>
    (\<forall>k. k \<notin> set (request_keys spec) \<longrightarrow> dict_get (with_name cfg t name) k = dict_get (dict_or cfg) k) \<and>
    (\<forall>k \<in> set (request_keys spec). dict_get (with_name cfg t name) k \<in> {VStr name, VNone})"
proof -
  obtain k ks where ks: "request_keys spec = k # ks"
    using request_keys_nonempty [OF assms(1)] by (cases "request_keys spec") auto
  have get: "dict_get (with_name cfg t name) j =
      (if j = k then VStr name else if j \<in> set (request_keys spec) then VNone else dict_get (dict_or cfg) j)" for j
    using assms(1) ks by (auto simp: with_name_def)
  have "submitted_name (Some (with_name cfg t name)) t = Some name"
    using assms ks by (simp add: submitted_name_def get)
  then show ?thesis using ks by (auto simp: get)
qed

lemma with_name_round_trip_witness:
  "submitted_name (Some (with_name (Some [(''server_name'', VStr ''old''), (''port'', VInt 5432)])
      k8s_postgres_type ''orders'')) k8s_postgres_type = Some ''orders''"
proof -
  have s: "spec_for k8s_postgres_type = Some \<lparr>stored_key = ''server_name'',
      request_keys = [''identifier'', ''server_name''], derived_keys = []\<rparr>" by code_simp
  have strip: "py_strip ''orders'' = ''orders''" by code_simp
  show ?thesis using with_name_round_trip [OF s _ strip] by blast
qed

lemma map_of_passthrough:
  "map_of (passthrough_extra cfg t also) k =
     (if k \<in> set (identity_keys t) \<or> k = ''region'' \<or> k \<in> set also then None else map_of (dict_or cfg) k)"
  by (simp add: passthrough_extra_def)

lemma check_account_ids_iff:
  "check_account_ids seen vs = Inr () \<longleftrightarrow>
     (let ids = filter (\<lambda>s. s \<noteq> []) (map clean_value vs) in
      (\<forall>s \<in> set ids. length s = 12 \<and> list_all py_isdigit s) \<and> distinct ids \<and> set ids \<inter> set seen = {})"
proof (induction seen vs rule: check_account_ids.induct)
  case (2 seen v vs)
  then show ?case
    by (cases "clean_value v = []")
       (auto simp: validate_aws_account_id_def Let_def)
qed simp

text \<open>
  Cross-account ids are accepted exactly when the non-blank ones are pairwise different 12-digit
  numbers; blank rows are ignored and an absent or empty list is fine.
\<close>

theorem cross_account_ids_accepted_iff:
  "validate_cross_account_ids v = Inr () \<longleftrightarrow>
     (if truthy v then \<exists>vs. v = VList vs \<and>
        (let ids = filter (\<lambda>s. s \<noteq> []) (map clean_value vs)
         in list_all (\<lambda>s. length s = 12 \<and> list_all py_isdigit s) ids \<and> distinct ids)
      else True)"
  by (cases v) (auto simp: validate_cross_account_ids_def check_account_ids_iff Let_def list_all_iff)

lemma check_each_Inl:
  "check_each f xs = Inl e \<Longrightarrow> \<exists>x \<in> set xs. f x = Inl e"
  by (induction xs) (auto simp: and_then_def split: sum.splits)

text \<open>
  The length advice is exact.  When the full AWS name is refused, it is over the limit of its
  type; and if the prefix alone leaves room, a name of exactly the number of characters in the
  message fills the limit and one more would exceed it.
\<close>

theorem too_long_advice_exact:
  assumes "validate_resolved_names (Some locator) t = Inl (ResolvedNameTooLong typed resolved limit allowed)"
    and "typed \<noteq> []" and "length typed \<le> length resolved" and "length resolved - length typed \<le> limit"
  shows "limit < length resolved \<and> (length resolved - length typed) + allowed = limit \<and> allowed < length typed"
proof -
  from check_each_Inl [OF assms(1) [unfolded validate_resolved_names_def Let_def dict_or_Some]]
  obtain kl where "check_resolved_name locator
      (clean_value (dict_get locator (case name_key_for t of None \<Rightarrow> ''identifier'' | Some k \<Rightarrow> k))) kl
      = Inl (ResolvedNameTooLong typed resolved limit allowed)"
    by (rule bexE)
  then have "limit < length resolved \<and> allowed = nat (max (int limit - (int (length resolved) - int (length typed))) 0)"
    using assms(2) unfolding check_resolved_name_def Let_def by (simp split: if_split_asm) (elim conjE, simp)
  then show ?thesis using assms(3,4) by linarith
qed
definition long_name :: string where
  "long_name = replicate 40 (CHR ''a'')"

definition long_bucket :: string where
  "long_bucket = replicate 30 (CHR ''p'') @ long_name"

lemma long_lengths: "length long_name = 40" "length long_bucket = 70" "long_name \<noteq> []"
  by (simp_all add: long_bucket_def long_name_def)

lemma too_long_advice_exact_witness:
  "validate_resolved_names (Some [(''identifier'', VStr long_name), (''bucket_name'', VStr long_bucket)]) s3_type
     = Inl (ResolvedNameTooLong long_name long_bucket 63 33) \<and>
   63 < length long_bucket \<and> (length long_bucket - length long_name) + 33 = 63 \<and> 33 < length long_name"
proof
  show v: "validate_resolved_names (Some [(''identifier'', VStr long_name), (''bucket_name'', VStr long_bucket)]) s3_type
      = Inl (ResolvedNameTooLong long_name long_bucket 63 33)"
    by code_simp
  show "63 < length long_bucket \<and> (length long_bucket - length long_name) + 33 = 63 \<and> 33 < length long_name"
    by (rule too_long_advice_exact [OF v]) (simp_all add: long_lengths)
qed
end
