(* ===== verification/UpdateGuard.thy ===== *)
theory UpdateGuard
  imports InfraConfig
begin

text \<open>
  What an update of an infrastructure record may not change
  (\<open>app/domain/validators/infrastructure_update_guard.py\<close>).  A row is its columns, a dictionary,
  beside the two status columns the guard reads as values of their own.
\<close>

section \<open>Requests and rows\<close>

datatype resource_status =
    Draft | PrRaised | Initialising | Provisioning | Building | Deploying | Verifying | Online | Failed
  | SoftDeleting | SoftDeleted | HardDeleting | HardDeleted

record infra_request =
  rq_code :: "string option"
  rq_type :: string
  rq_app :: string
  rq_env :: string
  rq_geo :: string
  rq_config :: config
  rq_group :: "string option"

record infra_row =
  columns :: config
  row_status :: "resource_status option"
  row_deployment :: "string option"

definition row_locator :: "infra_row \<Rightarrow> config" where
  "row_locator row = (case dict_get (columns row) ''locator'' of VDict d \<Rightarrow> d | _ \<Rightarrow> [])"

datatype update_error =
    UnsupportedType string
  | PlacementChanged "(string \<times> string \<times> string) list"
  | Renamed string string
  | LockedFieldChanged string
  | DeployInProgress resource_status

section \<open>The checks\<close>

definition preserved_on_update :: "string list" where
  "preserved_on_update =
     [''gitops_workflow_id'', ''resource_identifier'', ''infra_status'', ''infra_status_updated_at'',
      ''infra_status_updated_by'']"

definition immutable_locator_fields :: "string \<Rightarrow> string list" where
  "immutable_locator_fields t = (if t = sqs_type then [''fifo_queue''] else [])"

definition deploy_in_flight :: "resource_status list" where
  "deploy_in_flight = [Initialising, Provisioning, Building, Deploying, Verifying, SoftDeleting, HardDeleting]"

text \<open>\<open>NAME_FIELD_BY_TYPE\<close> is built from the name table.\<close>

definition name_field_for :: "string \<Rightarrow> (update_error, string \<times> string list) result" where
  "name_field_for t =
     (case spec_for t of None \<Rightarrow> Inl (UnsupportedType t)
      | Some spec \<Rightarrow> Inr (stored_key spec, request_keys spec))"

definition guard_submitted_name :: "config \<Rightarrow> string \<Rightarrow> (update_error, string option) result" where
  "guard_submitted_name cfg t =
     (case name_field_for t of Inl e \<Rightarrow> Inl e | Inr _ \<Rightarrow> Inr (submitted_name (Some cfg) t))"

definition has_deployed :: "infra_row \<Rightarrow> bool" where
  "has_deployed row =
     (if row_deployment row \<noteq> None then True else row_status row \<notin> {None, Some Draft})"

definition placement_change :: "string \<Rightarrow> string \<Rightarrow> pyval \<Rightarrow> (string \<times> string \<times> string) list" where
  "placement_change label new old =
     (if py_strip new \<noteq> [] \<and> py_strip new \<noteq> clean_value old then [(label, clean_value old, new)] else [])"

definition check_placement_unchanged :: "infra_request \<Rightarrow> infra_row \<Rightarrow> (update_error, unit) result" where
  "check_placement_unchanged rq row =
     (let changed =
        placement_change ''resource type'' (rq_type rq) (dict_get (columns row) ''infrastructuretype_ref_code'') @
        placement_change ''product'' (rq_app rq) (dict_get (columns row) ''applications_mst_code'') @
        placement_change ''region'' (rq_geo rq) (dict_get (columns row) ''geo_loc_mst_code'') @
        placement_change ''environment'' (rq_env rq) (dict_get (columns row) ''environments_enum'')
      in refuse_if (changed \<noteq> []) (PlacementChanged changed))"

definition check_name_unchanged :: "infra_request \<Rightarrow> infra_row \<Rightarrow> (update_error, unit) result" where
  "check_name_unchanged rq row =
     (case guard_submitted_name (rq_config rq) (rq_type rq) of
        Inl e \<Rightarrow> Inl e
      | Inr None \<Rightarrow> Inr ()
      | Inr (Some new) \<Rightarrow>
          (case stored_name (Some (row_locator row)) (rq_type rq) of
             None \<Rightarrow> Inr ()
           | Some old \<Rightarrow>
               if py_strip old = [] \<or> py_strip old = new then Inr ()
               else if \<not> has_deployed row then Inr ()
               else Inl (Renamed (py_strip old) new)))"

definition strip_preserved_columns :: "config \<Rightarrow> config" where
  "strip_preserved_columns d = dict_keep (\<lambda>k. k \<notin> set preserved_on_update) d"

definition as_bool :: "pyval \<Rightarrow> bool option" where
  "as_bool v =
     (case v of VNone \<Rightarrow> None | VBool b \<Rightarrow> Some b
      | _ \<Rightarrow> Some (py_lower (clean_value v) \<in> {''true'', ''1'', ''yes''}))"

definition check_immutable_field :: "config \<Rightarrow> config \<Rightarrow> string \<Rightarrow> (update_error, unit) result" where
  "check_immutable_field cfg locator f =
     (if as_bool (dict_get cfg f) = None then Inr ()
      else if dict_get locator f = VNone then Inr ()
      else refuse_if (as_bool (dict_get cfg f) \<noteq> as_bool (dict_get locator f)) (LockedFieldChanged f))"

definition check_immutable_locator_fields :: "infra_request \<Rightarrow> infra_row \<Rightarrow> (update_error, unit) result" where
  "check_immutable_locator_fields rq row =
     (let fields = immutable_locator_fields (rq_type rq) in
      if fields = [] \<or> \<not> has_deployed row then Inr ()
      else check_each (check_immutable_field (rq_config rq) (row_locator row)) fields)"

definition check_not_deploying :: "infra_row \<Rightarrow> (update_error, unit) result" where
  "check_not_deploying row =
     (case row_status row of None \<Rightarrow> Inr ()
      | Some s \<Rightarrow> refuse_if (s \<in> set deploy_in_flight) (DeployInProgress s))"

definition guard_update :: "infra_request \<Rightarrow> infra_row \<Rightarrow> (update_error, unit) result" where
  "guard_update rq row =
     and_then (check_not_deploying row)
    (and_then (check_placement_unchanged rq row)
    (and_then (check_name_unchanged rq row)
              (check_immutable_locator_fields rq row)))"

section \<open>What the guard lets through\<close>

text \<open>A placement value that is not blank must be the stored one.\<close>

definition same_or_blank :: "string \<Rightarrow> pyval \<Rightarrow> bool" where
  "same_or_blank new old = (py_strip new = [] \<or> py_strip new = clean_value old)"

lemma placement_change_Nil [simp]: "placement_change l new old = [] \<longleftrightarrow> same_or_blank new old"
  by (auto simp: placement_change_def same_or_blank_def)

lemma stored_name_strip: "stored_name loc t = Some n \<Longrightarrow> py_strip n = n \<and> n \<noteq> []"
  using first_name_Some by (fastforce simp: stored_name_def simp del: first_name.simps split: option.splits)

lemma check_name_unchanged_iff:
  "check_name_unchanged rq row = Inr () \<longleftrightarrow>
     spec_for (rq_type rq) \<noteq> None \<and>
     (has_deployed row \<longrightarrow>
       submitted_name (Some (rq_config rq)) (rq_type rq) = None \<or>
       stored_name (Some (row_locator row)) (rq_type rq) = None \<or>
       submitted_name (Some (rq_config rq)) (rq_type rq) = stored_name (Some (row_locator row)) (rq_type rq))"
  using stored_name_strip [of "Some (row_locator row)" "rq_type rq"]
  by (auto simp: check_name_unchanged_def guard_submitted_name_def name_field_for_def split: option.splits)

lemma check_immutable_iff:
  "check_immutable_locator_fields rq row = Inr () \<longleftrightarrow>
     (rq_type rq = sqs_type \<and> has_deployed row \<longrightarrow>
        dict_get (rq_config rq) ''fifo_queue'' = VNone \<or> dict_get (row_locator row) ''fifo_queue'' = VNone \<or>
        as_bool (dict_get (rq_config rq) ''fifo_queue'') = as_bool (dict_get (row_locator row) ''fifo_queue''))"
proof -
  have none: "as_bool v = None \<longleftrightarrow> v = VNone" for v by (cases v) (simp_all add: as_bool_def)
  show ?thesis
    by (auto simp: check_immutable_locator_fields_def immutable_locator_fields_def check_immutable_field_def
        Let_def none)
qed

text \<open>
  The guard accepts an update exactly when nothing that identifies the resource changes: no deploy
  is in flight; the type has a known name field; type, product, region and environment are blank or
  the stored ones; and, once the resource has deployed, the request either names nothing, or the row
  has no name yet, or the two names agree, and a queue's FIFO flag is absent or unchanged.
\<close>

theorem guard_update_accepts_iff:
  "guard_update rq row = Inr () \<longleftrightarrow>
     row_status row \<notin> Some ` set deploy_in_flight \<and>
     spec_for (rq_type rq) \<noteq> None \<and>
     same_or_blank (rq_type rq) (dict_get (columns row) ''infrastructuretype_ref_code'') \<and>
     same_or_blank (rq_app rq) (dict_get (columns row) ''applications_mst_code'') \<and>
     same_or_blank (rq_geo rq) (dict_get (columns row) ''geo_loc_mst_code'') \<and>
     same_or_blank (rq_env rq) (dict_get (columns row) ''environments_enum'') \<and>
     (if has_deployed row
      then submitted_name (Some (rq_config rq)) (rq_type rq)
             \<in> {None, stored_name (Some (row_locator row)) (rq_type rq)} \<union>
               (if stored_name (Some (row_locator row)) (rq_type rq) = None then UNIV else {}) \<and>
           (if rq_type rq = sqs_type \<and> dict_get (row_locator row) ''fifo_queue'' \<noteq> VNone
            then as_bool (dict_get (rq_config rq) ''fifo_queue'')
                   \<in> {None, as_bool (dict_get (row_locator row) ''fifo_queue'')}
            else True)
      else True)"
proof -
  have none: "as_bool v = None \<longleftrightarrow> v = VNone" for v by (cases v) (simp_all add: as_bool_def)
  have nd: "check_not_deploying row = Inr () \<longleftrightarrow> row_status row \<notin> Some ` set deploy_in_flight"
    by (auto simp: check_not_deploying_def split: option.splits)
  have pl: "check_placement_unchanged rq row = Inr () \<longleftrightarrow>
     same_or_blank (rq_type rq) (dict_get (columns row) ''infrastructuretype_ref_code'') \<and>
     same_or_blank (rq_app rq) (dict_get (columns row) ''applications_mst_code'') \<and>
     same_or_blank (rq_geo rq) (dict_get (columns row) ''geo_loc_mst_code'') \<and>
     same_or_blank (rq_env rq) (dict_get (columns row) ''environments_enum'')"
    by (auto simp: check_placement_unchanged_def Let_def)
  show ?thesis
    unfolding guard_update_def and_then_Inr_iff nd pl check_name_unchanged_iff check_immutable_iff
    by (auto simp: none)
qed

end
