(* ===== verification/InfraFactory.thy ===== *)
theory InfraFactory
  imports UpdateGuard
begin

text \<open>
  The factories that build an infrastructure row
  (\<open>app/domain/factories/infrastructure_mst_factory.py\<close>) and the create and update paths that call
  them behind the validators and the guard
  (\<open>app/services/infrastructure_creation_service.py\<close>, \<open>_create_infrastructure_resource\<close>).

  Repository lookups, the clock and the random part of a code are arguments.
\<close>

section \<open>Resource names\<close>

record name_settings =
  set_env :: string
  set_region_code :: string
  set_index :: string
  set_account_id :: string

text \<open>The tenants' metadata modules: the two enterprise tenants, and PaaS for any other.\<close>

definition is_paas_tenant :: "string \<Rightarrow> bool" where
  "is_paas_tenant tenant = (tenant \<notin> {''aspora'', ''vance''})"

definition resolve_infra_name_env :: "name_settings \<Rightarrow> string \<Rightarrow> string \<Rightarrow> string" where
  "resolve_infra_name_env cfg tenant env = (if is_paas_tenant tenant then set_env cfg else env)"

definition sqs_base_name :: "string \<Rightarrow> string \<Rightarrow> string \<Rightarrow> string \<Rightarrow> string \<Rightarrow> string" where
  "sqs_base_name ident tenant env region_code index =
     (if \<not> is_paas_tenant tenant
      then (if env = ''prod'' then py_join ''-'' [ident, env, index] else py_join ''-'' [ident, index])
      else (if env = ''prod'' then py_join ''-'' [tenant, env, region_code, index, ident]
            else py_join ''-'' [tenant, region_code, index, ident]))"

definition resolve_sqs_name :: "string \<Rightarrow> string \<Rightarrow> string \<Rightarrow> string \<Rightarrow> string \<Rightarrow> bool \<Rightarrow> string" where
  "resolve_sqs_name ident tenant env region_code index fifo =
     (let base = sqs_base_name ident tenant env region_code index
      in if fifo then base @ ''.fifo'' else base)"

definition resolve_sqs_dlq_name :: "string \<Rightarrow> string \<Rightarrow> string \<Rightarrow> string \<Rightarrow> string \<Rightarrow> bool \<Rightarrow> string" where
  "resolve_sqs_dlq_name ident tenant env region_code index fifo =
     (let dlq = sqs_base_name ident tenant env region_code index @ ''-dlq''
      in if fifo then dlq @ ''.fifo'' else dlq)"

definition resolve_sqs_urls :: "string \<Rightarrow> string \<Rightarrow> string \<Rightarrow> string \<times> string" where
  "resolve_sqs_urls queue region account =
     (''https://sqs.'' @ region @ ''.amazonaws.com/'' @ account @ ''/'' @ queue,
      ''arn:aws:sqs:'' @ region @ '':'' @ account @ '':'' @ queue)"

section \<open>Factories\<close>

record factory_params =
  fp_tenant :: string
  fp_app :: string
  fp_env :: string
  fp_type :: string
  fp_vendor :: string
  fp_group :: "string option"
  fp_geo :: string
  fp_by :: string
  fp_now :: string
  fp_hex :: string

definition opt_value :: "string option \<Rightarrow> pyval" where
  "opt_value s = (case s of None \<Rightarrow> VNone | Some x \<Rightarrow> VStr x)"

text \<open>The dictionary every factory returns; the creation path passes the status INITIATED.\<close>

definition row_data :: "factory_params \<Rightarrow> string \<Rightarrow> pyval \<Rightarrow> string \<Rightarrow> config \<Rightarrow> config" where
  "row_data p code_prefix name description locator =
     [(''code'', VStr (code_prefix @ fp_hex p)),
      (''name'', name),
      (''description'', VStr description),
      (''infrastructuretype_ref_code'', VStr (fp_type p)),
      (''infra_vendor_accounts_mst_code'', VStr (fp_vendor p)),
      (''resource_group_mst_code'', opt_value (fp_group p)),
      (''tenants_mst_code'', VStr (fp_tenant p)),
      (''applications_mst_code'', VStr (fp_app p)),
      (''environments_enum'', VStr (fp_env p)),
      (''geo_loc_mst_code'', VStr (fp_geo p)),
      (''locator'', VDict locator),
      (''infra_status'', VStr ''INITIATED''),
      (''infra_status_updated_by'', VStr (fp_by p)),
      (''infra_status_updated_at'', VStr (fp_now p)),
      (''gitops_workflow_id'', VNone),
      (''resource_identifier'', VNone)]"

text \<open>\<open>config.get(k, "")\<close>, and \<open>config.get(a) or config.get(b, "")\<close>.\<close>

definition get_or_empty :: "config \<Rightarrow> string \<Rightarrow> pyval" where
  "get_or_empty cfg k = (case map_of cfg k of None \<Rightarrow> VStr [] | Some v \<Rightarrow> v)"

definition first_truthy :: "config \<Rightarrow> string \<Rightarrow> string \<Rightarrow> pyval" where
  "first_truthy cfg a b = (if truthy (dict_get cfg a) then dict_get cfg a else get_or_empty cfg b)"

definition in_region :: "string \<Rightarrow> string \<Rightarrow> pyval \<Rightarrow> factory_params \<Rightarrow> string" where
  "in_region what ident region p =
     what @ '' '' @ ident @ '' in '' @ py_str region @ '' for '' @ fp_tenant p @ ''/'' @ fp_app p"

definition paas_prefix :: "name_settings \<Rightarrow> string \<Rightarrow> string" where
  "paas_prefix st tenant =
     tenant @ ''-'' @ set_env st @ ''-'' @ set_region_code st @ ''-'' @ set_index st @ ''-''"

definition make_s3 :: "name_settings \<Rightarrow> factory_params \<Rightarrow> config \<Rightarrow> pyval \<Rightarrow> config" where
  "make_s3 st p cfg region =
     (let ident = get_or_empty cfg ''identifier'';
          extra = passthrough_extra (Some cfg) (fp_type p) [];
          bucket = paas_prefix st (fp_tenant p) @ py_str ident;
          name = (if is_paas_tenant (fp_tenant p) then VStr bucket else ident);
          locator = dict_merge
            [(''bucket_name'', VStr bucket), (''identifier'', ident),
             (''bucket_arn'', VStr (''arn:aws:s3:::'' @ bucket)), (''region'', region)] extra
      in row_data p ''INFRA_S3_'' name (in_region ''S3 bucket'' bucket region p) locator)"

definition factory_bool :: "pyval \<Rightarrow> bool" where
  "factory_bool v =
     (case v of VBool b \<Rightarrow> b | _ \<Rightarrow> py_lower (py_strip (py_str v)) \<in> {''true'', ''1'', ''yes''})"

definition get_or_false :: "config \<Rightarrow> string \<Rightarrow> pyval" where
  "get_or_false cfg k = (case map_of cfg k of None \<Rightarrow> VBool False | Some v \<Rightarrow> v)"

definition make_sqs :: "name_settings \<Rightarrow> factory_params \<Rightarrow> config \<Rightarrow> pyval \<Rightarrow> config" where
  "make_sqs st p cfg region =
     (let ident = get_or_empty cfg ''identifier'';
          extra = passthrough_extra (Some cfg) (fp_type p) [];
          fifo = factory_bool (get_or_false extra ''fifo_queue'');
          create_dlq = factory_bool (get_or_false extra ''create_dlq'');
          env = resolve_infra_name_env st (fp_tenant p) (fp_env p);
          queue = resolve_sqs_name (py_str ident) (fp_tenant p) env (set_region_code st) (set_index st) fifo;
          account = (if truthy (dict_get extra ''accountId'') then py_str (dict_get extra ''accountId'')
                     else set_account_id st);
          name = (if is_paas_tenant (fp_tenant p) then VStr queue else ident);
          locator = dict_merge
            [(''queue_name'', VStr queue), (''identifier'', ident),
             (''queue_url'', VStr (fst (resolve_sqs_urls queue (py_str region) account))),
             (''queue_arn'', VStr (snd (resolve_sqs_urls queue (py_str region) account))),
             (''region'', region)] extra;
          dlq = resolve_sqs_dlq_name (py_str ident) (fp_tenant p) env (set_region_code st) (set_index st) fifo;
          locator' = (if create_dlq
            then AList.update ''dlq_arn'' (VStr (snd (resolve_sqs_urls dlq (py_str region) account)))
                (AList.update ''dlq_url'' (VStr (fst (resolve_sqs_urls dlq (py_str region) account)))
                (AList.update ''dlq_name'' (VStr dlq) locator))
            else locator)
      in row_data p ''INFRA_SQS_'' name (in_region ''SQS queue'' queue region p) locator')"

definition make_dynamodb :: "name_settings \<Rightarrow> factory_params \<Rightarrow> config \<Rightarrow> pyval \<Rightarrow> config" where
  "make_dynamodb st p cfg region =
     (let ident = get_or_empty cfg ''identifier'';
          pk = get_or_empty cfg ''partition_key'';
          pkt = get_or_empty cfg ''partition_key_type'';
          extra = passthrough_extra (Some cfg) (fp_type p) [''partition_key'', ''partition_key_type''];
          table = (if is_paas_tenant (fp_tenant p) then paas_prefix st (fp_tenant p) @ py_str ident
                   else py_str ident @ ''-'' @ set_index st);
          name = (if is_paas_tenant (fp_tenant p) then VStr table else ident);
          locator = dict_merge
            [(''table_name'', VStr table), (''identifier'', ident), (''partition_key'', pk),
             (''partition_key_type'', pkt), (''region'', region)] extra
      in row_data p ''INFRA_DYNAMODB_'' name
           (in_region ''DynamoDB table''
              (table @ '' with partition key '' @ py_str pk @ '' ('' @ py_str pkt @ '')'') region p) locator)"

text \<open>
  A resolved cluster name sent back as \<open>redis_cluster_name\<close> loses its prefix first; one that is not
  text has no \<open>startswith\<close>.
\<close>

datatype upsert_error =
    BadConfig infra_error
  | UpdateRefused update_error
  | TypeNotFound
  | TypeNotSupported string
  | NoTextMethod
  | PlacementRefused string
  | RegionMismatch string string
  | NoVendorAccount
  | DuplicateName string
  | RowNotFound string
  | WrongTenant

definition redis_identifier :: "string \<Rightarrow> config \<Rightarrow> (upsert_error, pyval) result" where
  "redis_identifier pre cfg =
     (let raw = first_truthy cfg ''identifier'' ''redis_cluster_name'' in
      if \<not> truthy raw \<or> truthy (dict_get cfg ''identifier'') then Inr raw
      else (case raw of
          VStr s \<Rightarrow> Inr (if startswith s pre then VStr (drop (length pre) s) else raw)
        | _ \<Rightarrow> Inl NoTextMethod))"

definition make_redis ::
  "name_settings \<Rightarrow> factory_params \<Rightarrow> config \<Rightarrow> pyval \<Rightarrow> (upsert_error, config) result" where
  "make_redis st p cfg region =
     (let pre = paas_prefix st (fp_tenant p) in
      case redis_identifier pre cfg of
        Inl e \<Rightarrow> Inl e
      | Inr ident \<Rightarrow>
          let extra = passthrough_extra (Some cfg) (fp_type p) [];
              cluster = pre @ py_str ident;
              port = (if truthy (dict_get cfg ''port'') then py_str (dict_get cfg ''port'') else ''6379'');
              name = (if is_paas_tenant (fp_tenant p) then VStr cluster else ident);
              locator = dict_merge
                [(''redis_cluster_name'', VStr cluster), (''identifier'', ident),
                 (''user_id'', VStr (py_str ident @ ''-iam'')), (''port'', VStr port), (''region'', region)] extra
          in Inr (row_data p ''INFRA_REDIS_'' name (in_region ''Redis cluster'' cluster region p) locator))"
definition make_aurora_postgres :: "factory_params \<Rightarrow> config \<Rightarrow> pyval \<Rightarrow> config" where
  "make_aurora_postgres p cfg region =
     (let server = first_truthy cfg ''db_server_name'' ''identifier'';
          extra = passthrough_extra (Some cfg) (fp_type p) []
      in row_data p ''INFRA_AURORA_PG_'' server
           (in_region ''Aurora PostgreSQL cluster'' (py_str server) region p)
           (dict_merge [(''db_server_name'', server), (''region'', region)] extra))"

definition make_aurora_mysql :: "factory_params \<Rightarrow> config \<Rightarrow> pyval \<Rightarrow> config" where
  "make_aurora_mysql p cfg region =
     (let server = first_truthy cfg ''db_server_name'' ''identifier'';
          extra = passthrough_extra (Some cfg) (fp_type p) []
      in row_data p ''INFRA_AURORA_MYSQL_'' server
           (in_region ''Aurora MySQL cluster'' (py_str server) region p)
           (dict_merge [(''db_server_name'', server), (''region'', region)] extra))"

definition make_k8s_postgres :: "factory_params \<Rightarrow> config \<Rightarrow> config" where
  "make_k8s_postgres p cfg =
     (let ident = first_truthy cfg ''identifier'' ''server_name'';
          extra = passthrough_extra (Some cfg) (fp_type p) []
      in row_data p ''INFRA_K8S_PG_'' ident
           (''Kubernetes PostgreSQL server '' @ py_str ident @ '' for '' @ fp_tenant p @ ''/'' @ fp_app p)
           (dict_merge [(''server_name'', ident)] extra))"

section \<open>The upsert\<close>

definition geo_loc_regions :: "(string, string) dict" where
  "geo_loc_regions =
     [(''mumbai'', ''ap-south-1''), (''london'', ''eu-west-2''), (''uk'', ''eu-west-2''), (''us'', ''us-east-1''),
      (''aspora-mumbai'', ''ap-south-1''), (''aspora-london'', ''eu-west-2''), (''aspora-uk'', ''eu-west-2''),
      (''aspora-us'', ''us-east-1''), (''region-aspora-mumbai'', ''ap-south-1''),
      (''region-aspora-london'', ''eu-west-2''), (''region-aspora-us'', ''us-east-1'')]"

definition get_aws_region :: "string \<Rightarrow> string" where
  "get_aws_region geo =
     (case map_of geo_loc_regions (py_lower geo) of None \<Rightarrow> ''ap-south-1'' | Some r \<Rightarrow> r)"

text \<open>The pattern \<open>^[a-z]{2}-[a-z]+-\d$\<close>.\<close>

definition is_aws_region :: "string \<Rightarrow> bool" where
  "is_aws_region s =
     (case py_split (CHR ''-'') (chop_newline s) of
        [a, b, c] \<Rightarrow> length a = 2 \<and> list_all is_lower a \<and> b \<noteq> [] \<and> list_all is_lower b \<and>
                     length c = 1 \<and> list_all py_isdigit c
      | _ \<Rightarrow> False)"

definition check_region_matches_geo_loc :: "infra_request \<Rightarrow> (upsert_error, unit) result" where
  "check_region_matches_geo_loc rq =
     (let supplied = clean_value (dict_get (rq_config rq) ''region'') in
      if supplied = [] then Inr ()
      else (case map_of geo_loc_regions (py_lower (rq_geo rq)) of
          None \<Rightarrow> Inr ()
        | Some expected \<Rightarrow>
            let resolved = (case map_of geo_loc_regions (py_lower supplied) of None \<Rightarrow> supplied | Some r \<Rightarrow> r)
            in refuse_if (resolved \<noteq> expected \<and> is_aws_region resolved) (RegionMismatch supplied expected)))"

text \<open>Who asks, and what the repositories, the clock and the code generator answer.\<close>

record upsert_env =
  ue_settings :: name_settings
  ue_tenant :: string
  ue_by :: string
  ue_now :: string
  ue_hex :: string
  ue_type_known :: bool
  ue_references :: "(upsert_error, unit) result"
  ue_vendor :: "(upsert_error, string) result"
  ue_duplicate :: "string \<Rightarrow> bool"

definition params_for :: "upsert_env \<Rightarrow> infra_request \<Rightarrow> string \<Rightarrow> factory_params" where
  "params_for ue rq vendor =
     \<lparr>fp_tenant = ue_tenant ue, fp_app = rq_app rq, fp_env = rq_env rq, fp_type = rq_type rq,
      fp_vendor = vendor, fp_group = rq_group rq, fp_geo = rq_geo rq, fp_by = ue_by ue,
      fp_now = ue_now ue, fp_hex = ue_hex ue\<rparr>"

definition build_factory_data ::
  "upsert_env \<Rightarrow> infra_request \<Rightarrow> string \<Rightarrow> config \<Rightarrow> (upsert_error, config) result" where
  "build_factory_data ue rq vendor cfg =
     (let region = (if truthy (dict_get cfg ''region'') then dict_get cfg ''region''
                    else VStr (get_aws_region (rq_geo rq)));
          p = params_for ue rq vendor; st = ue_settings ue; t = rq_type rq in
      if t = s3_type then Inr (make_s3 st p cfg region)
      else if t = sqs_type then Inr (make_sqs st p cfg region)
      else if t = dynamodb_type then Inr (make_dynamodb st p cfg region)
      else if t = k8s_postgres_type then Inr (make_k8s_postgres p cfg)
      else if t = redis_type then make_redis st p cfg region
      else if t = aurora_postgres_type then Inr (make_aurora_postgres p cfg region)
      else if t = aurora_mysql_type then Inr (make_aurora_mysql p cfg region)
      else Inl (TypeNotSupported t))"

definition data_locator :: "config \<Rightarrow> config" where
  "data_locator d = (case dict_get d ''locator'' of VDict l \<Rightarrow> l | _ \<Rightarrow> [])"

text \<open>\<open>BaseRepository.update\<close>: set every column the row has.\<close>

definition apply_updates :: "config \<Rightarrow> infra_row \<Rightarrow> infra_row" where
  "apply_updates d row =
     row\<lparr>columns := foldl (\<lambda>c kv. if fst kv \<in> fst ` set c then AList.update (fst kv) (snd kv) c else c)
                       (columns row) d\<rparr>"

definition lift_error :: "('e \<Rightarrow> upsert_error) \<Rightarrow> ('e, unit) result \<Rightarrow> (upsert_error, unit) result" where
  "lift_error f r = (case r of Inl e \<Rightarrow> Inl (f e) | Inr u \<Rightarrow> Inr u)"

text \<open>Steps 1 to 3, common to create and update: the type, the placement and the vendor account.\<close>

definition resolve_vendor :: "upsert_env \<Rightarrow> infra_request \<Rightarrow> bool \<Rightarrow> (upsert_error, string) result" where
  "resolve_vendor ue rq is_update =
     (case and_then (refuse_if (\<not> ue_type_known ue) TypeNotFound)
          (and_then (if is_update then Inr ()
                     else lift_error BadConfig (validate_config (Some (rq_config rq)) (rq_type rq) False None))
          (and_then (ue_references ue) (check_region_matches_geo_loc rq))) of
        Inl e \<Rightarrow> Inl e
      | Inr _ \<Rightarrow> ue_vendor ue)"

definition refuse_duplicate :: "upsert_env \<Rightarrow> string option \<Rightarrow> (upsert_error, unit) result" where
  "refuse_duplicate ue name =
     (case name of None \<Rightarrow> Inr () | Some n \<Rightarrow> refuse_if (ue_duplicate ue n) (DuplicateName n))"

definition create_infrastructure :: "upsert_env \<Rightarrow> infra_request \<Rightarrow> (upsert_error, config) result" where
  "create_infrastructure ue rq =
     (case resolve_vendor ue rq False of
        Inl e \<Rightarrow> Inl e
      | Inr vendor \<Rightarrow>
          (case refuse_duplicate ue (submitted_name (Some (rq_config rq)) (rq_type rq)) of
             Inl e \<Rightarrow> Inl e
           | Inr _ \<Rightarrow>
               (case build_factory_data ue rq vendor (rq_config rq) of
                  Inl e \<Rightarrow> Inl e
                | Inr d \<Rightarrow>
                    (case validate_resolved_names (Some (data_locator d)) (rq_type rq) of
                       Inl e \<Rightarrow> Inl (BadConfig e)
                     | Inr _ \<Rightarrow> Inr d))))"

text \<open>What is written over the row: no new code, no create-time columns, the locators merged.\<close>

definition update_columns :: "infra_request \<Rightarrow> infra_row \<Rightarrow> config \<Rightarrow> config" where
  "update_columns rq row d =
     (let d1 = strip_preserved_columns (AList.delete ''code'' d);
          d2 = (if rq_group rq = None then AList.delete ''resource_group_mst_code'' d1 else d1)
      in if ''locator'' \<in> fst ` set d2
         then AList.update ''locator'' (VDict (dict_merge (row_locator row) (data_locator d2))) d2 else d2)"

text \<open>The name checks of the update branch, and the configuration the factory is given.\<close>

definition check_update :: "upsert_env \<Rightarrow> infra_request \<Rightarrow> infra_row \<Rightarrow> (upsert_error, unit) result" where
  "check_update ue rq row =
     and_then (refuse_if (dict_get (columns row) ''tenants_mst_code'' \<noteq> VStr (ue_tenant ue)) WrongTenant)
    (and_then (lift_error UpdateRefused (guard_update rq row))
              (lift_error BadConfig (validate_config (Some (rq_config rq)) (rq_type rq) False
                 (stored_name (Some (row_locator row)) (rq_type rq)))))"

definition effective_config :: "infra_request \<Rightarrow> infra_row \<Rightarrow> config" where
  "effective_config rq row =
     (case (submitted_name (Some (rq_config rq)) (rq_type rq), stored_name (Some (row_locator row)) (rq_type rq)) of
        (None, Some stored) \<Rightarrow> with_name (Some (rq_config rq)) (rq_type rq) stored
      | _ \<Rightarrow> rq_config rq)"

definition renamed_to :: "infra_request \<Rightarrow> infra_row \<Rightarrow> string option" where
  "renamed_to rq row =
     (let new = submitted_name (Some (rq_config rq)) (rq_type rq)
      in if new \<noteq> stored_name (Some (row_locator row)) (rq_type rq) then new else None)"

definition update_infrastructure ::
  "upsert_env \<Rightarrow> infra_request \<Rightarrow> infra_row option \<Rightarrow> (upsert_error, infra_row) result" where
  "update_infrastructure ue rq found =
     (case resolve_vendor ue rq True of
        Inl e \<Rightarrow> Inl e
      | Inr vendor \<Rightarrow>
          (case build_factory_data ue rq vendor (rq_config rq) of
             Inl e \<Rightarrow> Inl e
           | Inr d0 \<Rightarrow>
               (case validate_resolved_names (Some (data_locator d0)) (rq_type rq) of
                  Inl e \<Rightarrow> Inl (BadConfig e)
                | Inr _ \<Rightarrow>
                    (case found of
                       None \<Rightarrow> Inl (RowNotFound (or_blank (rq_code rq)))
                     | Some row \<Rightarrow>
                         (case check_update ue rq row of
                            Inl e \<Rightarrow> Inl e
                          | Inr _ \<Rightarrow>
                              (case build_factory_data ue rq vendor (effective_config rq row) of
                                 Inl e \<Rightarrow> Inl e
                               | Inr d \<Rightarrow>
                                   (case refuse_duplicate ue (renamed_to rq row) of
                                      Inl e \<Rightarrow> Inl e
                                    | Inr _ \<Rightarrow> Inr (apply_updates (update_columns rq row d) row))))))))"

section \<open>Lemmas on the pipeline\<close>

lemma row_data_keys: "map fst (row_data p pre name desc loc) =
  [''code'', ''name'', ''description'', ''infrastructuretype_ref_code'', ''infra_vendor_accounts_mst_code'',
   ''resource_group_mst_code'', ''tenants_mst_code'', ''applications_mst_code'', ''environments_enum'',
   ''geo_loc_mst_code'', ''locator'', ''infra_status'', ''infra_status_updated_by'', ''infra_status_updated_at'',
   ''gitops_workflow_id'', ''resource_identifier'']"
  by (simp add: row_data_def)

lemma distinct_row_data: "distinct (map fst (row_data p pre name desc loc))"
  unfolding row_data_keys by code_simp

lemma data_locator_row_data [simp]: "data_locator (row_data p pre name desc loc) = loc"
  by (simp add: data_locator_def row_data_def dict_get_def)

lemma distinct_dict_merge: "distinct (map fst a) \<Longrightarrow> distinct (map fst (dict_merge a b))"
  by (induction b arbitrary: a) (simp_all add: dict_merge_def distinct_update)

lemma build_is_row_data:
  assumes "build_factory_data ue rq vendor cfg = Inr d"
  obtains pre name desc loc where "d = row_data (params_for ue rq vendor) pre name desc loc"
  using assms
  by (auto simp: build_factory_data_def Let_def make_s3_def make_sqs_def make_dynamodb_def make_redis_def
      make_k8s_postgres_def make_aurora_postgres_def make_aurora_mysql_def split: if_splits sum.splits)

lemma update_infrastructure_Inr:
  assumes "update_infrastructure ue rq (Some row) = Inr row'"
  obtains vendor d where "build_factory_data ue rq vendor (effective_config rq row) = Inr d"
    and "check_update ue rq row = Inr ()" and "row' = apply_updates (update_columns rq row d) row"
  using assms by (auto simp: update_infrastructure_def split: sum.splits)

lemma map_of_apply_updates:
  assumes "distinct (map fst d)" and "k \<in> fst ` set (columns row)"
  shows "map_of (columns (apply_updates d row)) k =
    (case map_of d k of None \<Rightarrow> map_of (columns row) k | Some v \<Rightarrow> Some v)"
proof -
  have "k \<in> fst ` set c \<Longrightarrow>
      map_of (foldl (\<lambda>c kv. if fst kv \<in> fst ` set c then AList.update (fst kv) (snd kv) c else c) c d) k =
      (case map_of d k of None \<Rightarrow> map_of c k | Some v \<Rightarrow> Some v)" for c
    using assms(1)
  proof (induction d arbitrary: c)
    case (Cons kv d)
    have none: "map_of d (fst kv) = None"
      using Cons.prems(2) by (simp add: map_of_eq_None_iff)
    have "k \<in> fst ` set (AList.update (fst kv) (snd kv) c)" if "fst kv \<in> fst ` set c"
      using Cons.prems(1) by (simp add: dom_update)
    with Cons none show ?case
      by (cases kv) (auto simp: update_conv' split: option.splits)
  qed simp
  with assms(2) show ?thesis by (simp add: apply_updates_def)
qed

lemma distinct_update_columns: "distinct (map fst d) \<Longrightarrow> distinct (map fst (update_columns rq row d))"
  by (simp add: update_columns_def Let_def strip_preserved_columns_def distinct_update distinct_delete distinct_dict_keep)

text \<open>The value an update leaves in a column.\<close>

definition written :: "infra_request \<Rightarrow> string \<Rightarrow> bool" where
  "written rq k \<longleftrightarrow> k \<notin> set preserved_on_update \<and> k \<noteq> ''code'' \<and> (rq_group rq = None \<longrightarrow> k \<noteq> ''resource_group_mst_code'')"

lemma map_of_update_columns:
  assumes "map_of d ''locator'' = Some (VDict loc)"
  shows "map_of (update_columns rq row d) k =
    (if k = ''locator'' then Some (VDict (dict_merge (row_locator row) loc))
     else if written rq k then map_of d k else None)"
proof -
  define d1 where "d1 = strip_preserved_columns (AList.delete ''code'' d)"
  define d2 where "d2 = (if rq_group rq = None then AList.delete ''resource_group_mst_code'' d1 else d1)"
  have m: "map_of d2 j = (if written rq j then map_of d j else None)" for j
    by (auto simp: d2_def d1_def strip_preserved_columns_def written_def delete_conv')
  have w: "written rq ''locator''" by (simp add: written_def preserved_on_update_def)
  then have l: "map_of d2 ''locator'' = Some (VDict loc)" using assms m by simp
  then have "''locator'' \<in> fst ` set d2" by (metis map_of_eq_None_iff option.distinct(1))
  moreover have "data_locator d2 = loc" using l by (simp add: data_locator_def dict_get_def)
  ultimately have "update_columns rq row d = AList.update ''locator'' (VDict (dict_merge (row_locator row) loc)) d2"
    by (simp add: update_columns_def Let_def d1_def [symmetric] d2_def [symmetric])
  then show ?thesis by (simp add: update_conv' m)
qed

lemma updated_column:
  assumes "update_infrastructure ue rq (Some row) = Inr row'" and "k \<in> fst ` set (columns row)" and "k \<noteq> ''locator''"
  obtains vendor d where "build_factory_data ue rq vendor (effective_config rq row) = Inr d"
    and "map_of (columns row') k =
      (case if written rq k then map_of d k else None of None \<Rightarrow> map_of (columns row) k | Some v \<Rightarrow> Some v)"
proof -
  obtain vendor d where b: "build_factory_data ue rq vendor (effective_config rq row) = Inr d"
    and r: "row' = apply_updates (update_columns rq row d) row"
    using update_infrastructure_Inr [OF assms(1)] by blast
  obtain pre name desc loc where d: "d = row_data (params_for ue rq vendor) pre name desc loc"
    using build_is_row_data [OF b] .
  have loc: "map_of d ''locator'' = Some (VDict loc)" by (simp add: d row_data_def)
  have "distinct (map fst (update_columns rq row d))"
    by (rule distinct_update_columns) (simp only: d distinct_row_data)
  then show ?thesis
    using that [OF b] map_of_apply_updates [OF _ assms(2)] map_of_update_columns [OF loc] assms(3) r
    by (auto split: option.splits)
qed

lemma updated_locator:
  assumes "update_infrastructure ue rq (Some row) = Inr row'" and "''locator'' \<in> fst ` set (columns row)"
  obtains vendor d where "build_factory_data ue rq vendor (effective_config rq row) = Inr d"
    and "row_locator row' = dict_merge (row_locator row) (data_locator d)"
proof -
  obtain vendor d where b: "build_factory_data ue rq vendor (effective_config rq row) = Inr d"
    and r: "row' = apply_updates (update_columns rq row d) row"
    using update_infrastructure_Inr [OF assms(1)] by blast
  obtain pre name desc loc where d: "d = row_data (params_for ue rq vendor) pre name desc loc"
    using build_is_row_data [OF b] .
  have loc: "map_of d ''locator'' = Some (VDict loc)" by (simp add: d row_data_def)
  have "distinct (map fst (update_columns rq row d))"
    by (rule distinct_update_columns) (simp only: d distinct_row_data)
  then have "map_of (columns row') ''locator'' = Some (VDict (dict_merge (row_locator row) loc))"
    using map_of_apply_updates [OF _ assms(2)] map_of_update_columns [OF loc] r by simp
  then have "row_locator row' = dict_merge (row_locator row) loc"
    by (simp add: row_locator_def dict_get_def)
  with that [OF b] d show ?thesis by simp
qed

section \<open>What an update leaves alone\<close>

text \<open>
  An accepted update never clears what a deployment wrote: the resource's identifier, its status
  columns, its workflow link and its code are the stored ones afterwards, the two status values the
  guard reads are unchanged, and so is the resource group when the request sends none.
\<close>

theorem update_preserves_deployment_columns:
  assumes "update_infrastructure ue rq (Some row) = Inr row'" and "k \<in> fst ` set (columns row)"
    and "k \<in> set (''code'' # preserved_on_update) \<or> k = ''resource_group_mst_code'' \<and> rq_group rq = None"
  shows "dict_get (columns row') k = dict_get (columns row) k \<and>
    row_status row' = row_status row \<and> row_deployment row' = row_deployment row"
proof -
  have k: "\<not> written rq k" "k \<noteq> ''locator''"
    using assms(3) by (auto simp: written_def preserved_on_update_def)
  obtain vendor d where "map_of (columns row') k =
      (case if written rq k then map_of d k else None of None \<Rightarrow> map_of (columns row) k | Some v \<Rightarrow> Some v)"
    by (rule updated_column [OF assms(1,2) k(2)])
  then have "dict_get (columns row') k = dict_get (columns row) k"
    using k(1) by (simp add: dict_get_def)
  moreover obtain e where "row' = apply_updates e row"
    by (rule update_infrastructure_Inr [OF assms(1)])
  then have "row_status row' = row_status row \<and> row_deployment row' = row_deployment row"
    by (simp add: apply_updates_def)
  ultimately show ?thesis by simp
qed
lemma check_update_guard: "check_update ue rq row = Inr () \<Longrightarrow> guard_update rq row = Inr ()"
  by (auto simp: check_update_def lift_error_def split: sum.splits)

lemma check_update_space: "check_update ue rq row = Inr () \<Longrightarrow> check_no_surrounding_space (rq_config rq) (rq_type rq) = Inr ()"
  by (auto simp: check_update_def lift_error_def validate_config_def check_no_surrounding_space_def Let_def
      split: sum.splits option.splits)

definition address_columns :: "string list" where
  "address_columns = [''infrastructuretype_ref_code'', ''applications_mst_code'', ''geo_loc_mst_code'', ''environments_enum'']"

definition requested_address :: "infra_request \<Rightarrow> string \<Rightarrow> string" where
  "requested_address rq k =
     (if k = ''infrastructuretype_ref_code'' then rq_type rq else if k = ''applications_mst_code'' then rq_app rq
      else if k = ''geo_loc_mst_code'' then rq_geo rq else rq_env rq)"

lemma row_data_address:
  "k \<in> set address_columns \<Longrightarrow>
   map_of (row_data (params_for ue rq vendor) pre name desc loc) k = Some (VStr (requested_address rq k))"
  unfolding address_columns_def list.set
  by (elim insertE emptyE; simp add: row_data_def params_for_def requested_address_def)

lemma placement_same_or_blank:
  "check_placement_unchanged rq row = Inr () \<Longrightarrow> k \<in> set address_columns \<Longrightarrow>
   same_or_blank (requested_address rq k) (dict_get (columns row) k)"
  unfolding address_columns_def list.set
  by (elim insertE emptyE; simp add: check_placement_unchanged_def Let_def requested_address_def)

text \<open>
  An accepted update never moves a resource to another type, product, region or environment, and
  it comes from the owning tenant on a row no deployment is reading: each of the four columns keeps its
  (trimmed) value or is left blank.
\<close>

theorem update_keeps_address:
  assumes "update_infrastructure ue rq (Some row) = Inr row'"
    and "set address_columns \<subseteq> fst ` set (columns row)"
  shows "dict_get (columns row) ''tenants_mst_code'' = VStr (ue_tenant ue) \<and>
    row_status row \<notin> Some ` set deploy_in_flight \<and>
    (\<forall>k \<in> set address_columns.
       clean_value (dict_get (columns row') k) \<in> {clean_value (dict_get (columns row) k), []})"
proof -
  have c: "check_update ue rq row = Inr ()"
    by (rule update_infrastructure_Inr [OF assms(1)])
  then have g: "check_not_deploying row = Inr ()" "check_placement_unchanged rq row = Inr ()"
    using check_update_guard [OF c] by (simp_all add: guard_update_def)
  have "clean_value (dict_get (columns row') k) \<in> {clean_value (dict_get (columns row) k), []}"
    if k: "k \<in> set address_columns" for k
  proof -
    have mem: "k \<in> fst ` set (columns row)" "k \<noteq> ''locator''" "written rq k"
      using k assms(2) by (auto simp: address_columns_def written_def preserved_on_update_def)
    obtain vendor d where b: "build_factory_data ue rq vendor (effective_config rq row) = Inr d"
      and m: "map_of (columns row') k = (case map_of d k of None \<Rightarrow> map_of (columns row) k | Some v \<Rightarrow> Some v)"
      using updated_column [OF assms(1) mem(1,2)] mem(3) by (metis (full_types))
    obtain pre name desc loc where d: "d = row_data (params_for ue rq vendor) pre name desc loc"
      using build_is_row_data [OF b] .
    have "dict_get (columns row') k = VStr (requested_address rq k)"
      using m row_data_address [OF k] by (simp add: d dict_get_def)
    then show ?thesis
      using placement_same_or_blank [OF g(2) k] by (auto simp: same_or_blank_def)
  qed
  moreover have "dict_get (columns row) ''tenants_mst_code'' = VStr (ue_tenant ue)"
    using c by (simp add: check_update_def)
  ultimately show ?thesis
    using g(1) by (auto simp: check_not_deploying_def split: option.splits)
qed
section \<open>Names across an update\<close>

text \<open>The name keys hold text or nothing, as a form sends them.\<close>

definition text_or_none :: "pyval \<Rightarrow> bool" where
  "text_or_none v = (case v of VNone \<Rightarrow> True | VStr _ \<Rightarrow> True | _ \<Rightarrow> False)"

definition name_keys_text :: "config \<Rightarrow> string \<Rightarrow> bool" where
  "name_keys_text cfg t =
     (case spec_for t of None \<Rightarrow> True | Some spec \<Rightarrow> list_all (\<lambda>k. text_or_none (dict_get cfg k)) (request_keys spec))"

definition tidy :: "pyval \<Rightarrow> bool" where
  "tidy v = (v = VNone \<or> (\<exists>s. v = VStr s \<and> py_strip s = s))"

lemma tidy_name_keys:
  assumes "check_no_surrounding_space cfg t = Inr ()" and "name_keys_text cfg t"
    and "spec_for t = Some spec" and "k \<in> set (request_keys spec)"
  shows "tidy (dict_get cfg k)"
proof -
  have "check_one_name_key cfg k = Inr ()" and "text_or_none (dict_get cfg k)"
    using assms by (auto simp: check_no_surrounding_space_def name_keys_text_def list_all_iff)
  then show ?thesis
    by (cases "dict_get cfg k") (auto simp: check_one_name_key_def text_or_none_def tidy_def split: if_splits)
qed

lemma get_or_empty_tidy:
  "tidy (dict_get cfg k) \<Longrightarrow> first_name cfg [k] = Some n \<Longrightarrow> get_or_empty cfg k = VStr n"
  by (auto simp: tidy_def get_or_empty_def dict_get_def split: option.splits if_splits)

lemma first_truthy_tidy:
  "tidy (dict_get cfg a) \<Longrightarrow> tidy (dict_get cfg b) \<Longrightarrow> first_name cfg [a, b] = Some n \<Longrightarrow> first_truthy cfg a b = VStr n"
  by (auto simp: tidy_def first_truthy_def get_or_empty_def dict_get_def split: option.splits if_splits)

lemma map_of_locator:
  "distinct (map fst cfg) \<Longrightarrow> k \<in> set (identity_keys t) \<Longrightarrow>
   map_of (dict_merge base (passthrough_extra (Some cfg) t also)) k = map_of base k"
  by (subst map_of_dict_merge) (auto simp: passthrough_extra_def)

lemma identity_stored: "spec_for t = Some spec \<Longrightarrow> stored_key spec \<in> set (identity_keys t)"
  using stored_key_identity by (auto simp: identity_keys_def)

text \<open>Each factory stores the name it was given under the stored key of its type.\<close>

lemma factory_stores_name:
  assumes b: "build_factory_data ue rq vendor cfg = Inr d" and s: "spec_for (rq_type rq) = Some spec"
    and tidy: "\<forall>k \<in> set (request_keys spec). tidy (dict_get cfg k)" and dist: "distinct (map fst cfg)"
    and n: "submitted_name (Some cfg) (rq_type rq) = Some n"
    and redis: "rq_type rq = redis_type \<Longrightarrow> clean_value (dict_get cfg ''identifier'') = [] \<Longrightarrow>
      \<not> startswith n (paas_prefix (ue_settings ue) (ue_tenant ue))"
  shows "map_of (data_locator d) (stored_key spec) = Some (VStr n)"
proof -
  let ?p = "params_for ue rq vendor" and ?t = "rq_type rq"
  have t: "fp_type ?p = ?t" "fp_tenant ?p = ue_tenant ue" by (simp_all add: params_for_def)
  have key: "stored_key spec \<in> set (identity_keys ?t)" using identity_stored [OF s] .
  have fn: "first_name cfg (request_keys spec) = Some n" using n s by (simp add: submitted_name_def)
  have loc: "map_of (data_locator d) (stored_key spec) = map_of base (stored_key spec)"
    if "data_locator d = dict_merge base (passthrough_extra (Some cfg) ?t ex)" for base ex
    using map_of_locator [OF dist key] that by simp
  note defs = build_factory_data_def Let_def t
  show ?thesis
  proof (rule name_spec_cases [OF s])
    assume "?t = s3_type"
    with s have sp: "stored_key spec = ''identifier''" "request_keys spec = [''identifier'']"
      by (auto simp: spec_for_def name_specs_def)
    with fn tidy have "get_or_empty cfg ''identifier'' = VStr n" by (intro get_or_empty_tidy) auto
    with b \<open>?t = s3_type\<close> show ?thesis by (subst loc) (auto simp: defs make_s3_def sp)
  next
    assume sqs: "?t = sqs_type"
    with s have sp: "stored_key spec = ''identifier''" "request_keys spec = [''identifier'']"
      by (auto simp: spec_for_def name_specs_def)
    with fn tidy have g: "get_or_empty cfg ''identifier'' = VStr n" by (intro get_or_empty_tidy) auto
    have k: "''identifier'' \<in> set (identity_keys sqs_type)" using key sp sqs by simp
    from b sqs show ?thesis
      by (auto simp: defs make_sqs_def sp g update_conv' map_of_locator [OF dist k])
  next
    assume "?t = dynamodb_type"
    with s have sp: "stored_key spec = ''identifier''" "request_keys spec = [''identifier'']"
      by (auto simp: spec_for_def name_specs_def)
    with fn tidy have "get_or_empty cfg ''identifier'' = VStr n" by (intro get_or_empty_tidy) auto
    with b \<open>?t = dynamodb_type\<close> show ?thesis by (subst loc) (auto simp: defs make_dynamodb_def sp)
  next
    assume redis_t: "?t = redis_type"
    with s have sp: "stored_key spec = ''identifier''" "request_keys spec = [''identifier'', ''redis_cluster_name'']"
      by (auto simp: spec_for_def name_specs_def)
    with fn tidy have f: "first_truthy cfg ''identifier'' ''redis_cluster_name'' = VStr n"
      by (intro first_truthy_tidy) auto
    have "clean_value (dict_get cfg ''identifier'') = []" if "\<not> truthy (dict_get cfg ''identifier'')"
      using that tidy sp by (auto simp: tidy_def)
    then have r: "redis_identifier (paas_prefix (ue_settings ue) (ue_tenant ue)) cfg = Inr (VStr n)"
      using redis [OF redis_t] f by (auto simp: redis_identifier_def Let_def)
    with b redis_t show ?thesis by (subst loc) (auto simp: defs make_redis_def sp)
  next
    assume "?t = k8s_postgres_type"
    with s have sp: "stored_key spec = ''server_name''" "request_keys spec = [''identifier'', ''server_name'']"
      by (auto simp: spec_for_def name_specs_def)
    with fn tidy have "first_truthy cfg ''identifier'' ''server_name'' = VStr n" by (intro first_truthy_tidy) auto
    with b \<open>?t = k8s_postgres_type\<close> show ?thesis by (subst loc) (auto simp: defs make_k8s_postgres_def sp)
  next
    assume "?t = aurora_postgres_type"
    with s have sp: "stored_key spec = ''db_server_name''" "request_keys spec = [''db_server_name'', ''identifier'']"
      by (auto simp: spec_for_def name_specs_def)
    with fn tidy have "first_truthy cfg ''db_server_name'' ''identifier'' = VStr n" by (intro first_truthy_tidy) auto
    with b \<open>?t = aurora_postgres_type\<close> show ?thesis by (subst loc) (auto simp: defs make_aurora_postgres_def sp)
  next
    assume "?t = aurora_mysql_type"
    with s have sp: "stored_key spec = ''db_server_name''" "request_keys spec = [''db_server_name'', ''identifier'']"
      by (auto simp: spec_for_def name_specs_def)
    with fn tidy have "first_truthy cfg ''db_server_name'' ''identifier'' = VStr n" by (intro first_truthy_tidy) auto
    with b \<open>?t = aurora_mysql_type\<close> show ?thesis by (subst loc) (auto simp: defs make_aurora_mysql_def sp)
  qed
qed

lemma factory_locator_distinct:
  assumes b: "build_factory_data ue rq vendor cfg = Inr d"
  shows "distinct (map fst (data_locator d))"
  using b unfolding build_factory_data_def
  by (auto simp: Let_def make_s3_def make_sqs_def make_dynamodb_def make_redis_def
      make_k8s_postgres_def make_aurora_postgres_def make_aurora_mysql_def
      split: if_splits sum.splits intro!: distinct_dict_merge distinct_update)
lemma with_name_submitted:
  assumes "spec_for t = Some spec" and "name \<noteq> []" and "py_strip name = name"
  shows "submitted_name (Some (with_name cfg t name)) t = Some name"
    and "k \<in> set (request_keys spec) \<Longrightarrow> tidy (dict_get (with_name cfg t name) k)"
    and "distinct (map fst (dict_or cfg)) \<Longrightarrow> distinct (map fst (with_name cfg t name))"
proof -
  obtain j ks where ks: "request_keys spec = j # ks"
    using request_keys_nonempty [OF assms(1)] by (cases "request_keys spec") auto
  have get: "dict_get (with_name cfg t name) i =
      (if i = j then VStr name else if i \<in> set (request_keys spec) then VNone else dict_get (dict_or cfg) i)" for i
    using assms(1) ks by (auto simp: with_name_def)
  show "submitted_name (Some (with_name cfg t name)) t = Some name"
    using assms ks by (simp add: submitted_name_def get)
  show "k \<in> set (request_keys spec) \<Longrightarrow> tidy (dict_get (with_name cfg t name) k)"
    using assms(3) by (auto simp: get tidy_def)
  show "distinct (map fst (dict_or cfg)) \<Longrightarrow> distinct (map fst (with_name cfg t name))"
    using assms(1) by (auto simp: with_name_def intro!: distinct_update)
qed

lemma stored_name_merge:
  assumes "spec_for t = Some spec" and "map_of new (stored_key spec) = Some (VStr n)" and "distinct (map fst new)"
    and "n \<noteq> []" and "py_strip n = n"
  shows "stored_name (Some (dict_merge old new)) t = Some n"
  using assms by (simp add: stored_name_def dict_get_def map_of_dict_merge)

lemma guard_name:
  assumes "guard_update rq row = Inr ()" and "has_deployed row"
    and "stored_name (Some (row_locator row)) (rq_type rq) = Some n"
  shows "submitted_name (Some (rq_config rq)) (rq_type rq) \<in> {None, Some n}"
proof -
  have "check_name_unchanged rq row = Inr ()" using assms(1) by (simp add: guard_update_def)
  with assms(2,3) show ?thesis by (auto simp: check_name_unchanged_iff)
qed

text \<open>The configuration the factory of an update sees: named as the row is, with tidy name keys.\<close>

lemma effective_config_named:
  assumes c: "check_update ue rq row = Inr ()" and "has_deployed row"
    and n: "stored_name (Some (row_locator row)) (rq_type rq) = Some n"
    and words: "name_keys_text (rq_config rq) (rq_type rq)" and dist: "distinct (map fst (rq_config rq))"
    and s: "spec_for (rq_type rq) = Some spec"
  shows "submitted_name (Some (effective_config rq row)) (rq_type rq) = Some n \<and>
    (\<forall>k \<in> set (request_keys spec). tidy (dict_get (effective_config rq row) k)) \<and>
    distinct (map fst (effective_config rq row))"
proof -
  have "submitted_name (Some (rq_config rq)) (rq_type rq) \<in> {None, Some n}"
    using guard_name [OF check_update_guard [OF c] assms(2) n] .
  then show ?thesis
  proof (elim insertE emptyE)
    assume none: "submitted_name (Some (rq_config rq)) (rq_type rq) = None"
    have "effective_config rq row = with_name (Some (rq_config rq)) (rq_type rq) n"
      using none n by (simp add: effective_config_def)
    then show ?thesis
      using with_name_submitted [OF s, where name = n and cfg = "Some (rq_config rq)"]
        stored_name_strip [OF n] dist by simp
  next
    assume some: "submitted_name (Some (rq_config rq)) (rq_type rq) = Some n"
    then show ?thesis
      using tidy_name_keys [OF check_update_space [OF c] words s] dist by (simp add: effective_config_def)
  qed
qed

text \<open>
  C24: An accepted update of a deployed resource keeps its name: the row it writes carries the stored
  name, whatever name keys the request held, provided those keys hold text and a redis name does not
  itself begin with the tenant's prefix.
\<close>

theorem update_keeps_deployed_name:
  assumes up: "update_infrastructure ue rq (Some row) = Inr row'" and dep: "has_deployed row"
    and n: "stored_name (Some (row_locator row)) (rq_type rq) = Some n"
    and words: "name_keys_text (rq_config rq) (rq_type rq)" and dist: "distinct (map fst (rq_config rq))"
    and col: "''locator'' \<in> fst ` set (columns row)"
    and redis: "rq_type rq = redis_type \<Longrightarrow> \<not> startswith n (paas_prefix (ue_settings ue) (ue_tenant ue))"
  shows "stored_name (Some (row_locator row')) (rq_type rq) = Some n"
proof -
  obtain vendor d where b: "build_factory_data ue rq vendor (effective_config rq row) = Inr d"
    and l: "row_locator row' = dict_merge (row_locator row) (data_locator d)"
    by (rule updated_locator [OF up col])
  have c: "check_update ue rq row = Inr ()" by (rule update_infrastructure_Inr [OF up])
  obtain spec where s: "spec_for (rq_type rq) = Some spec"
    using n by (auto simp: stored_name_def split: option.splits)
  note e = effective_config_named [OF c dep n words dist s]
  have "map_of (data_locator d) (stored_key spec) = Some (VStr n)"
    by (rule factory_stores_name [OF b s]) (use e redis in auto)
  then show ?thesis
    unfolding l using stored_name_merge [OF s] factory_locator_distinct [OF b] stored_name_strip [OF n] by blast
qed

text \<open>
  A created resource is stored under the name that was checked: the new row's stored name is the
  submitted one, no other row holds it, and the full AWS names built from it respect AWS's limits.
\<close>

theorem create_stores_checked_name:
  assumes cr: "create_infrastructure ue rq = Inr d"
    and n: "submitted_name (Some (rq_config rq)) (rq_type rq) = Some n"
    and words: "name_keys_text (rq_config rq) (rq_type rq)" and dist: "distinct (map fst (rq_config rq))"
    and redis: "rq_type rq = redis_type \<Longrightarrow> \<not> startswith n (paas_prefix (ue_settings ue) (ue_tenant ue))"
  shows "stored_name (Some (data_locator d)) (rq_type rq) = Some n \<and> \<not> ue_duplicate ue n \<and>
    list_all (\<lambda>(k, limit). length (clean_value (dict_get (data_locator d) k)) \<le> limit)
      (resolved_name_limits (rq_type rq))"
proof -
  obtain spec where s: "spec_for (rq_type rq) = Some spec"
    using n by (auto simp: submitted_name_def split: option.splits)
  obtain vendor where v: "resolve_vendor ue rq False = Inr vendor"
    and b: "build_factory_data ue rq vendor (rq_config rq) = Inr d"
    and r: "validate_resolved_names (Some (data_locator d)) (rq_type rq) = Inr ()"
    and dup: "refuse_duplicate ue (Some n) = Inr ()"
    using cr n by (auto simp: create_infrastructure_def split: sum.splits)
  have "validate_config (Some (rq_config rq)) (rq_type rq) False None = Inr ()"
    using v by (auto simp: resolve_vendor_def lift_error_def and_then_def split: sum.splits)
  then have space: "check_no_surrounding_space (rq_config rq) (rq_type rq) = Inr ()"
    using s by (simp add: validate_config_def Let_def)
  have tidy: "\<forall>k \<in> set (request_keys spec). tidy (dict_get (rq_config rq) k)"
    using tidy_name_keys [OF space words s] by blast
  have "map_of (data_locator d) (stored_key spec) = Some (VStr n)"
    by (rule factory_stores_name [OF b s tidy dist n]) (rule redis)
  then have "stored_name (Some (data_locator d)) (rq_type rq) = Some n"
    using s n by (auto simp: stored_name_def dict_get_def submitted_name_def dest!: first_name_Some)
  then show ?thesis
    using r dup
    by (auto simp: validate_resolved_names_def Let_def check_resolved_name_def refuse_duplicate_def list_all_iff
        split: if_splits)
qed

section \<open>Concrete requests\<close>

definition demo_settings :: name_settings where
  "demo_settings = \<lparr>set_env = ''trial'', set_region_code = ''virginia'', set_index = ''01'', set_account_id = ''443245368846''\<rparr>"

definition demo_env :: upsert_env where
  "demo_env =
     \<lparr>ue_settings = demo_settings, ue_tenant = ''acme'', ue_by = ''dev@acme.io'', ue_now = ''2026-09-11'',
      ue_hex = ''0A1B2C3D'', ue_type_known = True, ue_references = Inr (), ue_vendor = Inr ''aws_acme'',
      ue_duplicate = (\<lambda>n. n = ''taken'')\<rparr>"

definition demo_request :: "string \<Rightarrow> config \<Rightarrow> infra_request" where
  "demo_request t cfg =
     \<lparr>rq_code = Some ''INFRA_1'', rq_type = t, rq_app = ''APP1'', rq_env = ''prod'', rq_geo = ''mumbai'',
      rq_config = cfg, rq_group = None\<rparr>"

definition demo_row :: "string \<Rightarrow> config \<Rightarrow> infra_row" where
  "demo_row t locator =
     \<lparr>columns = [(''code'', VStr ''INFRA_1''), (''infrastructuretype_ref_code'', VStr t),
        (''tenants_mst_code'', VStr ''acme''), (''applications_mst_code'', VStr ''APP1''),
        (''geo_loc_mst_code'', VStr ''mumbai''), (''environments_enum'', VStr ''prod''),
        (''resource_group_mst_code'', VStr ''RG1''), (''locator'', VDict locator),
        (''resource_identifier'', VStr ''arn:aws:sqs:orders''), (''infra_status'', VStr ''VENDOR_CREATED''),
        (''gitops_workflow_id'', VInt 7)],
      row_status = Some Online, row_deployment = Some ''SUCCESS''\<rparr>"

definition orders_row :: infra_row where
  "orders_row = demo_row sqs_type [(''identifier'', VStr ''orders''), (''queue_arn'', VStr ''arn:aws:sqs:orders'')]"

definition orders_request :: infra_request where
  "orders_request = demo_request sqs_type [(''visibility_timeout_seconds'', VInt 30)]"

definition orders_updated :: infra_row where
  "orders_updated = (case update_infrastructure demo_env orders_request (Some orders_row) of Inr r \<Rightarrow> r | Inl _ \<Rightarrow> orders_row)"

lemma orders_update_accepted: "update_infrastructure demo_env orders_request (Some orders_row) = Inr orders_updated"
proof -
  have "\<not> isl (update_infrastructure demo_env orders_request (Some orders_row))" by code_simp
  then show ?thesis by (auto simp: orders_updated_def isl_def split: sum.splits)
qed

lemma update_preserves_deployment_columns_witness:
  "dict_get (columns orders_updated) ''resource_identifier'' = VStr ''arn:aws:sqs:orders'' \<and>
   row_status orders_updated = Some Online"
proof -
  have "dict_get (columns orders_updated) ''resource_identifier'' = dict_get (columns orders_row) ''resource_identifier'' \<and>
      row_status orders_updated = row_status orders_row \<and> row_deployment orders_updated = row_deployment orders_row"
    by (rule update_preserves_deployment_columns [OF orders_update_accepted])
       (simp_all add: orders_row_def demo_row_def preserved_on_update_def)
  then show ?thesis by (simp add: orders_row_def demo_row_def dict_get_def)
qed

lemma update_keeps_address_witness:
  "clean_value (dict_get (columns orders_updated) ''applications_mst_code'') \<in> {''APP1'', []}"
proof -
  have sub: "set address_columns \<subseteq> fst ` set (columns orders_row)"
    by (simp add: address_columns_def orders_row_def demo_row_def)
  have "clean_value (dict_get (columns orders_row) ''applications_mst_code'') = ''APP1''" by code_simp
  moreover have "''applications_mst_code'' \<in> set address_columns" by (simp add: address_columns_def)
  ultimately show ?thesis
    using update_keeps_address [OF orders_update_accepted sub] by metis
qed

lemma update_keeps_deployed_name_witness:
  "stored_name (Some (row_locator orders_updated)) sqs_type = Some ''orders''"
proof -
  have t: "rq_type orders_request = sqs_type" by (simp add: orders_request_def demo_request_def)
  have "stored_name (Some (row_locator orders_updated)) (rq_type orders_request) = Some ''orders''"
  proof (rule update_keeps_deployed_name [OF orders_update_accepted])
    show "has_deployed orders_row" by code_simp
    show "stored_name (Some (row_locator orders_row)) (rq_type orders_request) = Some ''orders''" by code_simp
    show "name_keys_text (rq_config orders_request) (rq_type orders_request)" by code_simp
    show "distinct (map fst (rq_config orders_request))" by code_simp
    show "''locator'' \<in> fst ` set (columns orders_row)" by (simp add: orders_row_def demo_row_def)
    show "rq_type orders_request = redis_type \<Longrightarrow>
        \<not> startswith ''orders'' (paas_prefix (ue_settings demo_env) (ue_tenant demo_env))"
      using t by simp
  qed
  with t show ?thesis by simp
qed

definition bucket_request :: infra_request where
  "bucket_request = demo_request s3_type [(''identifier'', VStr ''app-logs'')]"

definition bucket_data :: config where
  "bucket_data = (case create_infrastructure demo_env bucket_request of Inr d \<Rightarrow> d | Inl _ \<Rightarrow> [])"

lemma create_stores_checked_name_witness:
  "stored_name (Some (data_locator bucket_data)) s3_type = Some ''app-logs'' \<and>
   length (clean_value (dict_get (data_locator bucket_data) ''bucket_name'')) \<le> 63"
proof -
  have "\<not> isl (create_infrastructure demo_env bucket_request)" by code_simp
  then have c: "create_infrastructure demo_env bucket_request = Inr bucket_data"
    by (auto simp: bucket_data_def isl_def split: sum.splits)
  have t: "rq_type bucket_request = s3_type" by (simp add: bucket_request_def demo_request_def)
  have "stored_name (Some (data_locator bucket_data)) (rq_type bucket_request) = Some ''app-logs'' \<and>
      \<not> ue_duplicate demo_env ''app-logs'' \<and>
      list_all (\<lambda>(k, limit). length (clean_value (dict_get (data_locator bucket_data) k)) \<le> limit)
        (resolved_name_limits (rq_type bucket_request))"
  proof (rule create_stores_checked_name [OF c])
    show "submitted_name (Some (rq_config bucket_request)) (rq_type bucket_request) = Some ''app-logs''" by code_simp
    show "name_keys_text (rq_config bucket_request) (rq_type bucket_request)" by code_simp
    show "distinct (map fst (rq_config bucket_request))" by code_simp
    show "rq_type bucket_request = redis_type \<Longrightarrow>
        \<not> startswith ''app-logs'' (paas_prefix (ue_settings demo_env) (ue_tenant demo_env))"
      using t by simp
  qed
  with t show ?thesis by (simp add: resolved_name_limits_def)
qed

text \<open>
  The account of a queue is the caller's to choose: \<open>accountId\<close> is not among the keys the name
  table keeps out of the leftover configuration, so an accepted create request that carries one stores
  a queue ARN in that account.
\<close>

theorem caller_chooses_queue_account:
  "(case create_infrastructure demo_env
      (demo_request sqs_type [(''identifier'', VStr ''orders''), (''accountId'', VStr ''999999999999'')]) of
      Inl _ \<Rightarrow> False
    | Inr d \<Rightarrow> dict_get (data_locator d) ''queue_arn''
        = VStr ''arn:aws:sqs:ap-south-1:999999999999:acme-virginia-01-orders'')"
  by code_simp

text \<open>
  A redis name that begins with the tenant's prefix can be renamed after deployment: sent back
  under \<open>redis_cluster_name\<close>, it passes the guard as unchanged and the factory then strips the prefix.
\<close>

theorem prefixed_redis_name_is_renamed:
  "(let row = demo_row redis_type [(''identifier'', VStr ''acme-trial-virginia-01-cache'')];
        rq = demo_request redis_type [(''redis_cluster_name'', VStr ''acme-trial-virginia-01-cache'')]
    in has_deployed row \<and> guard_update rq row = Inr () \<and>
       (case update_infrastructure demo_env rq (Some row) of
          Inl _ \<Rightarrow> False
        | Inr row' \<Rightarrow> stored_name (Some (row_locator row')) redis_type = Some ''cache''))"
  by code_simp

end
