(* ===== verification/Authz.thy ===== *)
theory Authz
  imports Values
begin

text \<open>
  Authorization of HTTP routes (\<open>app/core/authz/security.py\<close>, \<open>fga.py\<close>): the access cards, the guard
  each card becomes, the router that attaches it, and the tripwire middleware around every response.

  The identity provider, the remote authorization service and the route handlers are arguments.
\<close>

section \<open>Checks against the authorization service\<close>

text \<open>
  What the HTTP call ends with: a transport error, a status that is not 2xx or a body that is no JSON,
  or the decoded body.
\<close>

datatype fga_reply = FgaError | FgaBody pyval

text \<open>
  \<open>check\<close> turns errors, a missing key included, into a denial.  A body that is not an object makes the
  subscript raise a \<open>TypeError\<close>, which it does not catch: the result is None.
\<close>

definition fga_check :: "fga_reply \<Rightarrow> bool option" where
  "fga_check reply =
     (case reply of
        FgaBody (VDict body) \<Rightarrow> Some (case map_of body ''allowed'' of None \<Rightarrow> False | Some v \<Rightarrow> truthy v)
      | FgaBody _ \<Rightarrow> None
      | FgaError \<Rightarrow> Some False)"

text \<open>The elements a value yields when iterated, if it can be.\<close>

definition py_iter :: "pyval \<Rightarrow> pyval list option" where
  "py_iter v =
     (case v of VList vs \<Rightarrow> Some vs | VStr s \<Rightarrow> Some (map (\<lambda>c. VStr [c]) s)
      | VDict d \<Rightarrow> Some (map (VStr \<circ> fst) d) | _ \<Rightarrow> None)"

definition reply_items :: "fga_reply \<Rightarrow> string \<Rightarrow> pyval list option" where
  "reply_items reply key =
     (case reply of FgaBody (VDict body) \<Rightarrow> Option.bind (map_of body key) py_iter | _ \<Rightarrow> None)"

text \<open>\<open>batch_check\<close>: one answer per question, all of them denials when anything is off.\<close>

definition fga_batch_check :: "nat \<Rightarrow> fga_reply \<Rightarrow> bool list" where
  "fga_batch_check n reply =
     (if n = 0 then []
      else (case reply_items reply ''allowed'' of
          None \<Rightarrow> replicate n False
        | Some vs \<Rightarrow> if length vs = n then map truthy vs else replicate n False))"

definition fga_list_objects :: "fga_reply \<Rightarrow> string list" where
  "fga_list_objects reply = (case reply_items reply ''objects'' of None \<Rightarrow> [] | Some vs \<Rightarrow> map py_str vs)"

section \<open>Cards and requests\<close>

datatype access =
    Public string
  | AuthenticationOnly string
  | Authorization string string string nat
  | AuthorizationFromBody "string option" "string option" "string option" nat
      "(string \<times> string \<times> string) list option"

record http_request =
  url_path :: string
  path_params :: "(string, string) dict"
  json_body :: "pyval option"

text \<open>The stamps the guards leave on \<open>request.state\<close>.\<close>

record stamps =
  access_public :: bool
  authz_checked :: bool

definition no_stamps :: stamps where
  "no_stamps = \<lparr>access_public = False, authz_checked = False\<rparr>"

record response =
  status_code :: nat
  from_handler :: bool

text \<open>
  The surroundings: who the caller is (or the status authentication fails with), and what the
  authorization service answers for a user, a permission and an object.
\<close>

record surroundings =
  authenticate :: "http_request \<Rightarrow> (nat, string) result"
  fga_reply_for :: "string \<Rightarrow> string \<Rightarrow> string \<Rightarrow> fga_reply"

definition fga_allows :: "surroundings \<Rightarrow> string \<Rightarrow> string \<Rightarrow> string \<Rightarrow> bool" where
  "fga_allows env user perm obj = (fga_check (fga_reply_for env user perm obj) = Some True)"

definition authenticated_user :: "surroundings \<Rightarrow> http_request \<Rightarrow> (nat, string) result" where
  "authenticated_user env rq =
     (case authenticate env rq of Inl s \<Rightarrow> Inl s | Inr code \<Rightarrow> Inr (''user:'' @ code))"

definition mark_checked :: "stamps \<Rightarrow> stamps" where
  "mark_checked st = st\<lparr>authz_checked := True\<rparr>"

text \<open>A guard raises an \<open>HTTPException\<close> with a status, or returns the stamped state.\<close>

type_synonym guard = "http_request \<Rightarrow> stamps \<Rightarrow> (nat, stamps) result"

definition require :: "surroundings \<Rightarrow> string \<Rightarrow> string \<Rightarrow> string \<Rightarrow> nat \<Rightarrow> stamps \<Rightarrow> (nat, stamps) result" where
  "require env user perm obj deny st =
     (case fga_check (fga_reply_for env user perm obj) of
        None \<Rightarrow> Inl 500
      | Some allowed \<Rightarrow> if \<not> allowed then Inl deny else Inr (mark_checked st))"

lemma require_Inr_iff [simp]:
  "require env user perm obj deny st = Inr st' \<longleftrightarrow> fga_allows env user perm obj \<and> st' = mark_checked st"
  by (auto simp: require_def fga_allows_def split: option.splits)

section \<open>Guards\<close>

text \<open>\<open>request.path_params[card.param]\<close> raises a \<open>KeyError\<close>, an internal error, when absent.\<close>

definition permission_guard :: "surroundings \<Rightarrow> string \<Rightarrow> string \<Rightarrow> string \<Rightarrow> nat \<Rightarrow> guard" where
  "permission_guard env perm otype param deny rq st =
     (case authenticated_user env rq of Inl s \<Rightarrow> Inl s
      | Inr user \<Rightarrow>
          (case map_of (path_params rq) param of
             None \<Rightarrow> Inl 500
           | Some v \<Rightarrow> require env user perm (otype @ '':'' @ v) deny st))"

text \<open>\<open>f"{x}"\<close> of an optional text.\<close>

definition opt_text :: "string option \<Rightarrow> string" where
  "opt_text s = (case s of None \<Rightarrow> ''None'' | Some x \<Rightarrow> x)"

fun body_checks :: "surroundings \<Rightarrow> string \<Rightarrow> pyval \<Rightarrow> nat \<Rightarrow> (string \<times> string \<times> string) list \<Rightarrow> stamps \<Rightarrow> (nat, stamps) result" where
  "body_checks env user body deny [] st = Inr st"
| "body_checks env user body deny ((perm, otype, field) # cs) st =
     (let v = (case body of VDict d \<Rightarrow> dict_get d field | _ \<Rightarrow> VNone) in
      if \<not> truthy v then Inl 422
      else (case require env user perm (otype @ '':'' @ py_str v) deny st of
          Inl s \<Rightarrow> Inl s
        | Inr st' \<Rightarrow> body_checks env user body deny cs st'))"

definition card_checks ::
  "string option \<Rightarrow> string option \<Rightarrow> string option \<Rightarrow> (string \<times> string \<times> string) list option \<Rightarrow>
   (string \<times> string \<times> string) list" where
  "card_checks perm otype field checks =
     (case checks of
        Some (c # cs) \<Rightarrow> c # cs
      | _ \<Rightarrow> [(opt_text perm, opt_text otype, opt_text field)])"

definition body_permission_guard ::
  "surroundings \<Rightarrow> string option \<Rightarrow> string option \<Rightarrow> string option \<Rightarrow> nat \<Rightarrow>
   (string \<times> string \<times> string) list option \<Rightarrow> guard" where
  "body_permission_guard env perm otype field deny checks rq st =
     (case authenticated_user env rq of Inl s \<Rightarrow> Inl s
      | Inr user \<Rightarrow>
          (case json_body rq of
             None \<Rightarrow> Inl 422
           | Some body \<Rightarrow> body_checks env user body deny (card_checks perm otype field checks) st))"

definition public_marker :: guard where
  "public_marker rq st = Inr (st\<lparr>access_public := True\<rparr>)"

definition login_only_guard :: "surroundings \<Rightarrow> guard" where
  "login_only_guard env rq st =
     (case authenticated_user env rq of Inl s \<Rightarrow> Inl s | Inr user \<Rightarrow> Inr (mark_checked st))"

fun guard_for_card :: "surroundings \<Rightarrow> access \<Rightarrow> guard" where
  "guard_for_card env (Public reason) = public_marker"
| "guard_for_card env (AuthenticationOnly reason) = login_only_guard env"
| "guard_for_card env (Authorization perm otype param deny) = permission_guard env perm otype param deny"
| "guard_for_card env (AuthorizationFromBody perm otype field deny checks) =
     body_permission_guard env perm otype field deny checks"

section \<open>Routes and the tripwire\<close>

text \<open>\<open>_register_with_guard\<close>: the route's own dependencies, then the card's guard.\<close>

definition register_with_guard :: "surroundings \<Rightarrow> guard list \<Rightarrow> access \<Rightarrow> guard list" where
  "register_with_guard env deps acc = deps @ [guard_for_card env acc]"

fun run_guards :: "guard list \<Rightarrow> http_request \<Rightarrow> stamps \<Rightarrow> (nat, stamps) result" where
  "run_guards [] rq st = Inr st"
| "run_guards (g # gs) rq st = (case g rq st of Inl s \<Rightarrow> Inl s | Inr st' \<Rightarrow> run_guards gs rq st')"

text \<open>
  A handler answers with a status and may stamp the request further (by calling \<open>require\<close> itself).
  The dependencies run first; an exception in one of them answers in the handler's place.
\<close>

definition call_route ::
  "guard list \<Rightarrow> (http_request \<Rightarrow> stamps \<Rightarrow> nat \<times> stamps) \<Rightarrow> http_request \<Rightarrow> response \<times> stamps" where
  "call_route gs handler rq =
     (case run_guards gs rq no_stamps of
        Inl s \<Rightarrow> (\<lparr>status_code = s, from_handler = False\<rparr>, no_stamps)
      | Inr st \<Rightarrow> (case handler rq st of (s, st') \<Rightarrow> (\<lparr>status_code = s, from_handler = True\<rparr>, st')))"

definition framework_paths :: "string list" where
  "framework_paths =
     [''/docs'', ''/redoc'', ''/openapi.json'', ''/docs/oauth2-redirect'', ''/'', ''/health'',
      ''/health/qdrant'', ''/health/redis'', ''/health/mcp'']"

definition mounted_prefixes :: "string list" where
  "mounted_prefixes = [''/ui'', ''/static'', ''/mcp'', ''/devlift-mcp'', ''/.well-known'']"

definition public_prefixes :: "string list" where
  "public_prefixes = [''/.well-known/'']"

definition exempt_path :: "string \<Rightarrow> bool" where
  "exempt_path p =
     (p \<in> set framework_paths \<or> list_ex (\<lambda>q. startswith p q) mounted_prefixes \<or>
      list_ex (\<lambda>q. startswith p q) public_prefixes)"

definition tripwire :: "http_request \<Rightarrow> response \<times> stamps \<Rightarrow> response" where
  "tripwire rq rs =
     (case rs of (r, st) \<Rightarrow>
        if status_code r \<ge> 300 then r
        else if exempt_path (url_path rq) then r
        else if access_public st \<or> authz_checked st then r
        else \<lparr>status_code = 500, from_handler = False\<rparr>)"

definition serve ::
  "guard list \<Rightarrow> (http_request \<Rightarrow> stamps \<Rightarrow> nat \<times> stamps) \<Rightarrow> http_request \<Rightarrow> response" where
  "serve gs handler rq = tripwire rq (call_route gs handler rq)"

section \<open>What a guard guarantees\<close>

text \<open>The authorization a card asks for, as a condition on the request.\<close>

fun granted :: "surroundings \<Rightarrow> access \<Rightarrow> http_request \<Rightarrow> bool" where
  "granted env (Public reason) rq = True"
| "granted env (AuthenticationOnly reason) rq = (\<exists>code. authenticate env rq = Inr code)"
| "granted env (Authorization perm otype param deny) rq =
     (\<exists>code v. authenticate env rq = Inr code \<and> map_of (path_params rq) param = Some v \<and>
        fga_allows env (''user:'' @ code) perm (otype @ '':'' @ v))"
| "granted env (AuthorizationFromBody perm otype field deny checks) rq =
     (\<exists>code body. authenticate env rq = Inr code \<and> json_body rq = Some body \<and>
        (\<forall>(p, t, f) \<in> set (card_checks perm otype field checks).
           \<exists>d. body = VDict d \<and> truthy (dict_get d f) \<and>
             fga_allows env (''user:'' @ code) p (t @ '':'' @ py_str (dict_get d f))))"

lemma body_checks_Cons:
  "(\<exists>st'. body_checks env user body deny ((p, t, f) # cs) st = Inr st') \<longleftrightarrow>
   (\<exists>d. body = VDict d \<and> truthy (dict_get d f) \<and> fga_allows env user p (t @ '':'' @ py_str (dict_get d f))) \<and>
   (\<exists>st'. body_checks env user body deny cs (mark_checked st) = Inr st')"
proof (cases body)
  case (VDict d)
  show ?thesis
  proof (cases "fga_allows env user p (t @ '':'' @ py_str (dict_get d f))")
    case True
    then have "require env user p (t @ '':'' @ py_str (dict_get d f)) deny st = Inr (mark_checked st)" by simp
    with True VDict show ?thesis by (simp add: Let_def del: require_Inr_iff)
  next
    case False
    then have "\<exists>s. require env user p (t @ '':'' @ py_str (dict_get d f)) deny st = Inl s"
      by (cases "require env user p (t @ '':'' @ py_str (dict_get d f)) deny st") auto
    with False VDict show ?thesis by (auto simp: Let_def)
  qed
qed (simp_all add: Let_def)

lemma body_checks_iff:
  "(\<exists>st'. body_checks env user body deny cs st = Inr st') \<longleftrightarrow>
     (\<forall>(p, t, f) \<in> set cs. \<exists>d. body = VDict d \<and> truthy (dict_get d f) \<and>
        fga_allows env user p (t @ '':'' @ py_str (dict_get d f)))"
proof (induction cs arbitrary: st)
  case (Cons c cs)
  obtain p t f where c: "c = (p, t, f)" by (cases c)
  show ?case unfolding c body_checks_Cons Cons.IH by simp
qed simp

lemma body_checks_stamp:
  "body_checks env user body deny cs st = Inr st' \<Longrightarrow> cs \<noteq> [] \<or> authz_checked st \<Longrightarrow> authz_checked st'"
  by (induction cs arbitrary: st) (auto simp: mark_checked_def Let_def split: if_splits sum.splits)

lemma card_checks_nonempty [simp]: "card_checks perm otype field checks \<noteq> []"
  by (auto simp: card_checks_def split: option.splits list.splits)

lemma guard_for_card_iff: "(\<exists>st'. guard_for_card env acc rq st = Inr st') \<longleftrightarrow> granted env acc rq"
proof (cases acc)
  case (AuthorizationFromBody perm otype field deny checks)
  then show ?thesis
    using body_checks_iff [of env _ _ deny "card_checks perm otype field checks" st]
    by (auto simp: body_permission_guard_def authenticated_user_def split: sum.splits option.splits)
qed (auto simp: public_marker_def login_only_guard_def permission_guard_def authenticated_user_def
      split: sum.splits option.splits)

lemma guard_for_card_stamps:
  "guard_for_card env acc rq st = Inr st' \<Longrightarrow> access_public st' \<or> authz_checked st'"
  by (cases acc)
     (auto simp: public_marker_def login_only_guard_def permission_guard_def body_permission_guard_def
       mark_checked_def split: sum.splits option.splits if_splits dest: body_checks_stamp)

lemma run_guards_append:
  "run_guards (gs @ hs) rq st = (case run_guards gs rq st of Inl s \<Rightarrow> Inl s | Inr st' \<Rightarrow> run_guards hs rq st')"
  by (induction gs arbitrary: st) (auto split: sum.splits)

text \<open>
  C25: No handler runs unauthorized: on a route registered with a card, whatever its other
  dependencies, a response of the handler is only ever sent when the card's authorization holds - the
  caller is authenticated and every check the card names is answered with an explicit allow.
\<close>

theorem handler_runs_only_if_granted:
  assumes "from_handler (serve (register_with_guard env deps acc) handler rq)"
  shows "granted env acc rq"
proof -
  obtain st where "run_guards (register_with_guard env deps acc) rq no_stamps = Inr st"
    using assms by (auto simp: serve_def tripwire_def call_route_def split: sum.splits prod.splits if_splits)
  then obtain st1 where "guard_for_card env acc rq st1 = Inr st"
    by (auto simp: register_with_guard_def run_guards_append split: sum.splits)
  then show ?thesis using guard_for_card_iff by blast
qed

text \<open>
  The tripwire fails closed: whatever guards and handler a route has, no successful response of a
  handler leaves on a path that is not exempt unless the request carries a stamp.
\<close>

theorem tripwire_fails_closed:
  "\<not> (from_handler (serve gs handler rq) \<and> status_code (serve gs handler rq) < 300 \<and>
      \<not> exempt_path (url_path rq) \<and>
      \<not> access_public (snd (call_route gs handler rq)) \<and> \<not> authz_checked (snd (call_route gs handler rq)))"
  by (auto simp: serve_def tripwire_def split: prod.splits)

text \<open>
  The tripwire never hits a route that declares its access: when the card's guard passes and the
  handler keeps the stamps, the handler's own answer is what the caller receives.
\<close>

theorem declared_route_is_not_tripped:
  assumes "from_handler (fst (call_route (register_with_guard env deps acc) handler rq))"
    and "\<And>st. access_public st \<or> authz_checked st \<Longrightarrow>
      access_public (snd (handler rq st)) \<or> authz_checked (snd (handler rq st))"
  shows "serve (register_with_guard env deps acc) handler rq
    = fst (call_route (register_with_guard env deps acc) handler rq)"
proof -
  obtain st where st: "run_guards (register_with_guard env deps acc) rq no_stamps = Inr st"
    using assms(1) by (auto simp: call_route_def split: sum.splits)
  then obtain st1 where "guard_for_card env acc rq st1 = Inr st"
    by (auto simp: register_with_guard_def run_guards_append split: sum.splits)
  then have "access_public st \<or> authz_checked st" by (rule guard_for_card_stamps)
  then have "access_public (snd (handler rq st)) \<or> authz_checked (snd (handler rq st))" by (rule assms(2))
  with st show ?thesis by (auto simp: serve_def tripwire_def call_route_def split: prod.splits)
qed

text \<open>
  Answers of a batch check cannot be misaligned: there is exactly one per question, and an allow
  at position \<open>i\<close> is the service's own truthy answer at position \<open>i\<close> of a list of the right length.
\<close>

theorem batch_check_aligned:
  "length (fga_batch_check n reply) = n \<and>
   (\<forall>i < n. fga_batch_check n reply ! i \<longrightarrow>
      (\<exists>vs. reply_items reply ''allowed'' = Some vs \<and> length vs = n \<and> truthy (vs ! i)))"
  by (auto simp: fga_batch_check_def split: option.splits if_splits)

section \<open>Concrete requests\<close>

definition demo_surroundings :: surroundings where
  "demo_surroundings =
     \<lparr>authenticate = (\<lambda>rq. Inr ''u1''),
      fga_reply_for = (\<lambda>user perm obj. if user = ''user:u1'' \<and> perm = ''can_deploy'' \<and> obj = ''service:sc-1''
         then FgaBody (VDict [(''allowed'', VBool True)]) else FgaError)\<rparr>"

definition deploy_request :: "string \<Rightarrow> http_request" where
  "deploy_request code = \<lparr>url_path = ''/api/v1/deploy'', path_params = [(''code'', code)], json_body = None\<rparr>"

definition deploy_card :: access where
  "deploy_card = Authorization ''can_deploy'' ''service'' ''code'' 404"

abbreviation ok_handler :: "http_request \<Rightarrow> stamps \<Rightarrow> nat \<times> stamps" where
  "ok_handler \<equiv> (\<lambda>rq st. (200, st))"

lemma handler_runs_only_if_granted_witness:
  "granted demo_surroundings deploy_card (deploy_request ''sc-1'') \<and>
   serve (register_with_guard demo_surroundings [] deploy_card) ok_handler (deploy_request ''sc-2'')
     = \<lparr>status_code = 404, from_handler = False\<rparr>"
proof
  have "from_handler (serve (register_with_guard demo_surroundings [] deploy_card) ok_handler (deploy_request ''sc-1''))"
    by code_simp
  then show "granted demo_surroundings deploy_card (deploy_request ''sc-1'')"
    by (rule handler_runs_only_if_granted)
  show "serve (register_with_guard demo_surroundings [] deploy_card) ok_handler (deploy_request ''sc-2'')
     = \<lparr>status_code = 404, from_handler = False\<rparr>"
    by code_simp
qed

lemma declared_route_is_not_tripped_witness:
  "serve (register_with_guard demo_surroundings [] deploy_card) ok_handler (deploy_request ''sc-1'')
     = \<lparr>status_code = 200, from_handler = True\<rparr>"
proof -
  have r: "fst (call_route (register_with_guard demo_surroundings [] deploy_card) ok_handler (deploy_request ''sc-1''))
      = \<lparr>status_code = 200, from_handler = True\<rparr>"
    by code_simp
  have "serve (register_with_guard demo_surroundings [] deploy_card) ok_handler (deploy_request ''sc-1'')
      = fst (call_route (register_with_guard demo_surroundings [] deploy_card) ok_handler (deploy_request ''sc-1''))"
    by (rule declared_route_is_not_tripped) (simp_all add: r)
  with r show ?thesis by simp
qed

lemma batch_check_aligned_witness:
  "fga_batch_check 2 (FgaBody (VDict [(''allowed'', VList [VBool False, VBool True])])) = [False, True] \<and>
   fga_batch_check 3 (FgaBody (VDict [(''allowed'', VList [VBool False, VBool True])])) = [False, False, False] \<and>
   (\<exists>vs. reply_items (FgaBody (VDict [(''allowed'', VList [VBool False, VBool True])])) ''allowed'' = Some vs \<and>
      length vs = 2 \<and> truthy (vs ! 1))"
proof -
  have b: "fga_batch_check 2 (FgaBody (VDict [(''allowed'', VList [VBool False, VBool True])])) = [False, True]"
    by code_simp
  then have "fga_batch_check 2 (FgaBody (VDict [(''allowed'', VList [VBool False, VBool True])])) ! 1" by simp
  then have "\<exists>vs. reply_items (FgaBody (VDict [(''allowed'', VList [VBool False, VBool True])])) ''allowed'' = Some vs \<and>
      length vs = 2 \<and> truthy (vs ! 1)"
    using batch_check_aligned [of 2 "FgaBody (VDict [(''allowed'', VList [VBool False, VBool True])])"] by simp
  moreover have "fga_batch_check 3 (FgaBody (VDict [(''allowed'', VList [VBool False, VBool True])])) = [False, False, False]"
    by code_simp
  ultimately show ?thesis using b by blast
qed

end
