(* ===== verification/AuditPolicy.thy ===== *)
theory AuditPolicy
  imports Values
begin

text \<open>
  What the audit trail may store of a request or response body (\<open>app/utils/audit_policy.py\<close>): bodies
  of secret-bearing routes are withheld, credential-named fields of every other body are redacted.
\<close>

section \<open>Route-level filter\<close>

definition sensitive_route_groups :: "string list" where
  "sensitive_route_groups = [''project-variables'', ''resource-variable'', ''secrets'', ''configs'']"

text \<open>What follows the first \<open>api/v1\<close> of the parts, when something does.\<close>

fun after_api_v1 :: "string list \<Rightarrow> string list option" where
  "after_api_v1 (a # b # parts) =
     (if a = ''api'' \<and> b = ''v1'' then Some parts else after_api_v1 (b # parts))"
| "after_api_v1 parts = None"

definition route_key :: "string \<Rightarrow> string option" where
  "route_key path =
     (case after_api_v1 (py_split (CHR ''/'') (strip_by (\<lambda>c. c = CHR ''/'') path)) of
        None \<Rightarrow> None
      | Some parts \<Rightarrow> let key = py_join ''/'' parts in if key = [] then None else Some key)"

definition is_sensitive_route :: "string \<Rightarrow> bool" where
  "is_sensitive_route path =
     (case route_key path of None \<Rightarrow> False
      | Some key \<Rightarrow> hd (py_split (CHR ''/'') key) \<in> set sensitive_route_groups)"

section \<open>Field-level filter\<close>

definition redacted :: pyval where
  "redacted = VStr ''***REDACTED***''"

definition sensitive_substrings :: "string list" where
  "sensitive_substrings =
     [''password'', ''passwd'', ''secret'', ''token'', ''api_key'', ''apikey'', ''access_key'',
      ''private_key'', ''credential'', ''auth_config'', ''authorization'']"

definition sensitive_exact :: "string list" where
  "sensitive_exact = [''value'', ''variable_value'', ''signature'', ''auth'']"

definition max_depth :: nat where
  "max_depth = 20"

definition is_sensitive_key :: "string \<Rightarrow> bool" where
  "is_sensitive_key key =
     (let lowered = py_lower key in
      lowered \<in> set sensitive_exact \<or> list_ex (\<lambda>w. py_in w lowered) sensitive_substrings)"

text \<open>\<open>sanitize_payload(payload, depth)\<close>; a key's value is sanitized only when the key is harmless.\<close>

primrec sanitize_payload :: "pyval \<Rightarrow> nat \<Rightarrow> pyval" where
  "sanitize_payload VNone n = (if n > max_depth then redacted else VNone)"
| "sanitize_payload (VBool b) n = (if n > max_depth then redacted else VBool b)"
| "sanitize_payload (VInt i) n = (if n > max_depth then redacted else VInt i)"
| "sanitize_payload (VStr s) n = (if n > max_depth then redacted else VStr s)"
| "sanitize_payload (VList xs) n =
     (if n > max_depth then redacted else VList (map (\<lambda>f. f (Suc n)) (map sanitize_payload xs)))"
| "sanitize_payload (VDict d) n =
     (if n > max_depth then redacted
      else VDict (map (\<lambda>(k, f). (k, if is_sensitive_key k then redacted else f (Suc n)))
                   (map (map_prod id sanitize_payload) d)))"

text \<open>What the two filters leave of a body: the marker, or the sanitized body.\<close>

definition hidden_payload :: pyval where
  "hidden_payload =
     VDict [(''_withheld'', VBool True),
            (''_reason'', VStr (''Body not recorded: this endpoint carries secret/variable values, '' @
                               ''which are never stored in the audit trail.''))]"

lemma sanitize_list: "sanitize_payload (VList xs) n =
  (if n > max_depth then redacted else VList (map (\<lambda>x. sanitize_payload x (Suc n)) xs))"
  by (simp add: comp_def)

lemma sanitize_dict: "sanitize_payload (VDict d) n =
  (if n > max_depth then redacted
   else VDict (map (\<lambda>(k, x). (k, if is_sensitive_key k then redacted else sanitize_payload x (Suc n))) d))"
  by (simp add: comp_def split_def)

declare sanitize_payload.simps(5,6) [simp del]
lemmas sanitize_containers [simp] = sanitize_list sanitize_dict

section \<open>Values along a path\<close>

datatype path_step = Key string | Index nat

text \<open>The value a path of keys and positions leads to.\<close>

fun value_at :: "pyval \<Rightarrow> path_step list \<Rightarrow> pyval option" where
  "value_at v [] = Some v"
| "value_at (VDict d) (Key k # ps) = (case map_of d k of None \<Rightarrow> None | Some v \<Rightarrow> value_at v ps)"
| "value_at (VList xs) (Index i # ps) = (if i < length xs then value_at (xs ! i) ps else None)"
| "value_at _ _ = None"

definition is_leaf :: "pyval \<Rightarrow> bool" where
  "is_leaf v = (case v of VList _ \<Rightarrow> False | VDict _ \<Rightarrow> False | _ \<Rightarrow> True)"

definition harmless_step :: "path_step \<Rightarrow> bool" where
  "harmless_step p = (case p of Key k \<Rightarrow> \<not> is_sensitive_key k | Index i \<Rightarrow> True)"

lemma map_of_map_key:
  "map_of (map (\<lambda>(k, x). (k, f k x)) d) k = map_option (f k) (map_of d k)"
  by (induction d) auto

lemma value_at_redacted: "value_at redacted ps = Some w \<Longrightarrow> w = redacted"
  by (cases ps) (simp_all add: redacted_def)

lemma sanitize_deep: "n > max_depth \<Longrightarrow> sanitize_payload v n = redacted"
  by (cases v) simp_all

lemma sanitize_leaf: "is_leaf v \<Longrightarrow> sanitize_payload v n = (if n > max_depth then redacted else v)"
  by (cases v) (simp_all add: is_leaf_def)

lemma sanitize_sound:
  assumes "value_at (sanitize_payload v n) ps = Some w" and "is_leaf w" and "w \<noteq> redacted"
  shows "value_at v ps = Some w \<and> list_all harmless_step ps \<and> n + length ps \<le> max_depth"
  using assms(1)
proof (induction ps arbitrary: v n)
  case Nil
  then show ?case
    using assms(2,3) by (cases v) (auto simp: is_leaf_def split: if_splits)
next
  case (Cons p ps)
  have shallow: "n \<le> max_depth"
    using Cons.prems assms(3) value_at_redacted by (metis not_le sanitize_deep)
  show ?case
  proof (cases v)
    case (VList xs)
    with Cons.prems shallow obtain i where p: "p = Index i" "i < length xs"
      and at: "value_at (sanitize_payload (xs ! i) (Suc n)) ps = Some w"
      by (cases p) (auto split: if_splits)
    from Cons.IH [OF at] p VList show ?thesis by (simp add: harmless_step_def)
  next
    case (VDict d)
    with Cons.prems shallow obtain k x where p: "p = Key k" "map_of d k = Some x"
      and at: "value_at (if is_sensitive_key k then redacted else sanitize_payload x (Suc n)) ps = Some w"
      by (cases p) (auto simp: map_of_map_key split: option.splits)
    have k: "\<not> is_sensitive_key k"
      using at assms(3) value_at_redacted by (auto split: if_splits)
    with at have "value_at (sanitize_payload x (Suc n)) ps = Some w" by simp
    from Cons.IH [OF this] k p VDict show ?thesis by (simp add: harmless_step_def)
  qed (use Cons.prems shallow in \<open>auto\<close>)
qed

lemma sanitize_complete:
  assumes "value_at v ps = Some w" and "is_leaf w" and "list_all harmless_step ps" and "n + length ps \<le> max_depth"
  shows "value_at (sanitize_payload v n) ps = Some w"
  using assms(1,3,4)
proof (induction v ps arbitrary: n rule: value_at.induct)
  case (1 v)
  then show ?case using assms(2) by (simp add: sanitize_leaf)
next
  case (2 d k ps)
  then show ?case by (auto simp: map_of_map_key harmless_step_def split: option.splits)
qed (auto split: if_splits)

text \<open>
  C37: The audit sanitizer drops exactly what it must: a scalar other than the redaction marker is
  found at a path of the stored body if and only if it is at that path of the original body, no key on
  the way looks like a credential, and the path is no longer than the depth bound.  No value below a
  credential-named key survives at any depth, and nothing else is lost.
\<close>

theorem sanitize_keeps_exactly_harmless:
  "value_at (sanitize_payload v 0) ps = Some u \<and> is_leaf u \<and> u \<noteq> redacted \<longleftrightarrow>
   value_at v ps = Some u \<and> is_leaf u \<and> u \<noteq> redacted \<and> list_all harmless_step ps \<and> length ps \<le> max_depth"
  using sanitize_sound [of v 0 ps u] sanitize_complete [of v ps u 0] by auto

text \<open>
  Sanitizing twice is sanitizing once, at every depth, so a payload that passes through the audit
  writer again is stored unchanged.
\<close>

theorem sanitize_payload_idempotent:
  "sanitize_payload (sanitize_payload v n) n = sanitize_payload v n"
proof (induction v arbitrary: n)
  case (VDict d)
  have "sanitize_payload redacted m = redacted" for m by (simp add: redacted_def)
  with VDict show ?case by (auto simp: redacted_def split_def)
qed (auto simp: redacted_def)

lemma after_api_v1_first: "''api'' \<notin> set pre \<Longrightarrow> after_api_v1 (pre @ [''api'', ''v1''] @ parts) = Some parts"
proof (induction pre)
  case (Cons w pre)
  then show ?case by (cases pre) auto
qed simp

lemma strip_leading: "P c \<Longrightarrow> strip_by P (c # s) = strip_by P s"
  by (simp add: strip_by_def)

text \<open>
  Wherever a service is mounted, the secret routes are withheld: a path whose parts are a mount
  prefix (without an \<open>api\<close> part), \<open>api\<close>, \<open>v1\<close>, a sensitive group and anything more is sensitive.
\<close>

theorem mounted_sensitive_route:
  assumes "path = ''/'' @ py_join ''/'' (pre @ [''api'', ''v1''] @ grp # rest)"
    and "\<forall>w \<in> set (pre @ rest). w \<noteq> [] \<and> CHR ''/'' \<notin> set w"
    and "''api'' \<notin> set pre" and "grp \<in> set sensitive_route_groups"
  shows "is_sensitive_route path"
proof -
  let ?slash = "CHR ''/''" and ?parts = "pre @ [''api'', ''v1''] @ grp # rest"
  have grp: "grp \<noteq> []" "?slash \<notin> set grp" using assms(4) by (auto simp: sensitive_route_groups_def)
  have parts: "\<forall>w \<in> set ?parts. w \<noteq> [] \<and> ?slash \<notin> set w" using assms(2) grp by auto
  have sp: "py_split ?slash (py_join [?slash] ?parts) = ?parts" by (rule split_join) (use parts in auto)
  then have ne: "hd (py_join [?slash] ?parts) \<noteq> ?slash \<and> last (py_join [?slash] ?parts) \<noteq> ?slash"
    using split_all_nonempty [of ?slash "py_join [?slash] ?parts"] parts by metis
  have "strip_by (\<lambda>c. c = ?slash) path = strip_by (\<lambda>c. c = ?slash) (py_join [?slash] ?parts)"
    unfolding assms(1) by (simp add: strip_leading)
  also have "\<dots> = py_join [?slash] ?parts" by (rule strip_by_id) (use ne in auto)
  finally have st: "strip_by (\<lambda>c. c = ?slash) path = py_join [?slash] ?parts" .
  have sp2: "py_split ?slash (py_join [?slash] (grp # rest)) = grp # rest" by (rule split_join) (use parts in auto)
  then have "py_join [?slash] (grp # rest) \<noteq> []" using grp by (cases rest) auto
  then have "route_key path = Some (py_join [?slash] (grp # rest))"
    unfolding route_key_def st sp using after_api_v1_first [OF assms(3)] by (simp add: Let_def)
  then show ?thesis using sp2 assms(4) by (simp add: is_sensitive_route_def)
qed

lemma mounted_sensitive_route_witness:
  "is_sensitive_route ''/secret-config-manager/api/v1/secrets/CODE/save''"
proof (rule mounted_sensitive_route)
  show "''/secret-config-manager/api/v1/secrets/CODE/save''
    = ''/'' @ py_join ''/'' ([''secret-config-manager''] @ [''api'', ''v1''] @ ''secrets'' # [''CODE'', ''save''])"
    by simp
qed (simp_all add: sensitive_route_groups_def)

end
