(* ===== verification/Store.thy ===== *)
theory Store
  imports Values
begin

text \<open>
  The wrapper around the Redis client (\<open>app/integrations/redis_integration.py\<close>) and the interface its
  users rely on: a keyed store whose entries may expire.

  The client itself is a library and a server, so it is a parameter: a record of the commands the
  wrapper sends, each answering with a new server state and either a reply or a \<open>RedisError\<close>.  The
  locale \<open>redis_server\<close> states the documented behaviour of those commands on a server that
  answers.  Values are the JSON values their texts denote; time is in seconds.
\<close>

section \<open>An expiring keyed store\<close>

text \<open>\<open>life\<close> is how long an entry is guaranteed to stay.\<close>

locale expiring_store =
  fixes put :: "'k \<Rightarrow> 'v \<Rightarrow> nat \<Rightarrow> 's \<Rightarrow> 's"
    and look :: "'k \<Rightarrow> nat \<Rightarrow> 's \<Rightarrow> 'v option"
    and remove :: "'k \<Rightarrow> nat \<Rightarrow> 's \<Rightarrow> 's"
    and life :: nat
  assumes look_put: "t \<le> t' \<Longrightarrow> t' < t + life \<Longrightarrow> look k t' (put k v t s) = Some v"
    and look_put_other: "t \<le> t' \<Longrightarrow> j \<noteq> k \<Longrightarrow> look j t' (put k v t s) = look j t' s"
    and look_remove: "t \<le> t' \<Longrightarrow> look k t' (remove k t s) = None"
    and look_remove_other: "t \<le> t' \<Longrightarrow> j \<noteq> k \<Longrightarrow> look j t' (remove k t s) = look j t' s"

datatype ('k, 'v) store_op = Put 'k 'v nat | Remove 'k nat

fun op_time :: "('k, 'v) store_op \<Rightarrow> nat" where
  "op_time (Put k v t) = t"
| "op_time (Remove k t) = t"

fun op_key :: "('k, 'v) store_op \<Rightarrow> 'k" where
  "op_key (Put k v t) = k"
| "op_key (Remove k t) = k"

text \<open>The last operation on a key, and what it leaves there.\<close>

fun last_on :: "'k \<Rightarrow> ('k, 'v) store_op list \<Rightarrow> ('k, 'v) store_op option" where
  "last_on k [] = None"
| "last_on k (e # es) =
     (case last_on k es of Some x \<Rightarrow> Some x | None \<Rightarrow> if op_key e = k then Some e else None)"

fun leaves :: "('k, 'v) store_op \<Rightarrow> 'v option" where
  "leaves (Put k v t) = Some v"
| "leaves (Remove k t) = None"

text \<open>One operation on a store with the given write and removal.\<close>

fun apply_op ::
  "('k \<Rightarrow> 'v \<Rightarrow> nat \<Rightarrow> 's \<Rightarrow> 's) \<Rightarrow> ('k \<Rightarrow> nat \<Rightarrow> 's \<Rightarrow> 's) \<Rightarrow> ('k, 'v) store_op \<Rightarrow> 's \<Rightarrow> 's" where
  "apply_op put remove (Put k v t) s = put k v t s"
| "apply_op put remove (Remove k t) s = remove k t s"

context expiring_store
begin

lemma run_untouched:
  assumes "\<forall>e \<in> set es. op_time e \<le> now" and "last_on k es = None"
  shows "look k now (fold (apply_op put remove) es s) = look k now s"
  using assms
proof (induction es arbitrary: s)
  case (Cons e es)
  then have none: "last_on k es = None" "op_key e \<noteq> k" by (auto split: option.splits if_splits)
  have "look k now (apply_op put remove e s) = look k now s"
    using Cons.prems(1) none(2) by (cases e) (auto simp: look_put_other look_remove_other)
  with Cons none show ?case by simp
qed simp

text \<open>After any run, a key reads as its last operation left it, as long as that is still alive.\<close>

lemma last_write_wins:
  assumes "\<forall>e \<in> set es. op_time e \<le> now" and "last_on k es = Some e" and "now < op_time e + life"
  shows "look k now (fold (apply_op put remove) es s) = leaves e"
  using assms(1,2)
proof (induction es arbitrary: s)
  case (Cons d es)
  show ?case
  proof (cases "last_on k es")
    case None
    with Cons.prems have d: "d = e" "op_key e = k" by (auto split: if_splits)
    have "look k now (fold (apply_op put remove) (d # es) s) = look k now (apply_op put remove d s)"
      using run_untouched [of es now k "apply_op put remove d s"] Cons.prems(1) None by simp
    also have "\<dots> = leaves e"
      using d assms(3) Cons.prems(1) by (cases e) (auto simp: look_put look_remove)
    finally show ?thesis .
  next
    case (Some x)
    with Cons show ?thesis by simp
  qed
qed simp

end

section \<open>The Redis client\<close>

record 's redis_client =
  rc_get :: "string \<Rightarrow> nat \<Rightarrow> 's \<Rightarrow> 's \<times> pyval option option"
  rc_set :: "string \<Rightarrow> pyval \<Rightarrow> nat option \<Rightarrow> nat \<Rightarrow> 's \<Rightarrow> 's \<times> unit option"
  rc_delete :: "string \<Rightarrow> nat \<Rightarrow> 's \<Rightarrow> 's \<times> nat option"
  rc_exists :: "string \<Rightarrow> nat \<Rightarrow> 's \<Rightarrow> 's \<times> nat option"
  rc_set_nx :: "string \<Rightarrow> pyval \<Rightarrow> nat \<Rightarrow> nat \<Rightarrow> 's \<Rightarrow> 's \<times> bool option"

text \<open>
  The wrapper.  \<open>None\<close> stands for a client that is disabled or could not be initialised; an error of the
  client reads as no value, or as failure.
\<close>

definition redis_get :: "'s redis_client option \<Rightarrow> string \<Rightarrow> nat \<Rightarrow> 's \<Rightarrow> 's \<times> pyval option" where
  "redis_get cl k now s =
     (case cl of None \<Rightarrow> (s, None)
      | Some c \<Rightarrow> (case rc_get c k now s of (s', r) \<Rightarrow> (s', Option.bind r id)))"

definition redis_set :: "'s redis_client option \<Rightarrow> string \<Rightarrow> pyval \<Rightarrow> nat option \<Rightarrow> nat \<Rightarrow> 's \<Rightarrow> 's \<times> bool" where
  "redis_set cl k v ttl now s =
     (case cl of None \<Rightarrow> (s, False)
      | Some c \<Rightarrow>
          (case rc_set c k v (if ttl = Some 0 then None else ttl) now s of (s', r) \<Rightarrow> (s', r \<noteq> None)))"

definition redis_delete :: "'s redis_client option \<Rightarrow> string \<Rightarrow> nat \<Rightarrow> 's \<Rightarrow> 's \<times> bool" where
  "redis_delete cl k now s =
     (case cl of None \<Rightarrow> (s, False)
      | Some c \<Rightarrow> (case rc_delete c k now s of (s', r) \<Rightarrow> (s', case r of None \<Rightarrow> False | Some n \<Rightarrow> n > 0)))"

definition redis_exists :: "'s redis_client option \<Rightarrow> string \<Rightarrow> nat \<Rightarrow> 's \<Rightarrow> 's \<times> bool" where
  "redis_exists cl k now s =
     (case cl of None \<Rightarrow> (s, False)
      | Some c \<Rightarrow> (case rc_exists c k now s of (s', r) \<Rightarrow> (s', case r of None \<Rightarrow> False | Some n \<Rightarrow> n > 0)))"

definition redis_acquire_lock :: "'s redis_client option \<Rightarrow> string \<Rightarrow> nat \<Rightarrow> nat \<Rightarrow> 's \<Rightarrow> 's \<times> bool" where
  "redis_acquire_lock cl k ttl now s =
     (case cl of None \<Rightarrow> (s, False)
      | Some c \<Rightarrow> (case rc_set_nx c k (VStr ''locked'') ttl now s of (s', r) \<Rightarrow> (s', r = Some True)))"

definition redis_release_lock :: "'s redis_client option \<Rightarrow> string \<Rightarrow> nat \<Rightarrow> 's \<Rightarrow> 's \<times> bool" where
  "redis_release_lock cl k now s = redis_delete cl k now s"

text \<open>\<open>get_json\<close> and \<open>set_json\<close> on values that are JSON already.\<close>

definition redis_get_json :: "'s redis_client option \<Rightarrow> string \<Rightarrow> nat \<Rightarrow> 's \<Rightarrow> 's \<times> pyval option" where
  "redis_get_json cl k now s = redis_get cl k now s"

definition redis_set_json :: "'s redis_client option \<Rightarrow> string \<Rightarrow> pyval \<Rightarrow> nat option \<Rightarrow> nat \<Rightarrow> 's \<Rightarrow> 's \<times> bool" where
  "redis_set_json cl k v ttl now s = redis_set cl k v ttl now s"

text \<open>What a server that answers does, as documented for GET, SET, SETEX, DEL, EXISTS and SET NX EX.\<close>

definition stays :: "nat option \<Rightarrow> nat \<Rightarrow> nat \<Rightarrow> bool" where
  "stays ttl t t' = (case ttl of None \<Rightarrow> True | Some n \<Rightarrow> t' < t + n)"

locale redis_server =
  fixes c :: "'s redis_client"
  assumes get_reads: "\<exists>r. rc_get c k t s = (s, Some r)"
    and get_set: "t \<le> t' \<Longrightarrow> snd (rc_get c j t' (fst (rc_set c k v ttl t s))) =
      (if j = k then Some (if stays ttl t t' then Some v else None) else snd (rc_get c j t' s))"
    and set_replies: "snd (rc_set c k v ttl t s) = Some ()"
    and get_delete: "t \<le> t' \<Longrightarrow> snd (rc_get c j t' (fst (rc_delete c k t s))) =
      (if j = k then Some None else snd (rc_get c j t' s))"
    and exists_reads: "rc_exists c k t s = (s, Some (if snd (rc_get c k t s) = Some None then 0 else 1))"
    and set_nx: "rc_set_nx c k v n t s =
      (if snd (rc_get c k t s) = Some None then (fst (rc_set c k v (Some n) t s), Some True) else (s, Some False))"
begin

lemma get_cases:
  obtains r where "rc_get c k t s = (s, Some r)" and "redis_get (Some c) k t s = (s, r)"
  using get_reads [of k t s] by (auto simp: redis_get_def)

lemma wrapped_get_set:
  assumes "t \<le> t'" and "ttl \<noteq> Some 0"
  shows "snd (redis_get (Some c) j t' (fst (redis_set (Some c) k v ttl t s))) =
    (if j = k then if stays ttl t t' then Some v else None else snd (redis_get (Some c) j t' s))"
proof -
  have "fst (redis_set (Some c) k v ttl t s) = fst (rc_set c k v ttl t s)"
    using assms(2) by (auto simp: redis_set_def split: prod.splits)
  then show ?thesis
    using get_set [OF assms(1), of j k v ttl s]
    by (auto simp: redis_get_def split: prod.splits)
qed

lemma wrapped_get_delete:
  assumes "t \<le> t'"
  shows "snd (redis_get (Some c) j t' (fst (redis_delete (Some c) k t s))) =
    (if j = k then None else snd (redis_get (Some c) j t' s))"
proof -
  have "fst (redis_delete (Some c) k t s) = fst (rc_delete c k t s)"
    by (auto simp: redis_delete_def split: prod.splits)
  then show ?thesis
    using get_delete [OF assms, of j k s] by (auto simp: redis_get_def split: prod.splits)
qed

lemma wrapped_exists: "redis_exists (Some c) k t s = (s, snd (redis_get (Some c) k t s) \<noteq> None)"
proof -
  obtain r where "rc_get c k t s = (s, Some r)" "redis_get (Some c) k t s = (s, r)" by (rule get_cases)
  then show ?thesis by (auto simp: redis_exists_def exists_reads)
qed

lemma wrapped_lock:
  "redis_acquire_lock (Some c) k n t s =
     (if snd (redis_get (Some c) k t s) = None
      then (fst (rc_set c k (VStr ''locked'') (Some n) t s), True) else (s, False))"
proof -
  obtain r where "rc_get c k t s = (s, Some r)" "redis_get (Some c) k t s = (s, r)" by (rule get_cases)
  then show ?thesis by (auto simp: redis_acquire_lock_def set_nx)
qed

end

text \<open>Under those laws the wrapper is an expiring store, for any fixed time to live.\<close>

definition redis_put :: "'s redis_client \<Rightarrow> nat \<Rightarrow> string \<Rightarrow> pyval \<Rightarrow> nat \<Rightarrow> 's \<Rightarrow> 's" where
  "redis_put c ttl k v t s = fst (redis_set_json (Some c) k v (Some ttl) t s)"

definition redis_look :: "'s redis_client \<Rightarrow> string \<Rightarrow> nat \<Rightarrow> 's \<Rightarrow> pyval option" where
  "redis_look c k t s = snd (redis_get_json (Some c) k t s)"

definition redis_remove :: "'s redis_client \<Rightarrow> string \<Rightarrow> nat \<Rightarrow> 's \<Rightarrow> 's" where
  "redis_remove c k t s = fst (redis_delete (Some c) k t s)"

lemmas redis_store_defs = redis_put_def redis_look_def redis_remove_def redis_get_json_def redis_set_json_def

locale redis_cache = redis_server c for c :: "'s redis_client" +
  fixes ttl :: nat
  assumes ttl_positive: "0 < ttl"

sublocale redis_cache \<subseteq> cached: expiring_store "redis_put c ttl" "redis_look c" "redis_remove c" ttl
proof
  fix t t' :: nat and k j :: string and v s
  assume le: "t \<le> t'"
  have ttl: "Some ttl \<noteq> Some 0" using ttl_positive by simp
  show "t' < t + ttl \<Longrightarrow> redis_look c k t' (redis_put c ttl k v t s) = Some v"
    using wrapped_get_set [OF le ttl, of k k v s] by (simp add: redis_store_defs stays_def)
  show "j \<noteq> k \<Longrightarrow> redis_look c j t' (redis_put c ttl k v t s) = redis_look c j t' s"
    using wrapped_get_set [OF le ttl, of j k v s] by (simp add: redis_store_defs)
  show "redis_look c k t' (redis_remove c k t s) = None"
    using wrapped_get_delete [OF le, of k k s] by (simp add: redis_store_defs)
  show "j \<noteq> k \<Longrightarrow> redis_look c j t' (redis_remove c k t s) = redis_look c j t' s"
    using wrapped_get_delete [OF le, of j k s] by (simp add: redis_store_defs)
qed

section \<open>A server with the documented behaviour\<close>

text \<open>Entries with an optional time at which they vanish.\<close>

type_synonym ref_server = "(string, pyval \<times> nat option) dict"

definition ref_read :: "string \<Rightarrow> nat \<Rightarrow> ref_server \<Rightarrow> pyval option" where
  "ref_read k t s =
     (case map_of s k of None \<Rightarrow> None
      | Some (v, e) \<Rightarrow> if (case e of None \<Rightarrow> True | Some d \<Rightarrow> t < d) then Some v else None)"

definition ref_write :: "string \<Rightarrow> pyval \<Rightarrow> nat option \<Rightarrow> nat \<Rightarrow> ref_server \<Rightarrow> ref_server" where
  "ref_write k v ttl t s = AList.update k (v, map_option (\<lambda>n. t + n) ttl) s"

definition ref_client :: "ref_server redis_client" where
  "ref_client =
     \<lparr>rc_get = (\<lambda>k t s. (s, Some (ref_read k t s))),
      rc_set = (\<lambda>k v ttl t s. (ref_write k v ttl t s, Some ())),
      rc_delete = (\<lambda>k t s. (AList.delete k s, Some (if ref_read k t s = None then 0 else 1))),
      rc_exists = (\<lambda>k t s. (s, Some (if ref_read k t s = None then 0 else 1))),
      rc_set_nx = (\<lambda>k v n t s.
        if ref_read k t s = None then (ref_write k v (Some n) t s, Some True) else (s, Some False))\<rparr>"

lemma ref_read_write:
  "ref_read j t' (ref_write k v ttl t s) =
     (if j = k then if stays ttl t t' then Some v else None else ref_read j t' s)"
  by (simp add: ref_read_def ref_write_def update_conv' stays_def split: option.splits)

lemma ref_read_delete: "ref_read j t (AList.delete k s) = (if j = k then None else ref_read j t s)"
  by (simp add: ref_read_def delete_conv')

interpretation ref: redis_server ref_client
  by unfold_locales (simp_all add: ref_client_def ref_read_write ref_read_delete)

end
