(* ===== verification/SessionCache.thy ===== *)
theory SessionCache
  imports Store
begin

text \<open>
  Draft entries of tool sessions kept in Redis (\<open>app/mcp_servers/devlift_mcp/session_cache.py\<close>): a list
  of entries per user and resource type, each found by its \<open>draft_id\<close>.
\<close>

definition prefix_draft :: string where "prefix_draft = ''mcp:draft:''"
definition prefix_lock :: string where "prefix_lock = ''mcp:lock:''"
definition draft_ttl :: nat where "draft_ttl = 7 * 24 * 3600"
definition lock_ttl :: nat where "lock_ttl = 30"

definition draft_key :: "string \<Rightarrow> string \<Rightarrow> string" where
  "draft_key user case_ref = prefix_draft @ user @ '':'' @ case_ref"

definition lock_key :: "string \<Rightarrow> string \<Rightarrow> string" where
  "lock_key user case_ref = prefix_lock @ user @ '':'' @ case_ref"

text \<open>\<open>entry.get(k)\<close>; entries are dictionaries, as \<open>add_draft\<close> writes them.\<close>

definition entry_get :: "pyval \<Rightarrow> string \<Rightarrow> pyval" where
  "entry_get e k = (case e of VDict d \<Rightarrow> dict_get d k | _ \<Rightarrow> VNone)"

definition list_or_empty :: "pyval option \<Rightarrow> pyval list" where
  "list_or_empty blob = (case blob of Some (VList xs) \<Rightarrow> xs | _ \<Rightarrow> [])"

definition get_all_drafts ::
  "'s redis_client option \<Rightarrow> string \<Rightarrow> string \<Rightarrow> nat \<Rightarrow> 's \<Rightarrow> 's \<times> pyval list" where
  "get_all_drafts cl user case_ref now s =
     (case redis_get_json cl (draft_key user case_ref) now s of (s', blob) \<Rightarrow> (s', list_or_empty blob))"

definition get_draft_by_id ::
  "'s redis_client option \<Rightarrow> string \<Rightarrow> string \<Rightarrow> string \<Rightarrow> nat \<Rightarrow> 's \<Rightarrow> 's \<times> pyval option" where
  "get_draft_by_id cl user case_ref i now s =
     (case get_all_drafts cl user case_ref now s of
        (s', drafts) \<Rightarrow> (s', find (\<lambda>e. entry_get e ''draft_id'' = VStr i) drafts))"

definition add_draft ::
  "'s redis_client option \<Rightarrow> string \<Rightarrow> string \<Rightarrow> pyval \<Rightarrow> nat \<Rightarrow> 's \<Rightarrow> 's \<times> bool" where
  "add_draft cl user case_ref entry now s =
     (case redis_get_json cl (draft_key user case_ref) now s of
        (s', blob) \<Rightarrow>
          redis_set_json cl (draft_key user case_ref) (VList (list_or_empty blob @ [entry])) (Some draft_ttl) now s')"

fun replace_draft :: "string \<Rightarrow> pyval \<Rightarrow> pyval list \<Rightarrow> pyval list \<times> bool" where
  "replace_draft i new [] = ([], False)"
| "replace_draft i new (d # ds) =
     (case replace_draft i new ds of
        (ds', found) \<Rightarrow> if entry_get d ''draft_id'' = VStr i then (new # ds', True) else (d # ds', found))"

definition update_draft_by_id ::
  "'s redis_client option \<Rightarrow> string \<Rightarrow> string \<Rightarrow> string \<Rightarrow> pyval \<Rightarrow> nat \<Rightarrow> 's \<Rightarrow> 's \<times> bool" where
  "update_draft_by_id cl user case_ref i new now s =
     (case redis_get_json cl (draft_key user case_ref) now s of
        (s', blob) \<Rightarrow>
          (case replace_draft i new (list_or_empty blob) of
             (ds, found) \<Rightarrow>
               if \<not> found then (s', False)
               else redis_set_json cl (draft_key user case_ref) (VList ds) (Some draft_ttl) now s'))"

definition clear_draft :: "'s redis_client option \<Rightarrow> string \<Rightarrow> string \<Rightarrow> nat \<Rightarrow> 's \<Rightarrow> 's \<times> bool" where
  "clear_draft cl user case_ref now s = redis_delete cl (draft_key user case_ref) now s"

text \<open>
  The scan over a user's keys; \<open>keys\<close> are what SCAN yields for the user's pattern.  Entries are tagged
  with the resource type of their key.
\<close>

definition tag_entries :: "string \<Rightarrow> pyval list \<Rightarrow> pyval list" where
  "tag_entries case_ref es =
     List.map_filter (\<lambda>e. case e of
        VDict d \<Rightarrow> if d = [] then None else Some (VDict (AList.update ''_case_ref_code'' (VStr case_ref) d))
      | _ \<Rightarrow> None) es"

fun scan_user_drafts ::
  "'s redis_client option \<Rightarrow> string list \<Rightarrow> string \<Rightarrow> nat \<Rightarrow> 's \<Rightarrow> 's \<times> pyval list" where
  "scan_user_drafts None keys user now s = (s, [])"
| "scan_user_drafts cl [] user now s = (s, [])"
| "scan_user_drafts cl (k # ks) user now s =
     (case redis_get_json cl k now s of
        (s1, blob) \<Rightarrow>
          (case scan_user_drafts cl ks user now s1 of
             (s2, rest) \<Rightarrow>
               (s2, tag_entries (drop (length (prefix_draft @ user @ '':'')) k) (list_or_empty blob) @ rest)))"

definition is_env_source :: "string \<Rightarrow> pyval \<Rightarrow> bool" where
  "is_env_source project d =
     (entry_get d ''project_id'' = VStr project \<and> entry_get d ''status'' = VStr ''committed'' \<and>
      truthy (entry_get d ''canonical_env_keys'') \<and> \<not> truthy (entry_get d ''env_synced''))"

definition scan_available_env_sources ::
  "'s redis_client option \<Rightarrow> string list \<Rightarrow> string \<Rightarrow> string \<Rightarrow> nat \<Rightarrow> 's \<Rightarrow> 's \<times> pyval list" where
  "scan_available_env_sources cl keys user project now s =
     (case scan_user_drafts cl keys user now s of (s', ds) \<Rightarrow> (s', filter (is_env_source project) ds))"

definition acquire_call_lock :: "'s redis_client option \<Rightarrow> string \<Rightarrow> string \<Rightarrow> nat \<Rightarrow> 's \<Rightarrow> 's \<times> bool" where
  "acquire_call_lock cl user case_ref now s = redis_acquire_lock cl (lock_key user case_ref) lock_ttl now s"

section \<open>Properties\<close>

lemma draft_key_inj:
  assumes "draft_key u a = draft_key v b" and "CHR '':'' \<notin> set u" and "CHR '':'' \<notin> set v"
  shows "u = v \<and> a = b"
proof -
  have e: "u @ CHR '':'' # a = v @ CHR '':'' # b" using assms(1) by (simp add: draft_key_def)
  have "takeWhile (\<lambda>c. c \<noteq> CHR '':'') (u @ CHR '':'' # a) = u"
    and "takeWhile (\<lambda>c. c \<noteq> CHR '':'') (v @ CHR '':'' # b) = v"
    using assms(2,3) by (subst takeWhile_append2; auto)+
  with e show ?thesis by auto
qed

lemma replace_draft_map:
  "replace_draft i new ds =
     (map (\<lambda>d. if entry_get d ''draft_id'' = VStr i then new else d) ds,
      list_ex (\<lambda>d. entry_get d ''draft_id'' = VStr i) ds)"
  by (induction ds) auto

interpretation ref_drafts: redis_cache ref_client draft_ttl
  by unfold_locales (simp add: draft_ttl_def)

text \<open>What a reader sees at a key, as the drafts of a user and type.\<close>

definition drafts_at :: "'s redis_client \<Rightarrow> string \<Rightarrow> string \<Rightarrow> nat \<Rightarrow> 's \<Rightarrow> pyval list" where
  "drafts_at c user case_ref t s = snd (get_all_drafts (Some c) user case_ref t s)"

lemma drafts_at_look: "drafts_at c user case_ref t s = list_or_empty (redis_look c (draft_key user case_ref) t s)"
  by (simp add: drafts_at_def get_all_drafts_def redis_look_def split: prod.splits)

context redis_server
begin

lemma get_json_keeps: "redis_get_json (Some c) k t s = (s, redis_look c k t s)"
  by (rule get_cases [of k t s]) (simp add: redis_look_def redis_get_json_def)

lemma add_draft_put:
  "fst (add_draft (Some c) user case_ref e t s) =
     redis_put c draft_ttl (draft_key user case_ref) (VList (drafts_at c user case_ref t s @ [e])) t s"
  by (simp add: add_draft_def get_json_keeps drafts_at_look redis_put_def)

lemma update_draft_put:
  "fst (update_draft_by_id (Some c) user case_ref i new t s) =
     (if list_ex (\<lambda>d. entry_get d ''draft_id'' = VStr i) (drafts_at c user case_ref t s)
      then redis_put c draft_ttl (draft_key user case_ref)
             (VList (map (\<lambda>d. if entry_get d ''draft_id'' = VStr i then new else d) (drafts_at c user case_ref t s))) t s
      else s)"
  by (simp add: update_draft_by_id_def get_json_keeps drafts_at_look redis_put_def replace_draft_map)

lemma drafts_after_put:
  assumes "t \<le> t'" and "t' < t + draft_ttl"
  shows "drafts_at c u a t' (redis_put c draft_ttl k (VList xs) t s) =
    (if draft_key u a = k then xs else drafts_at c u a t' s)"
  using wrapped_get_set [OF assms(1), of "Some draft_ttl" "draft_key u a" k "VList xs" s] assms(2)
  by (simp add: drafts_at_look list_or_empty_def redis_store_defs stays_def draft_ttl_def)

end

text \<open>
  A draft that is added can be found again: against any server with the documented behaviour, within
  its seven days the new entry is returned for its id (when no older draft has that id), every older
  draft of the user and type is still there in order, and drafts under other keys are untouched.
\<close>

theorem added_draft_is_found:
  assumes "redis_server c" and "t \<le> t'" and "t' < t + draft_ttl"
    and "entry_get e ''draft_id'' = VStr i"
    and "\<forall>d \<in> set (drafts_at c user case_ref t s). entry_get d ''draft_id'' \<noteq> VStr i"
  shows "snd (get_draft_by_id (Some c) user case_ref i t' (fst (add_draft (Some c) user case_ref e t s))) = Some e \<and>
    drafts_at c user case_ref t' (fst (add_draft (Some c) user case_ref e t s))
      = drafts_at c user case_ref t s @ [e] \<and>
    (\<forall>u a. draft_key u a \<noteq> draft_key user case_ref \<longrightarrow>
       drafts_at c u a t' (fst (add_draft (Some c) user case_ref e t s)) = drafts_at c u a t' s)"
proof -
  let ?s' = "fst (add_draft (Some c) user case_ref e t s)"
  have at: "drafts_at c u a t' ?s' =
      (if draft_key u a = draft_key user case_ref then drafts_at c user case_ref t s @ [e] else drafts_at c u a t' s)" for u a
    using redis_server.drafts_after_put [OF assms(1-3)] redis_server.add_draft_put [OF assms(1)] by metis
  have "find (\<lambda>d. entry_get d ''draft_id'' = VStr i) (ds @ [e]) = Some e"
    if "\<forall>d \<in> set ds. entry_get d ''draft_id'' \<noteq> VStr i" for ds
    using that assms(4) by (induction ds) auto
  then have "find (\<lambda>d. entry_get d ''draft_id'' = VStr i) (drafts_at c user case_ref t' ?s') = Some e"
    using assms(5) at by simp
  then have "snd (get_draft_by_id (Some c) user case_ref i t' ?s') = Some e"
    by (auto simp: get_draft_by_id_def drafts_at_def split: prod.splits)
  with at show ?thesis by simp
qed

lemma added_draft_is_found_witness:
  "snd (get_draft_by_id (Some ref_client) ''u1'' ''s3'' ''a3f9c2b1'' 100
     (fst (add_draft (Some ref_client) ''u1'' ''s3'' (VDict [(''draft_id'', VStr ''a3f9c2b1'')]) 7 [])))
   = Some (VDict [(''draft_id'', VStr ''a3f9c2b1'')])"
proof -
  have e: "entry_get (VDict [(''draft_id'', VStr ''a3f9c2b1'')]) ''draft_id'' = VStr ''a3f9c2b1''" by code_simp
  have d: "drafts_at ref_client ''u1'' ''s3'' 7 [] = []" by code_simp
  show ?thesis
    using added_draft_is_found [OF ref.redis_server_axioms, of 7 100, OF _ _ e] d by (simp add: draft_ttl_def)
qed

text \<open>A client whose reads fail while its writes work.\<close>

definition unreadable_client :: "ref_server redis_client" where
  "unreadable_client = ref_client\<lparr>rc_get := (\<lambda>k t s. (s, None))\<rparr>"

text \<open>
  A read that fails erases every draft: \<open>add_draft\<close> cannot tell a failed read from an absent list, so
  after one transient error the list it writes back holds the new entry alone, and reports success.
\<close>

theorem failed_read_erases_drafts:
  "add_draft (Some unreadable_client) user case_ref e t s =
     (redis_put ref_client draft_ttl (draft_key user case_ref) (VList [e]) t s, True) \<and>
   drafts_at ref_client user case_ref t (fst (add_draft (Some unreadable_client) user case_ref e t s)) = [e]"
proof -
  have a: "add_draft (Some unreadable_client) user case_ref e t s =
     (redis_put ref_client draft_ttl (draft_key user case_ref) (VList [e]) t s, True)"
    by (simp add: add_draft_def redis_store_defs redis_get_def redis_set_def unreadable_client_def ref_client_def
        list_or_empty_def draft_ttl_def)
  have "drafts_at ref_client user case_ref t (redis_put ref_client draft_ttl (draft_key user case_ref) (VList [e]) t s) = [e]"
    using ref.drafts_after_put [of t t] by (simp add: draft_ttl_def)
  with a show ?thesis by simp
qed

end
