(* ===== verification/PlacementCache.thy ===== *)
theory PlacementCache
  imports Store
begin

text \<open>
  The conversation cache of the chat flows (\<open>app/services/slack/placement_cache.py\<close>), with its two
  backends: Redis, or dictionaries of the process.  The same functions serve both; the switch is
  \<open>settings.redis_enabled\<close>.
\<close>

section \<open>State\<close>

definition one_day_ttl :: nat where "one_day_ttl = 86400"
definition conversation_lock_ttl :: nat where "conversation_lock_ttl = 600"

text \<open>The four pending messages and the preview state: same code, a dictionary and a prefix each.\<close>

datatype slot = DeploymentMsg | PlacementMsg | ReminderMsg | WaitMsg | Preview

fun slot_prefix :: "slot \<Rightarrow> string" where
  "slot_prefix DeploymentMsg = ''deployment:msg:''"
| "slot_prefix PlacementMsg = ''placement:msg:''"
| "slot_prefix ReminderMsg = ''reminder:msg:''"
| "slot_prefix WaitMsg = ''wait:msg:''"
| "slot_prefix Preview = ''preview:state:''"

definition placement_prefix :: string where "placement_prefix = ''placement:cache:''"
definition lock_prefix :: string where "lock_prefix = ''lock:''"

record placement_state =
  collected :: config
  remaining :: config
  ps_user :: string
  ps_tenant :: string
  created_at :: nat

record 's cache =
  messages :: "slot \<Rightarrow> (string, pyval) dict"
  placements :: "(string, placement_state) dict"
  conversation_locks :: "(string, string \<times> nat) dict"
  server :: 's

record 's cache_config =
  redis_enabled :: bool
  client :: "'s redis_client option"

section \<open>Pending messages and preview state\<close>

definition message_data :: "slot \<Rightarrow> string \<Rightarrow> string \<Rightarrow> nat \<Rightarrow> pyval" where
  "message_data sl channel ts now =
     VDict ([(''channel_id'', VStr channel), (''message_ts'', VStr ts)] @
            (if sl \<in> {ReminderMsg, WaitMsg} then [] else [(''created_at'', VInt (int now))]))"

definition preview_data :: "int \<Rightarrow> string \<Rightarrow> string option \<Rightarrow> nat \<Rightarrow> pyval" where
  "preview_data queue_id queue_code infra now =
     VDict [(''queue_item_id'', VInt queue_id), (''queue_code'', VStr queue_code),
            (''infrastructure_code'', case infra of None \<Rightarrow> VNone | Some x \<Rightarrow> VStr x),
            (''previewed'', VBool True), (''created_at'', VInt (int now))]"

definition store_slot :: "'s cache_config \<Rightarrow> slot \<Rightarrow> string \<Rightarrow> pyval \<Rightarrow> nat \<Rightarrow> 's cache \<Rightarrow> 's cache" where
  "store_slot cf sl conv v now st =
     (if redis_enabled cf
      then st\<lparr>server := fst (redis_set_json (client cf) (slot_prefix sl @ conv) v (Some one_day_ttl) now (server st))\<rparr>
      else st\<lparr>messages := (messages st)(sl := AList.update conv v (messages st sl))\<rparr>)"

definition get_slot :: "'s cache_config \<Rightarrow> slot \<Rightarrow> string \<Rightarrow> nat \<Rightarrow> 's cache \<Rightarrow> 's cache \<times> pyval option" where
  "get_slot cf sl conv now st =
     (if redis_enabled cf
      then (case redis_get_json (client cf) (slot_prefix sl @ conv) now (server st) of (s', v) \<Rightarrow> (st\<lparr>server := s'\<rparr>, v))
      else (st, map_of (messages st sl) conv))"

definition clear_slot :: "'s cache_config \<Rightarrow> slot \<Rightarrow> string \<Rightarrow> nat \<Rightarrow> 's cache \<Rightarrow> 's cache" where
  "clear_slot cf sl conv now st =
     (if redis_enabled cf
      then st\<lparr>server := fst (redis_delete (client cf) (slot_prefix sl @ conv) now (server st))\<rparr>
      else st\<lparr>messages := (messages st)(sl := AList.delete conv (messages st sl))\<rparr>)"

text \<open>The functions of the source, by slot.\<close>

definition store_pending_deployment_message ::
  "'s cache_config \<Rightarrow> string \<Rightarrow> string \<Rightarrow> string \<Rightarrow> nat \<Rightarrow> 's cache \<Rightarrow> 's cache" where
  "store_pending_deployment_message cf conv channel ts now st =
     store_slot cf DeploymentMsg conv (message_data DeploymentMsg channel ts now) now st"

definition get_pending_deployment_message ::
  "'s cache_config \<Rightarrow> string \<Rightarrow> nat \<Rightarrow> 's cache \<Rightarrow> 's cache \<times> pyval option" where
  "get_pending_deployment_message cf conv now st = get_slot cf DeploymentMsg conv now st"

definition clear_pending_deployment_message :: "'s cache_config \<Rightarrow> string \<Rightarrow> nat \<Rightarrow> 's cache \<Rightarrow> 's cache" where
  "clear_pending_deployment_message cf conv now st = clear_slot cf DeploymentMsg conv now st"

definition store_pending_placement_message ::
  "'s cache_config \<Rightarrow> string \<Rightarrow> string \<Rightarrow> string \<Rightarrow> nat \<Rightarrow> 's cache \<Rightarrow> 's cache" where
  "store_pending_placement_message cf conv channel ts now st =
     store_slot cf PlacementMsg conv (message_data PlacementMsg channel ts now) now st"

definition get_pending_placement_message ::
  "'s cache_config \<Rightarrow> string \<Rightarrow> nat \<Rightarrow> 's cache \<Rightarrow> 's cache \<times> pyval option" where
  "get_pending_placement_message cf conv now st = get_slot cf PlacementMsg conv now st"

definition clear_pending_placement_message :: "'s cache_config \<Rightarrow> string \<Rightarrow> nat \<Rightarrow> 's cache \<Rightarrow> 's cache" where
  "clear_pending_placement_message cf conv now st = clear_slot cf PlacementMsg conv now st"

definition store_pending_reminder_message ::
  "'s cache_config \<Rightarrow> string \<Rightarrow> string \<Rightarrow> string \<Rightarrow> nat \<Rightarrow> 's cache \<Rightarrow> 's cache" where
  "store_pending_reminder_message cf conv channel ts now st =
     store_slot cf ReminderMsg conv (message_data ReminderMsg channel ts now) now st"

definition get_pending_reminder_message ::
  "'s cache_config \<Rightarrow> string \<Rightarrow> nat \<Rightarrow> 's cache \<Rightarrow> 's cache \<times> pyval option" where
  "get_pending_reminder_message cf conv now st = get_slot cf ReminderMsg conv now st"

definition clear_pending_reminder_message :: "'s cache_config \<Rightarrow> string \<Rightarrow> nat \<Rightarrow> 's cache \<Rightarrow> 's cache" where
  "clear_pending_reminder_message cf conv now st = clear_slot cf ReminderMsg conv now st"

definition store_pending_wait_message ::
  "'s cache_config \<Rightarrow> string \<Rightarrow> string \<Rightarrow> string \<Rightarrow> nat \<Rightarrow> 's cache \<Rightarrow> 's cache" where
  "store_pending_wait_message cf conv channel ts now st =
     store_slot cf WaitMsg conv (message_data WaitMsg channel ts now) now st"

definition get_pending_wait_message ::
  "'s cache_config \<Rightarrow> string \<Rightarrow> nat \<Rightarrow> 's cache \<Rightarrow> 's cache \<times> pyval option" where
  "get_pending_wait_message cf conv now st = get_slot cf WaitMsg conv now st"

definition clear_pending_wait_message :: "'s cache_config \<Rightarrow> string \<Rightarrow> nat \<Rightarrow> 's cache \<Rightarrow> 's cache" where
  "clear_pending_wait_message cf conv now st = clear_slot cf WaitMsg conv now st"

definition store_preview_state ::
  "'s cache_config \<Rightarrow> string \<Rightarrow> int \<Rightarrow> string \<Rightarrow> string option \<Rightarrow> nat \<Rightarrow> 's cache \<Rightarrow> 's cache" where
  "store_preview_state cf conv queue_id queue_code infra now st =
     store_slot cf Preview conv (preview_data queue_id queue_code infra now) now st"

definition get_preview_state ::
  "'s cache_config \<Rightarrow> string \<Rightarrow> nat \<Rightarrow> 's cache \<Rightarrow> 's cache \<times> pyval option" where
  "get_preview_state cf conv now st = get_slot cf Preview conv now st"

definition clear_preview_state :: "'s cache_config \<Rightarrow> string \<Rightarrow> nat \<Rightarrow> 's cache \<Rightarrow> 's cache" where
  "clear_preview_state cf conv now st = clear_slot cf Preview conv now st"

section \<open>Placement state\<close>

text \<open>The JSON form of a placement state; the time travels as a number here.\<close>

definition encode_state :: "placement_state \<Rightarrow> pyval" where
  "encode_state ps =
     VDict [(''collected'', VDict (collected ps)), (''remaining'', VDict (remaining ps)),
            (''user_mst_code'', VStr (ps_user ps)), (''tenant_code'', VStr (ps_tenant ps)),
            (''created_at'', VInt (int (created_at ps)))]"

definition as_dict :: "pyval \<Rightarrow> config" where
  "as_dict v = (case v of VDict d \<Rightarrow> d | _ \<Rightarrow> [])"

definition decode_state :: "pyval \<Rightarrow> placement_state option" where
  "decode_state v =
     (case v of
        VDict d \<Rightarrow>
          if d = [] then None
          else Some \<lparr>collected = as_dict (dict_get d ''collected''), remaining = as_dict (dict_get d ''remaining''),
                     ps_user = py_str (dict_get d ''user_mst_code''), ps_tenant = py_str (dict_get d ''tenant_code''),
                     created_at = (case dict_get d ''created_at'' of VInt i \<Rightarrow> nat i | _ \<Rightarrow> 0)\<rparr>
      | _ \<Rightarrow> None)"

definition write_state :: "'s cache_config \<Rightarrow> string \<Rightarrow> placement_state \<Rightarrow> nat \<Rightarrow> 's cache \<Rightarrow> 's cache" where
  "write_state cf conv ps now st =
     (if redis_enabled cf
      then st\<lparr>server := fst (redis_set_json (client cf) (placement_prefix @ conv) (encode_state ps)
                              (Some one_day_ttl) now (server st))\<rparr>
      else st\<lparr>placements := AList.update conv ps (placements st)\<rparr>)"

definition store_placement_state ::
  "'s cache_config \<Rightarrow> string \<Rightarrow> config \<Rightarrow> string \<Rightarrow> string \<Rightarrow> nat \<Rightarrow> 's cache \<Rightarrow> 's cache" where
  "store_placement_state cf conv params user tenant now st =
     write_state cf conv \<lparr>collected = [], remaining = params, ps_user = user, ps_tenant = tenant, created_at = now\<rparr> now st"

definition get_placement_state ::
  "'s cache_config \<Rightarrow> string \<Rightarrow> nat \<Rightarrow> 's cache \<Rightarrow> 's cache \<times> placement_state option" where
  "get_placement_state cf conv now st =
     (if redis_enabled cf
      then (case redis_get_json (client cf) (placement_prefix @ conv) now (server st) of
              (s', v) \<Rightarrow> (st\<lparr>server := s'\<rparr>, Option.bind v decode_state))
      else (case map_of (placements st) conv of
              None \<Rightarrow> (st, None)
            | Some ps \<Rightarrow>
                if now - created_at ps > one_day_ttl
                then (st\<lparr>placements := AList.delete conv (placements st)\<rparr>, None)
                else (st, Some ps)))"

definition select_param :: "string \<Rightarrow> string \<Rightarrow> string option \<Rightarrow> placement_state \<Rightarrow> placement_state" where
  "select_param name v label ps =
     (let c0 = AList.update name (VStr v) (collected ps);
          named = (case label of None \<Rightarrow> None | Some l \<Rightarrow> if l = [] then None else Some l);
          c1 = (case named of
              Some l \<Rightarrow> if name = ''service_mst_code'' then AList.update ''_service_mst_name'' (VStr l) c0
                        else if name = ''applications_mst_code'' then AList.update ''_applications_mst_name'' (VStr l) c0
                        else c0
            | None \<Rightarrow> c0)
      in ps\<lparr>collected := c1, remaining := AList.delete name (remaining ps)\<rparr>)"

definition update_placement_selection ::
  "'s cache_config \<Rightarrow> string \<Rightarrow> string \<Rightarrow> string \<Rightarrow> string option \<Rightarrow> nat \<Rightarrow> 's cache \<Rightarrow>
   's cache \<times> placement_state option" where
  "update_placement_selection cf conv name v label now st =
     (case get_placement_state cf conv now st of
        (st', None) \<Rightarrow> (st', None)
      | (st', Some ps) \<Rightarrow>
          (let ps' = select_param name v label ps in (write_state cf conv ps' now st', Some ps')))"

definition is_placement_complete :: "'s cache_config \<Rightarrow> string \<Rightarrow> nat \<Rightarrow> 's cache \<Rightarrow> bool" where
  "is_placement_complete cf conv now st =
     (case snd (get_placement_state cf conv now st) of None \<Rightarrow> False | Some ps \<Rightarrow> remaining ps = [])"

definition get_collected_params :: "'s cache_config \<Rightarrow> string \<Rightarrow> nat \<Rightarrow> 's cache \<Rightarrow> config" where
  "get_collected_params cf conv now st =
     (case snd (get_placement_state cf conv now st) of None \<Rightarrow> [] | Some ps \<Rightarrow> collected ps)"

text \<open>\<open>x[1].get("order", 999)\<close>; the sort is stable, so the first of the lowest comes first.\<close>

definition param_order :: "string \<times> pyval \<Rightarrow> int" where
  "param_order kv =
     (case map_of (as_dict (snd kv)) ''order'' of Some (VInt n) \<Rightarrow> n | _ \<Rightarrow> 999)"

definition get_next_param :: "'s cache_config \<Rightarrow> string \<Rightarrow> nat \<Rightarrow> 's cache \<Rightarrow> (string \<times> pyval) option" where
  "get_next_param cf conv now st =
     (case snd (get_placement_state cf conv now st) of
        None \<Rightarrow> None
      | Some ps \<Rightarrow> (case sort_key param_order (remaining ps) of [] \<Rightarrow> None | p # _ \<Rightarrow> Some p))"

definition clear_placement_state :: "'s cache_config \<Rightarrow> string \<Rightarrow> nat \<Rightarrow> 's cache \<Rightarrow> 's cache" where
  "clear_placement_state cf conv now st =
     (if redis_enabled cf
      then st\<lparr>server := fst (redis_delete (client cf) (placement_prefix @ conv) now (server st))\<rparr>
      else st\<lparr>placements := AList.delete conv (placements st)\<rparr>)"

definition cleanup_expired :: "'s cache_config \<Rightarrow> nat \<Rightarrow> 's cache \<Rightarrow> 's cache \<times> nat" where
  "cleanup_expired cf now st =
     (if redis_enabled cf then (st, 0)
      else (let expired = map fst (filter (\<lambda>(conv, ps). now - created_at ps > one_day_ttl) (placements st))
            in (st\<lparr>placements := fold AList.delete expired (placements st)\<rparr>, length expired)))"

section \<open>Conversation locks\<close>

definition acquire_conversation_lock ::
  "'s cache_config \<Rightarrow> string \<Rightarrow> string \<Rightarrow> nat \<Rightarrow> 's cache \<Rightarrow> 's cache \<times> bool" where
  "acquire_conversation_lock cf conv operation now st =
     (if redis_enabled cf
      then (case redis_acquire_lock (client cf) (lock_prefix @ conv) conversation_lock_ttl now (server st) of
              (s', ok) \<Rightarrow> (st\<lparr>server := s'\<rparr>, ok))
      else if map_of (conversation_locks st) conv \<noteq> None then (st, False)
      else (st\<lparr>conversation_locks := AList.update conv (operation, now) (conversation_locks st)\<rparr>, True))"

definition release_conversation_lock :: "'s cache_config \<Rightarrow> string \<Rightarrow> nat \<Rightarrow> 's cache \<Rightarrow> 's cache" where
  "release_conversation_lock cf conv now st =
     (if redis_enabled cf
      then st\<lparr>server := fst (redis_delete (client cf) (lock_prefix @ conv) now (server st))\<rparr>
      else st\<lparr>conversation_locks := AList.delete conv (conversation_locks st)\<rparr>)"

definition is_conversation_locked :: "'s cache_config \<Rightarrow> string \<Rightarrow> nat \<Rightarrow> 's cache \<Rightarrow> 's cache \<times> bool" where
  "is_conversation_locked cf conv now st =
     (if redis_enabled cf
      then (case redis_exists (client cf) (lock_prefix @ conv) now (server st) of (s', b) \<Rightarrow> (st\<lparr>server := s'\<rparr>, b))
      else (st, map_of (conversation_locks st) conv \<noteq> None))"

definition get_conversation_lock_info ::
  "'s cache_config \<Rightarrow> string \<Rightarrow> nat \<Rightarrow> 's cache \<Rightarrow> 's cache \<times> (string \<times> nat) option" where
  "get_conversation_lock_info cf conv now st =
     (if redis_enabled cf
      then (case redis_exists (client cf) (lock_prefix @ conv) now (server st) of
              (s', b) \<Rightarrow> (st\<lparr>server := s'\<rparr>, if b then Some (''processing'', now) else None))
      else (st, map_of (conversation_locks st) conv))"

section \<open>Message slots are an expiring store\<close>

definition slot_put :: "'s cache_config \<Rightarrow> slot \<times> string \<Rightarrow> pyval \<Rightarrow> nat \<Rightarrow> 's cache \<Rightarrow> 's cache" where
  "slot_put cf k v t st = store_slot cf (fst k) (snd k) v t st"

definition slot_look :: "'s cache_config \<Rightarrow> slot \<times> string \<Rightarrow> nat \<Rightarrow> 's cache \<Rightarrow> pyval option" where
  "slot_look cf k t st = snd (get_slot cf (fst k) (snd k) t st)"

definition slot_remove :: "'s cache_config \<Rightarrow> slot \<times> string \<Rightarrow> nat \<Rightarrow> 's cache \<Rightarrow> 's cache" where
  "slot_remove cf k t st = clear_slot cf (fst k) (snd k) t st"

lemmas slot_defs = slot_put_def slot_look_def slot_remove_def store_slot_def get_slot_def clear_slot_def

text \<open>Either the dictionaries, or a Redis server that answers.\<close>

definition working :: "'s cache_config \<Rightarrow> bool" where
  "working cf = (redis_enabled cf \<longrightarrow> (\<exists>c. client cf = Some c \<and> redis_server c))"

lemma slot_key_inj: "slot_prefix a @ x = slot_prefix b @ y \<longleftrightarrow> a = b \<and> x = y"
  by (cases a; cases b) auto

lemma working_cases:
  assumes "working cf"
  obtains "\<not> redis_enabled cf" | c where "redis_enabled cf" "client cf = Some c" "redis_server c"
  using assms by (auto simp: working_def)

lemma slots_are_store:
  assumes "working cf"
  shows "expiring_store (slot_put cf) (slot_look cf) (slot_remove cf) one_day_ttl"
proof (rule working_cases [OF assms])
  assume "\<not> redis_enabled cf"
  then show ?thesis
    by unfold_locales (auto simp: slot_defs update_conv' delete_conv' prod_eq_iff)
next
  fix c assume c: "redis_enabled cf" "client cf = Some c" "redis_server c"
  have ttl: "Some one_day_ttl \<noteq> Some 0" by (simp add: one_day_ttl_def)
  note get_set = redis_server.wrapped_get_set [OF c(3) _ ttl]
  note get_del = redis_server.wrapped_get_delete [OF c(3)]
  show ?thesis
    by unfold_locales
       (auto simp: slot_defs c redis_get_json_def redis_set_json_def slot_key_inj prod_eq_iff get_set get_del
          stays_def split: prod.splits)
qed

text \<open>
  Both backends remember messages the same way: after any run of stores and clears on the message
  slots, reading a slot of a conversation gives what the last operation on it left, as long as less than
  a day has passed since; operations on other slots and conversations do not matter.
\<close>

theorem slots_last_write_wins:
  assumes "working cf" and "\<forall>e \<in> set es. op_time e \<le> now"
    and "last_on (sl, conv) es = Some e" and "now < op_time e + one_day_ttl"
  shows "snd (get_slot cf sl conv now (fold (apply_op (slot_put cf) (slot_remove cf)) es st)) = leaves e"
  using expiring_store.last_write_wins [OF slots_are_store [OF assms(1)] assms(2-4)]
  by (simp add: slot_look_def)

definition mem_config :: "unit cache_config" where
  "mem_config = \<lparr>redis_enabled = False, client = None\<rparr>"

definition ref_config :: "ref_server cache_config" where
  "ref_config = \<lparr>redis_enabled = True, client = Some ref_client\<rparr>"

lemma working_mem: "working mem_config"
  by (simp add: working_def mem_config_def)

lemma working_ref: "working ref_config"
  using ref.redis_server_axioms by (auto simp: working_def ref_config_def)

interpretation mem_slots: expiring_store "slot_put mem_config" "slot_look mem_config" "slot_remove mem_config" one_day_ttl
  by (rule slots_are_store [OF working_mem])

interpretation ref_slots: expiring_store "slot_put ref_config" "slot_look ref_config" "slot_remove ref_config" one_day_ttl
  by (rule slots_are_store [OF working_ref])

definition empty_cache :: "'s \<Rightarrow> 's cache" where
  "empty_cache s = \<lparr>messages = (\<lambda>_. []), placements = [], conversation_locks = [], server = s\<rparr>"

lemma slots_last_write_wins_witness:
  "snd (get_slot ref_config WaitMsg ''T-1'' 500
     (fold (apply_op (slot_put ref_config) (slot_remove ref_config))
        [Put (WaitMsg, ''T-1'') (VStr ''m1'') 10, Remove (ReminderMsg, ''T-1'') 20] (empty_cache []))) = Some (VStr ''m1'')"
proof -
  have "snd (get_slot ref_config WaitMsg ''T-1'' 500
     (fold (apply_op (slot_put ref_config) (slot_remove ref_config))
        [Put (WaitMsg, ''T-1'') (VStr ''m1'') 10, Remove (ReminderMsg, ''T-1'') 20] (empty_cache [])))
      = leaves (Put (WaitMsg, ''T-1'') (VStr ''m1'') 10)"
    by (rule slots_last_write_wins [OF working_ref]) (simp_all add: one_day_ttl_def)
  then show ?thesis by simp
qed

section \<open>Placement collection\<close>

lemma decode_encode [simp]: "decode_state (encode_state ps) = Some ps"
  by (simp add: decode_state_def encode_state_def dict_get_def as_dict_def py_str_def)

text \<open>From \<open>t\<close> until \<open>limit\<close> a reader of the conversation sees \<open>ps\<close>.\<close>

definition shows_state :: "'s cache_config \<Rightarrow> string \<Rightarrow> placement_state \<Rightarrow> nat \<Rightarrow> nat \<Rightarrow> 's cache \<Rightarrow> bool" where
  "shows_state cf conv ps t limit st \<longleftrightarrow>
     (\<forall>t'. t \<le> t' \<and> t' < limit \<longrightarrow> snd (get_placement_state cf conv t' st) = Some ps)"

lemma write_state_shows:
  assumes "working cf" and "limit \<le> t + one_day_ttl" and "limit \<le> created_at ps + one_day_ttl"
  shows "shows_state cf conv ps t limit (write_state cf conv ps t st)"
proof (rule working_cases [OF assms(1)])
  assume "\<not> redis_enabled cf"
  then show ?thesis
    using assms(3) by (auto simp: shows_state_def write_state_def get_placement_state_def update_conv')
next
  fix c assume c: "redis_enabled cf" "client cf = Some c" "redis_server c"
  have ttl: "Some one_day_ttl \<noteq> Some 0" by (simp add: one_day_ttl_def)
  have "snd (redis_get (Some c) (placement_prefix @ conv) t'
      (fst (redis_set (Some c) (placement_prefix @ conv) (encode_state ps) (Some one_day_ttl) t (server st)))) = Some (encode_state ps)"
    if "t \<le> t'" "t' < limit" for t'
    using redis_server.wrapped_get_set [OF c(3) that(1) ttl] that(2) assms(2) by (simp add: stays_def)
  then show ?thesis
    using c by (auto simp: shows_state_def write_state_def get_placement_state_def redis_get_json_def
        redis_set_json_def prod.case_eq_if)
qed

lemma get_state_keeps:
  assumes "working cf" and "snd (get_placement_state cf conv t st) = Some ps"
  shows "get_placement_state cf conv t st = (st, Some ps)"
proof (rule working_cases [OF assms(1)])
  assume "\<not> redis_enabled cf"
  then show ?thesis using assms(2) by (auto simp: get_placement_state_def split: option.splits if_splits)
next
  fix c assume c: "redis_enabled cf" "client cf = Some c" "redis_server c"
  obtain r where "redis_get (Some c) (placement_prefix @ conv) t (server st) = (server st, r)"
    by (rule redis_server.get_cases [OF c(3)])
  with c assms(2) show ?thesis by (simp add: get_placement_state_def redis_get_json_def)
qed

definition select_all ::
  "'s cache_config \<Rightarrow> string \<Rightarrow> (string \<times> string \<times> string option \<times> nat) list \<Rightarrow> 's cache \<Rightarrow> 's cache" where
  "select_all cf conv sels st =
     fold (\<lambda>(name, v, label, t) s. fst (update_placement_selection cf conv name v label t s)) sels st"

definition selected :: "(string \<times> string \<times> string option \<times> nat) list \<Rightarrow> placement_state \<Rightarrow> placement_state" where
  "selected sels ps = fold (\<lambda>(name, v, label, t). select_param name v label) sels ps"

lemma select_all_shows:
  assumes "working cf" and "shows_state cf conv ps t0 limit st"
    and "sorted (t0 # map (\<lambda>(name, v, label, t). t) sels @ [t])" and "t < limit"
    and "limit \<le> created_at ps + one_day_ttl" and "limit \<le> t0 + one_day_ttl"
  shows "snd (get_placement_state cf conv t (select_all cf conv sels st)) = Some (selected sels ps)"
  using assms(2,3,5,6)
proof (induction sels arbitrary: st ps t0)
  case Nil
  then show ?case using assms(4) by (simp add: shows_state_def select_all_def selected_def)
next
  case (Cons sel sels)
  obtain name v label t1 where sel: "sel = (name, v, label, t1)" by (cases sel) auto
  have times: "t0 \<le> t1" "t1 \<le> t" "sorted (t1 # map (\<lambda>(name, v, label, t). t) sels @ [t])"
    using Cons.prems(2) by (auto simp: sel)
  have "snd (get_placement_state cf conv t1 st) = Some ps"
    using Cons.prems(1) times assms(4) by (auto simp: shows_state_def)
  then have g: "get_placement_state cf conv t1 st = (st, Some ps)"
    by (rule get_state_keeps [OF assms(1)])
  have created: "created_at (select_param name v label ps) = created_at ps"
    by (simp add: select_param_def Let_def)
  have "shows_state cf conv (select_param name v label ps) t1 limit (write_state cf conv (select_param name v label ps) t1 st)"
    by (rule write_state_shows [OF assms(1)]) (use Cons.prems times created in auto)
  with Cons.IH [OF _ times(3)] Cons.prems times created g show ?case
    by (simp add: sel select_all_def selected_def update_placement_selection_def Let_def)
qed

text \<open>
  Collecting placement parameters does not depend on the backend: within a day of storing them, after
  any selections made in time order, the state read back is the stored one with those selections
  applied - the same for the process dictionaries and for any Redis server that answers.
\<close>

theorem placement_collection_exact:
  assumes "working cf" and "sorted (t0 # map (\<lambda>(name, v, label, t). t) sels @ [now])" and "now < t0 + one_day_ttl"
  shows "snd (get_placement_state cf conv now
      (select_all cf conv sels (store_placement_state cf conv params user tenant t0 st)))
    = Some (selected sels \<lparr>collected = [], remaining = params, ps_user = user, ps_tenant = tenant, created_at = t0\<rparr>)"
proof (rule select_all_shows [OF assms(1) _ assms(2,3)])
  let ?ps = "\<lparr>collected = [], remaining = params, ps_user = user, ps_tenant = tenant, created_at = t0\<rparr>"
  show "shows_state cf conv ?ps t0 (t0 + one_day_ttl) (store_placement_state cf conv params user tenant t0 st)"
    unfolding store_placement_state_def by (rule write_state_shows [OF assms(1)]) simp_all
qed simp_all

lemma placement_collection_exact_witness:
  "snd (get_placement_state ref_config ''T-1'' 90
      (select_all ref_config ''T-1'' [(''region'', ''mumbai'', None, 20)]
        (store_placement_state ref_config ''T-1'' [(''region'', VDict []), (''env'', VDict [])] ''u1'' ''acme'' 10 (empty_cache []))))
    = Some (selected [(''region'', ''mumbai'', None, 20)]
        \<lparr>collected = [], remaining = [(''region'', VDict []), (''env'', VDict [])], ps_user = ''u1'', ps_tenant = ''acme'', created_at = 10\<rparr>)"
  by (rule placement_collection_exact [OF working_ref]) (simp_all add: one_day_ttl_def)

section \<open>Locks and time\<close>

text \<open>
  A conversation is processed by one worker at a time, for ten minutes: once a lock has been granted,
  no other attempt before it expires succeeds, on either backend, and the attempt changes nothing.
\<close>

theorem conversation_lock_excludes:
  assumes "working cf" and "acquire_conversation_lock cf conv op t st = (st1, True)"
    and "t \<le> t'" and "t' < t + conversation_lock_ttl"
  shows "acquire_conversation_lock cf conv op' t' st1 = (st1, False) \<and> snd (is_conversation_locked cf conv t' st1)"
proof (rule working_cases [OF assms(1)])
  assume "\<not> redis_enabled cf"
  then show ?thesis using assms(2)
    by (auto simp: acquire_conversation_lock_def is_conversation_locked_def update_conv' split: if_splits)
next
  fix c assume c: "redis_enabled cf" "client cf = Some c" "redis_server c"
  let ?k = "lock_prefix @ conv"
  have free: "snd (redis_get (Some c) ?k t (server st)) = None"
    and st1: "st1 = st\<lparr>server := fst (rc_set c ?k (VStr ''locked'') (Some conversation_lock_ttl) t (server st))\<rparr>"
    using assms(2) c redis_server.wrapped_lock [OF c(3)]
    by (auto simp: acquire_conversation_lock_def split: if_splits prod.splits)
  have "snd (redis_get (Some c) ?k t' (server st1)) = Some (VStr ''locked'')"
    using redis_server.get_set [OF c(3) assms(3), of ?k ?k "VStr ''locked''" "Some conversation_lock_ttl" "server st"] assms(4)
    by (simp add: st1 redis_get_def stays_def prod.case_eq_if)
  then show ?thesis
    using c redis_server.wrapped_lock [OF c(3)] redis_server.wrapped_exists [OF c(3)]
    by (simp add: acquire_conversation_lock_def is_conversation_locked_def)
qed

lemma conversation_lock_excludes_witness:
  "snd (acquire_conversation_lock ref_config ''T-1'' ''b'' 600 (fst (acquire_conversation_lock ref_config ''T-1'' ''a'' 1 (empty_cache [])))) = False"
proof -
  define st1 where "st1 = fst (acquire_conversation_lock ref_config ''T-1'' ''a'' 1 (empty_cache []))"
  have "snd (acquire_conversation_lock ref_config ''T-1'' ''a'' 1 (empty_cache []))" by code_simp
  then have a: "acquire_conversation_lock ref_config ''T-1'' ''a'' 1 (empty_cache []) = (st1, True)"
    by (simp add: st1_def prod_eq_iff)
  have "acquire_conversation_lock ref_config ''T-1'' ''b'' 600 st1 = (st1, False) \<and> snd (is_conversation_locked ref_config ''T-1'' 600 st1)"
    by (rule conversation_lock_excludes [OF working_ref a]) (simp_all add: conversation_lock_ttl_def)
  with a show ?thesis by simp
qed

text \<open>
  A lock that outlives its worker is not safe to release: the release deletes the key whoever holds
  it.  Worker A's lock expires, B acquires it, A finishes and releases, and C acquires it while B, whose
  lock has 499 seconds to go, is still working.
\<close>

theorem late_release_frees_other_holder:
  "(let s0 = empty_cache [];
        (s1, a) = acquire_conversation_lock ref_config ''T-1'' ''A'' 0 s0;
        (s2, b) = acquire_conversation_lock ref_config ''T-1'' ''B'' 600 s1;
        s3 = release_conversation_lock ref_config ''T-1'' 700 s2;
        (s4, c) = acquire_conversation_lock ref_config ''T-1'' ''C'' 701 s3
    in a \<and> b \<and> c \<and> 701 + 499 = 600 + conversation_lock_ttl)"
  by code_simp

end
