(* ===== verification/SqlGuard.thy ===== *)
theory SqlGuard
  imports Orders
begin

text \<open>
  The check an LLM-written query passes before it reaches the database
  (\<open>app/mcp_servers/devlift_mcp/db_query/sql_guard.py\<close>): a tokenizer, the table sources and the names of
  common table expressions read off the tokens, and the verdict with the wrapped query.
\<close>

section \<open>Results\<close>

definition rbind :: "('e, 'a) result \<Rightarrow> ('a \<Rightarrow> ('e, 'b) result) \<Rightarrow> ('e, 'b) result" where
  "rbind m f = (case m of Inl e \<Rightarrow> Inl e | Inr x \<Rightarrow> f x)"

lemma rbind_cong [fundef_cong]: "m = m' \<Longrightarrow> (\<And>x. m' = Inr x \<Longrightarrow> f x = g x) \<Longrightarrow> rbind m f = rbind m' g"
  by (cases m') (simp_all add: rbind_def)

lemma rbind_simps [simp]: "rbind (Inl e) f = Inl e" "rbind (Inr x) f = f x"
  by (simp_all add: rbind_def)

lemma rbind_Inr_iff [simp]: "rbind m f = Inr y \<longleftrightarrow> (\<exists>x. m = Inr x \<and> f x = Inr y)"
  by (cases m) auto

section \<open>Tokens\<close>

datatype tk_kind = Word | Qword | Number | String | Punct

record token =
  tk_kind :: tk_kind
  tk_value :: string
  tk_pos :: nat

abbreviation token :: "tk_kind \<Rightarrow> string \<Rightarrow> nat \<Rightarrow> token" where
  "token k v i \<equiv> \<lparr>tk_kind = k, tk_value = v, tk_pos = i\<rparr>"

definition word_start :: "char \<Rightarrow> bool" where "word_start c = (is_alpha c \<or> c = CHR ''_'')"
definition word_part :: "char \<Rightarrow> bool" where "word_part c = (is_alnum c \<or> c = CHR ''_'' \<or> c = CHR ''$'')"
definition tag_part :: "char \<Rightarrow> bool" where "tag_part c = (is_alnum c \<or> c = CHR ''_'')"

text \<open>The rest after a nested comment whose opening was read; \<open>None\<close> when it does not end.\<close>

fun comment_end :: "nat \<Rightarrow> string \<Rightarrow> string option" where
  "comment_end 0 s = Some s"
| "comment_end (Suc d) (c # c' # s) =
     (if c = CHR ''/'' \<and> c' = CHR ''*'' then comment_end (Suc (Suc d)) s
      else if c = CHR ''*'' \<and> c' = CHR ''/'' then comment_end d s
      else comment_end (Suc d) (c' # s))"
| "comment_end (Suc d) s = None"

text \<open>\<open>_read_quoted\<close>, from the character after the quote: the content and what follows the closing quote.\<close>

fun read_quoted :: "char \<Rightarrow> bool \<Rightarrow> string \<Rightarrow> (string \<times> string) option" where
  "read_quoted q bs [] = None"
| "read_quoted q bs [c] = (if c = q then Some ([], []) else None)"
| "read_quoted q bs (c # c' # s) =
     (if bs \<and> c = CHR 0x5C then map_option (\<lambda>(out, r). (c' # out, r)) (read_quoted q bs s)
      else if c = q then
        (if c' = q then map_option (\<lambda>(out, r). (q # out, r)) (read_quoted q bs s) else Some ([], c' # s))
      else map_option (\<lambda>(out, r). (c # out, r)) (read_quoted q bs (c' # s)))"

text \<open>\<open>s.find(p)\<close>: what comes before the first occurrence, and after it.\<close>

fun find_sub :: "string \<Rightarrow> string \<Rightarrow> (string \<times> string) option" where
  "find_sub p s =
     (if prefix p s then Some ([], drop (length p) s)
      else case s of [] \<Rightarrow> None | c # s' \<Rightarrow> map_option (\<lambda>(a, b). (c # a, b)) (find_sub p s'))"

declare find_sub.simps [simp del]

text \<open>A dollar quote's tag after its first dollar, and what follows the second.\<close>

definition dollar_tag :: "string \<Rightarrow> (string \<times> string) option" where
  "dollar_tag s =
     (let name = (if s \<noteq> [] \<and> word_start (hd s) then takeWhile tag_part s else []);
          r = drop (length name) s
      in if r \<noteq> [] \<and> hd r = CHR ''$'' then Some (''$'' @ name @ ''$'', tl r) else None)"

text \<open>The number a text starts with (it starts with a digit, or a dot and a digit).\<close>

definition exponent :: "string \<Rightarrow> string" where
  "exponent s =
     (case s of [] \<Rightarrow> []
      | e # r \<Rightarrow>
          if e = CHR ''e'' \<or> e = CHR ''E'' then
            let sign = (case r of [] \<Rightarrow> [] | c # _ \<Rightarrow> if c = CHR ''+'' \<or> c = CHR ''-'' then [c] else []);
                ds = takeWhile py_isdigit (drop (length sign) r)
            in if ds = [] then [] else e # sign @ ds
          else [])"

definition number :: "string \<Rightarrow> string" where
  "number s =
     (let ds = takeWhile py_isdigit s; r = drop (length ds) s;
          frac = (if r \<noteq> [] \<and> hd r = CHR ''.'' then CHR ''.'' # takeWhile py_isdigit (tl r) else []);
          m = ds @ frac
      in m @ exponent (drop (length m) s))"

definition starts_number :: "string \<Rightarrow> bool" where
  "starts_number s =
     (case s of [] \<Rightarrow> False
      | c # r \<Rightarrow> py_isdigit c \<or> c = CHR ''.'' \<and> r \<noteq> [] \<and> py_isdigit (hd r))"

lemma comment_end_shorter: "comment_end d s = Some r \<Longrightarrow> length r \<le> length s"
  by (induction d s arbitrary: r rule: comment_end.induct) (fastforce split: if_splits)+

lemma read_quoted_shorter: "read_quoted q bs s = Some (out, r) \<Longrightarrow> length r < length s"
  by (induction q bs s arbitrary: out r rule: read_quoted.induct) (fastforce split: if_splits)+

lemma find_sub_split: "find_sub p s = Some (a, b) \<Longrightarrow> s = a @ p @ b"
proof (induction p s arbitrary: a b rule: find_sub.induct)
  case (1 p s)
  then show ?case by (subst (asm) find_sub.simps) (auto simp: prefix_def split: if_splits list.splits)
qed

lemma dollar_tag_shorter: "dollar_tag s = Some (tag, r) \<Longrightarrow> length r < length s \<and> tag \<noteq> []"
  by (auto simp: dollar_tag_def Let_def split: if_splits dest!: arg_cong [of _ _ length] simp flip: length_greater_0_conv)

lemma number_nonempty: "starts_number s \<Longrightarrow> number s \<noteq> []"
  by (auto simp: starts_number_def number_def Let_def split: list.splits)

section \<open>The tokenizer\<close>

text \<open>One round of the loop at position \<open>i\<close>: the token it appends, if any, and the rest of the text.\<close>

fun lexeme :: "nat \<Rightarrow> string \<Rightarrow> (string, token option \<times> string) result" where
  "lexeme i [] = Inr (None, [])"
| "lexeme i (c # s) =
     (if py_isspace c then Inr (None, s)
      else if prefix ''--'' (c # s) then Inr (None, drop 1 (dropWhile (\<lambda>x. x \<noteq> CHR 0x0A) s))
      else if prefix ''/*'' (c # s) then
        (case comment_end 1 (drop 1 s) of
           None \<Rightarrow> Inl ''Unterminated comment'' | Some r \<Rightarrow> Inr (None, r))
      else if c = CHR 0x27 then
        (case read_quoted c False s of
           None \<Rightarrow> Inl ''Unterminated string''
         | Some (_, r) \<Rightarrow> Inr (Some (token String (take (length s - length r - 1) s) i), r))
      else if c = CHR 0x22 then
        (case read_quoted c False s of
           None \<Rightarrow> Inl ''Unterminated quoted identifier''
         | Some (v, r) \<Rightarrow> Inr (Some (token Qword v i), r))
      else if c = CHR ''$'' then
        (if s \<noteq> [] \<and> py_isdigit (hd s)
         then Inl ''Positional parameters ($1) are not supported; inline literal values''
         else case dollar_tag s of
           None \<Rightarrow> Inr (Some (token Punct [c] i), s)
         | Some (tag, r) \<Rightarrow>
             (case find_sub tag r of
                None \<Rightarrow> Inl ''Unterminated dollar-quoted string''
              | Some (v, r') \<Rightarrow> Inr (Some (token String v i), r')))
      else if word_start c then
        (let w = takeWhile word_part (c # s); r = drop (length w) (c # s) in
         if length w = 1 \<and> py_lower w \<in> {''e'', ''b'', ''x''} \<and> r \<noteq> [] \<and> hd r = CHR 0x27 then
           (case read_quoted (CHR 0x27) (py_lower w = ''e'') (tl r) of
              None \<Rightarrow> Inl ''Unterminated string''
            | Some (_, r') \<Rightarrow> Inr (Some (token String (take (length (tl r) - length r' - 1) (tl r)) i), r'))
         else Inr (Some (token Word (py_lower w) i), r))
      else if starts_number (c # s) then
        (let w = number (c # s) in Inr (Some (token Number w i), drop (length w) (c # s)))
      else Inr (Some (token Punct [c] i), s))"

lemma word_start_part: "word_start c \<Longrightarrow> word_part c"
  by (auto simp: word_start_def word_part_def)

lemma lexeme_shorter: "lexeme i s = Inr (t, r) \<Longrightarrow> s \<noteq> [] \<Longrightarrow> length r < length s"
proof (cases s)
  case (Cons c s')
  have drop: "length (drop (length w) (c # s')) < length (c # s')" if "w \<noteq> []" for w using that by (cases w) auto
  have line: "length (drop 1 (dropWhile P x)) \<le> length x" for P and x :: string
    by (simp add: le_diff_conv le_SucI length_dropWhile_le)
  assume "lexeme i s = Inr (t, r)"
  then show ?thesis unfolding Cons
    using drop line [of "\<lambda>x. x \<noteq> CHR 0x0A" s'] number_nonempty [of "c # s'"] word_start_part [of c]
    by (auto simp: Let_def less_Suc_eq_le split: if_splits option.splits prod.splits
        dest!: comment_end_shorter read_quoted_shorter dollar_tag_shorter find_sub_split)
qed simp

function tokenize_from :: "nat \<Rightarrow> string \<Rightarrow> (string, token list) result" where
  "tokenize_from i s =
     (if s = [] then Inr []
      else rbind (lexeme i s) (\<lambda>(t, r).
        rbind (tokenize_from (i + (length s - length r)) r) (\<lambda>ts.
          Inr (case t of None \<Rightarrow> ts | Some t \<Rightarrow> t # ts))))"
  by pat_completeness auto
termination
  by (relation "measure (\<lambda>(i, s). length s)") (auto dest: lexeme_shorter)

declare tokenize_from.simps [simp del]

definition tokenize :: "string \<Rightarrow> (string, token list) result" where
  "tokenize sql = tokenize_from 0 sql"

section \<open>The token stream\<close>

definition is_word :: "token list \<Rightarrow> nat \<Rightarrow> string \<Rightarrow> bool" where
  "is_word ts i v = (i < length ts \<and> tk_kind (ts ! i) = Word \<and> tk_value (ts ! i) = v)"

definition is_punct :: "token list \<Rightarrow> nat \<Rightarrow> string \<Rightarrow> bool" where
  "is_punct ts i v = (i < length ts \<and> tk_kind (ts ! i) = Punct \<and> tk_value (ts ! i) = v)"

definition is_ident :: "token list \<Rightarrow> nat \<Rightarrow> bool" where
  "is_ident ts i = (i < length ts \<and> tk_kind (ts ! i) \<in> {Word, Qword})"

definition opens :: "token \<Rightarrow> bool" where
  "opens t = (tk_kind t = Punct \<and> tk_value t = ''('')"

definition closes :: "token \<Rightarrow> bool" where
  "closes t = (tk_kind t = Punct \<and> tk_value t = '')'')"

text \<open>\<open>_matching_paren\<close>: where the depth comes back to zero, counted from the given token.\<close>

fun closing :: "int \<Rightarrow> token list \<Rightarrow> nat option" where
  "closing d [] = None"
| "closing d (t # ts) =
     (if opens t then map_option Suc (closing (d + 1) ts)
      else if closes t then (if d - 1 = 0 then Some 0 else map_option Suc (closing (d - 1) ts))
      else map_option Suc (closing d ts))"

definition matching_paren :: "token list \<Rightarrow> nat \<Rightarrow> (string, nat) result" where
  "matching_paren ts i =
     (case closing 0 (drop i ts) of None \<Rightarrow> Inl ''Unbalanced parentheses'' | Some k \<Rightarrow> Inr (i + k))"

definition slice :: "token list \<Rightarrow> nat \<Rightarrow> nat \<Rightarrow> token list" where
  "slice ts i k = drop i (take k ts)"

lemma closing_bound: "closing d ts = Some k \<Longrightarrow> k < length ts"
  by (induction d ts arbitrary: k rule: closing.induct) (auto split: if_splits)

lemma matching_bound: "matching_paren ts i = Inr k \<Longrightarrow> i \<le> k \<and> k < length ts"
  by (auto simp: matching_paren_def split: option.splits dest!: closing_bound)

lemma is_bound [simp]:
  "is_word ts i v \<Longrightarrow> i < length ts" "is_punct ts i v \<Longrightarrow> i < length ts" "is_ident ts i \<Longrightarrow> i < length ts"
  by (simp_all add: is_word_def is_punct_def is_ident_def)

section \<open>Common table expressions\<close>

definition skip_word :: "token list \<Rightarrow> string \<Rightarrow> nat \<Rightarrow> nat" where
  "skip_word ts v j = (if is_word ts j v then j + 1 else j)"

text \<open>An optional list in parentheses.\<close>

definition skip_paren :: "token list \<Rightarrow> nat \<Rightarrow> (string, nat) result" where
  "skip_paren ts j = (if is_punct ts j ''('' then rbind (matching_paren ts j) (\<lambda>k. Inr (k + 1)) else Inr j)"

lemma skip_word_le: "j \<le> skip_word ts v j"
  by (simp add: skip_word_def)

lemma skip_paren_le: "skip_paren ts j = Inr j' \<Longrightarrow> j \<le> j'"
  by (auto simp: skip_paren_def split: if_splits dest!: matching_bound)

text \<open>The names after a \<open>WITH\<close>, from position \<open>j\<close>.\<close>

function cte_names :: "token list \<Rightarrow> nat \<Rightarrow> (string, string list) result" where
  "cte_names ts j =
     (if is_ident ts j then
        rbind (skip_paren ts (j + 1)) (\<lambda>j1.
          if \<not> is_word ts j1 ''as'' then Inr []
          else
            let j2 = skip_word ts ''materialized'' (skip_word ts ''not'' (j1 + 1)) in
            if \<not> is_punct ts j2 ''('' then Inr []
            else rbind (matching_paren ts j2) (\<lambda>k.
              if \<not> is_punct ts (k + 1) '','' then Inr [tk_value (ts ! j)]
              else rbind (cte_names ts (k + 2)) (\<lambda>names. Inr (tk_value (ts ! j) # names))))
      else Inr [])"
  by pat_completeness auto
termination
proof (relation "measure (\<lambda>(ts, j). length ts - j)", simp_all, goal_cases)
  case (1 ts j j1 j2 k)
  have "Suc j \<le> j1" using 1(2) by (rule skip_paren_le)
  moreover have "Suc j1 \<le> j2" unfolding 1(4) by (simp add: skip_word_def)
  moreover have "j2 \<le> k" using matching_bound 1 by blast
  ultimately show ?case using 1(1) is_bound(3) [of ts j] by linarith
qed

declare cte_names.simps [simp del]

fun ctes_at :: "token list \<Rightarrow> nat list \<Rightarrow> (string, string list) result" where
  "ctes_at ts [] = Inr []"
| "ctes_at ts (i # is) =
     rbind (if is_word ts i ''with'' then cte_names ts (skip_word ts ''recursive'' (i + 1)) else Inr []) (\<lambda>names.
       rbind (ctes_at ts is) (\<lambda>more. Inr (names @ more)))"

definition collect_ctes :: "token list \<Rightarrow> (string, string list) result" where
  "collect_ctes ts = ctes_at ts [0..<length ts]"

section \<open>Table sources\<close>

definition from_functions :: "string list" where
  "from_functions =
     [''unnest'', ''generate_series'', ''generate_subscripts'',
      ''jsonb_array_elements'', ''jsonb_array_elements_text'', ''jsonb_each'',
      ''jsonb_each_text'', ''jsonb_object_keys'', ''jsonb_to_recordset'',
      ''jsonb_to_record'', ''json_array_elements'', ''json_array_elements_text'',
      ''json_each'', ''json_each_text'', ''json_object_keys'',
      ''regexp_split_to_table'', ''regexp_matches'', ''string_to_table'']"

definition from_context_functions :: "string list" where
  "from_context_functions = [''extract'', ''substring'', ''trim'', ''overlay'', ''position'']"

definition extract_fields :: "string list" where
  "extract_fields =
     [''century'', ''day'', ''decade'', ''dow'', ''doy'', ''epoch'', ''hour'', ''isodow'',
      ''isoyear'', ''julian'', ''microseconds'', ''millennium'', ''milliseconds'', ''minute'',
      ''month'', ''quarter'', ''second'', ''timezone'', ''timezone_hour'',
      ''timezone_minute'', ''week'', ''year'']"

definition join_words :: "string list" where
  "join_words = [''join'', ''left'', ''right'', ''inner'', ''outer'', ''full'', ''cross'', ''natural'']"

definition clause_words :: "string list" where
  "clause_words = join_words @
     [''on'', ''using'', ''where'', ''group'', ''order'', ''limit'', ''offset'', ''union'',
      ''intersect'', ''except'', ''having'', ''window'', ''fetch'', ''for'', ''tablesample'',
      ''with'', ''returning'', ''lateral'', ''into'', ''values'', ''select'', ''from'', ''as'',
      ''and'', ''or'', ''not'', ''is'', ''in'', ''like'', ''ilike'', ''between'', ''case'', ''when'',
      ''then'', ''else'', ''end'']"

definition condition_stop_words :: "string list" where
  "condition_stop_words = join_words @
     [''where'', ''group'', ''order'', ''limit'', ''offset'', ''union'', ''intersect'',
      ''except'', ''having'', ''window'', ''fetch'', ''for'', ''returning'']"

text \<open>The word before each open parenthesis, innermost first.\<close>

definition word_before :: "token list \<Rightarrow> nat \<Rightarrow> string option" where
  "word_before ts i =
     (if i > 0 \<and> tk_kind (ts ! (i - 1)) = Word then Some (tk_value (ts ! (i - 1))) else None)"

definition from_is_argument_separator :: "token list \<Rightarrow> nat \<Rightarrow> string option list \<Rightarrow> bool" where
  "from_is_argument_separator ts i ctx =
     ((case word_before ts i of None \<Rightarrow> False
       | Some w \<Rightarrow> w \<in> set extract_fields \<or> w = ''distinct'') \<or>
      (case ctx of Some w # _ \<Rightarrow> w \<in> set from_context_functions | _ \<Rightarrow> False))"

text \<open>A dotted name: its parts, and the position after it.\<close>

function dotted :: "token list \<Rightarrow> nat \<Rightarrow> string list \<times> nat" where
  "dotted ts j =
     (if is_punct ts j ''.'' \<and> is_ident ts (j + 1)
      then let (parts, k) = dotted ts (j + 2) in (tk_value (ts ! (j + 1)) # parts, k)
      else ([], j))"
  by pat_completeness auto
termination by (relation "measure (\<lambda>(ts, j). length ts - j)") (auto simp: is_punct_def)

declare dotted.simps [simp del]

text \<open>The optional alias, with its optional column list.\<close>

definition skip_alias :: "token list \<Rightarrow> nat \<Rightarrow> (string, nat) result" where
  "skip_alias ts j =
     (if is_word ts j ''as'' then
        if is_ident ts (j + 1) then skip_paren ts (j + 2) else Inl ''Expected an alias after AS''
      else if is_ident ts j \<and> tk_value (ts ! j) \<notin> set clause_words then skip_paren ts (j + 1)
      else skip_paren ts j)"

definition skip_using :: "token list \<Rightarrow> nat \<Rightarrow> (string, nat) result" where
  "skip_using ts j = (if is_word ts j ''using'' then skip_paren ts (j + 1) else Inr j)"

definition skip_ordinality :: "token list \<Rightarrow> nat \<Rightarrow> nat" where
  "skip_ordinality ts j = (if is_word ts j ''with'' \<and> is_word ts (j + 1) ''ordinality'' then j + 2 else j)"

lemma dotted_le: "j \<le> snd (dotted ts j)"
proof (induction ts j rule: dotted.induct)
  case (1 ts j)
  show ?case
  proof (cases "is_punct ts j ''.'' \<and> is_ident ts (j + 1)")
    case True
    with 1 show ?thesis by (subst dotted.simps) (simp add: Let_def split_beta)
  qed (subst dotted.simps, auto)
qed

lemma skip_alias_le: "skip_alias ts j = Inr k \<Longrightarrow> j \<le> k"
  by (auto simp: skip_alias_def split: if_splits dest!: skip_paren_le)

lemma skip_using_le: "skip_using ts j = Inr k \<Longrightarrow> j \<le> k"
  by (auto simp: skip_using_def split: if_splits dest!: skip_paren_le)

lemma skip_ordinality_le: "j \<le> skip_ordinality ts j"
  by (simp add: skip_ordinality_def)

text \<open>
  \<open>_collect_table_refs\<close> from position \<open>i\<close> with the open parentheses \<open>ctx\<close>; \<open>_parse_table_items\<close> from position \<open>j\<close>,
  with its first part, the source itself, on its own; and \<open>_skip_join_condition\<close>.  Each gives the table
  sources it finds, in order.
\<close>

type_synonym refs = "string list list"

function (domintros)
  table_refs :: "token list \<Rightarrow> nat \<Rightarrow> string option list \<Rightarrow> (string, refs) result" and
  table_items :: "token list \<Rightarrow> nat \<Rightarrow> (string, nat \<times> refs) result" and
  table_source :: "token list \<Rightarrow> nat \<Rightarrow> (string, nat \<times> refs) result" and
  join_condition :: "token list \<Rightarrow> nat \<Rightarrow> (string, nat \<times> refs) result"
where
  "table_refs ts i ctx =
     (if i \<ge> length ts then if ctx = [] then Inr [] else Inl ''Unbalanced parentheses''
      else if opens (ts ! i) then table_refs ts (i + 1) (word_before ts i # ctx)
      else if closes (ts ! i) then
        if ctx = [] then Inl ''Unbalanced parentheses'' else table_refs ts (i + 1) (tl ctx)
      else if (is_word ts i ''from'' \<or> is_word ts i ''join'') \<and>
        \<not> (is_word ts i ''from'' \<and> from_is_argument_separator ts i ctx) then
        rbind (table_items ts (i + 1)) (\<lambda>(j, rs). rbind (table_refs ts j ctx) (\<lambda>rs'. Inr (rs @ rs')))
      else table_refs ts (i + 1) ctx)"
| "table_items ts j =
     rbind (table_source ts (skip_word ts ''only'' (skip_word ts ''lateral'' j))) (\<lambda>(j2, rs).
       rbind (skip_alias ts j2) (\<lambda>j3.
         rbind (if is_word ts j3 ''on'' then join_condition ts (j3 + 1)
                else rbind (skip_using ts j3) (\<lambda>j4. Inr (j4, [])))
           (\<lambda>(j5, rs'). if is_punct ts j5 '',''
              then rbind (table_items ts (j5 + 1)) (\<lambda>(j6, rs''). Inr (j6, rs @ rs' @ rs''))
              else Inr (j5, rs @ rs'))))"
| "table_source ts j =
     (if is_punct ts j ''('' then
        rbind (matching_paren ts j) (\<lambda>k.
          rbind (table_refs (slice ts (j + 1) k) 0 []) (\<lambda>rs. Inr (k + 1, rs)))
      else if is_ident ts j then
        let (more, j1) = dotted ts (j + 1); parts = tk_value (ts ! j) # more in
        if is_punct ts j1 ''('' then
          if length parts \<noteq> 1 \<or> last parts \<notin> set from_functions
          then Inl (CHR 0x27 # py_join ''.'' parts @ ''(...)'' @ CHR 0x27 # '' cannot be used as a table source'')
          else rbind (matching_paren ts j1) (\<lambda>k.
            rbind (table_refs (slice ts (j1 + 1) k) 0 []) (\<lambda>rs. Inr (skip_ordinality ts (k + 1), rs)))
        else Inr (j1, [parts])
      else Inl ''Expected a view name after FROM / JOIN'')"
| "join_condition ts j =
     (if j \<ge> length ts then Inr (j, [])
      else if opens (ts ! j) then
        rbind (matching_paren ts j) (\<lambda>k.
          rbind (table_refs (slice ts (j + 1) k) 0 []) (\<lambda>rs.
            rbind (join_condition ts (k + 1)) (\<lambda>(j', rs'). Inr (j', rs @ rs'))))
      else if is_punct ts j '','' \<or> closes (ts ! j) then Inr (j, [])
      else if tk_kind (ts ! j) = Word \<and> tk_value (ts ! j) \<in> set condition_stop_words then Inr (j, [])
      else join_condition ts (j + 1))"
  by pat_completeness auto

text \<open>They end: the position only moves forward, and a parenthesis holds fewer tokens.\<close>

lemma slice_shorter: "k < length ts \<Longrightarrow> length (slice ts (Suc j) k) < length ts"
  by (auto simp: slice_def)

lemma skip_words_le: "j \<le> skip_word ts v (skip_word ts w j)"
  by (simp add: skip_word_def)

lemma source_advances:
  assumes "table_refs_table_items_table_source_join_condition_dom (Inr (Inl (ts, j)))"
    and "table_source ts j = Inr (j', rs)"
  shows "j < j'"
proof (cases "is_punct ts j ''(''")
  case True
  with assms show ?thesis by (auto simp: table_source.psimps dest!: matching_bound)
next
  case False
  let ?j1 = "snd (dotted ts (j + 1))"
  have "j < ?j1" using dotted_le [of "j + 1" ts] by simp
  moreover have "?j1 \<le> k \<Longrightarrow> ?j1 \<le> skip_ordinality ts (Suc k)" for k
    using skip_ordinality_le [of "Suc k" ts] by linarith
  ultimately show ?thesis using False assms matching_bound [of ts ?j1]
    by (fastforce simp: table_source.psimps Let_def split_beta split: if_splits)
qed

lemma positions_advance:
  "table_refs_table_items_table_source_join_condition_dom (Inl (Inl (ts, i, ctx))) \<Longrightarrow> True"
  "table_refs_table_items_table_source_join_condition_dom (Inl (Inr (ts, j))) \<Longrightarrow>
     table_items ts j = Inr (j', rs) \<Longrightarrow> j < j'"
  "table_refs_table_items_table_source_join_condition_dom (Inr (Inl (ts, j))) \<Longrightarrow>
     table_source ts j = Inr (j', rs) \<Longrightarrow> j < j'"
  "table_refs_table_items_table_source_join_condition_dom (Inr (Inr (ts, j))) \<Longrightarrow>
     join_condition ts j = Inr (j', rs) \<Longrightarrow> j \<le> j'"
proof (induct arbitrary: and j' rs and j' rs and j' rs
    rule: table_refs_table_items_table_source_join_condition.pinduct)
  case (2 ts j)
  from 2(1,5) obtain j2 j3 j5 r r' where
    src: "table_source ts (skip_word ts ''only'' (skip_word ts ''lateral'' j)) = Inr (j2, r)"
    and ali: "skip_alias ts j2 = Inr j3"
    and rest: "(if is_word ts j3 ''on'' then join_condition ts (j3 + 1)
       else rbind (skip_using ts j3) (\<lambda>j4. Inr (j4, []))) = Inr (j5, r')"
    and fin: "is_punct ts j5 '','' \<and> (\<exists>rs''. table_items ts (j5 + 1) = Inr (j', rs'')) \<or> j' = j5"
    by (fastforce simp: table_items.psimps split: if_splits)
  have "j < j2" using 2(2) [OF src] skip_words_le [of j ts] by (rule le_less_trans [rotated])
  moreover have "j2 \<le> j3" using ali by (rule skip_alias_le)
  moreover have "j3 \<le> j5" using rest 2(3) [OF src refl ali] by (auto split: if_splits dest: skip_using_le)
  moreover have "j5 \<le> j'" using fin 2(4) [OF src refl ali rest refl] by auto
  ultimately show ?case by linarith
next
  case (3 ts j)
  from 3(1,4) show ?case by (rule source_advances)
next
  case (4 ts j)
  show ?case
  proof (cases "j < length ts \<and> opens (ts ! j)")
    case True
    with 4(1,5) obtain k r r' where k: "matching_paren ts j = Inr k"
      and r: "table_refs (slice ts (j + 1) k) 0 [] = Inr r" and r': "join_condition ts (k + 1) = Inr (j', r')"
      by (auto simp: join_condition.psimps)
    have "k + 1 \<le> j'" using 4(3) [OF _ _ k r r'] True by auto
    then show ?thesis using matching_bound [OF k] by simp
  next
    case False
    then show ?thesis using 4(1,5) 4(4) [of j' rs]
      by (auto simp: join_condition.psimps split: if_splits)
  qed
qed auto

termination table_refs
proof (relation "measures
    [\<lambda>x. case x of Inl (Inl (ts, _, _)) \<Rightarrow> length ts | Inl (Inr (ts, _)) \<Rightarrow> length ts
        | Inr (Inl (ts, _)) \<Rightarrow> length ts | Inr (Inr (ts, _)) \<Rightarrow> length ts,
     \<lambda>x. case x of Inl (Inl (ts, i, _)) \<Rightarrow> length ts - i | Inl (Inr (ts, j)) \<Rightarrow> length ts - j
        | Inr (Inl (ts, j)) \<Rightarrow> length ts - j | Inr (Inr (ts, j)) \<Rightarrow> length ts - j,
     \<lambda>x. case x of Inl (Inl _) \<Rightarrow> 0 | Inl (Inr _) \<Rightarrow> 1 | Inr _ \<Rightarrow> 0]", simp_all add: slice_shorter matching_bound, goal_cases)
  case (1 ts i ctx x j rs)
  with positions_advance(2) [of ts "Suc i" j rs] show ?case by auto
next
  case (2 ts j)
  show ?case using diff_le_mono2 [OF skip_words_le [of j ts]] by (simp add: le_eq_less_or_eq)
next
  case (3 ts j x j2 rs j3)
  have "j < j2" by (rule le_less_trans [OF skip_words_le positions_advance(3) [OF 3(5) 3(1) [folded 3(2)]]])
  with skip_alias_le [OF 3(3)] is_bound(1) [OF 3(4)] show ?case by linarith
next
  case (4 ts j x j2 rs j3 y j5 rs')
  have "j < j2" by (rule le_less_trans [OF skip_words_le positions_advance(3) [OF 4(8) 4(1) [folded 4(2)]]])
  moreover have "j2 \<le> j3" by (rule skip_alias_le [OF 4(3)])
  moreover have "j3 \<le> j5"
    using 4(4) [folded 4(5)] 4(7) positions_advance(4) [of ts "Suc j3" j5 rs']
    by (auto split: if_splits dest: skip_using_le)
  ultimately show ?case using is_bound(2) [OF 4(6)] by linarith
next
  case (5 ts j k rs)
  then show ?case using matching_bound [of ts j k] by auto
qed

declare table_refs.simps [simp del] table_items.simps [simp del] table_source.simps [simp del] join_condition.simps [simp del]

definition collect_table_refs :: "token list \<Rightarrow> (string, refs) result" where
  "collect_table_refs ts = table_refs ts 0 []"

section \<open>The verdict\<close>

definition forbidden_keywords :: "string list" where
  "forbidden_keywords =
     [''insert'', ''update'', ''delete'', ''merge'', ''drop'', ''alter'', ''create'', ''truncate'',
      ''grant'', ''revoke'', ''copy'', ''call'', ''do'', ''execute'', ''prepare'', ''deallocate'',
      ''lock'', ''vacuum'', ''analyze'', ''analyse'', ''reindex'', ''cluster'', ''listen'',
      ''notify'', ''unlisten'', ''set'', ''reset'', ''show'', ''begin'', ''commit'', ''rollback'',
      ''abort'', ''savepoint'', ''release'', ''declare'', ''move'', ''close'', ''refresh'',
      ''security'', ''comment'', ''explain'', ''import'', ''into'', ''load'', ''checkpoint'',
      ''discard'', ''disable'', ''enable'']"

definition forbidden_functions :: "string list" where
  "forbidden_functions =
     [''set_config'', ''current_setting'', ''dblink'', ''dblink_connect'',
      ''dblink_connect_u'', ''dblink_exec'', ''dblink_open'', ''dblink_fetch'',
      ''lo_import'', ''lo_export'', ''lo_get'', ''lo_put'', ''lo_create'', ''lo_unlink'',
      ''query_to_xml'', ''query_to_xml_and_xmlschema'', ''cursor_to_xml'',
      ''database_to_xml'', ''database_to_xmlschema'', ''schema_to_xml'', ''table_to_xml'',
      ''inet_server_addr'', ''inet_server_port'', ''inet_client_addr'',
      ''inet_client_port'', ''current_query'', ''txid_current'']"

record guarded =
  g_sql :: string
  g_wrapped :: string
  g_tables :: "string list"
  g_ctes :: "string list"

text \<open>A refusal is \<open>SqlRejected\<close> or, for the row limit, a \<open>ValueError\<close>.\<close>

datatype sql_error = SqlRejected string | BadLimit

definition reject :: "(string, 'a) result \<Rightarrow> (sql_error, 'a) result" where
  "reject r = (case r of Inl e \<Rightarrow> Inl (SqlRejected e) | Inr x \<Rightarrow> Inr x)"

definition quoted :: "string \<Rightarrow> string" where
  "quoted s = CHR 0x27 # s @ [CHR 0x27]"

definition check_token :: "string list \<Rightarrow> token \<Rightarrow> (string, unit) result" where
  "check_token denied t =
     (let v = tk_value t in
      if tk_kind t = Word \<and> v \<in> set forbidden_keywords
      then Inl (quoted (py_upper v) @ '' is not allowed; query_data is read-only SELECT only'')
      else if tk_kind t = Word \<and> v \<in> set forbidden_functions then Inl (quoted (v @ ''()'') @ '' is not allowed'')
      else if tk_kind t = Word \<and> (startswith v ''pg_'' \<or> v = ''information_schema'')
      then Inl ''System catalogs (pg_*, information_schema) are not accessible''
      else if tk_kind t \<in> {Word, Qword} \<and> (v \<in> set denied \<or> py_lower v \<in> set denied)
      then Inl (quoted v @ '' is not a queryable view. Use describe_data_schema for the list of views.'')
      else Inr ())"

fun check_tokens :: "string list \<Rightarrow> token list \<Rightarrow> (string, unit) result" where
  "check_tokens denied [] = Inr ()"
| "check_tokens denied (t # ts) = rbind (check_token denied t) (\<lambda>_. check_tokens denied ts)"

definition is_semicolon :: "token \<Rightarrow> bool" where
  "is_semicolon t = (tk_kind t = Punct \<and> tk_value t = '';'')"

text \<open>The tokens without a closing semicolon, and where the statement ends.\<close>

definition statement :: "string \<Rightarrow> token list \<Rightarrow> (string, token list \<times> nat) result" where
  "statement sql ts =
     (if ts = [] then Inl ''Empty query''
      else
        let closed = is_semicolon (last ts);
            ts' = (if closed then butlast ts else ts);
            stop = (if closed then tk_pos (last ts) else length sql)
        in if ts' = [] then Inl ''Empty query''
           else if list_ex is_semicolon ts' then Inl (''One statement per call; remove the extra '' @ quoted '';'')
           else if \<not> (tk_kind (hd ts') = Word \<and> tk_value (hd ts') \<in> {''select'', ''with''})
           then Inl ''Only SELECT queries (optionally starting with WITH) are allowed''
           else Inr (ts', stop))"

definition ref_allowed :: "string list \<Rightarrow> string \<Rightarrow> string list \<Rightarrow> string list \<Rightarrow> bool" where
  "ref_allowed allowed schema ctes parts =
     (if length parts = 1 then parts ! 0 \<in> set ctes \<or> parts ! 0 \<in> set allowed
      else if length parts = 2 then parts ! 0 = schema \<and> parts ! 1 \<in> set allowed
      else False)"

fun check_refs ::
  "string list \<Rightarrow> string \<Rightarrow> string list \<Rightarrow> refs \<Rightarrow> string list \<Rightarrow> (string, string list) result"
where
  "check_refs allowed schema ctes [] seen = Inr seen"
| "check_refs allowed schema ctes (parts # refs) seen =
     (let name = py_join ''.'' parts in
      if ref_allowed allowed schema ctes parts
      then check_refs allowed schema ctes refs (if name \<in> set seen then seen else seen @ [name])
      else Inl (quoted name @ '' is not a queryable view. Allowed: '' @
                py_join '', '' (sorted_set allowed) @ ''.''))"

definition newline :: string where "newline = [CHR 0x0A]"

definition wrap :: "string \<Rightarrow> int \<Rightarrow> string" where
  "wrap clean max_rows =
     ''SELECT * FROM ('' @ newline @ clean @ newline @ '') AS _mcp_q LIMIT '' @ int_str (max_rows + 1)"

definition guard_sql ::
  "string \<Rightarrow> string list \<Rightarrow> string \<Rightarrow> int \<Rightarrow> string list \<Rightarrow> (sql_error, guarded) result" where
  "guard_sql sql allowed schema max_rows denied =
     (if max_rows < 1 then Inl BadLimit
      else if CHR 0x00 \<in> set sql then Inl (SqlRejected ''Query contains a NUL byte'')
      else reject
        (rbind (tokenize sql) (\<lambda>all.
         rbind (statement sql all) (\<lambda>(ts, stop).
         rbind (check_tokens denied ts) (\<lambda>_.
         rbind (collect_ctes ts) (\<lambda>ctes.
         rbind (collect_table_refs ts) (\<lambda>refs.
         rbind (check_refs allowed schema ctes refs []) (\<lambda>seen.
           let clean = py_strip (take stop sql) in
           Inr \<lparr>g_sql = clean, g_wrapped = wrap clean max_rows, g_tables = seen, g_ctes = sorted_set ctes\<rparr>))))))))"

end
