(* ===== verification/SqlLexing.thy ===== *)
theory SqlLexing
  imports SqlGuard
begin

text \<open>
  How the tokens of a text depend on what stands around it: a text cut off after a token, before a blank or a
  semicolon, has the tokens it had, and so it has them inside the wrapper.
\<close>

section \<open>The scanners on a longer text\<close>

lemma comment_end_strict: "comment_end (Suc d) s = Some r \<Longrightarrow> length r < length s"
  by (induction "Suc d" s arbitrary: d r rule: comment_end.induct)
     (auto split: if_splits dest: comment_end_shorter, (metis comment_end.simps(1) comment_end_shorter le_imp_less_Suc less_SucI)?)

lemma comment_end_append: "comment_end d a = Some r \<Longrightarrow> comment_end d (a @ y) = Some (r @ y)"
  by (induction d a arbitrary: r rule: comment_end.induct) (auto split: if_splits)

lemma comment_end_cut:
  "comment_end d (a @ y) = Some r' \<Longrightarrow> length y \<le> length r' \<Longrightarrow> \<exists>r. r' = r @ y \<and> comment_end d a = Some r"
proof (induction d a arbitrary: r' rule: comment_end.induct, goal_cases)
  case (3 d r')
  then show ?case using comment_end_strict [of d y r'] by auto
next
  case (4 d c r')
  then show ?case
    by (cases y) (auto split: if_splits dest: comment_end_strict comment_end_shorter)
qed (auto split: if_splits)

lemma comment_end_closes: "comment_end (Suc d) s = Some r \<Longrightarrow> \<exists>u. s = u @ CHR ''/'' # r"
proof (induction "Suc d" s arbitrary: d r rule: comment_end.induct)
  case (2 d c c' s)
  show ?case
  proof (cases "c = CHR ''*'' \<and> c' = CHR ''/''")
    case True
    show ?thesis
    proof (cases d)
      case 0
      with 2 True show ?thesis by (auto intro: exI [of _ "[c]"])
    next
      case (Suc d')
      with 2 True obtain u where "s = u @ CHR ''/'' # r" by auto
      then show ?thesis by (auto intro: exI [of _ "c # c' # u"])
    qed
  next
    case False
    show ?thesis
    proof (cases "c = CHR ''/'' \<and> c' = CHR ''*''")
      case True
      with 2 obtain u where "s = u @ CHR ''/'' # r" by auto
      then show ?thesis by (auto intro: exI [of _ "c # c' # u"])
    next
      case no: False
      have "\<exists>u. c' # s = u @ CHR ''/'' # r" by (rule 2(3)) (use False no 2(4) in auto)
      then obtain u where "c' # s = u @ CHR ''/'' # r" ..
      then show ?thesis by (auto intro: exI [of _ "c # u"])
    qed
  qed
qed simp_all

lemma read_quoted_append:
  "read_quoted q bs a = Some (v, r) \<Longrightarrow> x \<noteq> q \<Longrightarrow> q \<noteq> CHR 0x5C \<Longrightarrow> read_quoted q bs (a @ x # y) = Some (v, r @ x # y)"
  by (induction q bs a arbitrary: v r rule: read_quoted.induct) (auto split: if_splits)

lemma read_quoted_cut:
  "read_quoted q bs (a @ y) = Some (v, r') \<Longrightarrow> length y \<le> length r' \<Longrightarrow>
   \<exists>r. r' = r @ y \<and> read_quoted q bs a = Some (v, r)"
proof (induction q bs a arbitrary: v r' rule: read_quoted.induct)
  case (1 q bs)
  then show ?case using read_quoted_shorter [of q bs y v r'] by simp
next
  case (2 q bs c)
  then show ?case
    by (cases y) (auto split: if_splits dest: read_quoted_shorter)
qed (auto split: if_splits)

lemma read_quoted_closes: "read_quoted q bs s = Some (v, r) \<Longrightarrow> \<exists>u. s = u @ q # r"
proof (induction q bs s arbitrary: v r rule: read_quoted.induct)
  case (3 q bs c c' s)
  have one: "\<exists>u. c # c' # s = u @ q # r" if "\<exists>u. c' # s = u @ q # r" using that by (metis append_Cons)
  have two: "\<exists>u. c # c' # s = u @ q # r" if "\<exists>u. s = u @ q # r" using that by (metis append_Cons)
  from 3 one two show ?case by (auto split: if_splits intro: exI [of _ "[]"])
qed (auto split: if_splits)

lemma find_sub_Some_iff:
  "find_sub p s = Some (v, r) \<longleftrightarrow> s = v @ p @ r \<and> (\<forall>u w. s = u @ p @ w \<longrightarrow> length v \<le> length u)"
proof (induction p s arbitrary: v r rule: find_sub.induct)
  case (1 p s)
  show ?case
  proof (cases "prefix p s")
    case True
    then obtain z where z: "s = p @ z" by (auto simp: prefix_def)
    have "v = []" if "\<forall>u w. s = u @ p @ w \<longrightarrow> length v \<le> length u"
      using spec [OF spec [OF that, of "[]"], of z] z by simp
    with True z show ?thesis by (subst find_sub.simps) auto
  next
    case no: False
    show ?thesis
    proof (cases s)
      case Nil
      with no show ?thesis by (subst find_sub.simps) (auto simp: prefix_def)
    next
      case (Cons c s')
      have IH: "find_sub p s' = Some (v', r) \<longleftrightarrow>
          s' = v' @ p @ r \<and> (\<forall>u w. s' = u @ p @ w \<longrightarrow> length v' \<le> length u)" for v' r
        using 1 [OF no Cons] .
      have shift: "(\<forall>u w. s = u @ p @ w \<longrightarrow> length v \<le> length u) \<longleftrightarrow>
          (\<forall>u w. s' = u @ p @ w \<longrightarrow> length v \<le> Suc (length u))" for v
      proof (intro iffI allI impI)
        fix u w assume H: "\<forall>u w. s = u @ p @ w \<longrightarrow> length v \<le> length u" and e: "s' = u @ p @ w"
        show "length v \<le> Suc (length u)" using spec [OF spec [OF H, of "c # u"], of w] e Cons by simp
      next
        fix u w assume H: "\<forall>u w. s' = u @ p @ w \<longrightarrow> length v \<le> Suc (length u)" and e: "s = u @ p @ w"
        with no obtain u' where u: "u = c # u'" using Cons by (cases u) (auto simp: prefix_def)
        show "length v \<le> length u" using spec [OF spec [OF H, of u'], of w] e Cons u by simp
      qed
      have "find_sub p s = Some (v, r) \<longleftrightarrow> (\<exists>v'. v = c # v' \<and> find_sub p s' = Some (v', r))"
        using no Cons by (subst find_sub.simps) auto
      also have "\<dots> \<longleftrightarrow> s = v @ p @ r \<and> (\<forall>u w. s = u @ p @ w \<longrightarrow> length v \<le> length u)"
        unfolding shift IH using no Cons by (cases v) (auto simp: prefix_def)
      finally show ?thesis .
    qed
  qed
qed

lemma find_sub_append: "find_sub p a = Some (v, r) \<Longrightarrow> find_sub p (a @ y) = Some (v, r @ y)"
  unfolding find_sub_Some_iff
proof (intro conjI allI impI)
  fix u w assume a: "a = v @ p @ r \<and> (\<forall>u w. a = u @ p @ w \<longrightarrow> length v \<le> length u)" and e: "a @ y = u @ p @ w"
  show "length v \<le> length u"
  proof (cases "length (u @ p) \<le> length a")
    case True
    with e have "a = u @ p @ drop (length (u @ p)) a" by (metis append.assoc append_eq_append_conv_if append_take_drop_id)
    with a show ?thesis by blast
  next
    case False
    with a show ?thesis by auto
  qed
qed simp

lemma find_sub_cut:
  "find_sub p (a @ y) = Some (v, r') \<Longrightarrow> length y \<le> length r' \<Longrightarrow> \<exists>r. r' = r @ y \<and> find_sub p a = Some (v, r)"
proof -
  assume f: "find_sub p (a @ y) = Some (v, r')" and y: "length y \<le> length r'"
  let ?r = "take (length r' - length y) r'"
  have "a @ y = (v @ p) @ r'" using f by (simp add: find_sub_Some_iff)
  with y have r: "r' = ?r @ y" and a: "a = v @ p @ ?r"
    by (auto simp: append_eq_append_conv2)
  have "length v \<le> length u" if "a = u @ p @ w" for u w
    using f that unfolding find_sub_Some_iff by (metis append.assoc)
  with r a show ?thesis by (auto simp: find_sub_Some_iff)
qed

lemma dollar_tag_append:
  assumes "\<not> tag_part x" "x \<noteq> CHR ''$''"
  shows "dollar_tag (a @ x # y) = map_option (\<lambda>(t, r). (t, r @ x # y)) (dollar_tag a)"
proof -
  have x: "\<not> word_start x" using assms(1) by (auto simp: tag_part_def word_start_def)
  have "takeWhile tag_part (a @ x # y) = takeWhile tag_part a" using assms(1) by (induction a) auto
  moreover have "drop (length (takeWhile tag_part a)) (a @ x # y) = drop (length (takeWhile tag_part a)) a @ x # y"
    using length_takeWhile_le [of tag_part a] by simp
  ultimately show ?thesis using assms x by (cases a) (auto simp: dollar_tag_def Let_def hd_append)
qed

lemma takeWhile_stop: "\<not> P x \<Longrightarrow> takeWhile P (a @ x # y) = takeWhile P a"
  by (induction a) auto

lemma drop_taken: "drop (length (takeWhile P a)) (a @ y) = drop (length (takeWhile P a)) a @ y"
  using length_takeWhile_le [of P a] by simp

lemma exponent_append:
  assumes "\<not> py_isdigit x" "x \<notin> {CHR ''e'', CHR ''E'', CHR ''+'', CHR ''-''}"
  shows "exponent (a @ x # y) = exponent a"
proof (cases a)
  case Nil
  with assms show ?thesis by (simp add: exponent_def)
next
  case (Cons e r)
  have t: "takeWhile py_isdigit (r @ x # y) = takeWhile py_isdigit r" by (rule takeWhile_stop) (rule assms(1))
  show ?thesis
  proof (cases r)
    case Nil
    with Cons assms show ?thesis by (auto simp: exponent_def Let_def)
  next
    case (Cons c r')
    have "takeWhile py_isdigit (r' @ x # y) = takeWhile py_isdigit r'" by (rule takeWhile_stop) (rule assms(1))
    with \<open>a = e # r\<close> Cons t show ?thesis by (simp add: exponent_def Let_def)
  qed
qed

lemma number_append:
  assumes "\<not> py_isdigit x" "x \<notin> {CHR ''.'', CHR ''e'', CHR ''E'', CHR ''+'', CHR ''-''}"
  shows "number (a @ x # y) = number a"
proof -
  let ?ds = "takeWhile py_isdigit a" and ?r = "drop (length (takeWhile py_isdigit a)) a"
  let ?frac = "if ?r \<noteq> [] \<and> hd ?r = CHR ''.'' then CHR ''.'' # takeWhile py_isdigit (tl ?r) else []"
  have ds: "takeWhile py_isdigit (a @ x # y) = ?ds" by (rule takeWhile_stop) (rule assms(1))
  have frac: "(if ?r @ x # y \<noteq> [] \<and> hd (?r @ x # y) = CHR ''.''
      then CHR ''.'' # takeWhile py_isdigit (tl (?r @ x # y)) else []) = ?frac"
    using assms takeWhile_stop [of py_isdigit x "tl ?r" y] by (cases ?r) auto
  have "length (?ds @ ?frac) \<le> length a"
  proof -
    have "length ?frac \<le> length ?r"
      using length_takeWhile_le [of py_isdigit "tl ?r"] by (cases ?r) auto
    then show ?thesis using length_takeWhile_le [of py_isdigit a] by simp
  qed
  then have "drop (length (?ds @ ?frac)) (a @ x # y) = drop (length (?ds @ ?frac)) a @ x # y" by simp
  then show ?thesis
    unfolding number_def Let_def ds drop_taken frac using assms by (simp add: exponent_append)
qed

lemma length_number: "starts_number a \<Longrightarrow> length (number a) \<le> length a"
proof -
  let ?ds = "takeWhile py_isdigit a" and ?r = "drop (length (takeWhile py_isdigit a)) a"
  let ?frac = "if ?r \<noteq> [] \<and> hd ?r = CHR ''.'' then CHR ''.'' # takeWhile py_isdigit (tl ?r) else []"
  have e: "length (exponent s) \<le> length s" for s
  proof (cases s)
    case (Cons e r)
    then show ?thesis
      using length_takeWhile_le [of py_isdigit r] length_takeWhile_le [of py_isdigit "tl r"]
      by (cases r) (auto simp: exponent_def Let_def)
  qed (simp add: exponent_def)
  have "length ?frac \<le> length ?r"
    using length_takeWhile_le [of py_isdigit "tl ?r"] by (cases ?r) auto
  then have "length (?ds @ ?frac) \<le> length a" using length_takeWhile_le [of py_isdigit a] by simp
  then show ?thesis unfolding number_def Let_def using e [of "drop (length (?ds @ ?frac)) a"] by simp
qed

text \<open>What a text may be cut before: a blank or a semicolon.\<close>

definition stops :: "char \<Rightarrow> bool" where
  "stops x = (py_isspace x \<or> x = CHR '';'')"

lemma stops_not:
  assumes "stops x"
  shows "\<not> py_isdigit x" "\<not> word_start x" "\<not> word_part x" "\<not> tag_part x"
    "x \<notin> {CHR ''.'', CHR ''e'', CHR ''E'', CHR ''+'', CHR ''-'', CHR ''*'', CHR ''/'', CHR ''$'', CHR 0x27, CHR 0x22}"
  using assms unfolding stops_def word_start_def word_part_def tag_part_def py_isspace_def py_isdigit_def
    is_upper_def is_lower_def Let_def
  by (auto simp: of_char_def)

section \<open>One token\<close>

lemma prefix_two: "x \<noteq> q \<Longrightarrow> prefix [p, q] (c # s @ x # y) = prefix [p, q] (c # s)"
  by (cases s) auto

lemma hd_stop: "s @ x # y \<noteq> [] \<and> P (hd (s @ x # y)) \<longleftrightarrow> s \<noteq> [] \<and> P (hd s)" if "\<not> P x"
  using that by (cases s) auto

text \<open>A line comment that runs to the end of the text.\<close>

definition open_comment :: "string \<Rightarrow> bool" where
  "open_comment a = (prefix ''--'' a \<and> CHR 0x0A \<notin> set a)"

lemma line_found:
  "v \<in> set s \<Longrightarrow> drop 1 (dropWhile (\<lambda>c. c \<noteq> v) (s @ y)) = drop 1 (dropWhile (\<lambda>c. c \<noteq> v) s) @ y"
  by (induction s) auto

lemma line_missing: "v \<notin> set s \<Longrightarrow> dropWhile (\<lambda>c. c \<noteq> v) (s @ y) = dropWhile (\<lambda>c. c \<noteq> v) y"
  by (induction s) auto

text \<open>The branch of the round, and the round in that branch.\<close>

datatype branch = Blank | Line | Block | Quote | Dollar | Wordy | Numeric | Mark

definition branch :: "char \<Rightarrow> string \<Rightarrow> branch" where
  "branch c s =
     (if py_isspace c then Blank else if prefix ''--'' (c # s) then Line else if prefix ''/*'' (c # s) then Block
      else if c = CHR 0x27 \<or> c = CHR 0x22 then Quote else if c = CHR ''$'' then Dollar
      else if word_start c then Wordy else if starts_number (c # s) then Numeric else Mark)"

definition quote_token :: "char \<Rightarrow> nat \<Rightarrow> string \<Rightarrow> (string, token option \<times> string) result" where
  "quote_token c i s =
     (case read_quoted c False s of
        None \<Rightarrow> Inl (if c = CHR 0x27 then ''Unterminated string'' else ''Unterminated quoted identifier'')
      | Some (v, r) \<Rightarrow> Inr (Some (if c = CHR 0x27 then token String (take (length s - length r - 1) s) i
                              else token Qword v i), r))"

definition dollar_token :: "nat \<Rightarrow> string \<Rightarrow> (string, token option \<times> string) result" where
  "dollar_token i s =
     (if s \<noteq> [] \<and> py_isdigit (hd s)
      then Inl ''Positional parameters ($1) are not supported; inline literal values''
      else case dollar_tag s of None \<Rightarrow> Inr (Some (token Punct ''$'' i), s)
      | Some (tag, r) \<Rightarrow> (case find_sub tag r of None \<Rightarrow> Inl ''Unterminated dollar-quoted string''
          | Some (v, r') \<Rightarrow> Inr (Some (token String v i), r')))"

definition word_token :: "nat \<Rightarrow> string \<Rightarrow> string \<Rightarrow> (string, token option \<times> string) result" where
  "word_token i w r =
     (if length w = 1 \<and> py_lower w \<in> {''e'', ''b'', ''x''} \<and> r \<noteq> [] \<and> hd r = CHR 0x27 then
        (case read_quoted (CHR 0x27) (py_lower w = ''e'') (tl r) of None \<Rightarrow> Inl ''Unterminated string''
         | Some (_, r') \<Rightarrow> Inr (Some (token String (take (length (tl r) - length r' - 1) (tl r)) i), r'))
      else Inr (Some (token Word (py_lower w) i), r))"

lemma lexeme_branch:
  "lexeme i (c # s) =
     (case branch c s of Blank \<Rightarrow> Inr (None, s)
      | Line \<Rightarrow> Inr (None, drop 1 (dropWhile (\<lambda>x. x \<noteq> CHR 0x0A) s))
      | Block \<Rightarrow> (case comment_end 1 (drop 1 s) of None \<Rightarrow> Inl ''Unterminated comment'' | Some r \<Rightarrow> Inr (None, r))
      | Quote \<Rightarrow> quote_token c i s
      | Dollar \<Rightarrow> dollar_token i s
      | Wordy \<Rightarrow> word_token i (takeWhile word_part (c # s)) (drop (length (takeWhile word_part (c # s))) (c # s))
      | Numeric \<Rightarrow> Inr (Some (token Number (number (c # s)) i), drop (length (number (c # s))) (c # s))
      | Mark \<Rightarrow> Inr (Some (token Punct [c] i), s))"
proof (cases "c = CHR 0x27 \<or> c = CHR 0x22")
  case True
  then have "\<not> py_isspace c" "\<not> prefix ''--'' (c # s)" "\<not> prefix ''/*'' (c # s)"
    by (auto simp: py_isspace_def)
  moreover have "CHR 0x22 \<noteq> CHR 0x27" by simp
  ultimately show ?thesis using True
    by (cases "c = CHR 0x27") (simp_all only: lexeme.simps branch_def quote_token_def branch.case if_True if_False
        simp_thms disj_not1 split: if_split)
next
  case False
  show ?thesis
  proof (cases "c = CHR ''$''")
    case True
    then have "\<not> py_isspace c" "\<not> prefix ''--'' (c # s)" "\<not> prefix ''/*'' (c # s)"
      by (auto simp: py_isspace_def)
    with True show ?thesis by (simp only: lexeme.simps branch_def dollar_token_def branch.case if_True if_False) simp
  next
    case no: False
    show ?thesis
      by (cases "py_isspace c"; cases "prefix ''--'' (c # s)"; cases "prefix ''/*'' (c # s)"; cases "word_start c";
          cases "starts_number (c # s)")
         (use False no in \<open>simp_all only: lexeme.simps branch_def word_token_def Let_def branch.case if_False if_True simp_thms
            de_Morgan_disj\<close>)
  qed
qed

text \<open>The conditions the branches of a round test are the same on the longer text.\<close>

lemma same_branch:
  assumes "stops x"
  shows "prefix ''--'' (c # s @ x # y) = prefix ''--'' (c # s)"
    "prefix ''/*'' (c # s @ x # y) = prefix ''/*'' (c # s)"
    "(s @ x # y \<noteq> [] \<and> py_isdigit (hd (s @ x # y))) = (s \<noteq> [] \<and> py_isdigit (hd s))"
    "starts_number (c # s @ x # y) = starts_number (c # s)"
    "takeWhile word_part (c # s @ x # y) = takeWhile word_part (c # s)"
    "drop (length (takeWhile word_part (c # s))) (c # s @ x # y) =
     drop (length (takeWhile word_part (c # s))) (c # s) @ x # y"
proof -
  note no = stops_not [OF assms]
  show "prefix ''--'' (c # s @ x # y) = prefix ''--'' (c # s)" by (rule prefix_two) (use no(5) in auto)
  show "prefix ''/*'' (c # s @ x # y) = prefix ''/*'' (c # s)" by (rule prefix_two) (use no(5) in auto)
  show "(s @ x # y \<noteq> [] \<and> py_isdigit (hd (s @ x # y))) = (s \<noteq> [] \<and> py_isdigit (hd s))"
    using hd_stop [of py_isdigit x s y] no(1) by blast
  then show "starts_number (c # s @ x # y) = starts_number (c # s)" by (simp add: starts_number_def)
  show "takeWhile word_part (c # s @ x # y) = takeWhile word_part (c # s)"
    using takeWhile_stop [of word_part x "c # s" y] no(3) by simp
  show "drop (length (takeWhile word_part (c # s))) (c # s @ x # y) =
     drop (length (takeWhile word_part (c # s))) (c # s) @ x # y"
    using drop_taken [of word_part "c # s" "x # y"] by simp
qed

text \<open>Reading a quoted text on the longer text, as far as the quote is closed in the shorter.\<close>

lemma quoted_same:
  assumes "stops x" "q \<in> {CHR 0x27, CHR 0x22}" "read_quoted q bs a = Some (v, r)"
  shows "read_quoted q bs (a @ x # y) = Some (v, r @ x # y)"
    "take (length (a @ x # y) - length (r @ x # y) - 1) (a @ x # y) = take (length a - length r - 1) a"
  using read_quoted_append [OF assms(3)] stops_not(5) [OF assms(1)] assms(2) read_quoted_shorter [OF assms(3)] by auto

declare lexeme.simps(2) [simp del]

lemma branch_same:
  assumes "stops x" shows "branch c (s @ x # y) = branch c s"
  unfolding branch_def same_branch [OF assms] ..

lemma numeric_same:
  assumes "stops x" "branch c s = Numeric"
  shows "number (c # s @ x # y) = number (c # s)"
    "drop (length (number (c # s))) (c # s @ x # y) = drop (length (number (c # s))) (c # s) @ x # y"
proof -
  have n: "starts_number (c # s)" using assms(2) by (auto simp: branch_def split: if_splits)
  show "number (c # s @ x # y) = number (c # s)" using number_append [of x "c # s" y] stops_not [OF assms(1)] by auto
  have "drop (length (number (c # s))) ((c # s) @ x # y) = drop (length (number (c # s))) (c # s) @ x # y"
    unfolding drop_append using length_number [OF n] by simp
  then show "drop (length (number (c # s))) (c # s @ x # y) = drop (length (number (c # s))) (c # s) @ x # y" by simp
qed

lemma block_start: "branch c s = Block \<Longrightarrow> \<exists>s'. s = CHR ''*'' # s'"
  by (cases s) (auto simp: branch_def split: if_splits)

lemma quote_token_append:
  assumes "stops x" "c \<in> {CHR 0x27, CHR 0x22}" "quote_token c i s = Inr (t, r)"
  shows "quote_token c i (s @ x # y) = Inr (t, r @ x # y)"
proof -
  obtain v where v: "read_quoted c False s = Some (v, r)"
    using assms(3) by (auto simp: quote_token_def split: option.splits)
  show ?thesis using assms(3) unfolding quote_token_def quoted_same [OF assms(1,2) v, of y] v by (auto split: if_splits)
qed

lemma dollar_token_append:
  assumes "stops x" "dollar_token i s = Inr (t, r)"
  shows "dollar_token i (s @ x # y) = Inr (t, r @ x # y)"
proof -
  note no = stops_not [OF assms(1)]
  have d: "\<not> (s @ x # y \<noteq> [] \<and> py_isdigit (hd (s @ x # y)))"
    using assms same_branch(3) [OF assms(1)] by (auto simp: dollar_token_def split: if_splits)
  have tag: "dollar_tag (s @ x # y) = map_option (\<lambda>(t, r). (t, r @ x # y)) (dollar_tag s)"
    using no by (intro dollar_tag_append) auto
  show ?thesis
  proof (cases "dollar_tag s")
    case None
    with assms(2) d show ?thesis unfolding dollar_token_def tag by (auto split: if_splits)
  next
    case (Some p)
    obtain t' r' where p: "p = (t', r')" by (cases p)
    with Some assms(2) obtain v where "find_sub t' r' = Some (v, r)"
      by (auto simp: dollar_token_def split: if_splits option.splits)
    with Some p assms(2) d find_sub_append [OF this, of "x # y"] show ?thesis
      unfolding dollar_token_def tag by (auto split: if_splits)
  qed
qed

lemma word_token_append:
  assumes "stops x" "word_token i w r = Inr (t, r')"
  shows "word_token i w (r @ x # y) = Inr (t, r' @ x # y)"
proof (cases "length w = 1 \<and> py_lower w \<in> {''e'', ''b'', ''x''} \<and> r \<noteq> [] \<and> hd r = CHR 0x27")
  case True
  then obtain v where v: "read_quoted (CHR 0x27) (py_lower w = ''e'') (tl r) = Some (v, r')"
    using assms(2) by (auto simp: word_token_def split: option.splits)
  have tl: "tl (r @ x # y) = tl r @ x # y" "hd (r @ x # y) = hd r" using True by (cases r, auto)+
  show ?thesis using True assms(2) quoted_same [OF assms(1) _ v, of y] v unfolding word_token_def tl
    by (auto split: if_splits)
next
  case False
  have "x \<noteq> CHR 0x27" using stops_not(5) [OF assms(1)] by auto
  with False have "\<not> (length w = 1 \<and> py_lower w \<in> {''e'', ''b'', ''x''} \<and> r @ x # y \<noteq> [] \<and> hd (r @ x # y) = CHR 0x27)"
    by (cases r) auto
  with False assms(2) show ?thesis unfolding word_token_def by (simp only: if_False) auto
qed

lemma lexeme_append:
  assumes x: "stops x" and l: "lexeme i a = Inr (t, r)" and a: "a \<noteq> []" "\<not> open_comment a"
  shows "lexeme i (a @ x # y) = Inr (t, r @ x # y)"
proof (cases a)
  case (Cons c s)
  note l = l [unfolded Cons lexeme_branch] and br = branch_same [OF x]
  show ?thesis
  proof (cases "branch c s")
    case Line
    then have "CHR 0x0A \<in> set s" using a(2) Cons by (auto simp: open_comment_def branch_def split: if_splits)
    with Line l show ?thesis unfolding Cons append_Cons lexeme_branch br
      using line_found [of "CHR 0x0A" s "x # y"] by (simp del: drop_append)
  next
    case Block
    then obtain s' where "s = CHR ''*'' # s'" using block_start by blast
    with Block l show ?thesis unfolding Cons append_Cons lexeme_branch br
      using comment_end_append [of 1 s' r "x # y"] by (auto split: option.splits)
  next
    case Quote
    then have "c \<in> {CHR 0x27, CHR 0x22}" by (auto simp: branch_def split: if_splits)
    with Quote l quote_token_append [OF x this] show ?thesis unfolding Cons append_Cons lexeme_branch br by simp
  next
    case Dollar
    with l dollar_token_append [OF x] show ?thesis unfolding Cons append_Cons lexeme_branch br by simp
  next
    case Wordy
    with l show ?thesis unfolding Cons append_Cons lexeme_branch br same_branch(5,6) [OF x]
      using word_token_append [OF x] by simp
  next
    case Numeric
    with numeric_same [OF x] l show ?thesis unfolding Cons append_Cons lexeme_branch br by simp
  qed (use l in \<open>simp_all add: Cons lexeme_branch br\<close>)
qed (use a in simp)

text \<open>The other way: a token that ends before the cut is a token of the shorter text.\<close>

lemma quoted_cut:
  assumes "read_quoted q bs (a @ y) = Some (v, r')" "length y \<le> length r'"
  shows "\<exists>r. r' = r @ y \<and> read_quoted q bs a = Some (v, r) \<and>
    take (length (a @ y) - length r' - 1) (a @ y) = take (length a - length r - 1) a"
proof -
  from read_quoted_cut [OF assms] obtain r where r: "r' = r @ y" "read_quoted q bs a = Some (v, r)" by blast
  then show ?thesis using read_quoted_shorter [OF r(2)] by auto
qed

lemma quote_token_cut:
  assumes "quote_token c i (s @ y) = Inr (t, r')" "length y \<le> length r'"
  shows "\<exists>r. r' = r @ y \<and> quote_token c i s = Inr (t, r)"
proof -
  obtain v where v: "read_quoted c False (s @ y) = Some (v, r')"
    using assms(1) by (auto simp: quote_token_def split: option.splits)
  from quoted_cut [OF v assms(2)] obtain r where r: "r' = r @ y" "read_quoted c False s = Some (v, r)"
    "take (length (s @ y) - length r' - 1) (s @ y) = take (length s - length r - 1) s" by blast
  show ?thesis using assms(1) r(1,2) unfolding quote_token_def v option.case prod.case r(3) by auto
qed

lemma dollar_token_cut:
  assumes "stops x" "dollar_token i (s @ x # y) = Inr (t, r')" "length (x # y) \<le> length r'"
  shows "\<exists>r. r' = r @ x # y \<and> dollar_token i s = Inr (t, r)"
proof -
  note no = stops_not [OF assms(1)]
  have d: "\<not> (s \<noteq> [] \<and> py_isdigit (hd s))"
    using assms same_branch(3) [OF assms(1)] by (auto simp: dollar_token_def split: if_splits)
  have d': "\<not> (s @ x # y \<noteq> [] \<and> py_isdigit (hd (s @ x # y)))" using d same_branch(3) [OF assms(1)] by blast
  have tag: "dollar_tag (s @ x # y) = map_option (\<lambda>(t, r). (t, r @ x # y)) (dollar_tag s)"
    using no by (intro dollar_tag_append) auto
  note e = assms(2) [unfolded dollar_token_def if_not_P [OF d'] tag]
  show ?thesis
  proof (cases "dollar_tag s")
    case None
    with e d show ?thesis unfolding dollar_token_def if_not_P [OF d] by simp
  next
    case (Some p)
    obtain t' r0 where p: "p = (t', r0)" by (cases p)
    with Some e obtain v where f: "find_sub t' (r0 @ x # y) = Some (v, r')" and t: "t = Some (token String v i)"
      by (auto split: option.splits)
    from find_sub_cut [OF f assms(3)] obtain r where "r' = r @ x # y" "find_sub t' r0 = Some (v, r)" by blast
    with Some p t show ?thesis unfolding dollar_token_def if_not_P [OF d] by simp
  qed
qed

lemma word_token_cut:
  assumes "stops x" "word_token i w (r @ x # y) = Inr (t, r')" "length (x # y) \<le> length r'"
  shows "\<exists>r0. r' = r0 @ x # y \<and> word_token i w r = Inr (t, r0)"
proof -
  have "x \<noteq> CHR 0x27" using stops_not(5) [OF assms(1)] by auto
  then have h: "(r @ x # y \<noteq> [] \<and> hd (r @ x # y) = CHR 0x27) = (r \<noteq> [] \<and> hd r = CHR 0x27)" by (cases r) auto
  show ?thesis
  proof (cases "length w = 1 \<and> py_lower w \<in> {''e'', ''b'', ''x''} \<and> r \<noteq> [] \<and> hd r = CHR 0x27")
    case True
    have tl: "tl (r @ x # y) = tl r @ x # y" using True by (cases r) auto
    obtain v where v: "read_quoted (CHR 0x27) (py_lower w = ''e'') (tl r @ x # y) = Some (v, r')"
      using assms(2) True h unfolding word_token_def tl by (auto split: option.splits if_splits)
    from quoted_cut [OF v assms(3)] obtain r0 where r0: "r' = r0 @ x # y"
      "read_quoted (CHR 0x27) (py_lower w = ''e'') (tl r) = Some (v, r0)"
      "take (length (tl r @ x # y) - length r' - 1) (tl r @ x # y) = take (length (tl r) - length r0 - 1) (tl r)" by blast
    have "t = Some (token String (take (length (tl r @ x # y) - length r' - 1) (tl r @ x # y)) i)"
      using assms(2) True h v unfolding word_token_def tl by (auto split: if_splits)
    then show ?thesis using r0(1,2) True unfolding r0(3) word_token_def by auto
  next
    case False
    with h have "\<not> (length w = 1 \<and> py_lower w \<in> {''e'', ''b'', ''x''} \<and> r @ x # y \<noteq> [] \<and> hd (r @ x # y) = CHR 0x27)"
      by blast
    with False assms(2) show ?thesis unfolding word_token_def by (simp only: if_False) auto
  qed
qed

lemma lexeme_cut:
  assumes x: "stops x" and l: "lexeme i (a @ x # y) = Inr (t, r')" and a: "a \<noteq> []" "length (x # y) \<le> length r'"
  shows "\<exists>r. r' = r @ x # y \<and> lexeme i a = Inr (t, r)"
proof (cases a)
  case (Cons c s)
  note br = branch_same [OF x]
  note l = l [unfolded Cons append_Cons lexeme_branch br]
  show ?thesis
  proof (cases "branch c s")
    case Line
    show ?thesis
    proof (cases "CHR 0x0A \<in> set s")
      case True
      with Line l show ?thesis unfolding Cons lexeme_branch
        using line_found [of "CHR 0x0A" s "x # y"] by (simp del: drop_append)
    next
      case False
      have "length (drop 1 (dropWhile (\<lambda>c. c \<noteq> CHR 0x0A) (x # y))) < length (x # y)"
        using length_dropWhile_le [of "\<lambda>c. c \<noteq> CHR 0x0A" y] by (simp add: less_Suc_eq_le le_diff_conv le_SucI)
      with Line l a(2) line_missing [OF False, of "x # y"] show ?thesis by auto
    qed
  next
    case Block
    then obtain s' where "s = CHR ''*'' # s'" using block_start by blast
    with Block l show ?thesis unfolding Cons lexeme_branch
      using comment_end_cut [of 1 s' "x # y" r'] a(2) by (auto split: option.splits)
  next
    case Quote
    with l quote_token_cut [OF _ a(2)] show ?thesis unfolding Cons lexeme_branch by simp
  next
    case Dollar
    with l dollar_token_cut [OF x _ a(2)] show ?thesis unfolding Cons lexeme_branch by simp
  next
    case Wordy
    with l show ?thesis unfolding Cons lexeme_branch same_branch(5,6) [OF x]
      using word_token_cut [OF x _ a(2)] by simp
  next
    case Numeric
    with numeric_same [OF x] l show ?thesis unfolding Cons lexeme_branch by simp
  qed (use l in \<open>simp_all add: Cons lexeme_branch\<close>)
qed (use a in simp)

section \<open>All tokens\<close>

text \<open>Kinds and values, wherever the text stands.\<close>

definition kv :: "token \<Rightarrow> tk_kind \<times> string" where
  "kv t = (tk_kind t, tk_value t)"

definition at :: "nat \<Rightarrow> token \<Rightarrow> token" where
  "at i t = t\<lparr>tk_pos := i\<rparr>"

lemma kv_at [simp]: "kv (at i t) = kv t"
  by (simp add: kv_def at_def)

lemma quote_token_at: "quote_token c j s = Inr (t, r) \<Longrightarrow> quote_token c i s = Inr (map_option (at i) t, r)"
  by (auto simp: quote_token_def at_def split: option.splits)

lemma dollar_token_at: "dollar_token j s = Inr (t, r) \<Longrightarrow> dollar_token i s = Inr (map_option (at i) t, r)"
  by (auto simp: dollar_token_def at_def split: option.splits if_splits)

lemma word_token_at: "word_token j w s = Inr (t, r) \<Longrightarrow> word_token i w s = Inr (map_option (at i) t, r)"
  by (auto simp: word_token_def at_def split: option.splits if_splits)

lemma lexeme_at: "lexeme j s = Inr (t, r) \<Longrightarrow> lexeme i s = Inr (map_option (at i) t, r)"
proof (cases s)
  case (Cons c s')
  assume "lexeme j s = Inr (t, r)"
  then show ?thesis unfolding Cons lexeme_branch
    by (cases "branch c s'") (auto simp: at_def split: option.splits
        dest: quote_token_at dollar_token_at word_token_at)
qed simp

definition scan :: "string \<Rightarrow> (tk_kind \<times> string) list option" where
  "scan s = (case tokenize_from 0 s of Inl e \<Rightarrow> None | Inr ts \<Rightarrow> Some (map kv ts))"

lemma tokenize_kv: "tokenize_from i s = Inr ts \<Longrightarrow> \<exists>us. tokenize_from j s = Inr us \<and> map kv us = map kv ts"
proof (induction i s arbitrary: ts j rule: tokenize_from.induct)
  case (1 i s)
  show ?case
  proof (cases "s = []")
    case False
    with 1(2) obtain t r vs where l: "lexeme i s = Inr (t, r)"
      and r: "tokenize_from (i + (length s - length r)) r = Inr vs"
      and ts: "ts = (case t of None \<Rightarrow> vs | Some t \<Rightarrow> t # vs)"
      by (subst (asm) tokenize_from.simps) auto
    from 1(1) [OF False l refl r] obtain us
      where "tokenize_from (j + (length s - length r)) r = Inr us" "map kv us = map kv vs" by blast
    then show ?thesis using lexeme_at [OF l, of j] False ts
      by (subst tokenize_from.simps) (auto split: option.splits)
  qed (use 1(2) in \<open>auto simp: tokenize_from.simps\<close>)
qed

lemma tokenize_scan: "tokenize_from i s = Inr ts \<Longrightarrow> scan s = Some (map kv ts)"
  using tokenize_kv [of i s ts 0] by (auto simp: scan_def)

lemma scan_tokenize: "scan s = Some us \<Longrightarrow> \<exists>ts. tokenize_from i s = Inr ts \<and> map kv ts = us"
  using tokenize_kv [of 0 s _ i] by (fastforce simp: scan_def split: sum.splits)

lemma scan_Nil [simp]: "scan [] = Some []"
  by (simp add: scan_def tokenize_from.simps)

text \<open>The first token, if the first round appends one, and the others.\<close>

lemma scan_step:
  assumes "lexeme i s = Inr (t, r)" "s \<noteq> []"
  shows "scan s = map_option (\<lambda>us. case t of None \<Rightarrow> us | Some t \<Rightarrow> kv t # us) (scan r)"
proof -
  have l: "lexeme 0 s = Inr (map_option (at 0) t, r)" using assms(1) by (rule lexeme_at)
  show ?thesis
  proof (cases "tokenize_from (length s - length r) r")
    case (Inr us)
    then show ?thesis using tokenize_scan [OF Inr] l assms(2)
      by (simp add: scan_def [of s] tokenize_from.simps [of 0 s] split: option.splits)
  next
    case (Inl e)
    then have "scan r = None" using scan_tokenize [of r _ "length s - length r"] by (cases "scan r") auto
    then show ?thesis using Inl l assms(2) by (simp add: scan_def [of s] tokenize_from.simps [of 0 s])
  qed
qed

lemma scan_Some:
  assumes "scan s = Some us" "s \<noteq> []"
  shows "\<exists>t r vs. lexeme i s = Inr (t, r) \<and> scan r = Some vs \<and> us = (case t of None \<Rightarrow> vs | Some t \<Rightarrow> kv t # vs)"
proof -
  obtain ts where "tokenize_from i s = Inr ts" using scan_tokenize [OF assms(1)] by blast
  then obtain t r where l: "lexeme i s = Inr (t, r)" using assms(2) by (subst (asm) tokenize_from.simps) auto
  obtain vs where "scan r = Some vs" using scan_step [OF l assms(2)] assms(1) by (cases "scan r") auto
  then show ?thesis using scan_step [OF l assms(2)] l assms(1) by auto
qed

text \<open>Text in front of a newline and more text: its tokens, and then those of the rest.\<close>

lemma scan_append:
  assumes "scan a = Some us" "scan b = Some vs"
  shows "scan (a @ CHR 0x0A # b) = Some (us @ vs)"
  using assms(1)
proof (induction a arbitrary: us rule: length_induct)
  case (1 a)
  have nl: "stops (CHR 0x0A)" by (simp add: stops_def py_isspace_def)
  have b: "scan (CHR 0x0A # b) = Some vs"
    using scan_step [of 0 "CHR 0x0A # b" None b] assms(2) by (simp add: lexeme.simps(2) py_isspace_def)
  show ?case
  proof (cases "a = []")
    case True
    with 1(2) b show ?thesis by simp
  next
    case ne: False
    obtain t r ws where l: "lexeme 0 a = Inr (t, r)" and r: "scan r = Some ws"
      and us: "us = (case t of None \<Rightarrow> ws | Some t \<Rightarrow> kv t # ws)" using scan_Some [OF 1(2) ne, of 0] by blast
    show ?thesis
    proof (cases "open_comment a")
      case True
      then obtain s where a: "a = CHR ''-'' # CHR ''-'' # s" "CHR 0x0A \<notin> set s"
        by (auto simp: open_comment_def prefix_def)
      have br: "branch (CHR ''-'') (CHR ''-'' # s') = Line" for s' by (simp add: branch_def py_isspace_def)
      have "length (dropWhile (\<lambda>c. c \<noteq> CHR 0x0A) s) \<le> Suc 0"
        "dropWhile (\<lambda>c. c \<noteq> CHR 0x0A) (s @ CHR 0x0A # b) = CHR 0x0A # b"
        using line_missing [OF a(2), of "[]"] line_missing [OF a(2), of "CHR 0x0A # b"]
        by (metis append_Nil2 dropWhile.simps(1) le0 list.size(3), simp)
      then have e: "lexeme 0 a = Inr (None, [])" "lexeme 0 (a @ CHR 0x0A # b) = Inr (None, b)"
        unfolding a(1) append_Cons lexeme_branch br by simp_all
      then show ?thesis using scan_step [OF e(2)] l r us assms(2) ne by simp
    next
      case False
      have "scan (r @ CHR 0x0A # b) = Some (ws @ vs)"
        using 1(1) lexeme_shorter [OF l ne] r by blast
      then show ?thesis using scan_step [OF lexeme_append [OF nl l ne False, of b]] us ne
        by (auto split: option.splits)
    qed
  qed
qed

lemma scan_blank: "py_isspace c \<Longrightarrow> scan (c # s) = scan s"
  using scan_step [of 0 "c # s" None s] by (simp add: lexeme_branch branch_def option.map_ident)

lemma scan_blanks: "\<forall>c \<in> set ws. py_isspace c \<Longrightarrow> scan (ws @ s) = scan s"
  by (induction ws) (simp_all add: scan_blank)

text \<open>A token that reaches into the blanks behind a text is a line comment: every other one has a closing mark.\<close>

lemma mark_stays:
  assumes e: "a @ y = u @ q # r" and "q \<notin> set y"
  shows "length y \<le> length r"
proof (rule ccontr)
  assume "\<not> length y \<le> length r"
  moreover have "length u + Suc (length r) = length a + length y" using arg_cong [OF e, of length] by simp
  ultimately have "length a \<le> length u" by simp
  with e have "y = drop (length a) u @ q # r" by (simp add: append_eq_append_conv_if)
  then have "set y = set (drop (length a) u @ q # r)" by (rule arg_cong)
  with assms(2) show False by simp
qed

lemma quoted_stays:
  assumes "read_quoted q bs (a @ y) = Some (v, r)" "q \<notin> set y" shows "length y \<le> length r"
proof -
  obtain u where "a @ y = u @ q # r" using read_quoted_closes [OF assms(1)] by blast
  from this assms(2) show ?thesis by (rule mark_stays)
qed

lemma word_token_stays:
  assumes "stops x" "CHR 0x27 \<notin> set (x # y)" "word_token i w (r @ x # y) = Inr (t, r')"
  shows "length (x # y) \<le> length r'"
proof (cases "length w = 1 \<and> py_lower w \<in> {''e'', ''b'', ''x''} \<and> r @ x # y \<noteq> [] \<and> hd (r @ x # y) = CHR 0x27")
  case True
  have "tl (r @ x # y) = tl r @ x # y" using True assms(2) by (cases r) auto
  with True assms(3) obtain v where "read_quoted (CHR 0x27) (py_lower w = ''e'') (tl r @ x # y) = Some (v, r')"
    unfolding word_token_def by (auto split: option.splits if_splits)
  then show ?thesis by (rule quoted_stays) (rule assms(2))
next
  case False
  with assms(3) have "r' = r @ x # y" unfolding word_token_def by (simp only: if_False) auto
  then show ?thesis by simp
qed

lemma dollar_token_stays:
  assumes "stops x" "CHR ''$'' \<notin> set (x # y)" "dollar_token i (s @ x # y) = Inr (t, r')"
  shows "length (x # y) \<le> length r'"
proof -
  have d: "\<not> (s @ x # y \<noteq> [] \<and> py_isdigit (hd (s @ x # y)))" using assms(3) by (auto simp: dollar_token_def split: if_splits)
  have tag: "dollar_tag (s @ x # y) = map_option (\<lambda>(t, r). (t, r @ x # y)) (dollar_tag s)"
    using stops_not [OF assms(1)] by (intro dollar_tag_append) auto
  note e = assms(3) [unfolded dollar_token_def if_not_P [OF d] tag]
  show ?thesis
  proof (cases "dollar_tag s")
    case None
    with e have "r' = s @ x # y" by simp
    then show ?thesis by simp
  next
    case (Some p)
    obtain n r0 where p: "p = (''$'' @ n @ ''$'', r0)" using Some by (auto simp: dollar_tag_def Let_def split: if_splits)
    with Some e obtain v where "find_sub (''$'' @ n @ ''$'') (r0 @ x # y) = Some (v, r')" by (auto split: option.splits)
    then have "r0 @ x # y = (v @ ''$'' @ n) @ CHR ''$'' # r'" by (simp add: find_sub_Some_iff)
    from this assms(2) show ?thesis by (rule mark_stays)
  qed
qed

lemma lexeme_stays:
  assumes x: "\<forall>c \<in> set (x # y). py_isspace c" and l: "lexeme i (a @ x # y) = Inr (t, r')" and a: "a \<noteq> []" "\<not> open_comment a"
  shows "length (x # y) \<le> length r'"
proof (cases a)
  case (Cons c s)
  have st: "stops x" using x by (simp add: stops_def)
  have marks: "CHR 0x27 \<notin> set (x # y)" "CHR 0x22 \<notin> set (x # y)" "CHR ''$'' \<notin> set (x # y)" "CHR ''/'' \<notin> set (x # y)"
    using x by (auto simp: py_isspace_def)
  note br = branch_same [OF st]
  note l = l [unfolded Cons append_Cons lexeme_branch br]
  show ?thesis
  proof (cases "branch c s")
    case Line
    then have "CHR 0x0A \<in> set s" using a(2) Cons by (auto simp: open_comment_def branch_def split: if_splits)
    from line_found [OF this, of "x # y"] Line l
    have "r' = drop 1 (dropWhile (\<lambda>c. c \<noteq> CHR 0x0A) s) @ x # y" by simp
    then show ?thesis by simp
  next
    case Block
    then obtain s' where "s = CHR ''*'' # s'" using block_start by blast
    with Block l have "comment_end (Suc 0) (s' @ x # y) = Some r'" by (auto split: option.splits)
    then obtain u where "s' @ x # y = u @ CHR ''/'' # r'" using comment_end_closes by blast
    from this marks(4) show ?thesis by (rule mark_stays)
  next
    case Quote
    then have c: "c = CHR 0x27 \<or> c = CHR 0x22" by (auto simp: branch_def split: if_splits)
    from Quote l obtain v where "read_quoted c False (s @ x # y) = Some (v, r')"
      by (auto simp: quote_token_def split: option.splits)
    moreover have "c \<notin> set (x # y)" using c marks by auto
    ultimately show ?thesis by (rule quoted_stays)
  next
    case Dollar
    with l dollar_token_stays [OF st marks(3)] show ?thesis by simp
  next
    case Wordy
    with l show ?thesis unfolding same_branch(5,6) [OF st] using word_token_stays [OF st marks(1)] by simp
  next
    case Numeric
    with numeric_same [OF st] l show ?thesis by auto
  qed (use l in auto)
qed (use a in simp)

lemma open_comment_scan: "open_comment a \<Longrightarrow> scan a = Some []"
proof -
  assume "open_comment a"
  then obtain s where a: "a = CHR ''-'' # CHR ''-'' # s" "CHR 0x0A \<notin> set s"
    by (auto simp: open_comment_def prefix_def)
  have br: "branch (CHR ''-'') (CHR ''-'' # s) = Line" by (simp add: branch_def py_isspace_def)
  have "length (dropWhile (\<lambda>c. c \<noteq> CHR 0x0A) s) \<le> Suc 0"
    using line_missing [OF a(2), of "[]"] by (metis append_Nil2 dropWhile.simps(1) le0 list.size(3))
  then have e: "lexeme 0 a = Inr (None, [])" unfolding a(1) lexeme_branch br by simp
  show ?thesis using scan_step [OF e] a(1) by simp
qed

lemma open_comment_append:
  assumes "open_comment a" "lexeme i (a @ y) = Inr (t, r)"
  shows "t = None \<and> set r \<subseteq> set y"
proof -
  obtain s where a: "a = CHR ''-'' # CHR ''-'' # s" "CHR 0x0A \<notin> set s"
    using assms(1) by (auto simp: open_comment_def prefix_def)
  have br: "branch (CHR ''-'') (CHR ''-'' # s') = Line" for s' by (simp add: branch_def py_isspace_def)
  have "t = None" "r = drop 1 (dropWhile (\<lambda>c. c \<noteq> CHR 0x0A) (CHR ''-'' # s @ y))"
    using assms(2) unfolding a(1) append_Cons lexeme_branch br by simp_all
  moreover have "set (drop 1 (dropWhile (\<lambda>c. c \<noteq> CHR 0x0A) (CHR ''-'' # s @ y))) \<subseteq> set y"
    unfolding dropWhile.simps using line_missing [OF a(2), of y]
    by simp (meson in_set_dropD set_dropWhileD subsetI)
  ultimately show ?thesis by blast
qed

lemma scan_only_blanks: "\<forall>c \<in> set ws. py_isspace c \<Longrightarrow> scan ws = Some []"
  using scan_blanks [of ws "[]"] by simp

text \<open>Blanks behind a text add no token and change none.\<close>

lemma scan_trailing:
  assumes "scan (a @ ws) = Some us" "\<forall>c \<in> set ws. py_isspace c"
  shows "scan a = Some us"
  using assms(1)
proof (induction a arbitrary: us rule: length_induct)
  case (1 a)
  show ?case
  proof (cases "a = [] \<or> ws = []")
    case True
    then show ?thesis using 1(2) scan_only_blanks [OF assms(2)] by auto
  next
    case False
    then obtain x y where ws: "ws = x # y" by (cases ws) auto
    have st: "stops x" using assms(2) ws by (simp add: stops_def)
    from False obtain t r vs where l: "lexeme 0 (a @ ws) = Inr (t, r)" and r: "scan r = Some vs"
      and us: "us = (case t of None \<Rightarrow> vs | Some t \<Rightarrow> kv t # vs)" using scan_Some [OF 1(2), of 0] by auto
    show ?thesis
    proof (cases "open_comment a")
      case True
      have "t = None" "\<forall>c \<in> set r. py_isspace c" using open_comment_append [OF True l] assms(2) by auto
      then show ?thesis using us r scan_only_blanks [of r] open_comment_scan [OF True] by simp
    next
      case nc: False
      have len: "length (x # y) \<le> length r"
        using lexeme_stays [of x y 0 a t r] assms(2) l False nc ws by blast
      from lexeme_cut [OF st l [unfolded ws] _ len] False obtain r0
        where r0: "r = r0 @ ws" "lexeme 0 a = Inr (t, r0)" using ws by blast
      have "length r0 < length a" using lexeme_shorter [OF r0(2)] False by blast
      then have "scan r0 = Some vs" using 1(1) r r0(1) by blast
      then show ?thesis using scan_step [OF r0(2)] False us by simp
    qed
  qed
qed

lemma scan_strip: "scan s = Some us \<Longrightarrow> scan (py_strip s) = Some us"
proof -
  assume s: "scan s = Some us"
  let ?t = "dropWhile py_isspace s"
  have "scan ?t = Some us"
    using s scan_blanks [of "takeWhile py_isspace s" ?t] by (metis set_takeWhileD takeWhile_dropWhile_id)
  moreover obtain ws where "?t = rstrip_by py_isspace ?t @ ws" "\<forall>c \<in> set ws. py_isspace c"
    using rstrip_by_split [of ?t py_isspace] by blast
  ultimately have "scan (rstrip_by py_isspace ?t) = Some us" using scan_trailing by metis
  then show ?thesis by (simp add: py_strip_def strip_by_def rstrip_by_def)
qed

text \<open>The text up to a closing semicolon has the tokens before it.\<close>

lemma dollar_tag_consumes: "dollar_tag s = Some (tag, r) \<Longrightarrow> \<exists>u. s = u @ r"
proof -
  let ?r = "drop (length (if s \<noteq> [] \<and> word_start (hd s) then takeWhile tag_part s else [])) s"
  assume "dollar_tag s = Some (tag, r)"
  then have "?r \<noteq> []" "r = tl ?r" by (auto simp: dollar_tag_def Let_def split: if_splits)
  then have "r = drop 1 ?r" by (simp only: drop_Suc drop_0 One_nat_def)
  then show ?thesis by (metis append_take_drop_id drop_drop)
qed

lemma dollar_token_consumes: "dollar_token i s = Inr (t, r) \<Longrightarrow> \<exists>u. s = u @ r"
proof (cases "dollar_tag s")
  case None
  assume "dollar_token i s = Inr (t, r)"
  with None have "s = r" by (auto simp: dollar_token_def split: if_splits)
  then show ?thesis by (metis append_Nil)
next
  case (Some p)
  assume d: "dollar_token i s = Inr (t, r)"
  obtain tag r0 where p: "p = (tag, r0)" by (cases p)
  from d Some p obtain v where "find_sub tag r0 = Some (v, r)"
    by (auto simp: dollar_token_def split: if_splits option.splits)
  then have "r0 = (v @ tag) @ r" using find_sub_split by fastforce
  moreover obtain u where "s = u @ r0" using dollar_tag_consumes [of s tag r0] Some p by blast
  ultimately have "s = (u @ v @ tag) @ r" by simp
  then show ?thesis ..
qed

lemma lexeme_consumes: "lexeme i s = Inr (t, r) \<Longrightarrow> \<exists>u. s = u @ r"
proof (cases s)
  case (Cons c s')
  assume l: "lexeme i s = Inr (t, r)"
  have quoted: "\<exists>u. a = u @ r'" if "read_quoted q bs a = Some (v, r')" for q bs a v r'
    using read_quoted_closes [OF that] by (metis append.assoc append_Cons append_Nil)
  have comment: "\<exists>u. a = u @ r'" if "comment_end (Suc 0) a = Some r'" for a r'
    using comment_end_closes [OF that] by (metis append.assoc append_Cons append_Nil)
  have dropped: "\<exists>u. c # s' = u @ drop n (c # s')" for n by (metis append_take_drop_id)
  have line: "\<exists>u. a = u @ drop n (dropWhile P a)" for a :: string and n P
    by (metis append.assoc append_take_drop_id takeWhile_dropWhile_id)
  show ?thesis
  proof (cases "branch c s'")
    case Quote
    with l show ?thesis unfolding Cons lexeme_branch
      by (auto simp: quote_token_def Cons_eq_append_conv split: option.splits dest!: quoted)
  next
    case Dollar
    with l have "dollar_token i s' = Inr (t, r)" unfolding Cons lexeme_branch by simp
    then obtain u where "s' = u @ r" using dollar_token_consumes by blast
    then show ?thesis unfolding Cons by (metis append_Cons)
  next
    case Wordy
    let ?w = "takeWhile word_part (c # s')" and ?r = "drop (length (takeWhile word_part (c # s'))) (c # s')"
    from Wordy l have w: "word_token i ?w ?r = Inr (t, r)" unfolding Cons lexeme_branch by simp
    have "\<exists>u. ?r = u @ r"
    proof (cases "length ?w = 1 \<and> py_lower ?w \<in> {''e'', ''b'', ''x''} \<and> ?r \<noteq> [] \<and> hd ?r = CHR 0x27")
      case True
      with w obtain u where "tl ?r = u @ r"
        unfolding word_token_def by (auto split: option.splits if_splits dest!: quoted)
      with True have "?r = (hd ?r # u) @ r" by (metis append_Cons list.exhaust_sel)
      then show ?thesis ..
    next
      case False
      with w have "?r = r" unfolding word_token_def by (simp only: if_False) auto
      then show ?thesis by (metis append_Nil)
    qed
    then show ?thesis unfolding Cons using dropped by (metis append.assoc)
  next
    case Block
    then obtain s2 where "s' = CHR ''*'' # s2" using block_start by blast
    with Block l show ?thesis unfolding Cons lexeme_branch
      by (auto simp: Cons_eq_append_conv split: option.splits dest!: comment)
  next
    case Line
    with l have r: "r = drop 1 (dropWhile (\<lambda>x. x \<noteq> CHR 0x0A) s')" unfolding Cons lexeme_branch by simp
    obtain u where "s' = u @ r" unfolding r using line by blast
    then show ?thesis unfolding Cons by (metis append_Cons)
  next
    case Numeric
    with l dropped show ?thesis unfolding Cons lexeme_branch by auto
  qed (use l in \<open>auto simp: Cons lexeme_branch Cons_eq_append_conv\<close>)
qed simp

lemma lexeme_pos: "lexeme i s = Inr (Some t, r) \<Longrightarrow> tk_pos t = i"
  using lexeme_at [of i s "Some t" r i] by (auto simp: at_def) (metis token.select_convs(3) token.surjective token.update_convs(3))

lemma lexeme_semicolon:
  assumes "lexeme i s = Inr (Some t, r)" "is_semicolon t" shows "s = CHR '';'' # r"
proof (cases s)
  case (Cons c s')
  then show ?thesis using assms unfolding Cons lexeme_branch
    by (cases "branch c s'") (auto simp: is_semicolon_def quote_token_def dollar_token_def word_token_def
        split: option.splits if_splits)
qed (use assms in simp)

lemma scan_closed:
  "tokenize_from i s = Inr (ts @ [t]) \<Longrightarrow> is_semicolon t \<Longrightarrow>
   \<exists>a b. s = a @ CHR '';'' # b \<and> tk_pos t = i + length a \<and> scan a = Some (map kv ts)"
proof (induction i s arbitrary: ts rule: tokenize_from.induct)
  case (1 i s)
  have st: "stops (CHR '';'')" by (simp add: stops_def)
  have ne: "s \<noteq> []" using 1(2) by (auto simp: tokenize_from.simps)
  then obtain o1 r vs where l: "lexeme i s = Inr (o1, r)"
    and r: "tokenize_from (i + (length s - length r)) r = Inr vs"
    and ts: "ts @ [t] = (case o1 of None \<Rightarrow> vs | Some x \<Rightarrow> x # vs)"
    using 1(2) by (subst (asm) tokenize_from.simps) auto
  show ?case
  proof (cases "vs = []")
    case True
    then have "o1 = Some t" "ts = []" using ts by (auto split: option.splits)
    with lexeme_semicolon [of i s t r] lexeme_pos [of i s t r] l 1(3) show ?thesis
      by (intro exI [of _ "[]"] exI [of _ r]) simp
  next
    case False
    then obtain us where us: "vs = us @ [t]" "ts = (case o1 of None \<Rightarrow> us | Some x \<Rightarrow> x # us)"
      using ts by (cases vs rule: rev_cases) (auto split: option.splits)
    from 1(1) [OF ne l refl r [unfolded us(1)] 1(3)] obtain a b where
      a: "r = a @ CHR '';'' # b" "tk_pos t = i + (length s - length r) + length a" "scan a = Some (map kv us)"
      by blast
    obtain u where u: "s = u @ r" using lexeme_consumes [OF l] by blast
    have "u \<noteq> []" using lexeme_shorter [OF l ne] u by auto
    then have "lexeme i (u @ a) = Inr (o1, a)"
      using lexeme_cut [OF st, of i "u @ a" b o1 r] l u a(1) by simp
    then have "scan (u @ a) = Some (map kv ts)"
      using scan_step [of i "u @ a" o1 a] \<open>u \<noteq> []\<close> a(3) us(2) by (auto split: option.splits)
    moreover have "s = (u @ a) @ CHR '';'' # b" using u a(1) by simp
    moreover have "tk_pos t = i + length (u @ a)" using a(2) u by simp
    ultimately show ?thesis by blast
  qed
qed

text \<open>The statement the guard checks is what it passes on.\<close>

lemma statement_scan:
  assumes "tokenize sql = Inr all" "statement sql all = Inr (ts, stop)"
  shows "scan (py_strip (take stop sql)) = Some (map kv ts)"
proof (rule scan_strip, cases "is_semicolon (last all)")
  case True
  with assms(2) have ts: "all \<noteq> []" "ts = butlast all" "stop = tk_pos (last all)"
    by (auto simp: statement_def Let_def split: if_splits)
  then have "tokenize_from 0 sql = Inr (ts @ [last all])" using assms(1) by (simp add: tokenize_def)
  from scan_closed [OF this True] ts(3) show "scan (take stop sql) = Some (map kv ts)" by auto
next
  case False
  with assms(2) have "ts = all" "stop = length sql"
    by (auto simp: statement_def Let_def split: if_splits)
  with tokenize_scan assms(1) show "scan (take stop sql) = Some (map kv ts)" by (simp add: tokenize_def)
qed

end
