(* ===== verification/SqlGuardProperties.thy ===== *)
theory SqlGuardProperties
  imports SqlLexing
begin

text \<open>
  What the guard guarantees of a query it lets through, and queries it lets through that it means to refuse.
\<close>

section \<open>Parentheses\<close>

text \<open>Every parenthesis of the tokens, \<open>d\<close> of them open before, is closed, and none too many.\<close>

fun balanced :: "nat \<Rightarrow> token list \<Rightarrow> bool" where
  "balanced d [] = (d = 0)"
| "balanced d (t # ts) =
     (if opens t then balanced (Suc d) ts else if closes t then d > 0 \<and> balanced (d - 1) ts else balanced d ts)"

text \<open>What stands between two positions closes what it opens.\<close>

definition skips :: "token list \<Rightarrow> nat \<Rightarrow> nat \<Rightarrow> bool" where
  "skips ts i j \<longleftrightarrow> (\<forall>d. balanced d (drop j ts) \<longrightarrow> balanced d (drop i ts))"

lemma skips_refl [simp, intro]: "skips ts i i"
  by (simp add: skips_def)

lemma skips_trans [trans]: "skips ts i j \<Longrightarrow> skips ts j k \<Longrightarrow> skips ts i k"
  by (simp add: skips_def)

lemma skips_one: "i < length ts \<Longrightarrow> \<not> opens (ts ! i) \<Longrightarrow> \<not> closes (ts ! i) \<Longrightarrow> skips ts i (Suc i)"
  by (simp add: skips_def Cons_nth_drop_Suc [symmetric])

lemma opens_closes: "opens t \<Longrightarrow> \<not> closes t"
  by (simp add: opens_def closes_def)

lemma word_neither: "is_word ts i v \<Longrightarrow> \<not> opens (ts ! i) \<and> \<not> closes (ts ! i)"
  by (simp add: is_word_def opens_def closes_def)

lemma ident_neither: "is_ident ts i \<Longrightarrow> \<not> opens (ts ! i) \<and> \<not> closes (ts ! i)"
  by (auto simp: is_ident_def opens_def closes_def)

lemma punct_neither: "is_punct ts i v \<Longrightarrow> v \<noteq> ''('' \<Longrightarrow> v \<noteq> '')'' \<Longrightarrow> \<not> opens (ts ! i) \<and> \<not> closes (ts ! i)"
  by (auto simp: is_punct_def opens_def closes_def)

lemma skips_word: "is_word ts i v \<Longrightarrow> skips ts i (Suc i)"
  using skips_one word_neither is_bound(1) by blast

lemma skips_ident: "is_ident ts i \<Longrightarrow> skips ts i (Suc i)"
  using skips_one ident_neither is_bound(3) by blast

lemma skips_comma: "is_punct ts i '','' \<Longrightarrow> skips ts i (Suc i)"
  using skips_one punct_neither [of ts i "'',''"] is_bound(2) by simp

lemma skips_dot: "is_punct ts i ''.'' \<Longrightarrow> skips ts i (Suc i)"
  using skips_one punct_neither [of ts i "''.''"] is_bound(2) by simp

lemma closing_balanced:
  "closing (int (Suc c)) ts = Some k \<Longrightarrow> balanced d (drop (Suc k) ts) \<Longrightarrow> balanced (d + Suc c) ts"
proof (induction ts arbitrary: c k)
  case (Cons t ts)
  consider (op) "opens t" | (cl) "closes t" "\<not> opens t" | (other) "\<not> opens t" "\<not> closes t" by blast
  then show ?case
  proof cases
    case op
    then obtain k' where k: "closing (int (Suc (Suc c))) ts = Some k'" "k = Suc k'" using Cons.prems(1) by auto
    from Cons.IH [OF k(1)] Cons.prems(2) k(2) op show ?thesis by simp
  next
    case cl
    show ?thesis
    proof (cases c)
      case 0
      with cl Cons.prems show ?thesis by simp
    next
      case (Suc c')
      with cl Cons.prems(1) obtain k' where k: "closing (int (Suc c')) ts = Some k'" "k = Suc k'" by (auto split: if_splits)
      from Cons.IH [OF k(1)] Cons.prems(2) k(2) cl Suc show ?thesis by simp
    qed
  next
    case other
    then obtain k' where k: "closing (int (Suc c)) ts = Some k'" "k = Suc k'" using Cons.prems(1) by auto
    from Cons.IH [OF k(1)] Cons.prems(2) k(2) other show ?thesis by simp
  qed
qed simp

lemma skips_paren:
  assumes "matching_paren ts i = Inr k" "opens (ts ! i)"
  shows "skips ts i (Suc k)"
proof -
  have i: "i < length ts" using matching_bound [OF assms(1)] by simp
  obtain m where m: "closing 0 (drop i ts) = Some m" "k = i + m"
    using assms(1) by (auto simp: matching_paren_def split: option.splits)
  have d: "drop i ts = ts ! i # drop (Suc i) ts" using i by (simp add: Cons_nth_drop_Suc)
  obtain m' where m': "closing (int (Suc 0)) (drop (Suc i) ts) = Some m'" "m = Suc m'"
    using m(1) assms(2) unfolding d by auto
  have "balanced e (drop (Suc k) ts) \<Longrightarrow> balanced (e + Suc 0) (drop (Suc i) ts)" for e
    using closing_balanced [OF m'(1), of e] m(2) m'(2) by (simp add: add.commute)
  then show ?thesis unfolding skips_def d using assms(2) by simp
qed

lemma skips_skip_word: "skips ts j (skip_word ts v j)"
  using skips_word by (simp add: skip_word_def)

lemma skips_skip_paren: "skip_paren ts j = Inr k \<Longrightarrow> skips ts j k"
  using skips_paren by (auto simp: skip_paren_def is_punct_def opens_def split: if_splits)

lemma skips_dotted: "skips ts j (snd (dotted ts j))"
proof (induction ts j rule: dotted.induct)
  case (1 ts j)
  show ?case
  proof (cases "is_punct ts j ''.'' \<and> is_ident ts (j + 1)")
    case True
    have "skips ts j (Suc j)" using True by (simp add: skips_dot)
    also have "skips ts (Suc j) (Suc (Suc j))" using True by (simp add: skips_ident)
    also have "skips ts (Suc (Suc j)) (snd (dotted ts (j + 2)))" using 1 True by simp
    finally show ?thesis using True by (subst dotted.simps) (simp add: Let_def split_beta)
  qed (subst dotted.simps, auto)
qed

lemma skips_alias: "skip_alias ts j = Inr k \<Longrightarrow> skips ts j k"
  unfolding skip_alias_def
  by (auto split: if_splits dest!: skips_skip_paren intro: skips_trans [OF skips_word] skips_trans [OF skips_ident])

lemma skips_using: "skip_using ts j = Inr k \<Longrightarrow> skips ts j k"
  unfolding skip_using_def by (auto split: if_splits dest!: skips_skip_paren intro: skips_trans [OF skips_word])

lemma skips_ordinality: "skips ts j (skip_ordinality ts j)"
  unfolding skip_ordinality_def using skips_trans [OF skips_word skips_word] by auto

text \<open>Collecting the table sources checks the parentheses of all tokens.\<close>

lemma parsed_balanced:
  "table_refs ts i ctx = Inr rs \<Longrightarrow> balanced (length ctx) (drop i ts)"
  "table_items ts j = Inr (j', rs) \<Longrightarrow> skips ts j j'"
  "table_source ts j = Inr (j', rs) \<Longrightarrow> skips ts j j'"
  "join_condition ts j = Inr (j', rs) \<Longrightarrow> skips ts j j'"
proof (induct ts i ctx and ts j and ts j and ts j arbitrary: rs and j' rs and j' rs and j' rs
    rule: table_refs_table_items_table_source_join_condition.induct)
  case (1 ts i ctx)
  show ?case
  proof (cases "i < length ts")
    case False
    with 1(6) show ?thesis by (subst (asm) table_refs.simps) (auto split: if_splits)
  next
    case i: True
    note e = 1(6) [unfolded table_refs.simps [of ts i ctx]]
    have d: "drop i ts = ts ! i # drop (Suc i) ts" using i by (simp add: Cons_nth_drop_Suc)
    consider (op) "opens (ts ! i)" | (cl) "closes (ts ! i)" "\<not> opens (ts ! i)"
      | (other) "\<not> opens (ts ! i)" "\<not> closes (ts ! i)" by blast
    then show ?thesis
    proof cases
      case op
      with 1(1) [OF _ op, of rs] e i show ?thesis unfolding d by simp
    next
      case cl
      with e i have "ctx \<noteq> []" "table_refs ts (i + 1) (tl ctx) = Inr rs" by (auto split: if_splits)
      with 1(2) [OF _ cl(2,1), of rs] cl i show ?thesis unfolding d by (cases ctx) auto
    next
      case other
      show ?thesis
      proof (cases "(is_word ts i ''from'' \<or> is_word ts i ''join'') \<and>
          \<not> (is_word ts i ''from'' \<and> from_is_argument_separator ts i ctx)")
        case True
        with e i other obtain j r r' where j: "table_items ts (i + 1) = Inr (j, r)" "table_refs ts j ctx = Inr r'" by auto
        have "balanced (length ctx) (drop j ts)" using 1(4) [OF _ other True j(1) refl j(2)] i by simp
        moreover have "skips ts (i + 1) j" using 1(3) [OF _ other True j(1)] i by simp
        ultimately show ?thesis using other unfolding d skips_def by simp
      next
        case False
        with e i other have "table_refs ts (i + 1) ctx = Inr rs" by auto
        with 1(5) [OF _ other False] i other show ?thesis unfolding d by simp
      qed
    qed
  qed
next
  case (2 ts j)
  let ?j = "skip_word ts ''only'' (skip_word ts ''lateral'' j)"
  from 2(4) obtain j2 j3 j5 r r' where
    src: "table_source ts ?j = Inr (j2, r)"
    and ali: "skip_alias ts j2 = Inr j3"
    and rest: "(if is_word ts j3 ''on'' then join_condition ts (j3 + 1)
       else rbind (skip_using ts j3) (\<lambda>j4. Inr (j4, []))) = Inr (j5, r')"
    and fin: "is_punct ts j5 '','' \<and> (\<exists>rs''. table_items ts (j5 + 1) = Inr (j', rs'')) \<or> j' = j5"
    by (subst (asm) table_items.simps) (fastforce split: if_splits)
  have "skips ts j ?j" using skips_trans [OF skips_skip_word skips_skip_word] .
  also have "skips ts ?j j2" by (rule 2(1) [OF src])
  also have "skips ts j2 j3" using ali by (rule skips_alias)
  also have "skips ts j3 j5"
    using rest 2(2) [OF src refl ali] by (auto split: if_splits dest: skips_using intro: skips_trans [OF skips_word])
  also have "skips ts j5 j'"
    using fin 2(3) [OF src refl ali rest refl] by (auto intro: skips_trans [OF skips_comma])
  finally show ?case .
next
  case (3 ts j)
  show ?case
  proof (cases "is_punct ts j ''(''")
    case True
    with 3(3) show ?thesis
      by (subst (asm) table_source.simps) (auto simp: is_punct_def opens_def dest: skips_paren)
  next
    case False
    let ?j1 = "snd (dotted ts (j + 1))"
    from False 3(3) have id: "is_ident ts j" by (subst (asm) table_source.simps) (auto split: if_splits)
    have "skips ts j (Suc j)" by (rule skips_ident [OF id])
    also have "skips ts (Suc j) ?j1" using skips_dotted [of ts "Suc j"] by simp
    also have "skips ts ?j1 j'"
    proof (cases "is_punct ts ?j1 ''(''")
      case True
      with False id 3(3) obtain k where k: "matching_paren ts ?j1 = Inr k" "j' = skip_ordinality ts (Suc k)"
        by (subst (asm) table_source.simps) (auto simp: Let_def split_beta split: if_splits)
      have "skips ts ?j1 (Suc k)" using k(1) True by (auto simp: is_punct_def opens_def intro: skips_paren)
      also have "skips ts (Suc k) j'" unfolding k(2) by (rule skips_ordinality)
      finally show ?thesis .
    next
      case no: False
      with False id 3(3) show ?thesis by (subst (asm) table_source.simps) (auto simp: Let_def split_beta)
    qed
    finally show ?thesis .
  qed
next
  case (4 ts j)
  note e = 4(4) [unfolded join_condition.simps [of ts j]]
  show ?case
  proof (cases "j < length ts \<and> opens (ts ! j)")
    case True
    with e obtain k r r' where k: "matching_paren ts j = Inr k"
      and r: "table_refs (slice ts (j + 1) k) 0 [] = Inr r" and r': "join_condition ts (k + 1) = Inr (j', r')" by auto
    have "skips ts j (Suc k)" using k True by (simp add: skips_paren)
    also have "skips ts (Suc k) j'" using 4(2) [OF _ _ k r r'] True by simp
    finally show ?thesis .
  next
    case False
    show ?thesis
    proof (cases "j < length ts \<and> join_condition ts (j + 1) = Inr (j', rs) \<and> \<not> closes (ts ! j) \<and>
        \<not> is_punct ts j '','' \<and> \<not> (tk_kind (ts ! j) = Word \<and> tk_value (ts ! j) \<in> set condition_stop_words)")
      case True
      have "skips ts j (Suc j)" using True False by (simp add: skips_one)
      also have "skips ts (Suc j) j'" using 4(3) [of j' rs] True False by simp
      finally show ?thesis .
    next
      case no: False
      with False e have "j' = j" by (auto split: if_splits)
      then show ?thesis by simp
    qed
  qed
qed

section \<open>The wrapper\<close>

lemma scan_append_blank:
  assumes "scan a = Some us" "scan b = Some vs" "py_isspace x" "CHR ''-'' \<notin> set a"
  shows "scan (a @ x # b) = Some (us @ vs)"
  using assms(1,4)
proof (induction a arbitrary: us rule: length_induct)
  case (1 a)
  have st: "stops x" using assms(3) by (simp add: stops_def)
  show ?case
  proof (cases "a = []")
    case True
    with 1(2) assms(2,3) show ?thesis by (simp add: scan_blank)
  next
    case ne: False
    obtain t r ws where l: "lexeme 0 a = Inr (t, r)" and r: "scan r = Some ws"
      and us: "us = (case t of None \<Rightarrow> ws | Some t \<Rightarrow> kv t # ws)" using scan_Some [OF 1(2) ne, of 0] by blast
    have oc: "\<not> open_comment a" using 1(3) by (auto simp: open_comment_def prefix_def)
    have "CHR ''-'' \<notin> set r" using 1(3) lexeme_consumes [OF l] by auto
    then have "scan (r @ x # b) = Some (ws @ vs)" using 1(1) lexeme_shorter [OF l ne] r by blast
    then show ?thesis using scan_step [OF lexeme_append [OF st l ne oc, of b]] us ne by (auto split: option.splits)
  qed
qed

lemma scan_digits:
  assumes "ds \<noteq> []" "\<forall>c \<in> set ds. py_isdigit c" shows "scan ds = Some [(Number, ds)]"
proof -
  obtain c s where ds: "ds = c # s" using assms(1) by (cases ds) auto
  have c: "py_isdigit c" using assms(2) ds by simp
  then have "\<not> py_isspace c" "c \<notin> {CHR ''-'', CHR ''/'', CHR 0x27, CHR 0x22, CHR ''$''}" "\<not> word_start c"
    by (auto simp: py_isspace_def py_isdigit_def word_start_def is_upper_def is_lower_def Let_def)
  then have "branch c s = Numeric" using c by (auto simp: branch_def starts_number_def)
  moreover have "number ds = ds" using assms(2) by (simp add: number_def Let_def exponent_def takeWhile_eq_all_conv [THEN iffD2])
  ultimately have "lexeme 0 ds = Inr (Some (token Number ds 0), [])" unfolding ds lexeme_branch by simp
  from scan_step [OF this assms(1)] show ?thesis by (simp add: kv_def)
qed

definition wrapper_head :: "(tk_kind \<times> string) list" where
  "wrapper_head = [(Word, ''select''), (Punct, ''*''), (Word, ''from''), (Punct, ''('')]"

definition wrapper_tail :: "int \<Rightarrow> (tk_kind \<times> string) list" where
  "wrapper_tail n = [(Punct, '')''), (Word, ''as''), (Word, ''_mcp_q''), (Word, ''limit''), (Number, int_str (n + 1))]"

lemma scan_wrap:
  assumes "scan clean = Some us" "n \<ge> 0"
  shows "scan (wrap clean n) = Some (wrapper_head @ us @ wrapper_tail n)"
proof -
  have "scan (int_str (n + 1)) = Some [(Number, int_str (n + 1))]"
    using assms(2) nat_str_digits by (intro scan_digits) (auto simp: int_str_def)
  moreover have "scan '') AS _mcp_q LIMIT'' = Some (butlast (wrapper_tail 0))" by code_simp
  moreover have "py_isspace (CHR '' '')" "CHR ''-'' \<notin> set '') AS _mcp_q LIMIT''" by (simp_all add: py_isspace_def)
  ultimately have "scan ('') AS _mcp_q LIMIT'' @ CHR '' '' # int_str (n + 1)) =
      Some (butlast (wrapper_tail 0) @ [(Number, int_str (n + 1))])" using scan_append_blank by blast
  then have t: "scan ('') AS _mcp_q LIMIT '' @ int_str (n + 1)) = Some (wrapper_tail n)" by (simp add: wrapper_tail_def)
  have h: "scan ''SELECT * FROM ('' = Some wrapper_head" by code_simp
  from scan_append [OF h scan_append [OF assms(1) t]] show ?thesis by (simp add: wrap_def newline_def)
qed

section \<open>What a query that passes is\<close>

lemma reject_Inr [simp]: "reject r = Inr x \<longleftrightarrow> r = Inr x"
  by (cases r) (simp_all add: reject_def)

lemma guard_sql_Inr:
  "guard_sql sql allowed schema n denied = Inr g \<Longrightarrow>
   \<exists>all ts stop ctes refs. n \<ge> 1 \<and> tokenize sql = Inr all \<and> statement sql all = Inr (ts, stop) \<and>
     check_tokens denied ts = Inr () \<and> collect_ctes ts = Inr ctes \<and> collect_table_refs ts = Inr refs \<and>
     check_refs allowed schema ctes refs [] = Inr (g_tables g) \<and> g_sql g = py_strip (take stop sql) \<and>
     g_wrapped g = wrap (g_sql g) n"
  by (auto simp: guard_sql_def Let_def split: if_splits)

lemma check_tokens_Inr: "check_tokens denied ts = Inr u \<longleftrightarrow> (\<forall>t \<in> set ts. check_token denied t = Inr ())"
  by (induction ts) auto

lemma check_refs_Inr:
  "check_refs allowed schema ctes refs seen = Inr names \<Longrightarrow>
   (\<forall>parts \<in> set refs. ref_allowed allowed schema ctes parts) \<and> set names = set seen \<union> py_join ''.'' ` set refs"
  by (induction allowed schema ctes refs seen arbitrary: names rule: check_refs.induct) (fastforce simp: Let_def split: if_splits)+

text \<open>
  C5: The text that reaches the database is, token for token, the cap's wrapper around exactly the tokens the guard has
  checked: strings, comments and quoted names cannot reach beyond the query, and no parenthesis of the query closes
  the wrapper's.
\<close>

theorem executed_is_checked:
  assumes "guard_sql sql allowed schema n denied = Inr g"
  shows "\<exists>all ts stop. tokenize sql = Inr all \<and> statement sql all = Inr (ts, stop) \<and>
    scan (g_wrapped g) = Some (wrapper_head @ map kv ts @ wrapper_tail n) \<and> balanced 0 ts"
proof -
  from guard_sql_Inr [OF assms] obtain all ts stop ctes refs where
    g: "n \<ge> 1" "tokenize sql = Inr all" "statement sql all = Inr (ts, stop)" "collect_table_refs ts = Inr refs"
    "g_sql g = py_strip (take stop sql)" "g_wrapped g = wrap (g_sql g) n" by blast
  have "balanced 0 ts" using parsed_balanced(1) [of ts 0 "[]" refs] g(4) by (simp add: collect_table_refs_def)
  with g scan_wrap [OF statement_scan [OF g(2,3)], of n] show ?thesis by fastforce
qed

text \<open>
  C15: A query that passes is one \<open>SELECT\<close> or \<open>WITH\<close> statement: no token is a semicolon, no unquoted word is a
  forbidden keyword or function or a catalog name, no word, quoted or not, is a denied name in its own or in lower
  case, and every table source the guard finds is an allowed view or a common table expression of the query.
\<close>

theorem accepted_is_restricted:
  assumes "guard_sql sql allowed schema n denied = Inr g"
  shows "\<exists>all ts stop refs ctes. tokenize sql = Inr all \<and> statement sql all = Inr (ts, stop) \<and>
    collect_table_refs ts = Inr refs \<and> collect_ctes ts = Inr ctes \<and>
    ts \<noteq> [] \<and> tk_kind (hd ts) = Word \<and> tk_value (hd ts) \<in> {''select'', ''with''} \<and>
    list_all (\<lambda>t. \<not> is_semicolon t \<and>
      (tk_kind t = Word \<longrightarrow> tk_value t \<notin> set forbidden_keywords \<and> tk_value t \<notin> set forbidden_functions \<and>
         \<not> startswith (tk_value t) ''pg_'' \<and> tk_value t \<noteq> ''information_schema'') \<and>
      (tk_kind t \<in> {Word, Qword} \<longrightarrow> tk_value t \<notin> set denied \<and> py_lower (tk_value t) \<notin> set denied)) ts \<and>
    list_all (ref_allowed allowed schema ctes) refs \<and> set (g_tables g) = py_join ''.'' ` set refs"
proof -
  from guard_sql_Inr [OF assms] obtain all ts stop ctes refs where
    g: "tokenize sql = Inr all" "statement sql all = Inr (ts, stop)" "check_tokens denied ts = Inr ()"
    "collect_ctes ts = Inr ctes" "collect_table_refs ts = Inr refs"
    "check_refs allowed schema ctes refs [] = Inr (g_tables g)" by blast
  have "list_all (\<lambda>t. \<not> is_semicolon t \<and>
      (tk_kind t = Word \<longrightarrow> tk_value t \<notin> set forbidden_keywords \<and> tk_value t \<notin> set forbidden_functions \<and>
         \<not> startswith (tk_value t) ''pg_'' \<and> tk_value t \<noteq> ''information_schema'') \<and>
      (tk_kind t \<in> {Word, Qword} \<longrightarrow> tk_value t \<notin> set denied \<and> py_lower (tk_value t) \<notin> set denied)) ts"
    unfolding list_all_iff
  proof (rule ballI)
    fix t assume t: "t \<in> set ts"
    have c: "check_token denied t = Inr ()" using g(3) t by (simp add: check_tokens_Inr)
    have s: "\<not> is_semicolon t" using g(2) t by (auto simp: statement_def Let_def list_ex_iff split: if_splits)
    show "\<not> is_semicolon t \<and>
      (tk_kind t = Word \<longrightarrow> tk_value t \<notin> set forbidden_keywords \<and> tk_value t \<notin> set forbidden_functions \<and>
         \<not> startswith (tk_value t) ''pg_'' \<and> tk_value t \<noteq> ''information_schema'') \<and>
      (tk_kind t \<in> {Word, Qword} \<longrightarrow> tk_value t \<notin> set denied \<and> py_lower (tk_value t) \<notin> set denied)"
      using c s unfolding check_token_def Let_def by (meson Inl_Inr_False)
  qed
  moreover have "ts \<noteq> [] \<and> tk_kind (hd ts) = Word \<and> tk_value (hd ts) \<in> {''select'', ''with''}"
    using g(2) by (auto simp: statement_def Let_def split: if_splits)
  moreover have "list_all (ref_allowed allowed schema ctes) refs" "set (g_tables g) = py_join ''.'' ` set refs"
    using check_refs_Inr [OF g(6)] by (simp_all add: list_all_iff)
  ultimately show ?thesis using g by blast
qed

section \<open>Queries\<close>

definition demo_guard :: "string \<Rightarrow> (sql_error, guarded) result" where
  "demo_guard sql = guard_sql sql [''services'', ''applications''] ''mcp_ro'' 100 [''users'', ''public'']"

definition dq :: "string \<Rightarrow> string" where
  "dq s = CHR 0x22 # s @ [CHR 0x22]"

definition demo_query :: string where
  "demo_query = ''SELECT name FROM services WHERE x = (1) -- c'' @ newline @ '';''"

lemma demo_query_passes:
  "demo_guard demo_query =
   Inr \<lparr>g_sql = ''SELECT name FROM services WHERE x = (1) -- c'',
        g_wrapped = wrap ''SELECT name FROM services WHERE x = (1) -- c'' 100,
        g_tables = [''services''], g_ctes = []\<rparr>"
  by code_simp

theorem executed_is_checked_witness:
  "\<exists>ts. scan (wrap ''SELECT name FROM services WHERE x = (1) -- c'' 100) =
      Some (wrapper_head @ map kv ts @ wrapper_tail 100) \<and> balanced 0 ts"
  using executed_is_checked [OF demo_query_passes [unfolded demo_guard_def]] by auto

theorem accepted_is_restricted_witness:
  "\<exists>refs ctes. list_all (ref_allowed [''services'', ''applications''] ''mcp_ro'' ctes) refs \<and>
     set [''services''] = py_join ''.'' ` set refs"
  using accepted_is_restricted [OF demo_query_passes [unfolded demo_guard_def]] by auto

section \<open>What passes though it is meant to be refused\<close>

text \<open>
  The guard lets through a quoted call of the function that sets the tenant the views filter on, a catalog in
  a parenthesised join, a relation after the keyword \<open>TABLE\<close>, a denied name
  written with a Unicode escape, and a query hidden behind a line comment that
  the database ends at a carriage return; none of the names in them is looked at.
\<close>

lemma guard_is_bypassed:
  "list_all (\<lambda>sql. case demo_guard sql of Inl _ \<Rightarrow> False
       | Inr g \<Rightarrow> g_sql g = sql \<and> set (g_tables g) \<subseteq> {''services'', ''u''})
     [''SELECT '' @ dq ''set_config'' @ ''('' @ quoted ''app.tenant_code'' @ '', '' @ quoted ''other'' @ '', true)'',
      ''SELECT * FROM ('' @ dq ''pg_shadow'' @ '' CROSS JOIN services)'',
      ''SELECT 1 UNION ALL TABLE secrets'',
      ''WITH u AS (SELECT 1) SELECT * FROM U&'' @ dq (CHR 0x5C # ''0075sers''),
      ''SELECT 1 --'' @ [CHR 0x0D] @ '' UNION ALL SELECT * FROM users'']"
  by code_simp

text \<open>A line comment up to the end adds no token, whatever is in it.\<close>

lemma tokenize_comment:
  assumes "tokenize_from i a = Inr ts" "CHR 0x0A \<notin> set t"
  shows "tokenize_from i (a @ '' --'' @ t) = Inr ts"
  using assms(1)
proof (induction i a arbitrary: ts rule: tokenize_from.induct)
  case (1 i a)
  have blank: "stops CHR '' ''" by (simp add: stops_def py_isspace_def)
  have line: "lexeme j (CHR ''-'' # CHR ''-'' # s) = Inr (None, [])" if "CHR 0x0A \<notin> set s" for j s
  proof -
    have "dropWhile (\<lambda>c. c \<noteq> CHR 0x0A) s = []" using that by (auto simp: dropWhile_eq_Nil_conv)
    then have "length (dropWhile (\<lambda>c. c \<noteq> CHR 0x0A) s) \<le> Suc 0" by (simp only: list.size)
    then show ?thesis by (simp add: lexeme.simps(2) py_isspace_def)
  qed
  have comment: "tokenize_from j (CHR ''-'' # CHR ''-'' # s) = Inr []" if "CHR 0x0A \<notin> set s" for j s
    using line [OF that, of j] by (simp add: tokenize_from.simps [of j] tokenize_from.simps [of _ "[]"])
  have space: "lexeme i (CHR '' '' # s) = Inr (None, s)" for s by (simp add: lexeme.simps(2) py_isspace_def)
  show ?case
  proof (cases "a = []")
    case True
    with 1(2) have "ts = []" by (simp add: tokenize_from.simps)
    with True space comment [OF assms(2)] show ?thesis by (simp add: tokenize_from.simps [of i])
  next
    case False
    with 1(2) obtain k r us where l: "lexeme i a = Inr (k, r)"
      and r: "tokenize_from (i + (length a - length r)) r = Inr us"
      and ts: "ts = (case k of None \<Rightarrow> us | Some k \<Rightarrow> k # us)"
      by (subst (asm) tokenize_from.simps) auto
    show ?thesis
    proof (cases "open_comment a")
      case True
      then obtain s where a: "a = CHR ''-'' # CHR ''-'' # s" "CHR 0x0A \<notin> set s"
        by (auto simp: open_comment_def prefix_def)
      then have "ts = []" using 1(2) comment [of s i] by simp
      moreover have "CHR 0x0A \<notin> set (s @ '' --'' @ t)" using a(2) assms(2) by simp
      ultimately show ?thesis using comment [of "s @ '' --'' @ t" i] a(1) by simp
    next
      case closed: False
      have "lexeme i (a @ CHR '' '' # ''--'' @ t) = Inr (k, r @ CHR '' '' # ''--'' @ t)"
        by (rule lexeme_append [OF blank l False closed])
      moreover have "tokenize_from (i + (length a - length r)) (r @ '' --'' @ t) = Inr us"
        by (rule 1(1) [OF False l refl r])
      ultimately show ?thesis using False ts by (subst tokenize_from.simps) (simp split: option.splits)
    qed
  qed
qed

text \<open>
  C40: What follows a carriage return in a line comment is sent unchecked.  Let the guard accept a query that does not
  end in a semicolon, and take any text without a line feed or NUL.  The query with a line comment, a carriage return
  and this text behind it is accepted too, with the same table sources, whatever names the text uses; and the text is in
  the statement that is sent, where PostgreSQL ends the comment at the carriage return and executes it.
\<close>

theorem hidden_text_passes:
  assumes "guard_sql q allowed schema n denied = Inr g" "tokenize q = Inr ts" "\<not> is_semicolon (last ts)"
    and "CHR 0x0A \<notin> set t" "CHR 0x00 \<notin> set t"
  shows "\<exists>g'. guard_sql (q @ '' --'' @ [CHR 0x0D] @ t) allowed schema n denied = Inr g' \<and>
    g_tables g' = g_tables g \<and> g_ctes g' = g_ctes g \<and>
    g_wrapped g' = wrap (py_strip (q @ '' --'' @ [CHR 0x0D] @ t)) n"
proof -
  let ?q = "q @ '' --'' @ [CHR 0x0D] @ t"
  have "CHR 0x0A \<notin> set (CHR 0x0D # t)" using assms(4) by simp
  from tokenize_comment [OF assms(2) [unfolded tokenize_def] this] have tok: "tokenize ?q = Inr ts"
    by (simp add: tokenize_def)
  have nul: "CHR 0x00 \<notin> set ?q" using assms(1,5) by (auto simp: guard_sql_def split: if_splits)
  have st: "statement q ts = Inr (us, stop) \<Longrightarrow> statement ?q ts = Inr (us, length ?q)" for us stop
    using assms(3) by (auto simp: statement_def Let_def split: if_splits)
  from assms(1,2) nul tok st show ?thesis
    by (auto simp: guard_sql_def Let_def split: if_splits)
qed

theorem hidden_text_passes_witness:
  "\<exists>g. demo_guard (''SELECT 1'' @ '' --'' @ [CHR 0x0D] @ ''UNION ALL SELECT password FROM users'') = Inr g \<and>
     g_tables g = []"
proof -
  have one: "demo_guard ''SELECT 1'' = Inr \<lparr>g_sql = ''SELECT 1'', g_wrapped = wrap ''SELECT 1'' 100, g_tables = [], g_ctes = []\<rparr>"
    "tokenize ''SELECT 1'' = Inr [\<lparr>tk_kind = Word, tk_value = ''select'', tk_pos = 0\<rparr>, \<lparr>tk_kind = Number, tk_value = ''1'', tk_pos = 7\<rparr>]"
    by code_simp+
  show ?thesis
    using hidden_text_passes [OF one(1) [unfolded demo_guard_def] one(2), where t = "''UNION ALL SELECT password FROM users''"]
    by (auto simp: demo_guard_def is_semicolon_def)
qed

end
