(* ===== verification/QueryExecutor.thy ===== *)
theory QueryExecutor
  imports SqlGuardProperties Values
begin

text \<open>
  Running a guarded query (\<open>app/mcp_servers/devlift_mcp/db_query/executor.py\<close>): the statements of the read-only
  transaction in their order, and the reply made of the rows or of the error.  The database is an argument: what it
  answers to a list of statements.
\<close>

datatype db_statement =
    SetReadOnly
  | SetTenant string
  | SetTimeout int
  | SetSearchPath string
  | Query string

text \<open>A database error has a type name and a detail; any other exception a type name.\<close>

datatype db_failure = DbError string string | Unexpected string

type_synonym rows = "pyval list list"
type_synonym db = "db_statement list \<Rightarrow> (db_failure, string list \<times> rows) result"

datatype reply =
    Rejected string
  | SqlFailed string
  | QueryFailed string
  | Answer "string list" "config list" int bool string

text \<open>What \<open>splitlines\<close> ends a line at.\<close>

definition line_break :: "char \<Rightarrow> bool" where
  "line_break c = (let n = (of_char c :: nat) in n \<in> {10, 11, 12, 13, 28, 29, 30})"

definition db_error :: "string \<Rightarrow> string \<Rightarrow> string \<times> bool" where
  "db_error name detail =
     (let first = (if py_strip detail = [] then name else takeWhile (\<lambda>c. \<not> line_break c) (py_strip detail))
      in (name @ '': '' @ first, name = ''QueryCanceledError'' \<or> py_in ''statement timeout'' (py_lower first)))"

definition timed_out_message :: "int \<Rightarrow> string" where
  "timed_out_message timeout_ms =
     ''The query ran longer than '' @ int_str (timeout_ms div 1000) @ ''s and was cancelled. '' @
     ''Add WHERE filters, aggregate, or lower the LIMIT.''"

definition transaction :: "string \<Rightarrow> string \<Rightarrow> int \<Rightarrow> string \<Rightarrow> db_statement list" where
  "transaction schema tenant timeout_ms wrapped =
     [SetReadOnly, SetTenant tenant, SetTimeout timeout_ms, SetSearchPath schema, Query wrapped]"

text \<open>A row as a dictionary: of two columns of one name the later one is kept.\<close>

definition row_dict :: "string list \<Rightarrow> pyval list \<Rightarrow> config" where
  "row_dict columns row = foldl (\<lambda>d (c, v). AList.update c v d) [] (zip columns row)"

definition answer :: "int \<Rightarrow> string list \<Rightarrow> rows \<Rightarrow> reply" where
  "answer max_rows columns fetched =
     (let truncated = int (length fetched) > max_rows;
          rows = map (row_dict columns) (take (nat max_rows) fetched);
          count = int (length rows)
      in Answer columns rows count truncated
           (int_str count @ '' row(s) returned.'' @
            (if truncated
             then '' The result was cut at '' @ int_str max_rows @ '' rows; narrow the query to see the rest.'' else [])))"

text \<open>\<open>None\<close> is the \<open>ValueError\<close> of a row limit below one, which nothing catches.\<close>

definition run_read_only_query ::
  "string list \<Rightarrow> string \<Rightarrow> string list \<Rightarrow> int \<Rightarrow> int \<Rightarrow> db \<Rightarrow> string \<Rightarrow> string \<Rightarrow> reply option" where
  "run_read_only_query allowed schema denied max_rows timeout_ms db sql tenant =
     (case guard_sql sql allowed schema max_rows denied of
        Inl BadLimit \<Rightarrow> None
      | Inl (SqlRejected why) \<Rightarrow> Some (Rejected why)
      | Inr g \<Rightarrow>
          Some (case db (transaction schema tenant timeout_ms (g_wrapped g)) of
              Inl (DbError name detail) \<Rightarrow>
                let (message, is_timeout) = db_error name detail in
                SqlFailed (if is_timeout then timed_out_message timeout_ms else message)
            | Inl (Unexpected name) \<Rightarrow>
                QueryFailed (''Could not run the query: '' @ name @ ''. Try again in a moment.'')
            | Inr (columns, fetched) \<Rightarrow> answer max_rows columns fetched))"

section \<open>The answer\<close>

text \<open>
  What PostgreSQL documents of \<open>LIMIT\<close>, for one query and one list of settings: the query as a subquery under
  \<open>LIMIT m\<close> gives the first \<open>m\<close> of its rows.  The text is written out here, so that it is what the code sends only
  when the code builds this text.
\<close>

definition limits_rows :: "db \<Rightarrow> db_statement list \<Rightarrow> string \<Rightarrow> string list \<Rightarrow> rows \<Rightarrow> bool" where
  "limits_rows db settings q columns all \<longleftrightarrow>
     (\<forall>m. db (settings @ [Query (''SELECT * FROM ('' @ newline @ q @ newline @ '') AS _mcp_q LIMIT '' @ nat_str m)]) =
        Inr (columns, take m all))"

text \<open>
  C26: Let the database, in a read-only transaction with this tenant, timeout and schema, answer the accepted query
  under any \<open>LIMIT m\<close> with the first \<open>m\<close> of its rows \<open>all\<close>.  Then the user gets the first rows up to the cap,
  their number, and is told that the result was cut exactly when there were more: the wrapper the code sends asks for
  one row more than the cap, which is dropped again.
\<close>

theorem answer_is_capped:
  assumes "guard_sql sql allowed schema n denied = Inr g"
    and "limits_rows db [SetReadOnly, SetTenant tenant, SetTimeout ms, SetSearchPath schema] (g_sql g) columns all"
  shows "\<exists>message. run_read_only_query allowed schema denied n ms db sql tenant =
    Some (Answer columns (map (row_dict columns) (take (nat n) all)) (min n (int (length all))) (int (length all) > n) message)"
proof -
  have n: "n \<ge> 1" and w: "g_wrapped g = wrap (g_sql g) n" using guard_sql_Inr [OF assms(1)] by blast+
  have "int_str (n + 1) = nat_str (nat (n + 1))" using n by (simp add: int_str_def)
  then have db: "db (transaction schema tenant ms (g_wrapped g)) = Inr (columns, take (nat (n + 1)) all)"
    using assms(2) by (simp add: limits_rows_def transaction_def w wrap_def)
  have "take (nat n) (take (nat (n + 1)) all) = take (nat n) all" using n by (simp add: min_def)
  moreover have "int (length (take (nat (n + 1)) all)) > n \<longleftrightarrow> int (length all) > n" using n by auto
  moreover have "int (length (take (nat n) all)) = min n (int (length all))" using n by auto
  ultimately show ?thesis using assms(1) db n by (simp add: run_read_only_query_def answer_def Let_def)
qed

text \<open>A database that reads the number at the end of the text and answers with that many of 150 rows.\<close>

definition number_of :: "string \<Rightarrow> nat" where
  "number_of s = foldl (\<lambda>n c. 10 * n + (of_char c - 48)) 0 s"

definition last_number :: "string \<Rightarrow> nat" where
  "last_number s = number_of (rev (takeWhile py_isdigit (rev s)))"

definition many_rows :: rows where
  "many_rows = replicate 150 [VStr ''api'']"

fun demo_db :: db where
  "demo_db [SetReadOnly, SetTenant tenant, SetTimeout ms, SetSearchPath schema, Query q] =
     Inr ([''name''], take (last_number q) many_rows)"
| "demo_db sts = Inl (Unexpected ''ProgrammingError'')"

lemma number_of_snoc: "number_of (s @ [c]) = 10 * number_of s + (of_char c - 48)"
  by (simp add: number_of_def)

lemma number_of_nat_str: "number_of (nat_str n) = n"
proof (induction n rule: nat_str.induct)
  case (1 n)
  have digit: "of_char (char_of (48 + k) :: char) - 48 = k" if "k < 10" for k :: nat using that by simp
  show ?case
  proof (cases "n < 10")
    case True
    then show ?thesis using digit [of n] by (simp add: nat_str.simps [of n] number_of_def)
  next
    case False
    then show ?thesis using 1 digit [of "n mod 10"] by (simp add: nat_str.simps [of n] number_of_snoc)
  qed
qed

lemma last_number_limit: "last_number (s @ '' '' @ nat_str n) = n"
proof -
  have "\<forall>c \<in> set (rev (nat_str n)). py_isdigit c" and "\<not> py_isdigit CHR '' ''"
    using nat_str_digits by (auto simp: py_isdigit_def)
  then have "takeWhile py_isdigit (rev (s @ '' '' @ nat_str n)) = rev (nat_str n)" by (simp add: takeWhile_append)
  then show ?thesis unfolding last_number_def by (simp add: number_of_nat_str)
qed

theorem answer_is_capped_witness:
  "\<exists>message. run_read_only_query [''services'', ''applications''] ''mcp_ro'' [''users'', ''public''] 100 5000
     demo_db demo_query ''acme'' =
   Some (Answer [''name''] (map (row_dict [''name'']) (take 100 many_rows)) 100 True message)"
proof -
  have "limits_rows demo_db [SetReadOnly, SetTenant ''acme'', SetTimeout 5000, SetSearchPath ''mcp_ro'']
      ''SELECT name FROM services WHERE x = (1) -- c'' [''name''] many_rows"
    using last_number_limit [of "''SELECT * FROM ('' @ newline @ ''SELECT name FROM services WHERE x = (1) -- c'' @ newline @
        '') AS _mcp_q LIMIT''"]
    by (simp add: limits_rows_def)
  from answer_is_capped [OF demo_query_passes [unfolded demo_guard_def], unfolded guarded.simps, OF this]
  show ?thesis by (simp add: many_rows_def)
qed

end
