(* ===== verification/QueueRow.thy ===== *)
theory QueueRow
  imports Authz Orders
begin

text \<open>
  The transaction queue: its rows (\<open>app/db/models/transaction_queue_model.py\<close>), the queries and updates on them
  (\<open>app/repository/approval_repository.py\<close>, \<open>transaction_queue_repository.py\<close>), the seal over an approved snapshot
  (\<open>app/services/approval_service.py\<close>), and the guard every named deploy passes
  (\<open>validate_deployable_queue_items\<close> of \<open>app/services/transaction_queue_service.py\<close>).

  A queue is the list of the table's rows in the order of their insertion.  Rows are told apart by their code, and an
  update of some rows is a function mapped over the table.  The hash function, the clock and the answers of other parts
  are arguments.
\<close>

section \<open>Rows\<close>

datatype queue_status =
    DRAFT | SUBMIT | APPROVED | STARTING_DEPLOYMENT | REJECTED | COMMIT | PR_RAISED | PR_DRAFT | PR_APPROVED
  | PR_REJECTED | DEPLOYING | PR_MERGED | PROVISIONING | BUILDING | DEPLOYED | FAILED | CHECKOUT | VERIFICATION
  | STARTING_PLANNING | PLANNING | PLANNED_SUCCESSFULLY | PLAN_FAILED | STARTING_APPLYING | APPLYING
  | APPLIED_SUCCESSFULLY | APPLY_FAILED | STARTING_APPROVAL | APPROVED_SUCCESSFULLY | APPROVAL_FAILED

definition status_names :: "(string, queue_status) dict" where
  "status_names =
     [(''draft'', DRAFT), (''submit'', SUBMIT), (''approved'', APPROVED), (''starting_deployment'', STARTING_DEPLOYMENT),
      (''rejected'', REJECTED), (''commit'', COMMIT), (''pr_raised'', PR_RAISED), (''pr_draft'', PR_DRAFT),
      (''pr_approved'', PR_APPROVED), (''pr_rejected'', PR_REJECTED), (''deploying'', DEPLOYING),
      (''pr_merged'', PR_MERGED), (''provisioning'', PROVISIONING), (''building'', BUILDING), (''deployed'', DEPLOYED),
      (''failed'', FAILED), (''checkout'', CHECKOUT), (''verification'', VERIFICATION),
      (''starting_planning'', STARTING_PLANNING), (''planning'', PLANNING),
      (''planned_successfully'', PLANNED_SUCCESSFULLY), (''plan_failed'', PLAN_FAILED),
      (''starting_applying'', STARTING_APPLYING), (''applying'', APPLYING),
      (''applied_successfully'', APPLIED_SUCCESSFULLY), (''apply_failed'', APPLY_FAILED),
      (''starting_approval'', STARTING_APPROVAL), (''approved_successfully'', APPROVED_SUCCESSFULLY),
      (''approval_failed'', APPROVAL_FAILED)]"

text \<open>The value of a status, and \<open>TransactionQueueStatusEnum(s)\<close>, which raises on anything else.\<close>

definition status_value :: "queue_status \<Rightarrow> string" where
  "status_value s = (case find (\<lambda>(n, t). t = s) status_names of None \<Rightarrow> [] | Some (n, t) \<Rightarrow> n)"

definition queue_status_of :: "string \<Rightarrow> queue_status option" where
  "queue_status_of s = map_of status_names s"

datatype source_table =
  SERVICE_CONFIG | SERVICE_CONFIG_DOCKERFILE | ALERT_CONFIG | INFRASTRUCTURE | KONG_ROUTE | PIPELINE

text \<open>One line of a row's history; \<open>_event\<close> leaves an empty comment or diff out.\<close>

record queue_event =
  ev_at :: int
  ev_by :: string
  ev_event :: string
  ev_comment :: "string option"
  ev_changes :: "pyval option"

definition queue_event_of :: "int \<Rightarrow> string \<Rightarrow> string \<Rightarrow> string \<Rightarrow> pyval \<Rightarrow> queue_event" where
  "queue_event_of now by event comment changes =
     \<lparr>ev_at = now, ev_by = by, ev_event = event,
      ev_comment = (if comment = [] then None else Some comment),
      ev_changes = (if truthy changes then Some changes else None)\<rparr>"

record queue_row =
  q_id :: int
  q_code :: string
  q_user :: string
  q_tenant :: string
  q_transaction :: string
  q_table :: source_table
  q_case :: "string option"
  q_ticket :: "string option"
  q_snapshot :: pyval
  q_display :: "string option"
  q_status :: queue_status
  q_moved :: "int option"
  q_changes :: pyval
  q_hash :: "string option"
  q_decided_by :: "string option"
  q_decided_at :: "int option"
  q_comment :: "string option"
  q_started :: "int option"
  q_history :: "queue_event list"
  q_created :: int
  q_deleted :: "bool option"

type_synonym queue = "queue_row list"

text \<open>\<open>is_deleted.isnot(True)\<close> and \<open>is_deleted == False\<close>: the second one drops rows that hold NULL.\<close>

definition is_live :: "queue_row \<Rightarrow> bool" where
  "is_live r = (q_deleted r \<noteq> Some True)"

definition not_deleted :: "queue_row \<Rightarrow> bool" where
  "not_deleted r = (q_deleted r = Some False)"

definition add_event :: "queue_event \<Rightarrow> queue_row \<Rightarrow> queue_row" where
  "add_event e r = r\<lparr>q_history := q_history r @ [e]\<rparr>"

text \<open>\<open>soft_delete\<close>.\<close>

definition soft_delete :: "queue_row \<Rightarrow> queue_row" where
  "soft_delete r = r\<lparr>q_deleted := Some True\<rparr>"

definition is_gateway_row :: "queue_row \<Rightarrow> bool" where
  "is_gateway_row r \<longleftrightarrow>
     q_table r = KONG_ROUTE \<or> q_table r = SERVICE_CONFIG \<and> or_blank (q_case r) = ''add_route''"

text \<open>Assign through the rows of a list, as the session's identity map does.\<close>

definition alter :: "queue_row list \<Rightarrow> (queue_row \<Rightarrow> queue_row) \<Rightarrow> queue \<Rightarrow> queue" where
  "alter ms f q = map (\<lambda>r. if q_code r \<in> set (map q_code ms) then f r else r) q"

text \<open>\<open>ORDER BY created_at DESC LIMIT 1\<close>.\<close>

definition newest :: "queue_row list \<Rightarrow> queue_row option" where
  "newest rs = (case sort_key (\<lambda>r. - q_created r) rs of [] \<Rightarrow> None | r # _ \<Rightarrow> Some r)"

section \<open>The seal\<close>

text \<open>
  \<open>json.dumps(v, sort_keys=True, separators=(",", ":"))\<close>: keys in the order of their code points, no blanks, and
  every character outside the printable ASCII range escaped.
\<close>

definition json_char :: "char \<Rightarrow> string" where
  "json_char c =
     (let n = (of_char c :: nat) in
      if n = 34 \<or> n = 92 then [CHR 0x5C, c]
      else if n = 10 then [CHR 0x5C, CHR ''n''] else if n = 13 then [CHR 0x5C, CHR ''r'']
      else if n = 9 then [CHR 0x5C, CHR ''t''] else if n = 12 then [CHR 0x5C, CHR ''f'']
      else if n = 8 then [CHR 0x5C, CHR ''b'']
      else if n < 32 \<or> 126 < n then CHR 0x5C # ''u00'' @ [hex_digit (n div 16), hex_digit (n mod 16)]
      else [c])"

definition json_str :: "string \<Rightarrow> string" where
  "json_str s = CHR 0x22 # concat (map json_char s) @ [CHR 0x22]"

primrec json_dumps :: "pyval \<Rightarrow> string" where
  "json_dumps VNone = ''null''"
| "json_dumps (VBool b) = (if b then ''true'' else ''false'')"
| "json_dumps (VInt i) = int_str i"
| "json_dumps (VStr s) = json_str s"
| "json_dumps (VList xs) = ''['' @ py_join '','' (map json_dumps xs) @ '']''"
| "json_dumps (VDict d) =
     ''{'' @ py_join '','' (map (\<lambda>(k, s). json_str k @ '':'' @ s) (sort_key fst (map (map_prod id json_dumps) d))) @ ''}''"

text \<open>\<open>seal\<close>: the hash of the canonical text of \<open>config_snapshot or {}\<close>.\<close>

definition seal :: "(string \<Rightarrow> string) \<Rightarrow> pyval \<Rightarrow> string" where
  "seal sha v = sha (json_dumps (if truthy v then v else VDict []))"

text \<open>\<open>verify_seal\<close>.\<close>

definition verify_seal :: "(string \<Rightarrow> string) \<Rightarrow> queue_row \<Rightarrow> bool" where
  "verify_seal sha r = (case q_hash r of None \<Rightarrow> False | Some h \<Rightarrow> h \<noteq> [] \<and> h = seal sha (q_snapshot r))"

section \<open>Queries and updates\<close>

definition in_flight_statuses :: "queue_status list" where
  "in_flight_statuses =
     [STARTING_DEPLOYMENT, COMMIT, CHECKOUT, PR_DRAFT, PR_RAISED, PR_APPROVED, PR_MERGED, DEPLOYING, PROVISIONING,
      BUILDING, VERIFICATION, STARTING_PLANNING, PLANNING, PLANNED_SUCCESSFULLY, STARTING_APPLYING, APPLYING,
      STARTING_APPROVAL]"

text \<open>\<open>DEPLOY_STALE_AFTER\<close> and \<open>_DEPLOY_MARK_TTL\<close>, in seconds.\<close>

definition deploy_stale_after :: int where "deploy_stale_after = 72 * 3600"
definition deploy_mark_ttl :: int where "deploy_mark_ttl = 15 * 60"

definition approvable :: "queue_row \<Rightarrow> bool" where
  "approvable r = (q_table r = SERVICE_CONFIG \<or> q_table r = KONG_ROUTE)"

definition get_by :: "queue \<Rightarrow> string \<Rightarrow> queue_row option" where
  "get_by q code = find (\<lambda>r. q_code r = code) q"

definition get_by_id :: "queue \<Rightarrow> int \<Rightarrow> queue_row option" where
  "get_by_id q i = find (\<lambda>r. q_id r = i) q"

definition get_locked :: "queue \<Rightarrow> string \<Rightarrow> queue_row option" where
  "get_locked q code = find (\<lambda>r. q_code r = code \<and> is_live r) q"

text \<open>\<open>lock_change_set\<close> and \<open>list_change_set\<close>: one author's rows for one service, in the order of their ids.\<close>

definition in_lane :: "queue_row \<Rightarrow> queue_status list \<Rightarrow> queue_row \<Rightarrow> bool" where
  "in_lane row sts r \<longleftrightarrow>
     q_transaction r = q_transaction row \<and> q_tenant r = q_tenant row \<and> approvable r \<and> q_status r \<in> set sts \<and>
     is_live r \<and> q_user r = q_user row"

definition lane_rows :: "queue \<Rightarrow> queue_row \<Rightarrow> queue_status list \<Rightarrow> queue_row list" where
  "lane_rows q row sts = sort_key q_id (filter (in_lane row sts) q)"

text \<open>\<open>_change_set\<close>: the row itself is added when the query misses it.\<close>

definition change_set :: "queue \<Rightarrow> queue_row \<Rightarrow> queue_status list \<Rightarrow> queue_row list" where
  "change_set q row sts =
     (let ms = lane_rows q row sts in if list_all (\<lambda>r. q_code r \<noteq> q_code row) ms then ms @ [row] else ms)"

definition find_live_by_other_author :: "queue \<Rightarrow> string \<Rightarrow> string \<Rightarrow> string \<Rightarrow> queue_row option" where
  "find_live_by_other_author q code tenant user =
     find (\<lambda>r. q_transaction r = code \<and> q_tenant r = tenant \<and> approvable r \<and>
        (q_status r = SUBMIT \<or> q_status r = APPROVED) \<and> q_user r \<noteq> user \<and> is_live r) q"

definition find_live_for_resource :: "int \<Rightarrow> queue \<Rightarrow> string \<Rightarrow> string \<Rightarrow> queue_row option" where
  "find_live_for_resource now q code tenant =
     newest (filter (\<lambda>r. q_transaction r = code \<and> q_tenant r = tenant \<and> q_table r = SERVICE_CONFIG \<and>
        q_case r \<noteq> Some ''add_route'' \<and> is_live r \<and>
        (q_status r = SUBMIT \<or> q_status r = APPROVED \<or>
         q_status r \<in> set in_flight_statuses \<and>
         now - deploy_stale_after < (case q_moved r of None \<Rightarrow> q_created r | Some t \<Rightarrow> t))) q)"

text \<open>\<open>deploy_in_flight\<close>: is the mark of the deploy gate younger than its time to live?\<close>

definition deploy_in_flight :: "int \<Rightarrow> queue_row \<Rightarrow> bool" where
  "deploy_in_flight now r = (case q_started r of None \<Rightarrow> False | Some t \<Rightarrow> now - t < deploy_mark_ttl)"

definition bulk_approve_by_ids :: "int \<Rightarrow> int list \<Rightarrow> string \<Rightarrow> string \<Rightarrow> queue \<Rightarrow> nat \<times> queue" where
  "bulk_approve_by_ids now ids user tenant q =
     (let hit = (\<lambda>r. q_id r \<in> set ids \<and> q_user r = user \<and> q_tenant r = tenant \<and> not_deleted r) in
      (length (filter hit q), map (\<lambda>r. if hit r then r\<lparr>q_status := APPROVED, q_moved := Some now\<rparr> else r) q))"

definition soft_delete_item :: "queue \<Rightarrow> int \<Rightarrow> queue" where
  "soft_delete_item q i =
     (case get_by_id q i of
        None \<Rightarrow> q
      | Some r \<Rightarrow> if q_status r = APPROVED then alter [r] soft_delete q else q)"

text \<open>\<open>append_status_event\<close>: a transition of the pipeline, kebab-cased; nothing when the status stays.\<close>

definition append_status_event :: "int \<Rightarrow> queue_status \<Rightarrow> queue_row \<Rightarrow> queue_row" where
  "append_status_event now s r =
     (if q_status r = s then r
      else add_event (queue_event_of now ''pipeline''
             (map (\<lambda>c. if c = CHR ''_'' then CHR ''-'' else c) (status_value s)) [] VNone) r)"

text \<open>\<open>update_status\<close>, and the other branch of \<open>update_queue_status\<close>: a move, with its event or without.\<close>

definition update_status :: "int \<Rightarrow> queue_status \<Rightarrow> queue \<Rightarrow> queue" where
  "update_status i s q = map (\<lambda>r. if q_id r = i then r\<lparr>q_status := s\<rparr> else r) q"

definition move_row :: "int \<Rightarrow> queue_status \<Rightarrow> queue_row \<Rightarrow> queue_row" where
  "move_row now s r = (append_status_event now s r)\<lparr>q_status := s\<rparr>"

text \<open>
  The activity \<open>update_queue_status\<close> (\<open>app/temporal/activities/deploy_activities.py\<close>): a failed deploy sends the rows
  that were in flight back to \<open>APPROVED\<close>, with the mark of the deploy gate removed and the seal kept.  An unknown
  status raises: no result.
\<close>

definition failable_statuses :: "queue_status list" where
  "failable_statuses =
     [APPROVED, STARTING_DEPLOYMENT, DEPLOYING, PR_RAISED, PR_MERGED, PROVISIONING, BUILDING, COMMIT, CHECKOUT]"

definition fail_row :: "int \<Rightarrow> queue_row \<Rightarrow> queue_row" where
  "fail_row now r =
     (if q_status r \<notin> set failable_statuses then r
      else add_event (queue_event_of now ''rule'' ''deploy-failed''
               (''deploy failed while '' @ status_value (q_status r) @
                ''; returned to approved so it can be deployed again'') VNone)
             (r\<lparr>q_status := APPROVED, q_started := None\<rparr>))"

definition update_queue_status :: "int \<Rightarrow> int list \<Rightarrow> string \<Rightarrow> queue \<Rightarrow> queue option" where
  "update_queue_status now ids new_status q =
     (case queue_status_of (py_lower new_status) of
        None \<Rightarrow> None
      | Some s \<Rightarrow>
          Some (map (\<lambda>r. if q_id r \<notin> set ids then r
                         else if s = FAILED then fail_row now r else move_row now s r) q))"

text \<open>
  \<open>_pr_rejected_to_approved\<close>: a pull request closed without a merge sends its rows back, except in production.
\<close>

definition pr_in_flight :: "queue_status list" where
  "pr_in_flight = [STARTING_DEPLOYMENT, COMMIT, CHECKOUT, PR_DRAFT, PR_RAISED, PR_APPROVED]"

definition snapshot_dict :: "pyval \<Rightarrow> config" where
  "snapshot_dict v = (case v of VDict d \<Rightarrow> d | _ \<Rightarrow> [])"

definition pr_rejected_to_approved :: "int \<Rightarrow> queue_row \<Rightarrow> queue_row" where
  "pr_rejected_to_approved now r =
     (if q_status r \<notin> set pr_in_flight then r
      else if dict_get (snapshot_dict (q_snapshot r)) ''environment'' = VStr ''prod'' then
        add_event (queue_event_of now ''rule'' ''pr-rejected'' ''pull request closed'' VNone)
          (r\<lparr>q_status := PR_REJECTED\<rparr>)
      else add_event (queue_event_of now ''rule'' ''pr-rejected''
               (''pull request closed without merging while '' @ status_value (q_status r) @
                ''; returned to approved so it can be deployed again'') VNone)
             (r\<lparr>q_status := APPROVED\<rparr>))"

definition bulk_update_status_by_codes :: "int \<Rightarrow> string list \<Rightarrow> queue_status \<Rightarrow> queue \<Rightarrow> nat \<times> queue" where
  "bulk_update_status_by_codes now codes s q =
     (if s = PR_REJECTED then
        (length (filter (\<lambda>r. q_code r \<in> set codes \<and> q_status (pr_rejected_to_approved now r) \<noteq> q_status r \<and>
            q_status (pr_rejected_to_approved now r) = APPROVED) q),
         map (\<lambda>r. if q_code r \<in> set codes then pr_rejected_to_approved now r else r) q)
      else (length (filter (\<lambda>r. q_code r \<in> set codes) q),
            map (\<lambda>r. if q_code r \<in> set codes then (move_row now s r)\<lparr>q_moved := Some now\<rparr> else r) q))"

section \<open>Refusals\<close>

datatype refusal =
    No_items | Missing_items "int list" | Foreign_item string string | Not_approved string queue_status
  | Seal_broken string
  | Not_found | Wrong_status queue_status | Not_wired | Denied nat | Own_request | Being_deployed | No_comment
  | Lane_taken string | Bad_path string | Nothing_changed | Not_yours | Moved_on | Upstream_failed
  | Change_pending string | No_product | Container_in_use string | Code_taken
  | No_such_column | No_repository

definition http_status :: "refusal \<Rightarrow> nat" where
  "http_status e =
     (case e of
        No_items \<Rightarrow> 400 | Missing_items _ \<Rightarrow> 404 | Foreign_item _ _ \<Rightarrow> 403 | Not_approved _ _ \<Rightarrow> 409
      | Seal_broken _ \<Rightarrow> 409 | Not_found \<Rightarrow> 404 | Wrong_status _ \<Rightarrow> 409 | Not_wired \<Rightarrow> 400 | Denied s \<Rightarrow> s
      | Own_request \<Rightarrow> 403 | Being_deployed \<Rightarrow> 409 | No_comment \<Rightarrow> 400 | Lane_taken _ \<Rightarrow> 409 | Bad_path _ \<Rightarrow> 422
      | Nothing_changed \<Rightarrow> 409 | Not_yours \<Rightarrow> 403 | Moved_on \<Rightarrow> 409 | Upstream_failed \<Rightarrow> 502
      | Change_pending _ \<Rightarrow> 409 | No_product \<Rightarrow> 400 | Container_in_use _ \<Rightarrow> 409 | Code_taken \<Rightarrow> 500
      | No_such_column \<Rightarrow> 500 | No_repository \<Rightarrow> 400)"

text \<open>The answer of an operation and the table it leaves.\<close>

type_synonym 'a reply = "(refusal, 'a) result \<times> queue"

text \<open>A row is stored under its unique code; a code that is taken violates the constraint.\<close>

definition insert_row :: "queue_row \<Rightarrow> queue \<Rightarrow> string reply" where
  "insert_row r q = (if get_by q (q_code r) \<noteq> None then (Inl Code_taken, q) else (Inr (q_code r), q @ [r]))"

section \<open>Gateway rows of a scope\<close>

text \<open>
  The configurations of a scope (service, environment, region) are found by a subquery; their codes are an argument.
\<close>

definition find_submitted_for_scope :: "queue \<Rightarrow> string \<Rightarrow> string list \<Rightarrow> queue_row option" where
  "find_submitted_for_scope q user scope =
     newest (filter (\<lambda>r. is_gateway_row r \<and> q_user r = user \<and> q_transaction r \<in> set scope \<and>
        q_status r = SUBMIT \<and> not_deleted r) q)"

definition fresh_id :: "queue \<Rightarrow> int" where
  "fresh_id q = fold max (map q_id q) 0 + 1"

text \<open>What \<open>upsert_pending_for_scope\<close> writes: the pending row of the user, or a new draft.\<close>

definition rewrite_gateway :: "string \<Rightarrow> pyval \<Rightarrow> string \<Rightarrow> queue_row \<Rightarrow> queue_row" where
  "rewrite_gateway code snapshot name r =
     (let r' = r\<lparr>q_snapshot := snapshot, q_transaction := code, q_table := SERVICE_CONFIG,
                 q_case := Some ''add_route'', q_display := Some (take 255 name)\<rparr>
      in if q_status r = DRAFT then r'
         else r'\<lparr>q_status := DRAFT, q_decided_by := None, q_decided_at := None, q_comment := None, q_hash := None\<rparr>)"

definition new_row ::
  "int \<Rightarrow> string \<Rightarrow> string \<Rightarrow> string \<Rightarrow> string \<Rightarrow> source_table \<Rightarrow> string option \<Rightarrow> string option \<Rightarrow> pyval \<Rightarrow>
   string \<Rightarrow> queue_status \<Rightarrow> string option \<Rightarrow> queue \<Rightarrow> queue_row" where
  "new_row now uuid user tenant code tab case_ref ticket snapshot name st birth_seal q =
     \<lparr>q_id = fresh_id q, q_code = ''queue-'' @ uuid, q_user = user, q_tenant = tenant, q_transaction = code,
      q_table = tab, q_case = case_ref, q_ticket = ticket, q_snapshot = snapshot, q_display = Some name,
      q_status = st, q_moved = Some now, q_changes = VNone, q_hash = birth_seal, q_decided_by = None,
      q_decided_at = None, q_comment = None, q_started = None, q_history = [], q_created = now,
      q_deleted = Some False\<rparr>"

definition upsert_pending_for_scope ::
  "int \<Rightarrow> string \<Rightarrow> queue \<Rightarrow> string \<Rightarrow> string \<Rightarrow> string \<Rightarrow> string list \<Rightarrow> pyval \<Rightarrow> string \<Rightarrow> string reply" where
  "upsert_pending_for_scope now uuid q code tenant user scope snapshot name =
     (case newest (filter (\<lambda>r. is_gateway_row r \<and> q_user r = user \<and> q_transaction r \<in> set scope \<and>
          (q_status r = DRAFT \<or> q_status r = APPROVED \<or> q_status r = FAILED) \<and> not_deleted r) q) of
        Some r \<Rightarrow> (Inr (q_code r), alter [r] (rewrite_gateway code snapshot name) q)
      | None \<Rightarrow>
          insert_row (new_row now uuid user tenant code SERVICE_CONFIG (Some ''add_route'') None snapshot
            (take 255 name) DRAFT None q) q)"

definition clear_pending_for_scope :: "queue \<Rightarrow> string \<Rightarrow> string list \<Rightarrow> queue" where
  "clear_pending_for_scope q user scope =
     map (\<lambda>r. if is_gateway_row r \<and> q_user r = user \<and> q_transaction r \<in> set scope \<and>
          q_status r \<in> {DRAFT, APPROVED, SUBMIT, FAILED, PR_REJECTED} \<and> not_deleted r
        then soft_delete r else r) q"

section \<open>The deploy guard\<close>

text \<open>\<open>list(dict.fromkeys(xs))\<close>.\<close>

definition first_seen :: "'a list \<Rightarrow> 'a list" where
  "first_seen xs = rev (remdups (rev xs))"

definition validate_deployable_queue_items ::
  "(string \<Rightarrow> string) \<Rightarrow> int \<Rightarrow> queue \<Rightarrow> int list \<Rightarrow> string \<Rightarrow> string option \<Rightarrow> queue_row list reply" where
  "validate_deployable_queue_items sha now q queue_ids tenant authorized =
     (let ids = first_seen queue_ids;
          rows = filter (\<lambda>r. q_id r \<in> set ids \<and> q_tenant r = tenant \<and> is_live r) q;
          missing = filter (\<lambda>i. get_by_id rows i = None) ids;
          ordered = List.map_filter (get_by_id rows) ids
      in if ids = [] then (Inl No_items, q)
         else if missing \<noteq> [] then (Inl (Missing_items missing), q)
         else case (case authorized of None \<Rightarrow> None | Some a \<Rightarrow>
                      if a = [] then None else map_option (Pair a) (find (\<lambda>r. q_transaction r \<noteq> a) ordered)) of
           Some (a, r) \<Rightarrow> (Inl (Foreign_item (q_code r) a), q)
         | None \<Rightarrow>
             (case find (\<lambda>r. q_status r \<noteq> APPROVED) ordered of
                Some r \<Rightarrow> (Inl (Not_approved (q_code r) (q_status r)), q)
              | None \<Rightarrow>
                  (case find (\<lambda>r. \<not> verify_seal sha r) ordered of
                     Some r \<Rightarrow> (Inl (Seal_broken (q_code r)),
                                alter [r] (add_event (queue_event_of now ''system'' ''seal-broken'' [] VNone)) q)
                   | None \<Rightarrow> (Inr ordered, q))))"

end
