(* ===== verification/QueueService.thy ===== *)
theory QueueService
  imports QueueRow
begin

text \<open>
  Putting changes on the transaction queue, taking them off, and starting their deployment
  (\<open>app/services/transaction_queue_service.py\<close>).  The live configuration rows, the names of applications, the host
  configuration of a Kong route, the settled routing defaults, the file locator and the summary of the variables service
  are fields of the surroundings.
\<close>

section \<open>Surroundings\<close>

record approval_rule =
  require_approval :: bool
  allow_self_approval :: bool
  allow_approver_edit :: bool

record service_config =
  sc_id :: int
  sc_code :: string
  sc_service :: string
  sc_language :: "string option"
  sc_config :: pyval
  sc_environment :: string
  sc_region :: string
  sc_scope :: "string list"

text \<open>A live group of Kong routes: the paths by their codes, the plugins, the priority.\<close>

record kong_group =
  kg_paths :: "(string, string) dict"
  kg_plugins :: "pyval list"
  kg_priority :: int

text \<open>
  \<open>w_settings_diff\<close> is the settings branch of \<open>compute_changes\<close>, \<open>w_discard_variables\<close> the codes of the rows
  devlift-secret bins (no result when the call fails), \<open>w_locate\<close> the project directories the file locator finds for a
  row (no result when it raises).
\<close>

record world =
  w_now :: int
  w_uuid :: string
  w_fga :: surroundings
  w_group :: "string \<Rightarrow> string option"
  w_rule :: "string \<Rightarrow> string \<Rightarrow> approval_rule option"
  w_settings_diff :: "queue_row \<Rightarrow> pyval"
  w_discard_variables :: "queue_row \<Rightarrow> string list option"
  w_config :: "string \<Rightarrow> string \<Rightarrow> service_config option"
  w_application :: "string \<Rightarrow> string option"
  w_kong_host :: "string \<Rightarrow> config \<Rightarrow> string option"
  w_kong_group :: "string \<Rightarrow> kong_group option"
  w_settle :: "config \<Rightarrow> service_config \<Rightarrow> string \<Rightarrow> config"
  w_variables_summary :: "string \<Rightarrow> config"
  w_pending_diff :: "string \<Rightarrow> string \<Rightarrow> bool"
  w_live_snapshot :: "service_config \<Rightarrow> config"
  w_service_name :: "string \<Rightarrow> string option"
  w_environment :: "queue_row \<Rightarrow> string option"
  w_locate :: "queue_row \<Rightarrow> string list option"
  w_has_repository :: bool

section \<open>Snapshots\<close>

definition get_or :: "config \<Rightarrow> string \<Rightarrow> pyval \<Rightarrow> pyval" where
  "get_or d k v = (case map_of d k of None \<Rightarrow> v | Some u \<Rightarrow> u)"

text \<open>\<open>a or b\<close>, and the first truthy value of some keys.\<close>

definition either :: "pyval \<Rightarrow> pyval \<Rightarrow> pyval" where
  "either v u = (if truthy v then v else u)"

definition first_text :: "config \<Rightarrow> string list \<Rightarrow> string \<Rightarrow> string" where
  "first_text d ks fallback =
     (case find (\<lambda>k. truthy (dict_get d k)) ks of None \<Rightarrow> fallback | Some k \<Rightarrow> py_str (dict_get d k))"

text \<open>\<open>for k, v in nested.items(): d.setdefault(k, v)\<close>.\<close>

definition lift_missing :: "config \<Rightarrow> config \<Rightarrow> config" where
  "lift_missing nested d = foldl (\<lambda>e (k, v). if map_of e k = None then e @ [(k, v)] else e) d nested"

definition blank_name :: "pyval \<Rightarrow> bool" where
  "blank_name v \<longleftrightarrow> \<not> truthy v \<or> v = VStr ''None'' \<or> v = VStr ''null''"

text \<open>\<open>_enrich_config_snapshot\<close>; \<open>Inl No_product\<close> is the \<open>ValueError\<close>.\<close>

definition with_product :: "world \<Rightarrow> config \<Rightarrow> config \<Rightarrow> (refusal, config) result" where
  "with_product w snapshot enriched =
     (if \<not> blank_name (dict_get enriched ''product_name'') then Inr enriched
      else let app = either (dict_get snapshot ''applications_mst_code'') (dict_get snapshot ''product'') in
        if blank_name app then Inl No_product
        else (case w_application w (py_str app) of
            None \<Rightarrow> Inl No_product
          | Some name \<Rightarrow> Inr (AList.update ''product_name'' (VStr name) enriched)))"

definition with_vendor_account :: "source_table \<Rightarrow> config \<Rightarrow> config" where
  "with_vendor_account tab d =
     (if tab = INFRASTRUCTURE \<and> \<not> truthy (dict_get d ''infra_vendor_accounts_mst_code'') then
        let tenant = py_str (get_or d ''tenant_code'' (VStr ''unknown''));
            env = py_str (get_or d ''environment'' (VStr ''dev''));
            env' = (if env = ''stage'' then ''staging'' else env)
        in AList.update ''infra_vendor_accounts_mst_code'' (VStr (py_lower (''aws_'' @ tenant @ ''_'' @ env'))) d
      else d)"

definition enrich_config_snapshot :: "world \<Rightarrow> config \<Rightarrow> source_table \<Rightarrow> (refusal, config) result" where
  "enrich_config_snapshot w snapshot tab =
     (let lifted = (case dict_get snapshot ''config'' of VDict nested \<Rightarrow> lift_missing nested snapshot | _ \<Rightarrow> snapshot)
      in map_sum id (with_vendor_account tab) (with_product w snapshot lifted))"

text \<open>The enrichment from the live configuration row, with the routing settled for a settings change.\<close>

definition keep_server_fields :: "config \<Rightarrow> config \<Rightarrow> config" where
  "keep_server_fields stored d =
     foldl (\<lambda>e k. if truthy (dict_get stored k) \<and> \<not> truthy (dict_get e k) then AList.update k (dict_get stored k) e else e)
       d [''efs_path'', ''model_revision'', ''download_job_name'']"

definition settle_routing :: "world \<Rightarrow> service_config \<Rightarrow> string \<Rightarrow> config \<Rightarrow> config" where
  "settle_routing w sc tenant d =
     (case dict_get d ''config'' of
        VDict nested \<Rightarrow>
          let settled = w_settle w nested sc tenant in
          foldl (\<lambda>e k. case map_of settled k of Some v \<Rightarrow> AList.update k v e | None \<Rightarrow> AList.delete k e)
            (AList.update ''config'' (VDict settled) d)
            [''service_path'', ''health'', ''alb_url'', ''resolved_service_path'']
      | _ \<Rightarrow> d)"

definition with_service_config :: "world \<Rightarrow> service_config \<Rightarrow> string \<Rightarrow> string option \<Rightarrow> config \<Rightarrow> config" where
  "with_service_config w sc tenant case_ref d =
     (let d1 = AList.update ''services_mst_code'' (VStr (sc_service sc))
                 (AList.update ''code'' (VStr (sc_code sc)) (AList.update ''id'' (VInt (sc_id sc)) d));
          d2 = (case sc_language sc of Some l \<Rightarrow> if l = [] then d1 else AList.update ''language_ref_code'' (VStr l) d1
                | None \<Rightarrow> d1);
          d3 = keep_server_fields (snapshot_dict (sc_config sc)) d2
      in if case_ref = Some ''update_service'' then settle_routing w sc tenant d3 else d3)"

definition complete_snapshot ::
  "world \<Rightarrow> string \<Rightarrow> string \<Rightarrow> source_table \<Rightarrow> string option \<Rightarrow> config \<Rightarrow> (refusal, config) result" where
  "complete_snapshot w tenant code tab case_ref snapshot =
     map_sum id (\<lambda>d.
       let d' = (if tab = SERVICE_CONFIG \<and> code \<noteq> [] then
                   (case w_config w code tenant of None \<Rightarrow> d | Some sc \<Rightarrow> with_service_config w sc tenant case_ref d)
                 else d)
       in if map_of d' ''tenant_code'' = None then AList.update ''tenant_code'' (VStr tenant) d' else d')
       (enrich_config_snapshot w snapshot tab)"

section \<open>Display names\<close>

text \<open>
  \<open>_generate_display_name\<close>: each branch shortens its middle part when the whole would not fit into 255 characters.
\<close>

definition shorten :: "nat \<Rightarrow> string \<Rightarrow> string" where
  "shorten n s = take (n - 3) s @ ''...''"

definition fit_name :: "string \<Rightarrow> string \<Rightarrow> string \<Rightarrow> string \<Rightarrow> string" where
  "fit_name before middle behind gap =
     (let name = before @ middle @ behind; room = 255 - (length before + length behind) in
      if length name \<le> 255 then name
      else if length before + length behind + 10 < 255
        then before @ gap @ shorten room middle @ gap @ behind
      else take 252 name @ ''...'')"

definition spaced :: "string \<Rightarrow> string" where
  "spaced s = map (\<lambda>c. if c = CHR ''_'' then CHR '' '' else c) s"

definition generate_display_name :: "config \<Rightarrow> source_table \<Rightarrow> string option \<Rightarrow> string" where
  "generate_display_name d tab case_ref =
     (if tab = KONG_ROUTE \<or> case_ref = Some ''add_route'' then
        let verb = first_text d [''method'', ''http_method''] ''unknown-method'';
            route = filter (\<lambda>c. c \<noteq> CHR ''~'' \<and> c \<noteq> CHR ''$'')
                      (first_text d [''route'', ''route_path''] ''unknown-route'')
        in fit_name (''add route : '' @ verb @ '' '') route [] []
      else
        let kind = (if or_blank case_ref \<noteq> [] then or_blank case_ref else first_text d [''case_ref_code''] ''unknown'');
            label = spaced kind;
            geo = py_str (get_or d ''geo_loc_mst_code'' (VStr ''unknown-region''))
        in if kind = ''database_creation'' then
             fit_name (label @ '' : '') (first_text d [''database_name'', ''db_name'', ''name''] ''unnamed'') ('' '' @ geo) []
           else if kind = ''user_management'' then
             fit_name (label @ '' : '') (first_text d [''db_user_name'', ''user_name'', ''name''] ''unnamed'') ('' '' @ geo) []
           else fit_name (label @ '':'') (first_text d [''identifier'', ''service_name'', ''name''] ''unnamed'')
                  ('' '' @ geo) '' '')"

section \<open>Adding a change\<close>

definition seal_at_birth :: "string option \<Rightarrow> bool" where
  "seal_at_birth case_ref \<longleftrightarrow>
     case_ref \<in> set (map Some [''create_bucket'', ''delete_bucket'', ''create_queue'', ''delete_queue'',
       ''table_management'', ''delete_dynamodb_table''])"

text \<open>\<open>_refuse_disabling_a_non_empty_container\<close>: \<open>cfg.get(flag, True) is False\<close> for a container in use.\<close>

definition refuse_disabling :: "world \<Rightarrow> string \<Rightarrow> config \<Rightarrow> (refusal, unit) result" where
  "refuse_disabling w code snapshot =
     (let cfg = (case dict_get snapshot ''config'' of VDict nested \<Rightarrow> nested | _ \<Rightarrow> snapshot);
          off = filter (\<lambda>(flag, evidence). get_or cfg flag (VBool True) = VBool False)
                  [(''create_secrets'', ''has_secrets''), (''create_ssm'', ''has_variables'')]
      in if off = [] then Inr ()
         else (case find (\<lambda>(flag, evidence). truthy (dict_get (w_variables_summary w code) evidence)) off of
             None \<Rightarrow> Inr ()
           | Some (flag, evidence) \<Rightarrow> Inl (Container_in_use flag)))"

record queue_request =
  rq_user :: string
  rq_tenant :: string
  rq_transaction :: string
  rq_table :: source_table
  rq_snapshot :: config
  rq_case :: "string option"
  rq_ticket :: "string option"
  rq_queue_code :: "string option"
  rq_validate_flags :: bool

text \<open>Where a Kong route change is anchored: on the configuration of its host, when one is found.\<close>

definition anchor :: "world \<Rightarrow> queue_request \<Rightarrow> queue_request" where
  "anchor w rq =
     (if rq_case rq = Some ''add_route'' \<and> rq_table rq \<noteq> SERVICE_CONFIG then
        (case w_kong_host w (rq_tenant rq) (rq_snapshot rq) of
           None \<Rightarrow> rq
         | Some host \<Rightarrow> if host = [] then rq else rq\<lparr>rq_transaction := host, rq_table := SERVICE_CONFIG\<rparr>)
      else rq)"

text \<open>The update of an open row that was named, and of the open settings row that was found.\<close>

definition rewrite_item :: "(string \<Rightarrow> string) \<Rightarrow> queue_request \<Rightarrow> pyval \<Rightarrow> string \<Rightarrow> queue_row \<Rightarrow> queue_row" where
  "rewrite_item sha rq snapshot name r =
     r\<lparr>q_snapshot := snapshot, q_display := Some name, q_case := rq_case rq, q_ticket := rq_ticket rq,
       q_transaction := rq_transaction rq, q_table := rq_table rq,
       q_hash := (if q_status r = APPROVED \<and> seal_at_birth (rq_case rq) then Some (seal sha snapshot) else q_hash r)\<rparr>"

definition rewrite_settings :: "queue_request \<Rightarrow> pyval \<Rightarrow> string \<Rightarrow> queue_row \<Rightarrow> queue_row" where
  "rewrite_settings rq snapshot name r =
     r\<lparr>q_snapshot := snapshot, q_display := Some name, q_case := rq_case rq, q_ticket := rq_ticket rq\<rparr>"

definition named_row :: "queue \<Rightarrow> queue_request \<Rightarrow> queue_row option" where
  "named_row q rq =
     (if or_blank (rq_queue_code rq) = [] then None
      else (case get_by q (or_blank (rq_queue_code rq)) of
          None \<Rightarrow> None
        | Some r \<Rightarrow>
            if is_live r \<and> q_user r = rq_user rq \<and> (q_status r = DRAFT \<or> q_status r = APPROVED) then Some r else None))"

definition search_draft_by_transaction ::
  "queue \<Rightarrow> string \<Rightarrow> source_table \<Rightarrow> string \<Rightarrow> string \<Rightarrow> string option \<Rightarrow> bool \<Rightarrow> queue_row option" where
  "search_draft_by_transaction q code tab tenant user case_ref include_failed =
     newest (filter (\<lambda>r. q_transaction r = code \<and> q_table r = tab \<and> q_tenant r = tenant \<and> q_user r = user \<and>
        (q_status r = DRAFT \<or> q_status r = APPROVED \<or> include_failed \<and> q_status r = FAILED) \<and> not_deleted r \<and>
        (or_blank case_ref = [] \<or> q_case r = case_ref)) q)"

definition settings_row :: "queue \<Rightarrow> queue_request \<Rightarrow> queue_row option" where
  "settings_row q rq =
     (if or_blank (rq_queue_code rq) = [] \<and> rq_table rq = SERVICE_CONFIG \<and> rq_case rq = Some ''update_service''
      then search_draft_by_transaction q (rq_transaction rq) (rq_table rq) (rq_tenant rq) (rq_user rq)
             (Some ''update_service'') False
      else None)"

definition initial_status :: "queue_request \<Rightarrow> queue_status" where
  "initial_status rq =
     (if rq_table rq = SERVICE_CONFIG \<and> rq_case rq \<noteq> Some ''add_route'' then DRAFT else APPROVED)"

definition store_item :: "(string \<Rightarrow> string) \<Rightarrow> world \<Rightarrow> queue \<Rightarrow> queue_request \<Rightarrow> pyval \<Rightarrow> string \<Rightarrow> string reply" where
  "store_item sha w q rq snapshot name =
     (case named_row q rq of
        Some r \<Rightarrow> (Inr (q_code r), alter [r] (rewrite_item sha rq snapshot name) q)
      | None \<Rightarrow>
          (case settings_row q rq of
             Some r \<Rightarrow> (Inr (q_code r), alter [r] (rewrite_settings rq snapshot name) q)
           | None \<Rightarrow>
               insert_row (new_row (w_now w) (w_uuid w) (rq_user rq) (rq_tenant rq) (rq_transaction rq) (rq_table rq)
                 (rq_case rq) (rq_ticket rq) snapshot name (initial_status rq)
                 (if initial_status rq = APPROVED \<and> seal_at_birth (rq_case rq) then Some (seal sha snapshot) else None)
                 q) q))"

definition add_item_to_queue :: "(string \<Rightarrow> string) \<Rightarrow> world \<Rightarrow> queue \<Rightarrow> queue_request \<Rightarrow> string reply" where
  "add_item_to_queue sha w q rq0 =
     (case (if rq_validate_flags rq0 \<and> rq_table rq0 = SERVICE_CONFIG \<and> rq_case rq0 = Some ''update_service''
            then refuse_disabling w (rq_transaction rq0) (rq_snapshot rq0) else Inr ()) of
        Inl e \<Rightarrow> (Inl e, q)
      | Inr _ \<Rightarrow>
          let rq = anchor w rq0 in
          (case complete_snapshot w (rq_tenant rq) (rq_transaction rq) (rq_table rq) (rq_case rq) (rq_snapshot rq) of
             Inl e \<Rightarrow> (Inl e, q)
           | Inr d \<Rightarrow> store_item sha w q rq (VDict d) (generate_display_name d (rq_table rq) (rq_case rq))))"

section \<open>Taking a change off\<close>

text \<open>\<open>remove_from_queue\<close> answers whether a row was found, \<open>delete_queue_item\<close> the id of the row.\<close>

definition remove_from_queue :: "queue \<Rightarrow> int \<Rightarrow> string \<Rightarrow> bool reply" where
  "remove_from_queue q i user =
     (case get_by_id q i of
        None \<Rightarrow> (Inr False, q)
      | Some r \<Rightarrow>
          if q_user r \<noteq> user then (Inl Not_yours, q)
          else if q_status r \<noteq> DRAFT \<and> q_status r \<noteq> APPROVED then (Inl (Wrong_status (q_status r)), q)
          else (Inr True, soft_delete_item q i))"

definition delete_queue_item :: "queue \<Rightarrow> string \<Rightarrow> string \<Rightarrow> int option reply" where
  "delete_queue_item q code user =
     (case get_by q code of
        None \<Rightarrow> (Inr None, q)
      | Some r \<Rightarrow>
          if \<not> is_live r then (Inr None, q)
          else if q_user r \<noteq> user then (Inl Not_yours, q)
          else if q_status r \<noteq> DRAFT \<and> q_status r \<noteq> APPROVED then (Inl (Wrong_status (q_status r)), q)
          else (Inr (Some (q_id r)), soft_delete_item q (q_id r)))"

section \<open>Deploying\<close>

definition bulk_approve :: "world \<Rightarrow> queue \<Rightarrow> int list \<Rightarrow> string \<Rightarrow> string \<Rightarrow> nat reply" where
  "bulk_approve w q ids user tenant =
     (case bulk_approve_by_ids (w_now w) ids user tenant q of (n, q') \<Rightarrow> (Inr n, q'))"

text \<open>
  \<open>ensure_settings_deploy_item\<close>: the id of the item to deploy, if any, and whether there is nothing to deploy.
\<close>

definition sealed_settings_row :: "queue \<Rightarrow> string \<Rightarrow> string \<Rightarrow> queue_row option" where
  "sealed_settings_row q code tenant =
     (case sort_key (\<lambda>r. - q_id r) (filter (\<lambda>r. q_transaction r = code \<and> q_tenant r = tenant \<and>
          q_table r = SERVICE_CONFIG \<and> q_case r = Some ''update_service'' \<and> q_status r = APPROVED \<and>
          q_hash r \<noteq> None \<and> is_live r) q) of
        [] \<Rightarrow> None | r # _ \<Rightarrow> Some r)"

definition ensure_settings_deploy_item ::
  "(string \<Rightarrow> string) \<Rightarrow> world \<Rightarrow> queue \<Rightarrow> string \<Rightarrow> string \<Rightarrow> string \<Rightarrow> (int option \<times> bool) reply" where
  "ensure_settings_deploy_item sha w q code tenant user =
     (case w_config w code tenant of
        None \<Rightarrow> (Inr (None, False), q)
      | Some sc \<Rightarrow>
          (case sealed_settings_row q code tenant of
             Some r \<Rightarrow> (Inr (Some (q_id r), False), q)
           | None \<Rightarrow>
               if \<not> w_pending_diff w code tenant then (Inr (None, True), q)
               else (case add_item_to_queue sha w q
                   \<lparr>rq_user = user, rq_tenant = tenant, rq_transaction = code, rq_table = SERVICE_CONFIG,
                    rq_snapshot = w_live_snapshot w sc, rq_case = Some ''update_service'', rq_ticket = None,
                    rq_queue_code = None, rq_validate_flags = False\<rparr> of
                   (Inl e, q') \<Rightarrow> (Inl e, q')
                 | (Inr c, q') \<Rightarrow>
                     (case get_by q' c of
                        None \<Rightarrow> (Inr (None, False), q')
                      | Some r \<Rightarrow>
                          (Inr (Some (q_id r), False),
                           if q_status r \<noteq> APPROVED then snd (bulk_approve_by_ids (w_now w) [q_id r] user tenant q')
                           else q')))))"

text \<open>
  \<open>deploy_temporal\<close>: the rows it takes, the workflow it starts for them, and their status afterwards.  With item ids
  a row is taken when it is the tenant's and approved; without, the user's approved rows that are not deleted, and an
  environment is a filter on a column the table does not have.
\<close>

datatype deploy_start =
    Start_production "int list" "string list"
  | Start_deployment "int list" "string list"

definition deployable_by_id :: "queue \<Rightarrow> string \<Rightarrow> int list \<Rightarrow> queue_row list" where
  "deployable_by_id q tenant ids =
     filter (\<lambda>r. q_tenant r = tenant \<and> q_status r = APPROVED) (List.map_filter (get_by_id q) ids)"

definition pending_items_for_user :: "queue \<Rightarrow> string \<Rightarrow> string \<Rightarrow> queue_row list" where
  "pending_items_for_user q user tenant =
     sort_key (\<lambda>r. - q_created r)
       (filter (\<lambda>r. q_user r = user \<and> q_status r = APPROVED \<and> not_deleted r \<and> (tenant = [] \<or> q_tenant r = tenant)) q)"

definition item_key :: "int \<Rightarrow> string" where
  "item_key i = ''item-'' @ int_str i"

text \<open>The directories of one row are added when new; a locator failure adds the row's own key.\<close>

definition add_dirs :: "world \<Rightarrow> string list \<Rightarrow> queue_row \<Rightarrow> string list" where
  "add_dirs w dirs r =
     (case w_locate w r of
        None \<Rightarrow> dirs @ [item_key (q_id r)]
      | Some ds \<Rightarrow> foldl (\<lambda>acc d. if d \<in> set acc then acc else acc @ [d]) dirs ds)"

definition deploy_temporal ::
  "world \<Rightarrow> queue \<Rightarrow> string \<Rightarrow> string \<Rightarrow> string option \<Rightarrow> int list option \<Rightarrow> deploy_start reply" where
  "deploy_temporal w q user tenant environment item_ids =
     (let by_id = (case item_ids of Some (i # is) \<Rightarrow> True | _ \<Rightarrow> False);
          items = (case item_ids of Some (i # is) \<Rightarrow> deployable_by_id q tenant (i # is)
                   | _ \<Rightarrow> pending_items_for_user q user tenant);
          ids = map q_id items;
          dirs = foldl (add_dirs w) [] items;
          dirs' = (if dirs = [] then map item_key ids else dirs);
          prod = list_ex (\<lambda>r. case w_environment w r of None \<Rightarrow> False | Some e \<Rightarrow> py_in ''prod'' e) items
      in if \<not> by_id \<and> or_blank environment \<noteq> [] then (Inl No_such_column, q)
         else if items = [] then (Inl No_items, q)
         else if prod \<and> \<not> w_has_repository w then (Inl No_repository, q)
         else (Inr (if prod then Start_production ids dirs' else Start_deployment ids dirs'),
               foldl (\<lambda>q i. update_status i STARTING_DEPLOYMENT q) q ids))"

end
