(* ===== verification/Approval.thy ===== *)
theory Approval
  imports QueueService
begin

text \<open>
  The change-approval flow (\<open>app/services/approval_service.py\<close>): a draft is saved, submitted, withdrawn or discarded by
  its author, approved, sent back, rejected or taken back by a reviewer, and let through the deploy gate.  Every verb
  moves all rows of the author's change to the service.  Each verb answers with the code of the row it was called for.
\<close>

section \<open>Rows as authorization objects\<close>

definition fga_ref :: "queue_row \<Rightarrow> string option" where
  "fga_ref r =
     (case q_table r of
        SERVICE_CONFIG \<Rightarrow> Some (''service:'' @ q_transaction r)
      | KONG_ROUTE \<Rightarrow> Some (''service:'' @ q_transaction r)
      | INFRASTRUCTURE \<Rightarrow> Some (''infra_mst:'' @ q_transaction r)
      | _ \<Rightarrow> None)"

text \<open>The kinds named by the entries of a variables diff.\<close>

definition variable_kinds :: "pyval \<Rightarrow> pyval list" where
  "variable_kinds changes =
     (case dict_get (snapshot_dict changes) ''variables'' of
        VList items \<Rightarrow> map (\<lambda>i. dict_get (snapshot_dict i) ''kind'') items
      | _ \<Rightarrow> [])"

definition submit_permissions :: "queue_row \<Rightarrow> string list" where
  "submit_permissions r =
     (if q_case r \<noteq> Some ''update_variables'' then
        if q_case r = Some ''add_route'' then [''can_write_gateway''] else [''can_write_settings'']
      else let kinds = variable_kinds (q_changes r);
               needed = (if VStr ''secret'' \<in> set kinds then [''can_write_secret''] else []) @
                        (if VStr ''variable'' \<in> set kinds then [''can_write_config''] else [])
        in if needed = [] then [''can_write_secret'', ''can_write_config''] else needed)"

text \<open>\<open>require\<close> of a permission on a row's object.\<close>

definition ask :: "world \<Rightarrow> string \<Rightarrow> string \<Rightarrow> queue_row \<Rightarrow> (refusal, unit) result" where
  "ask w user permission r =
     (case fga_ref r of
        None \<Rightarrow> Inl Not_wired
      | Some obj \<Rightarrow> (case require (w_fga w) user permission obj 403 no_stamps of
            Inl s \<Rightarrow> Inl (Denied s) | Inr _ \<Rightarrow> Inr ()))"

definition default_rule :: approval_rule where
  "default_rule = \<lparr>require_approval = False, allow_self_approval = True, allow_approver_edit = False\<rparr>"

definition rule_for :: "world \<Rightarrow> queue_row \<Rightarrow> approval_rule" where
  "rule_for w r =
     (if q_table r \<noteq> SERVICE_CONFIG then default_rule
      else case w_group w (q_transaction r) of
        None \<Rightarrow> default_rule
      | Some g \<Rightarrow> if g = [] then default_rule
                  else (case w_rule w (q_tenant r) g of None \<Rightarrow> default_rule | Some rule \<Rightarrow> rule))"

section \<open>Decisions\<close>

text \<open>A decision on a locked row: its state, the caller's right, and the move of the whole change.\<close>

definition note_event :: "world \<Rightarrow> string \<Rightarrow> string \<Rightarrow> string \<Rightarrow> queue_row \<Rightarrow> queue_row" where
  "note_event w by event comment = add_event (queue_event_of (w_now w) by event comment VNone)"

definition approve_row :: "(string \<Rightarrow> string) \<Rightarrow> world \<Rightarrow> string \<Rightarrow> string \<Rightarrow> queue_row \<Rightarrow> queue_row" where
  "approve_row sha w user_code comment r =
     note_event w user_code ''approved'' comment
       (r\<lparr>q_status := APPROVED, q_decided_by := Some user_code, q_decided_at := Some (w_now w),
         q_comment := (if comment = [] then None else Some comment),
         q_hash := Some (seal sha (q_snapshot r)), q_started := None\<rparr>)"

definition approve ::
  "(string \<Rightarrow> string) \<Rightarrow> world \<Rightarrow> queue \<Rightarrow> string \<Rightarrow> string \<Rightarrow> string \<Rightarrow> string \<Rightarrow> string reply" where
  "approve sha w q user user_code code comment =
     (case get_locked q code of
        None \<Rightarrow> (Inl Not_found, q)
      | Some row \<Rightarrow>
          if q_status row \<noteq> SUBMIT then (Inl (Wrong_status (q_status row)), q)
          else (case ask w user ''can_approve'' row of
            Inl e \<Rightarrow> (Inl e, q)
          | Inr _ \<Rightarrow>
              if \<not> allow_self_approval (rule_for w row) \<and> q_user row = user_code then (Inl Own_request, q)
              else (Inr code, alter (change_set q row [SUBMIT]) (approve_row sha w user_code comment) q)))"

definition revoke_row :: "world \<Rightarrow> string \<Rightarrow> string \<Rightarrow> queue_row \<Rightarrow> queue_row" where
  "revoke_row w user_code comment r =
     note_event w user_code ''approval-revoked'' comment
       (r\<lparr>q_status := SUBMIT, q_decided_by := None, q_decided_at := None, q_comment := None, q_hash := None\<rparr>)"

definition revoke :: "world \<Rightarrow> queue \<Rightarrow> string \<Rightarrow> string \<Rightarrow> string \<Rightarrow> string \<Rightarrow> string reply" where
  "revoke w q user user_code code comment =
     (case get_locked q code of
        None \<Rightarrow> (Inl Not_found, q)
      | Some row \<Rightarrow>
          if q_status row \<noteq> APPROVED then (Inl (Wrong_status (q_status row)), q)
          else (case ask w user ''can_approve'' row of
            Inl e \<Rightarrow> (Inl e, q)
          | Inr _ \<Rightarrow>
              let ms = change_set q row [APPROVED] in
              if list_ex (deploy_in_flight (w_now w)) ms then (Inl Being_deployed, q)
              else (Inr code, alter ms (revoke_row w user_code comment) q)))"

definition send_back_row :: "world \<Rightarrow> string \<Rightarrow> string \<Rightarrow> queue_row \<Rightarrow> queue_row" where
  "send_back_row w user_code comment r =
     note_event w user_code ''changes-requested'' comment
       (r\<lparr>q_status := DRAFT, q_decided_by := None, q_decided_at := None, q_comment := Some comment, q_hash := None\<rparr>)"

definition request_changes :: "world \<Rightarrow> queue \<Rightarrow> string \<Rightarrow> string \<Rightarrow> string \<Rightarrow> string \<Rightarrow> string reply" where
  "request_changes w q user user_code code comment =
     (if is_blank comment then (Inl No_comment, q)
      else case get_locked q code of
        None \<Rightarrow> (Inl Not_found, q)
      | Some row \<Rightarrow>
          if q_status row \<noteq> SUBMIT then (Inl (Wrong_status (q_status row)), q)
          else (case ask w user ''can_approve'' row of
            Inl e \<Rightarrow> (Inl e, q)
          | Inr _ \<Rightarrow> (Inr code, alter (change_set q row [SUBMIT]) (send_back_row w user_code comment) q)))"

definition reject_row :: "world \<Rightarrow> string \<Rightarrow> string \<Rightarrow> queue_row \<Rightarrow> queue_row" where
  "reject_row w user_code comment r =
     note_event w user_code ''rejected'' comment
       (r\<lparr>q_status := REJECTED, q_decided_by := Some user_code, q_decided_at := Some (w_now w),
         q_comment := Some comment\<rparr>)"

definition reject_request :: "world \<Rightarrow> queue \<Rightarrow> string \<Rightarrow> string \<Rightarrow> string \<Rightarrow> string \<Rightarrow> string reply" where
  "reject_request w q user user_code code comment =
     (if is_blank comment then (Inl No_comment, q)
      else case get_locked q code of
        None \<Rightarrow> (Inl Not_found, q)
      | Some row \<Rightarrow>
          if q_status row \<noteq> SUBMIT then (Inl (Wrong_status (q_status row)), q)
          else (case ask w user ''can_approve'' row of
            Inl e \<Rightarrow> (Inl e, q)
          | Inr _ \<Rightarrow> (Inr code, alter (change_set q row [SUBMIT]) (reject_row w user_code comment) q)))"

section \<open>The deploy gate\<close>

definition deploy_gate :: "(string \<Rightarrow> string) \<Rightarrow> world \<Rightarrow> queue \<Rightarrow> string \<Rightarrow> string \<Rightarrow> string \<Rightarrow> string reply" where
  "deploy_gate sha w q user user_code code =
     (case get_locked q code of
        None \<Rightarrow> (Inl Not_found, q)
      | Some row \<Rightarrow>
          if q_status row \<noteq> APPROVED then (Inl (Wrong_status (q_status row)), q)
          else (case ask w user ''can_deploy'' row of
            Inl e \<Rightarrow> (Inl e, q)
          | Inr _ \<Rightarrow>
              if \<not> verify_seal sha row
              then (Inl (Seal_broken code), alter [row] (note_event w user_code ''seal-broken'' []) q)
              else (Inr code,
                    alter [row] (note_event w user_code ''deploy-started'' [])
                      (alter (change_set q row [APPROVED]) (\<lambda>r. r\<lparr>q_started := Some (w_now w)\<rparr>) q))))"

section \<open>The diff of a change\<close>

definition compute_changes :: "world \<Rightarrow> queue_row \<Rightarrow> pyval" where
  "compute_changes w r =
     (if q_case r = Some ''update_variables'' then either (q_changes r) (VDict [])
      else if q_case r = Some ''add_route'' then
        VDict [(''groups'', either (dict_get (snapshot_dict (q_snapshot r)) ''groups'') (VList []))]
      else w_settings_diff w r)"

definition is_empty_change :: "pyval \<Rightarrow> bool" where
  "is_empty_change v \<longleftrightarrow>
     \<not> truthy v \<or>
     (case v of VDict d \<Rightarrow> set (map fst d) = {''groups''} \<and> \<not> truthy (dict_get d ''groups'') | _ \<Rightarrow> False)"

section \<open>Paths of a service\<close>

text \<open>
  \<open>sanitize_service_path\<close>, \<open>is_eks_infra\<close> and \<open>validate_service_path\<close>
  (\<open>app/schemas/service_config_schemas.py\<close>).
\<close>

definition sanitize_path_base :: "string \<Rightarrow> string" where
  "sanitize_path_base path =
     (let p = py_strip path;
          p' = (if startswith p ''./'' then drop 2 p else p);
          printable = filter (\<lambda>c. 32 \<le> (of_char c :: nat) \<and> (of_char c :: nat) \<noteq> 127) p'
      in filter (\<lambda>c. c \<notin> set [CHR '';'', CHR ''&'', CHR ''|'', CHR 0x60, CHR ''$'']) printable)"

definition sanitize_service_path :: "string \<Rightarrow> string" where
  "sanitize_service_path path =
     (let p = sanitize_path_base path in if p = [] then p else if startswith p ''/'' then p else CHR ''/'' # p)"

definition is_eks_infra :: "string option \<Rightarrow> bool" where
  "is_eks_infra ref = py_in ''eks'' (py_lower (or_blank ref))"

definition path_char :: "char \<Rightarrow> bool" where
  "path_char c \<longleftrightarrow> is_alnum c \<or> c \<in> set ''._~*/-''"

definition validate_service_path :: "string \<Rightarrow> bool \<Rightarrow> (string, string) result" where
  "validate_service_path path reject_slash_wildcard =
     (let p = sanitize_service_path path in
      if strip_by (\<lambda>c. c = CHR ''/'') p = [] then Inl ''Service path cannot be just /''
      else if length p > 255 then Inl ''Service path cannot be longer than 255 characters.''
      else if py_in ''..'' p then Inl (''Service path cannot contain '' @ [CHR 0x27] @ ''..'' @ [CHR 0x27] @ ''.'')
      else if reject_slash_wildcard \<and> endswith p ''/*'' then Inl ''Service path cannot end with /*''
      else if \<not> (startswith p ''/'' \<and> list_all path_char (chop_newline (tl p)))
        then Inl ''Service path may only contain letters, digits and . _ ~ - / * and must start with /''
      else Inr p)"

text \<open>The path of a submitted snapshot, when it has one.\<close>

definition check_path :: "queue_row \<Rightarrow> (refusal, unit) result" where
  "check_path r =
     (case q_snapshot r of
        VDict d \<Rightarrow>
          (case dict_get d ''service_path'' of
             VStr raw \<Rightarrow>
               if is_blank raw then Inr ()
               else map_sum Bad_path (\<lambda>_. ())
                 (validate_service_path raw
                   (is_eks_infra (case dict_get d ''infrastructuretype_ref_code'' of VStr s \<Rightarrow> Some s | _ \<Rightarrow> None)))
           | _ \<Rightarrow> Inr ())
      | _ \<Rightarrow> Inr ())"

section \<open>Submitting, withdrawing, discarding\<close>

definition submit_row :: "world \<Rightarrow> string \<Rightarrow> string \<Rightarrow> queue_row \<Rightarrow> queue_row" where
  "submit_row w user_code comment r =
     add_event (queue_event_of (w_now w) user_code ''submitted'' comment (compute_changes w r))
       (r\<lparr>q_changes := compute_changes w r, q_status := SUBMIT, q_decided_by := None, q_decided_at := None,
         q_comment := None, q_hash := None\<rparr>)"

text \<open>A permission that was granted once is not asked for again; here it is, with the same answer.\<close>

definition ask_all :: "world \<Rightarrow> string \<Rightarrow> queue_row \<Rightarrow> (refusal, unit) result" where
  "ask_all w user r = check_each (\<lambda>p. ask w user p r) (submit_permissions r)"

definition submit :: "world \<Rightarrow> queue \<Rightarrow> string \<Rightarrow> string \<Rightarrow> string \<Rightarrow> string \<Rightarrow> string reply" where
  "submit w q user user_code code comment =
     (case get_locked q code of
        None \<Rightarrow> (Inl Not_found, q)
      | Some row \<Rightarrow>
          if q_status row \<noteq> DRAFT then (Inl (Wrong_status (q_status row)), q)
          else (case find_live_by_other_author q (q_transaction row) (q_tenant row) (q_user row) of
            Some other \<Rightarrow> (Inl (Lane_taken (q_code other)), q)
          | None \<Rightarrow>
              let ms = change_set q row [DRAFT] in
              (case and_then (check_each check_path ms) (check_each (ask_all w user) ms) of
                 Inl e \<Rightarrow> (Inl e, q)
               | Inr _ \<Rightarrow>
                   if list_all (\<lambda>r. is_empty_change (compute_changes w r)) ms then (Inl Nothing_changed, q)
                   else (Inr code, alter ms (submit_row w user_code comment) q))))"

definition withdraw :: "world \<Rightarrow> queue \<Rightarrow> string \<Rightarrow> string \<Rightarrow> string \<Rightarrow> string reply" where
  "withdraw w q user_code code comment =
     (case get_locked q code of
        None \<Rightarrow> (Inl Not_found, q)
      | Some row \<Rightarrow>
          if q_status row \<noteq> SUBMIT then (Inl (Wrong_status (q_status row)), q)
          else if q_user row \<noteq> user_code then (Inl Not_yours, q)
          else (Inr code,
                alter (filter (\<lambda>r. q_user r = user_code) (change_set q row [SUBMIT]))
                  (\<lambda>r. note_event w user_code ''withdrawn'' comment (r\<lparr>q_status := DRAFT\<rparr>)) q))"

text \<open>
  The rows \<open>lock_change_set\<close> takes for a discard: \<open>case_ref_code != 'update_variables'\<close>, which is not true of NULL.
  The answer has no code when the row was the variables row.
\<close>

definition own_rows :: "queue \<Rightarrow> queue_row \<Rightarrow> queue_row list" where
  "own_rows q row =
     filter (\<lambda>r. q_case r \<noteq> None \<and> q_case r \<noteq> Some ''update_variables'') (lane_rows q row [DRAFT])"

definition discard :: "world \<Rightarrow> queue \<Rightarrow> string \<Rightarrow> string \<Rightarrow> string \<Rightarrow> string option reply" where
  "discard w q user user_code code =
     (case get_locked q code of
        None \<Rightarrow> (Inl Not_found, q)
      | Some row \<Rightarrow>
          if q_status row \<noteq> DRAFT then (Inl (Wrong_status (q_status row)), q)
          else if q_user row \<noteq> user_code then (Inl Not_yours, q)
          else if q_case row \<noteq> Some ''update_variables'' \<and> list_all (\<lambda>r. q_code r \<noteq> q_code row) (own_rows q row)
            then (Inl Moved_on, q)
          else
            let members = lane_rows q row [DRAFT] in
            (case check_each (ask_all w user) (row # members) of
               Inl e \<Rightarrow> (Inl e, q)
             | Inr _ \<Rightarrow>
                 let variables = list_ex (\<lambda>r. q_case r = Some ''update_variables'') (row # members) in
                 (case if variables then w_discard_variables w row else Some [] of
                    None \<Rightarrow> (Inl Upstream_failed, q)
                  | Some binned \<Rightarrow>
                      (Inr (if q_case row = Some ''update_variables'' then None else Some code),
                       alter (own_rows q row) (\<lambda>r. note_event w user_code ''discarded'' [] (soft_delete r))
                         (map (\<lambda>r. if q_code r \<in> set binned then soft_delete r else r) q)))))"

section \<open>Saving a draft\<close>

text \<open>\<open>_snapshot_changed\<close>, on the canonical texts.\<close>

definition snapshot_changed :: "pyval option \<Rightarrow> pyval \<Rightarrow> bool" where
  "snapshot_changed before after =
     (case before of None \<Rightarrow> True | Some v \<Rightarrow> json_dumps v \<noteq> json_dumps after)"

definition log_save :: "world \<Rightarrow> string \<Rightarrow> pyval option \<Rightarrow> queue_row \<Rightarrow> queue_row" where
  "log_save w user before r =
     (if q_history r = [] then note_event w user ''created'' [] r
      else if snapshot_changed before (q_snapshot r) then note_event w user ''edited'' [] r
      else r)"

text \<open>The row the change of a settings half is probed with.\<close>

definition probe_row :: "world \<Rightarrow> queue_request \<Rightarrow> config \<Rightarrow> queue_row" where
  "probe_row w rq snapshot =
     new_row (w_now w) [] (rq_user rq) (rq_tenant rq) (rq_transaction rq) SERVICE_CONFIG
       (Some (if or_blank (rq_case rq) = [] then ''update_service'' else or_blank (rq_case rq))) None (VDict snapshot) []
       DRAFT None []"

text \<open>
  The settings half: the draft that was named is dropped when the new values undo it, nothing is written when the
  values match what is live, and the rest goes to the queue.  Both the code of the row, if any, and the table.
\<close>

definition save_settings ::
  "(string \<Rightarrow> string) \<Rightarrow> world \<Rightarrow> queue \<Rightarrow> queue_request \<Rightarrow> string option reply" where
  "save_settings sha w q rq =
     (let prior = (if or_blank (rq_queue_code rq) = [] then None
                   else find (\<lambda>r. q_code r = or_blank (rq_queue_code rq) \<and> q_tenant r = rq_tenant rq) q);
          before = (case prior of Some r \<Rightarrow> if is_live r then Some (q_snapshot r) else None | None \<Rightarrow> None);
          same = \<not> truthy (compute_changes w (probe_row w rq (rq_snapshot rq)))
      in case prior of
           Some r \<Rightarrow>
             if q_status r = DRAFT \<and> q_user r = rq_user rq \<and> is_live r \<and> same
             then (Inr None,
                   alter [r] (\<lambda>r. note_event w (rq_user rq) ''discarded''
                     ''values reverted to what is deployed: draft cleared'' (soft_delete r)) q)
             else (case add_item_to_queue sha w q rq of
                 (Inl e, q') \<Rightarrow> (Inl e, q')
               | (Inr c, q') \<Rightarrow>
                   (Inr (Some c), map (\<lambda>r. if q_code r = c then log_save w (rq_user rq) before r else r) q'))
         | None \<Rightarrow>
             if same then (Inr None, q)
             else (case add_item_to_queue sha w q rq of
                 (Inl e, q') \<Rightarrow> (Inl e, q')
               | (Inr c, q') \<Rightarrow>
                   (Inr (Some c), map (\<lambda>r. if q_code r = c then log_save w (rq_user rq) before r else r) q')))"

section \<open>The gateway half\<close>

definition gateway_entry :: "config \<Rightarrow> config" where
  "gateway_entry g =
     dict_merge
       (dict_merge
         [(''group_code'', dict_get g ''code''), (''route_group_key'', dict_get g ''route_group_key''),
          (''http_method'', VStr (py_upper (first_text g [''http_method''] [])))]
         (snapshot_dict (dict_get g ''delta'')))
       [(''desired_paths'', either (dict_get g ''paths'') (VList [])),
        (''plugins'', either (dict_get g ''plugins'') (VList [])),
        (''regex_priority'', either (dict_get g ''regex_priority'') (VInt 0)),
        (''updated_at'', dict_get g ''updated_at'')]"

definition list_of :: "pyval \<Rightarrow> pyval list" where
  "list_of v = (case v of VList xs \<Rightarrow> xs | _ \<Rightarrow> [])"

text \<open>A path action whose route already is live exactly like this says nothing.\<close>

definition already_live :: "kong_group \<Rightarrow> pyval \<Rightarrow> bool" where
  "already_live g a =
     (let d = snapshot_dict a; act = py_lower (first_text d [''action''] []) in
      (act = ''add'' \<or> act = ''edit'') \<and>
      (case dict_get d ''code'' of
         VStr c \<Rightarrow> c \<noteq> [] \<and> map_option VStr (map_of (kg_paths g) c) = Some (dict_get d ''route_path'')
       | _ \<Rightarrow> False))"

definition correct_entry :: "world \<Rightarrow> config \<Rightarrow> config" where
  "correct_entry w e =
     (case (if truthy (dict_get e ''group_code'') then w_kong_group w (py_str (dict_get e ''group_code'')) else None) of
        None \<Rightarrow> e
      | Some g \<Rightarrow>
          AList.update ''regex_priority_before'' (VInt (kg_priority g))
            (AList.update ''plugins_before'' (VList (kg_plugins g))
              (AList.update ''paths'' (VList (filter (\<lambda>a. \<not> already_live g a) (list_of (dict_get e ''paths'')))) e)))"

definition says_nothing :: "config \<Rightarrow> bool" where
  "says_nothing e \<longleftrightarrow>
     \<not> truthy (dict_get e ''paths'') \<and>
     either (dict_get e ''plugins_before'') (VList []) = either (dict_get e ''plugins_after'') (VList []) \<and>
     either (dict_get e ''regex_priority_before'') (VInt 0) = either (dict_get e ''regex_priority_after'') (VInt 0)"

definition normalized_groups :: "world \<Rightarrow> config list \<Rightarrow> config list" where
  "normalized_groups w groups = filter (\<lambda>e. \<not> says_nothing e) (map (correct_entry w \<circ> gateway_entry) groups)"

text \<open>The statuses \<open>get_pending_for_scope\<close> shows.\<close>

definition visible_statuses :: "queue_status list" where
  "visible_statuses =
     [DRAFT, APPROVED, SUBMIT, FAILED, PR_REJECTED, STARTING_DEPLOYMENT, COMMIT, PR_RAISED, PR_DRAFT, PR_APPROVED,
      PR_MERGED, DEPLOYING, PROVISIONING, BUILDING, CHECKOUT, VERIFICATION]"

definition save_gateway_draft ::
  "world \<Rightarrow> queue \<Rightarrow> string \<Rightarrow> string \<Rightarrow> string \<Rightarrow> config list \<Rightarrow> string option reply" where
  "save_gateway_draft w q user tenant code groups =
     (case w_config w code tenant of
        None \<Rightarrow> (Inl Not_found, q)
      | Some sc \<Rightarrow>
          let entries = normalized_groups w groups; scope = sc_scope sc in
          if entries = [] then (Inr None, clear_pending_for_scope q user scope)
          else (case find_submitted_for_scope q user scope of
              Some r \<Rightarrow> (Inl (Change_pending (q_code r)), q)
            | None \<Rightarrow>
                let name = w_service_name w code;
                    before = map_option q_snapshot (find (\<lambda>r. q_user r = user)
                      (sort_key (\<lambda>r. - q_created r) (filter (\<lambda>r. is_gateway_row r \<and> q_transaction r \<in> set scope \<and>
                         q_status r \<in> set visible_statuses \<and> not_deleted r) q)));
                    snapshot = VDict
                      [(''service_mst_code'', VStr (sc_service sc)),
                       (''api_name'', case name of None \<Rightarrow> VNone | Some s \<Rightarrow> VStr s),
                       (''environment'', VStr (sc_environment sc)), (''geo_loc_mst_code'', VStr (sc_region sc)),
                       (''groups'', VList (map VDict entries))];
                    title = ''Gateway routes - '' @ (if or_blank name = [] then code else or_blank name)
                in (case upsert_pending_for_scope (w_now w) (w_uuid w) q code tenant user scope snapshot title of
                    (Inl e, q') \<Rightarrow> (Inl e, q')
                  | (Inr c, q') \<Rightarrow>
                      (Inr (Some c), map (\<lambda>r. if q_code r = c then log_save w user before r else r) q'))))"

text \<open>
  \<open>save_draft\<close>: refused while a change to the settings of this service is under review, approved or being deployed.
  The two routes that call it send one half each: the settings, or the groups of gateway routes.
\<close>

definition save_draft ::
  "(string \<Rightarrow> string) \<Rightarrow> world \<Rightarrow> queue \<Rightarrow> queue_request \<Rightarrow> config list option \<Rightarrow> string option reply" where
  "save_draft sha w q rq groups =
     (case find_live_for_resource (w_now w) q (rq_transaction rq) (rq_tenant rq) of
        Some r \<Rightarrow> (Inl (Change_pending (q_code r)), q)
      | None \<Rightarrow>
          (case groups of
             None \<Rightarrow> save_settings sha w q rq
           | Some gs \<Rightarrow> save_gateway_draft w q (rq_user rq) (rq_tenant rq) (rq_transaction rq) gs))"

end
