(* ===== verification/ApprovalProperties.thy ===== *)
theory ApprovalProperties
  imports Approval
begin

text \<open>
  What the approval flow and the deploy guard promise together.  Calls arrive in any order, each in surroundings of its
  own (the time, the permissions, the rules, the answers of other services), and somebody may edit the table directly.
\<close>

section \<open>Runs of calls\<close>

datatype call =
    Save queue_request "config list option"
  | Add queue_request
  | Submit string string string string
  | Withdraw string string string
  | Discard string string string
  | Approve string string string string
  | Revoke string string string string
  | Send_back string string string string
  | Reject string string string string
  | Gate string string string
  | Guard "int list" string "string option"
  | Bulk_approve "int list" string string
  | Ensure_item string string string
  | Remove int string
  | Delete string string
  | Deploy string string "string option" "int list option"
  | Queue_status "int list" string
  | Codes_status "string list" queue_status
  | Edit_table int pyval

fun call_step :: "(string \<Rightarrow> string) \<Rightarrow> world \<Rightarrow> call \<Rightarrow> queue \<Rightarrow> queue" where
  "call_step sha w (Save rq groups) q = snd (save_draft sha w q rq groups)"
| "call_step sha w (Add rq) q = snd (add_item_to_queue sha w q rq)"
| "call_step sha w (Submit user uc code comment) q = snd (submit w q user uc code comment)"
| "call_step sha w (Withdraw uc code comment) q = snd (withdraw w q uc code comment)"
| "call_step sha w (Discard user uc code) q = snd (discard w q user uc code)"
| "call_step sha w (Approve user uc code comment) q = snd (approve sha w q user uc code comment)"
| "call_step sha w (Revoke user uc code comment) q = snd (revoke w q user uc code comment)"
| "call_step sha w (Send_back user uc code comment) q = snd (request_changes w q user uc code comment)"
| "call_step sha w (Reject user uc code comment) q = snd (reject_request w q user uc code comment)"
| "call_step sha w (Gate user uc code) q = snd (deploy_gate sha w q user uc code)"
| "call_step sha w (Guard ids tenant auth) q = snd (validate_deployable_queue_items sha (w_now w) q ids tenant auth)"
| "call_step sha w (Bulk_approve ids user tenant) q = snd (bulk_approve w q ids user tenant)"
| "call_step sha w (Ensure_item code tenant user) q = snd (ensure_settings_deploy_item sha w q code tenant user)"
| "call_step sha w (Remove i user) q = snd (remove_from_queue q i user)"
| "call_step sha w (Delete code user) q = snd (delete_queue_item q code user)"
| "call_step sha w (Deploy user tenant environment ids) q = snd (deploy_temporal w q user tenant environment ids)"
| "call_step sha w (Queue_status ids s) q =
     (case update_queue_status (w_now w) ids s q of None \<Rightarrow> q | Some q' \<Rightarrow> q')"
| "call_step sha w (Codes_status codes s) q = snd (bulk_update_status_by_codes (w_now w) codes s q)"
| "call_step sha w (Edit_table i v) q = map (\<lambda>r. if q_id r = i then r\<lparr>q_snapshot := v\<rparr> else r) q"

fun run_calls :: "(string \<Rightarrow> string) \<Rightarrow> (world \<times> call) list \<Rightarrow> queue \<Rightarrow> queue" where
  "run_calls sha [] q = q"
| "run_calls sha ((w, c) # cs) q = run_calls sha cs (call_step sha w c q)"

lemma run_calls_snoc: "run_calls sha (cs @ [(w, c)]) q = call_step sha w c (run_calls sha cs q)"
  by (induction cs arbitrary: q) auto

section \<open>Where a seal comes from\<close>

text \<open>The call approves a change that holds this row, with the reviewer's permission and within the rule.\<close>

definition approved_by :: "(string \<Rightarrow> string) \<Rightarrow> world \<Rightarrow> call \<Rightarrow> queue \<Rightarrow> int \<Rightarrow> string \<Rightarrow> bool" where
  "approved_by sha w c q i h \<longleftrightarrow>
     (\<exists>user uc code comment row obj r.
        c = Approve user uc code comment \<and> get_locked q code = Some row \<and> q_status row = SUBMIT \<and>
        fga_ref row = Some obj \<and> fga_allows (w_fga w) user ''can_approve'' obj \<and>
        (allow_self_approval (rule_for w row) \<or> q_user row \<noteq> uc) \<and>
        r \<in> set (change_set q row [SUBMIT]) \<and> q_id r = i \<and> h = seal sha (q_snapshot r))"

text \<open>The call stores a change of a kind that needs no approval.\<close>

definition born_sealed :: "(string \<Rightarrow> string) \<Rightarrow> world \<Rightarrow> call \<Rightarrow> string \<Rightarrow> bool" where
  "born_sealed sha w c h \<longleftrightarrow>
     (\<exists>rq d. (c = Add rq \<or> c = Save rq None) \<and> seal_at_birth (rq_case rq) \<and>
        complete_snapshot w (rq_tenant rq) (rq_transaction rq) (rq_table rq) (rq_case rq) (rq_snapshot rq) = Inr d \<and>
        h = seal sha (VDict d))"

text \<open>
  Updates that keep a row's keys and keep or drop its seal; tables that stem from another one: their keys stay apart
  and their seals are old.
\<close>

definition unique_rows :: "queue \<Rightarrow> bool" where
  "unique_rows q \<longleftrightarrow> distinct (map q_code q) \<and> distinct (map q_id q)"

definition keeps_seal :: "(queue_row \<Rightarrow> queue_row) \<Rightarrow> bool" where
  "keeps_seal f \<longleftrightarrow>
     (\<forall>r. q_id (f r) = q_id r \<and> q_code (f r) = q_code r \<and> (q_hash (f r) = q_hash r \<or> q_hash (f r) = None))"

definition seals_from :: "queue \<Rightarrow> queue \<Rightarrow> bool" where
  "seals_from q q' \<longleftrightarrow> (unique_rows q \<longrightarrow> unique_rows q') \<and>
     (\<forall>r' \<in> set q'. q_hash r' \<noteq> None \<longrightarrow> (\<exists>r \<in> set q. q_id r = q_id r' \<and> q_hash r = q_hash r'))"

named_theorems seal_intros

lemma seals_from_refl [seal_intros, simp]: "seals_from q q"
  by (auto simp: seals_from_def)

lemma seals_from_trans: "seals_from q q' \<Longrightarrow> seals_from q' q'' \<Longrightarrow> seals_from q q''"
  unfolding seals_from_def by metis

lemma unique_rows_map:
  "(\<And>r. q_code (f r) = q_code r) \<Longrightarrow> (\<And>r. q_id (f r) = q_id r) \<Longrightarrow> unique_rows (map f q) = unique_rows q"
  by (simp add: unique_rows_def comp_def)

lemma seals_from_map [seal_intros]: "keeps_seal f \<Longrightarrow> seals_from q (map f q)"
  using unique_rows_map [of f q] by (force simp: seals_from_def keeps_seal_def)

lemma keeps_seal_if: "keeps_seal f \<Longrightarrow> keeps_seal (\<lambda>r. if P r then f r else r)"
  by (simp add: keeps_seal_def)

lemma keeps_seal_comp: "keeps_seal f \<Longrightarrow> keeps_seal g \<Longrightarrow> keeps_seal (\<lambda>r. f (g r))"
  unfolding keeps_seal_def by metis

lemma seals_from_alter [seal_intros]: "keeps_seal f \<Longrightarrow> seals_from q (alter ms f q)"
  by (simp add: alter_def seals_from_map keeps_seal_if)

lemma fold_max_ge: "(\<forall>x \<in> set (xs :: int list). x \<le> fold max xs m) \<and> m \<le> fold max xs m"
proof (induction xs arbitrary: m)
  case (Cons x xs)
  have "max x m \<le> fold max xs (max x m)" using Cons by blast
  then show ?case using Cons [of "max x m"] by auto
qed simp

lemma fresh_id_new: "fresh_id q \<notin> q_id ` set q"
proof
  assume "fresh_id q \<in> q_id ` set q"
  then have "fresh_id q \<le> fold max (map q_id q) 0" using fold_max_ge [of "map q_id q" 0] by auto
  then show False by (simp add: fresh_id_def)
qed

lemma get_by_None: "get_by q c = None \<longleftrightarrow> c \<notin> q_code ` set q"
  by (auto simp: get_by_def find_None_iff)

lemma unique_rows_append:
  "unique_rows q \<Longrightarrow> get_by q (q_code r) = None \<Longrightarrow> q_id r = fresh_id q \<Longrightarrow> unique_rows (q @ [r])"
  using fresh_id_new [of q] by (simp add: unique_rows_def get_by_None)

lemma keeps_seal_event [seal_intros]: "keeps_seal (add_event e)" "keeps_seal (note_event w by event comment)"
  by (simp_all add: keeps_seal_def add_event_def note_event_def)

lemma keeps_seal_delete [seal_intros]: "keeps_seal soft_delete"
  by (simp add: keeps_seal_def soft_delete_def)

lemma keeps_seal_rows [seal_intros]:
  "keeps_seal (revoke_row w uc comment)" "keeps_seal (send_back_row w uc comment)"
  "keeps_seal (reject_row w uc comment)" "keeps_seal (submit_row w uc comment)"
  "keeps_seal (log_save w uc before)" "keeps_seal (rewrite_gateway code snapshot name)"
  "keeps_seal (rewrite_settings rq snapshot name)" "keeps_seal (fail_row now)" "keeps_seal (move_row now s)"
  "keeps_seal (pr_rejected_to_approved now)"
  by (auto simp: keeps_seal_def revoke_row_def send_back_row_def reject_row_def submit_row_def log_save_def
      rewrite_gateway_def rewrite_settings_def fail_row_def move_row_def pr_rejected_to_approved_def note_event_def
      add_event_def append_status_event_def Let_def)

lemma keeps_seal_fields [seal_intros]:
  "keeps_seal (\<lambda>r. r\<lparr>q_status := s\<rparr>)" "keeps_seal (\<lambda>r. r\<lparr>q_started := t\<rparr>)" "keeps_seal (\<lambda>r. r\<lparr>q_snapshot := v\<rparr>)"
  "keeps_seal (\<lambda>r. r\<lparr>q_status := s, q_moved := t\<rparr>)" "keeps_seal (\<lambda>r. (move_row now s r)\<lparr>q_moved := t\<rparr>)"
  by (auto simp: keeps_seal_def move_row_def append_status_event_def add_event_def)

lemma seals_from_insert [seal_intros]:
  "q_hash r = None \<Longrightarrow> q_id r = fresh_id q \<Longrightarrow> seals_from q (snd (insert_row r q))"
  by (auto simp: insert_row_def seals_from_def unique_rows_append)

lemma new_row_simps [simp]:
  "q_hash (new_row now uuid user tenant code tab kind ticket snapshot name st birth q) = birth"
  "q_code (new_row now uuid user tenant code tab kind ticket snapshot name st birth q) = ''queue-'' @ uuid"
  "q_id (new_row now uuid user tenant code tab kind ticket snapshot name st birth q) = fresh_id q"
  "q_status (new_row now uuid user tenant code tab kind ticket snapshot name st birth q) = st"
  by (simp_all add: new_row_def)

lemma seals_from_foldl: "(\<And>q x. seals_from q (f q x)) \<Longrightarrow> seals_from q (foldl f q xs)"
  by (induction xs arbitrary: q) (auto intro: seals_from_trans)

lemma keeps_seal_steps [seal_intros]:
  "keeps_seal (\<lambda>r. note_event w by event comment (r\<lparr>q_status := s\<rparr>))"
  "keeps_seal (\<lambda>r. note_event w by event comment (soft_delete r))"
  by (simp_all add: keeps_seal_def note_event_def add_event_def soft_delete_def)

lemma seals_twice [seal_intros]:
  "keeps_seal f \<Longrightarrow> keeps_seal g \<Longrightarrow> seals_from q (alter ms f (alter ns g q))"
  "keeps_seal f \<Longrightarrow> keeps_seal g \<Longrightarrow> seals_from q (alter ms f (map (\<lambda>r. if P r then g r else r) q))"
  by (rule seals_from_trans [OF seals_from_alter seals_from_alter], assumption+)
    (rule seals_from_trans [OF seals_from_map [OF keeps_seal_if] seals_from_alter], assumption+)

lemma seals_verbs [seal_intros]:
  "seals_from q (snd (submit w q user uc code comment))"
  "seals_from q (snd (withdraw w q uc code comment))"
  "seals_from q (snd (revoke w q user uc code comment))"
  "seals_from q (snd (request_changes w q user uc code comment))"
  "seals_from q (snd (reject_request w q user uc code comment))"
  "seals_from q (snd (discard w q user uc code))"
  "seals_from q (snd (deploy_gate sha w q user uc code))"
  by (simp_all add: submit_def withdraw_def revoke_def request_changes_def reject_request_def discard_def
      deploy_gate_def Let_def seal_intros split: option.split sum.split)

lemma seals_guard [seal_intros]: "seals_from q (snd (validate_deployable_queue_items sha now q ids tenant auth))"
  unfolding validate_deployable_queue_items_def Let_def
  by (auto split: option.split prod.split intro!: seal_intros)

lemma seals_bulk [seal_intros]: "seals_from q (snd (bulk_approve_by_ids now ids user tenant q))"
  unfolding bulk_approve_by_ids_def Let_def by (auto intro!: seal_intros keeps_seal_if)

lemma seals_soft_delete_item [seal_intros]: "seals_from q (soft_delete_item q i)"
  unfolding soft_delete_item_def by (auto split: option.split intro!: seal_intros)

lemma seals_removals [seal_intros]:
  "seals_from q (snd (remove_from_queue q i user))" "seals_from q (snd (delete_queue_item q code user))"
  unfolding remove_from_queue_def delete_queue_item_def by (auto split: option.split intro!: seal_intros)

lemma seals_deploy [seal_intros]: "seals_from q (snd (deploy_temporal w q user tenant env ids))"
  unfolding deploy_temporal_def Let_def update_status_def
  by (auto intro!: seals_from_foldl seal_intros keeps_seal_if)

lemma seals_pipeline [seal_intros]:
  "seals_from q (case update_queue_status now ids s q of None \<Rightarrow> q | Some q' \<Rightarrow> q')"
  "seals_from q (snd (bulk_update_status_by_codes now codes st q))"
  unfolding update_queue_status_def bulk_update_status_by_codes_def
  by (auto split: option.split simp: keeps_seal_def move_row_def fail_row_def append_status_event_def add_event_def
      pr_rejected_to_approved_def Let_def intro!: seals_from_map)

lemma seals_gateway [seal_intros]:
  "seals_from q (snd (upsert_pending_for_scope now uuid q code tenant user scope snapshot name))"
  "seals_from q (clear_pending_for_scope q user scope)"
  unfolding upsert_pending_for_scope_def clear_pending_for_scope_def
  by (auto split: option.split intro!: seal_intros keeps_seal_if)

lemma seals_save_gateway [seal_intros]: "seals_from q (snd (save_gateway_draft w q user tenant code groups))"
proof -
  have step: "seals_from q (snd (case x of (Inl e, q') \<Rightarrow> (Inl e, q')
      | (Inr c, q') \<Rightarrow> (Inr (Some c), map (\<lambda>r. if q_code r = c then log_save w user before r else r) q')))"
    if "seals_from q (snd x)" for x :: "string reply" and before
    using that by (auto split: prod.split sum.split intro!: seals_from_trans [OF _ seals_from_map] keeps_seal_if seal_intros)
  show ?thesis
    unfolding save_gateway_draft_def Let_def
    by (simp add: seal_intros step split: option.split)
qed

text \<open>Seals that are old or satisfy a predicate on the row's id and the seal.\<close>

definition seals_within :: "(int \<Rightarrow> string \<Rightarrow> bool) \<Rightarrow> queue \<Rightarrow> queue \<Rightarrow> bool" where
  "seals_within B q q' \<longleftrightarrow> (unique_rows q \<longrightarrow> unique_rows q') \<and>
     (\<forall>r' \<in> set q'. \<forall>h. q_hash r' = Some h \<longrightarrow>
        (\<exists>r \<in> set q. q_id r = q_id r' \<and> q_hash r = Some h) \<or> B (q_id r') h)"

lemma seals_withinI: "seals_from q q' \<Longrightarrow> seals_within B q q'"
  unfolding seals_from_def seals_within_def by force

lemma seals_within_then: "seals_within B q q' \<Longrightarrow> seals_from q' q'' \<Longrightarrow> seals_within B q q''"
  unfolding seals_from_def seals_within_def by (metis option.discI)

lemma seals_within_mono: "seals_within B q q' \<Longrightarrow> (\<And>i h. B i h \<Longrightarrow> C i h) \<Longrightarrow> seals_within C q q'"
  unfolding seals_within_def by blast

lemma seals_store_item:
  "seals_within (\<lambda>i h. seal_at_birth (rq_case rq) \<and> h = seal sha v) q (snd (store_item sha w q rq v name))"
proof (cases "named_row q rq")
  case (Some r)
  then show ?thesis
    by (auto simp: store_item_def seals_within_def alter_def rewrite_item_def unique_rows_map split: if_splits)
next
  case named: None
  show ?thesis
  proof (cases "settings_row q rq")
    case (Some r)
    then show ?thesis by (simp add: store_item_def named seals_withinI seal_intros)
  next
    case None
    then show ?thesis
      by (auto simp: store_item_def named insert_row_def seals_within_def unique_rows_append split: if_splits)
  qed
qed

lemma anchor_case [simp]: "rq_case (anchor w rq) = rq_case rq"
  by (simp add: anchor_def split: option.split)

lemma anchor_other: "rq_case rq \<noteq> Some ''add_route'' \<Longrightarrow> anchor w rq = rq"
  by (simp add: anchor_def)

lemma birth_no_route: "seal_at_birth kind \<Longrightarrow> kind \<noteq> Some ''add_route'' \<and> kind \<noteq> Some ''update_service''"
  by (auto simp: seal_at_birth_def)

text \<open>The content a request of a kind without approval is sealed with.\<close>

definition birth_seal :: "(string \<Rightarrow> string) \<Rightarrow> world \<Rightarrow> queue_request \<Rightarrow> string \<Rightarrow> bool" where
  "birth_seal sha w rq h \<longleftrightarrow>
     seal_at_birth (rq_case rq) \<and>
     (\<exists>d. complete_snapshot w (rq_tenant rq) (rq_transaction rq) (rq_table rq) (rq_case rq) (rq_snapshot rq) = Inr d \<and>
        h = seal sha (VDict d))"

lemma seals_add_item: "seals_within (\<lambda>i. birth_seal sha w rq) q (snd (add_item_to_queue sha w q rq))"
proof -
  have "seals_within (\<lambda>i. birth_seal sha w rq) q (snd (store_item sha w q (anchor w rq) (VDict d) name))"
    if "complete_snapshot w (rq_tenant (anchor w rq)) (rq_transaction (anchor w rq)) (rq_table (anchor w rq))
          (rq_case rq) (rq_snapshot (anchor w rq)) = Inr d" for d name
    using that birth_no_route [of "rq_case rq"]
    by (auto intro!: seals_within_mono [OF seals_store_item] simp: birth_seal_def anchor_other)
  then show ?thesis
    by (auto simp: add_item_to_queue_def Let_def seals_withinI split: sum.split)
qed

lemma seals_logged:
  assumes "seals_within B q (snd x)"
  shows "seals_within B q (snd (case x of (Inl e, q') \<Rightarrow> (Inl e, q')
      | (Inr c, q') \<Rightarrow> (Inr (Some c), map (\<lambda>r. if q_code r = c then log_save w user before r else r) q')))"
  using assms
  by (auto split: prod.split sum.split intro!: seals_within_then [OF _ seals_from_map] keeps_seal_if seal_intros)

lemma seals_save_settings: "seals_within (\<lambda>i. birth_seal sha w rq) q (snd (save_settings sha w q rq))"
  unfolding save_settings_def Let_def
  by (simp add: seals_logged [OF seals_add_item] seals_withinI seal_intros split: option.split)

lemma seals_save:
  "seals_within (\<lambda>i h. groups = None \<and> birth_seal sha w rq h) q (snd (save_draft sha w q rq groups))"
  unfolding save_draft_def
  by (auto split: option.split intro: seals_withinI seal_intros seals_within_mono [OF seals_save_settings])

lemma seals_ensure: "seals_from q (snd (ensure_settings_deploy_item sha w q code tenant user))"
proof -
  have none: "seals_from q (snd (add_item_to_queue sha w q rq))" if "rq_case rq = Some ''update_service''" for rq
    using seals_add_item [of sha w rq q] that
    by (auto simp: seals_within_def seals_from_def birth_seal_def seal_at_birth_def)
  show ?thesis
    unfolding ensure_settings_deploy_item_def
    by (auto split: option.split sum.split prod.split intro!: none seal_intros
        intro: seals_from_trans [OF none seals_bulk] simp: prod_eq_iff)
qed

lemma get_locked_Some: "get_locked q code = Some row \<Longrightarrow> row \<in> set q \<and> q_code row = code \<and> is_live row"
  by (auto simp: get_locked_def find_Some_iff)

lemma set_change_set: "set (change_set q row sts) = {r \<in> set q. in_lane row sts r} \<union>
    (if \<exists>r \<in> set q. in_lane row sts r \<and> q_code r = q_code row then {} else {row})"
  by (auto simp: change_set_def lane_rows_def Let_def list_all_iff)

lemma same_code: "unique_rows q \<Longrightarrow> r \<in> set q \<Longrightarrow> s \<in> set q \<Longrightarrow> q_code r = q_code s \<Longrightarrow> r = s"
  by (auto simp: unique_rows_def distinct_map dest: inj_onD)

lemma change_set_codes:
  assumes "unique_rows q" "row \<in> set q" "r \<in> set q"
  shows "q_code r \<in> q_code ` set (change_set q row sts) \<longleftrightarrow> r \<in> set (change_set q row sts)"
proof
  assume "q_code r \<in> q_code ` set (change_set q row sts)"
  then obtain s where s: "s \<in> set (change_set q row sts)" "q_code r = q_code s" by blast
  then have "s \<in> set q" using assms(2) by (auto simp: set_change_set split: if_splits)
  then show "r \<in> set (change_set q row sts)" using same_code [OF assms(1,3)] s by blast
qed simp

lemma seals_approve_rows:
  assumes "unique_rows q" "row \<in> set q"
  shows "seals_within (\<lambda>i h. \<exists>r \<in> set (change_set q row sts). q_id r = i \<and> h = seal sha (q_snapshot r)) q
    (alter (change_set q row sts) (approve_row sha w uc comment) q)"
  using assms(1) change_set_codes [OF assms]
  by (auto simp: seals_within_def alter_def approve_row_def note_event_def add_event_def unique_rows_map
      split: if_splits)

lemma ask_Inr: "ask w user permission r = Inr u \<longleftrightarrow> (\<exists>obj. fga_ref r = Some obj \<and> fga_allows (w_fga w) user permission obj)"
  by (auto simp: ask_def split: option.split sum.split)
    (metis require_Inr_iff sum.distinct(1))+

lemma approve_Inr:
  "approve sha w q user uc code comment = (Inr c, q') \<longleftrightarrow>
   (\<exists>row. get_locked q code = Some row \<and> q_status row = SUBMIT \<and> ask w user ''can_approve'' row = Inr () \<and>
      (allow_self_approval (rule_for w row) \<or> q_user row \<noteq> uc) \<and> c = code \<and>
      q' = alter (change_set q row [SUBMIT]) (approve_row sha w uc comment) q)"
  by (auto simp: approve_def split: option.split sum.split)

lemma approve_Inl: "approve sha w q user uc code comment = (Inl e, q') \<Longrightarrow> q' = q"
  by (auto simp: approve_def split: option.splits sum.splits if_splits)

lemma seals_approve:
  assumes "unique_rows q"
  shows "seals_within (approved_by sha w (Approve user uc code comment) q) q (snd (approve sha w q user uc code comment))"
proof (cases "approve sha w q user uc code comment")
  case (Pair res q')
  show ?thesis
  proof (cases res)
    case (Inl e)
    then show ?thesis using approve_Inl Pair by (metis seals_withinI seals_from_refl snd_conv)
  next
    case (Inr c)
    obtain row where row: "get_locked q code = Some row" "q_status row = SUBMIT"
      "ask w user ''can_approve'' row = Inr ()" "allow_self_approval (rule_for w row) \<or> q_user row \<noteq> uc"
      "q' = alter (change_set q row [SUBMIT]) (approve_row sha w uc comment) q"
      using Pair Inr by (auto simp: approve_Inr)
    show ?thesis
      unfolding Pair snd_conv row(5)
      by (rule seals_within_mono [OF seals_approve_rows [OF assms]])
        (use row get_locked_Some [OF row(1)] in \<open>auto simp: approved_by_def ask_Inr\<close>)
  qed
qed

section \<open>What deploys was reviewed\<close>

lemma call_seals:
  assumes "unique_rows q"
  shows "seals_within (\<lambda>i h. approved_by sha w c q i h \<or> born_sealed sha w c h) q (call_step sha w c q)"
proof -
  have old: "seals_from q q' \<Longrightarrow> ?thesis" if "call_step sha w c q = q'" for q'
    using that by (simp add: seals_withinI)
  show ?thesis
  proof (cases c)
    case (Save rq groups)
    then show ?thesis
      by (auto simp: born_sealed_def birth_seal_def intro!: seals_within_mono [OF seals_save])
  next
    case (Add rq)
    then show ?thesis
      by (auto simp: born_sealed_def birth_seal_def intro!: seals_within_mono [OF seals_add_item])
  next
    case (Approve user uc code comment)
    then show ?thesis using seals_within_mono [OF seals_approve [OF assms]] by simp
  qed (simp_all add: seals_withinI seal_intros seals_ensure bulk_approve_def case_prod_beta keeps_seal_if)
qed

lemma run_seals:
  "unique_rows (run_calls sha cs []) \<and>
   (\<forall>r \<in> set (run_calls sha cs []). \<forall>h. q_hash r = Some h \<longrightarrow>
      (\<exists>pre w c post. cs = pre @ (w, c) # post \<and>
         (approved_by sha w c (run_calls sha pre []) (q_id r) h \<or> born_sealed sha w c h)))"
proof (induction cs rule: rev_induct)
  case Nil
  then show ?case by (simp add: unique_rows_def)
next
  case (snoc wc cs)
  obtain w c where wc: "wc = (w, c)" by fastforce
  let ?q = "run_calls sha cs []"
  have step: "seals_within (\<lambda>i h. approved_by sha w c ?q i h \<or> born_sealed sha w c h) ?q (call_step sha w c ?q)"
    using snoc call_seals by blast
  have last: "run_calls sha (cs @ [wc]) [] = call_step sha w c ?q" by (simp add: wc run_calls_snoc)
  show ?case
  proof (intro conjI ballI allI impI)
    show "unique_rows (run_calls sha (cs @ [wc]) [])" using step snoc unfolding last seals_within_def by blast
  next
    fix r h
    assume "r \<in> set (run_calls sha (cs @ [wc]) [])" "q_hash r = Some h"
    then consider r0 where "r0 \<in> set ?q" "q_id r0 = q_id r" "q_hash r0 = Some h"
      | "approved_by sha w c ?q (q_id r) h \<or> born_sealed sha w c h"
      using step unfolding last seals_within_def by metis
    then show "\<exists>pre w c post. cs @ [wc] = pre @ (w, c) # post \<and>
        (approved_by sha w c (run_calls sha pre []) (q_id r) h \<or> born_sealed sha w c h)"
    proof cases
      case 1
      then obtain pre w' c' post where "cs = pre @ (w', c') # post"
        "approved_by sha w' c' (run_calls sha pre []) (q_id r) h \<or> born_sealed sha w' c' h"
        using snoc by metis
      then show ?thesis by (intro exI [of _ pre] exI [of _ w'] exI [of _ c'] exI [of _ "post @ [wc]"]) simp
    next
      case 2
      then show ?thesis by (intro exI [of _ cs] exI [of _ w] exI [of _ c] exI [of _ "[]"]) (simp add: wc)
    qed
  qed
qed

lemma get_by_id_Some: "get_by_id q i = Some r \<Longrightarrow> r \<in> set q \<and> q_id r = i"
  by (auto simp: get_by_id_def find_Some_iff)

lemma set_first_seen [simp]: "set (first_seen xs) = set xs"
  by (simp add: first_seen_def)

lemma in_map_filter: "y \<in> set (List.map_filter f xs) \<longleftrightarrow> (\<exists>x \<in> set xs. f x = Some y)"
  by (force simp: List.map_filter_def)

definition requested_rows :: "queue \<Rightarrow> int list \<Rightarrow> string \<Rightarrow> queue_row list" where
  "requested_rows q ids tenant = filter (\<lambda>r. q_id r \<in> set ids \<and> q_tenant r = tenant \<and> is_live r) q"

lemma find_SomeD: "find P xs = Some x \<Longrightarrow> x \<in> set xs \<and> P x"
  by (auto simp: find_Some_iff)

lemma guard_iff:
  "validate_deployable_queue_items sha now q ids tenant auth = (Inr rows, q') \<longleftrightarrow>
   ids \<noteq> [] \<and> (\<forall>i \<in> set ids. get_by_id (requested_rows q ids tenant) i \<noteq> None) \<and>
   rows = List.map_filter (get_by_id (requested_rows q ids tenant)) (first_seen ids) \<and> q' = q \<and>
   (\<forall>a. auth = Some a \<longrightarrow> a \<noteq> [] \<longrightarrow> (\<forall>r \<in> set rows. q_transaction r = a)) \<and>
   (\<forall>r \<in> set rows. q_status r = APPROVED) \<and> (\<forall>r \<in> set rows. verify_seal sha r)"
proof -
  have ids: "first_seen ids = [] \<longleftrightarrow> ids = []" by (simp add: first_seen_def)
  have fold: "filter (\<lambda>r. q_id r \<in> set (first_seen ids) \<and> q_tenant r = tenant \<and> is_live r) q = requested_rows q ids tenant"
    by (simp add: requested_rows_def)
  show ?thesis
    unfolding validate_deployable_queue_items_def Let_def ids fold
    by (cases auth) (auto simp: filter_empty_conv find_None_iff dest: find_SomeD split: option.split)
qed

lemma guard_Inr:
  assumes "validate_deployable_queue_items sha now q ids tenant auth = (Inr rows, q')" "r \<in> set rows"
  shows "r \<in> set q \<and> q_id r \<in> set ids \<and> q_tenant r = tenant \<and> is_live r \<and> q_status r = APPROVED \<and> verify_seal sha r"
    "auth = None \<or> auth = Some [] \<or> auth = Some (q_transaction r)"
proof -
  obtain i where "get_by_id (requested_rows q ids tenant) i = Some r"
    using assms(2) assms(1) [unfolded guard_iff] by (auto simp: in_map_filter)
  then have "r \<in> set (requested_rows q ids tenant)" by (simp add: get_by_id_Some)
  then show "r \<in> set q \<and> q_id r \<in> set ids \<and> q_tenant r = tenant \<and> is_live r \<and> q_status r = APPROVED \<and> verify_seal sha r"
    using assms(2) assms(1) [unfolded guard_iff] by (simp add: requested_rows_def)
  show "auth = None \<or> auth = Some [] \<or> auth = Some (q_transaction r)"
    using assms(2) assms(1) [unfolded guard_iff] by (cases auth) auto
qed

text \<open>
  C4: Whatever the deploy guard lets through was reviewed.  In any run of calls from an empty queue, direct edits of
  snapshots in the table included, a row the guard returns is approved, not deleted and the tenant's, belongs to the
  service that was authorized, and carries the seal of its present content from an earlier call: an approval of a
  submitted change that held this row with this content, by a caller with the right to approve and within the rule on
  approving one's own request, or the storing of a change of a kind that is sealed at birth.
\<close>

theorem guarded_deploy_was_reviewed:
  assumes "validate_deployable_queue_items sha now (run_calls sha cs []) ids tenant auth = (Inr rows, q')"
    and "r \<in> set rows"
  shows "q_status r = APPROVED \<and> is_live r \<and> q_tenant r = tenant \<and>
    (auth = None \<or> auth = Some [] \<or> auth = Some (q_transaction r)) \<and>
    (\<exists>pre w c post. cs = pre @ (w, c) # post \<and>
       (approved_by sha w c (run_calls sha pre []) (q_id r) (seal sha (q_snapshot r)) \<or>
        born_sealed sha w c (seal sha (q_snapshot r))))"
proof -
  have r: "r \<in> set (run_calls sha cs [])" "q_hash r = Some (seal sha (q_snapshot r))" "q_status r = APPROVED"
    "is_live r" "q_tenant r = tenant"
    using guard_Inr(1) [OF assms] by (auto simp: verify_seal_def split: option.splits)
  then show ?thesis using guard_Inr(2) [OF assms] run_seals [of sha cs] by blast
qed

section \<open>A concrete queue\<close>

definition granting :: "(string \<Rightarrow> string \<Rightarrow> string \<Rightarrow> bool) \<Rightarrow> surroundings" where
  "granting ok = \<lparr>authenticate = \<lambda>_. Inl 401,
     fga_reply_for = \<lambda>user perm obj. FgaBody (VDict [(''allowed'', VBool (ok user perm obj))])\<rparr>"

definition desk :: "int \<Rightarrow> string \<Rightarrow> (string \<Rightarrow> string \<Rightarrow> string \<Rightarrow> bool) \<Rightarrow> world" where
  "desk now uuid ok =
     \<lparr>w_now = now, w_uuid = uuid, w_fga = granting ok, w_group = (\<lambda>_. Some ''rg''),
      w_rule = (\<lambda>_ _. Some \<lparr>require_approval = True, allow_self_approval = False, allow_approver_edit = False\<rparr>),
      w_settings_diff = (\<lambda>_. VDict [(''cpu'', VInt 2)]), w_discard_variables = (\<lambda>_. Some []),
      w_config = (\<lambda>_ _. None), w_application = (\<lambda>_. Some ''Pay''), w_kong_host = (\<lambda>_ _. None),
      w_kong_group = (\<lambda>_. None), w_settle = (\<lambda>d _ _. d), w_variables_summary = (\<lambda>_. []),
      w_pending_diff = (\<lambda>_ _. True), w_live_snapshot = (\<lambda>_. []), w_service_name = (\<lambda>_. Some ''api''),
      w_environment = (\<lambda>_. Some ''stage''), w_locate = (\<lambda>_. Some [''svc/api'']), w_has_repository = True\<rparr>"

definition demo_ok :: "string \<Rightarrow> string \<Rightarrow> string \<Rightarrow> bool" where
  "demo_ok user perm obj \<longleftrightarrow> user = ''user:ann'' \<and> perm = ''can_write_settings'' \<or> user = ''user:bob'' \<and> perm = ''can_approve''"

definition demo_request :: queue_request where
  "demo_request =
     \<lparr>rq_user = ''ann'', rq_tenant = ''acme'', rq_transaction = ''sc-1'', rq_table = SERVICE_CONFIG,
      rq_snapshot = [(''product_name'', VStr ''Pay''), (''cpu'', VInt 2)], rq_case = Some ''update_service'',
      rq_ticket = None, rq_queue_code = None, rq_validate_flags = True\<rparr>"

definition demo_calls :: "(world \<times> call) list" where
  "demo_calls =
     [(desk 1 ''a1'' demo_ok, Save demo_request None),
      (desk 2 [] demo_ok, Submit ''user:ann'' ''ann'' ''queue-a1'' []),
      (desk 3 [] demo_ok, Approve ''user:bob'' ''bob'' ''queue-a1'' ''fine'')]"

definition demo_queue :: queue where
  "demo_queue = run_calls id demo_calls []"

lemma demo_queue_row:
  "map (\<lambda>r. (q_code r, q_id r, q_status r, q_hash r, q_decided_by r)) demo_queue =
     [(''queue-a1'', 1, APPROVED, Some (seal id (VDict [(''product_name'', VStr ''Pay''), (''cpu'', VInt 2),
        (''tenant_code'', VStr ''acme'')])), Some ''bob'')]"
  by code_simp

lemma demo_guard_passes:
  "validate_deployable_queue_items id 9 demo_queue [1] ''acme'' (Some ''sc-1'') = (Inr demo_queue, demo_queue)"
  "demo_queue = [hd demo_queue]" "q_id (hd demo_queue) = 1"
  by code_simp+

theorem guarded_deploy_was_reviewed_witness:
  "\<exists>pre w c post. demo_calls = pre @ (w, c) # post \<and>
     (approved_by id w c (run_calls id pre []) 1 (seal id (q_snapshot (hd demo_queue))) \<or>
      born_sealed id w c (seal id (q_snapshot (hd demo_queue))))"
proof -
  have "hd demo_queue \<in> set demo_queue" using demo_guard_passes(2) by (metis list.set_intros(1))
  then show ?thesis
    using guarded_deploy_was_reviewed [of id 9 demo_calls "[1]" "''acme''" "Some ''sc-1''" demo_queue demo_queue "hd demo_queue"]
      demo_guard_passes by (simp add: demo_queue_def)
qed

section \<open>Retrying a failed deploy\<close>

text \<open>Updates that leave what the guard looks at, the status apart.\<close>

definition keeps_guarded :: "(queue_row \<Rightarrow> queue_row) \<Rightarrow> bool" where
  "keeps_guarded f \<longleftrightarrow>
     (\<forall>r. q_id (f r) = q_id r \<and> q_tenant (f r) = q_tenant r \<and> q_deleted (f r) = q_deleted r \<and>
        q_transaction (f r) = q_transaction r \<and> q_hash (f r) = q_hash r \<and> q_snapshot (f r) = q_snapshot r)"

lemma get_by_id_map: "(\<And>r. q_id (f r) = q_id r) \<Longrightarrow> get_by_id (map f q) i = map_option f (get_by_id q i)"
  by (induction q) (simp_all add: get_by_id_def)

lemma map_filter_map_option: "List.map_filter (\<lambda>i. map_option f (g i)) xs = map f (List.map_filter g xs)"
  by (induction xs) (auto simp: List.map_filter_simps split: option.split)

lemma requested_rows_map:
  "keeps_guarded f \<Longrightarrow> requested_rows (map f q) ids tenant = map f (requested_rows q ids tenant)"
  by (simp add: requested_rows_def filter_map comp_def keeps_guarded_def is_live_def)

lemma verify_seal_kept: "keeps_guarded f \<Longrightarrow> verify_seal sha (f r) = verify_seal sha r"
  by (auto simp: keeps_guarded_def verify_seal_def split: option.split)

lemma guard_after:
  assumes "validate_deployable_queue_items sha now q ids tenant auth = (Inr rows, q')"
    and "keeps_guarded f" "\<And>r. r \<in> set rows \<Longrightarrow> q_status (f r) = APPROVED"
  shows "validate_deployable_queue_items sha t (map f q) ids tenant auth = (Inr (map f rows), map f q)"
proof -
  have ids: "q_id (f r) = q_id r" for r using assms(2) by (simp add: keeps_guarded_def)
  have got: "get_by_id (requested_rows (map f q) ids tenant) =
      (\<lambda>i. map_option f (get_by_id (requested_rows q ids tenant) i))"
    by (simp add: requested_rows_map [OF assms(2)] get_by_id_map ids fun_eq_iff)
  show ?thesis
    using assms(1,3) assms(2) [unfolded keeps_guarded_def]
    unfolding guard_iff got map_filter_map_option
    by (auto simp: verify_seal_kept [OF assms(2)])
qed

lemma keeps_guarded_move: "keeps_guarded (move_row now s)" "keeps_guarded (fail_row now)"
  by (auto simp: keeps_guarded_def move_row_def fail_row_def append_status_event_def add_event_def)

lemma status_move [simp]: "q_status (move_row now s r) = s"
  by (simp add: move_row_def)

lemma status_fail: "q_status (fail_row now r) = (if q_status r \<in> set failable_statuses then APPROVED else q_status r)"
  by (simp add: fail_row_def add_event_def)

lemma queue_status_of_value: "queue_status_of (py_lower (status_value s)) = Some s"
  by (induction s) code_simp+

lemma queue_status_FAILED: "queue_status_of (py_lower ''FAILED'') = Some FAILED"
  by code_simp

text \<open>
  C17: A failed deploy can be tried again, if it failed in a status \<open>update_queue_status\<close> counts as in flight.  When
  the guard lets rows through, the pipeline moves them to such a status, and the deploy then fails, the guard lets the
  same rows through again, in the same order, with the same contents and without the mark of the deploy gate.  From any
  other status (\<open>PR_DRAFT\<close>, \<open>PLANNING\<close>, \<open>APPLYING\<close> among them) the report of the failure changes nothing: the rows
  stay in that status.
\<close>

theorem failed_deploy_retries:
  assumes "validate_deployable_queue_items sha t0 q ids tenant auth = (Inr rows, q1)"
    and "s \<noteq> FAILED" "update_queue_status t1 ids (status_value s) q1 = Some q2"
    and "update_queue_status t2 ids ''FAILED'' q2 = Some q3"
  shows "(s \<in> set failable_statuses \<longrightarrow>
      (\<exists>rows'. validate_deployable_queue_items sha t3 q3 ids tenant auth = (Inr rows', q3) \<and>
        map q_id rows' = map q_id rows \<and> map q_snapshot rows' = map q_snapshot rows \<and>
        list_all (\<lambda>r. q_started r = None) rows')) \<and>
    (s \<notin> set failable_statuses \<longrightarrow> q3 = q2 \<and> (\<forall>r \<in> set q3. q_id r \<in> set ids \<longrightarrow> q_status r = s))"
proof (cases "s \<in> set failable_statuses")
  case False
  have "q2 = map (\<lambda>r. if q_id r \<notin> set ids then r else move_row t1 s r) q1"
    using assms(2,3) by (simp add: update_queue_status_def queue_status_of_value cong: if_cong)
  then have st: "\<forall>r \<in> set q2. q_id r \<in> set ids \<longrightarrow> q_status r = s"
    using keeps_guarded_move(1) [of t1 s] by (auto simp: keeps_guarded_def move_row_def)
  moreover have "q3 = map (\<lambda>r. if q_id r \<notin> set ids then r else fail_row t2 r) q2"
    using assms(4) by (auto simp: update_queue_status_def queue_status_FAILED)
  moreover have "(if q_id r \<notin> set ids then r else fail_row t2 r) = r" if "r \<in> set q2" for r
    using that st False by (simp add: fail_row_def)
  ultimately show ?thesis using False by (simp add: map_idI)
next
  case True
  note assms = assms(1) True assms(3,4)
  have q1: "q1 = q" using assms(1) by (simp add: guard_iff)
  have s: "s \<noteq> FAILED" using assms(2) by (auto simp: failable_statuses_def)
  let ?f = "\<lambda>r. if q_id r \<notin> set ids then r else fail_row t2 (move_row t1 s r)"
  have f: "keeps_guarded ?f"
    using keeps_guarded_move(1) [of t1 s] keeps_guarded_move(2) [of t2] by (simp add: keeps_guarded_def)
  have rows: "q_id r \<in> set ids" if "r \<in> set rows" for r using guard_Inr(1) [OF assms(1) that] by simp
  have "q2 = map (\<lambda>r. if q_id r \<notin> set ids then r else move_row t1 s r) q"
    using assms(3) by (simp add: update_queue_status_def queue_status_of_value q1 s cong: if_cong)
  then have q3: "q3 = map ?f q"
    using assms(4) keeps_guarded_move(1) [of t1 s]
    by (auto simp: update_queue_status_def queue_status_FAILED keeps_guarded_def)
  have "validate_deployable_queue_items sha t3 q3 ids tenant auth = (Inr (map ?f rows), q3)"
    unfolding q3 by (rule guard_after [OF assms(1) f]) (use rows assms(2) in \<open>simp add: status_fail\<close>)
  moreover have "list_all (\<lambda>r. q_started r = None) (map ?f rows)"
    using rows assms(2) by (auto simp: list_all_iff fail_row_def add_event_def)
  ultimately show ?thesis
    using f True by (intro conjI impI exI [of _ "map ?f rows"]) (simp_all add: keeps_guarded_def comp_def)
qed

theorem failed_deploy_retries_witness:
  "\<exists>q2 q3 rows'. update_queue_status 10 [1] (status_value PR_RAISED) demo_queue = Some q2 \<and>
     update_queue_status 11 [1] ''FAILED'' q2 = Some q3 \<and>
     validate_deployable_queue_items id 12 q3 [1] ''acme'' (Some ''sc-1'') = (Inr rows', q3) \<and>
     map q_snapshot rows' = map q_snapshot demo_queue"
proof -
  obtain q2 where q2: "update_queue_status 10 [1] (status_value PR_RAISED) demo_queue = Some q2"
    by (simp add: update_queue_status_def queue_status_of_value)
  obtain q3 where q3: "update_queue_status 11 [1] ''FAILED'' q2 = Some q3"
    by (simp add: update_queue_status_def queue_status_FAILED)
  have s: "PR_RAISED \<noteq> FAILED" "PR_RAISED \<in> set failable_statuses" by (simp_all add: failable_statuses_def)
  from failed_deploy_retries [OF demo_guard_passes(1) s(1) q2 q3] s(2) q2 q3 show ?thesis by blast
qed

end
