(* ===== verification/ReviewLane.thy ===== *)
theory ReviewLane
  imports ApprovalProperties
begin

text \<open>
  The verbs of the review: what they keep of the lane of a service, how they move a change as a whole, and the calls
  around them that get past the review.
\<close>

section \<open>One author under review\<close>

definition under_review :: "queue_row \<Rightarrow> bool" where
  "under_review r \<longleftrightarrow> is_live r \<and> approvable r \<and> (q_status r = SUBMIT \<or> q_status r = APPROVED)"

definition same_service :: "queue_row \<Rightarrow> queue_row \<Rightarrow> bool" where
  "same_service r s \<longleftrightarrow> q_transaction r = q_transaction s \<and> q_tenant r = q_tenant s"

definition one_author :: "queue \<Rightarrow> bool" where
  "one_author q \<longleftrightarrow>
     (\<forall>r \<in> set q. \<forall>s \<in> set q. under_review r \<and> under_review s \<and> same_service r s \<longrightarrow> q_user r = q_user s)"

text \<open>The verbs of the review, the removal of rows, and the start of a deployment.\<close>

fun review_call :: "call \<Rightarrow> bool" where
  "review_call (Submit _ _ _ _) = True"
| "review_call (Withdraw _ _ _) = True"
| "review_call (Discard _ _ _) = True"
| "review_call (Approve _ _ _ _) = True"
| "review_call (Revoke _ _ _ _) = True"
| "review_call (Send_back _ _ _ _) = True"
| "review_call (Reject _ _ _ _) = True"
| "review_call (Gate _ _ _) = True"
| "review_call (Guard _ _ _) = True"
| "review_call (Remove _ _) = True"
| "review_call (Delete _ _) = True"
| "review_call (Deploy _ _ _ _) = True"
| "review_call (Edit_table _ _) = True"
| "review_call _ = False"

text \<open>An update of a row that stays on its service and enters no review.\<close>

definition stays :: "queue_row \<Rightarrow> queue_row \<Rightarrow> bool" where
  "stays r r' \<longleftrightarrow> q_code r' = q_code r \<and> q_id r' = q_id r \<and> q_user r' = q_user r \<and> same_service r r' \<and>
     (under_review r' \<longrightarrow> under_review r)"

named_theorems stays_intros

lemma stays_refl [stays_intros, simp]: "stays r r"
  by (simp add: stays_def same_service_def)

lemma stays_trans: "stays r s \<Longrightarrow> stays s t \<Longrightarrow> stays r t"
  by (auto simp: stays_def same_service_def)

lemma one_author_mapI:
  "(\<And>r s. r \<in> set q \<Longrightarrow> s \<in> set q \<Longrightarrow> under_review (f r) \<Longrightarrow> under_review (f s) \<Longrightarrow> same_service (f r) (f s) \<Longrightarrow>
     q_user (f r) = q_user (f s)) \<Longrightarrow> one_author (map f q)"
  by (auto simp: one_author_def)

lemma one_author_map:
  assumes "one_author q" "\<And>r. r \<in> set q \<Longrightarrow> stays r (f r)"
  shows "one_author (map f q)"
  using assms unfolding one_author_def stays_def same_service_def by (metis (no_types, lifting) imageE list.set_map)

lemma one_author_alter:
  assumes "one_author q" "\<And>r. r \<in> set q \<Longrightarrow> q_code r \<in> q_code ` set ms \<Longrightarrow> stays r (f r)"
  shows "one_author (alter ms f q)"
  unfolding alter_def by (rule one_author_map [OF assms(1)]) (use assms(2) in auto)

lemma stays_status:
  "s \<noteq> SUBMIT \<Longrightarrow> s \<noteq> APPROVED \<Longrightarrow> stays r (r\<lparr>q_status := s\<rparr>)"
  "under_review r \<Longrightarrow> q_code r' = q_code r \<Longrightarrow> q_id r' = q_id r \<Longrightarrow> q_user r' = q_user r \<Longrightarrow>
     q_transaction r' = q_transaction r \<Longrightarrow> q_tenant r' = q_tenant r \<Longrightarrow> stays r r'"
  by (simp_all add: stays_def same_service_def under_review_def)

lemma stays_rows [stays_intros]:
  "stays r (note_event w by event comment r)" "stays r (add_event e r)" "stays r (soft_delete r)"
  "stays r (send_back_row w uc comment r)" "stays r (reject_row w uc comment r)"
  "stays r (note_event w by event comment (r\<lparr>q_status := DRAFT\<rparr>))"
  "stays r (note_event w by event comment (soft_delete r))"
  "stays r (r\<lparr>q_started := t\<rparr>)" "stays r (r\<lparr>q_snapshot := v\<rparr>)" "stays r (r\<lparr>q_status := STARTING_DEPLOYMENT\<rparr>)"
  by (auto simp: stays_def same_service_def under_review_def note_event_def add_event_def soft_delete_def
      send_back_row_def reject_row_def is_live_def approvable_def)

lemma one_author_same [stays_intros]:
  assumes "one_author q" "\<And>r. stays r (f r)"
  shows "one_author (alter ms f q)" "one_author (map (\<lambda>r. if P r then f r else r) q)"
  using assms by (auto intro!: one_author_alter one_author_map)

lemma one_author_quiet:
  assumes "one_author q"
  shows "one_author (snd (withdraw w q uc code comment))" "one_author (snd (discard w q user uc code))"
    "one_author (snd (request_changes w q user uc code comment))"
    "one_author (snd (reject_request w q user uc code comment))" "one_author (snd (deploy_gate sha w q user uc code))"
    "one_author (snd (validate_deployable_queue_items sha now q ids tenant auth))"
    "one_author (snd (remove_from_queue q i uc))" "one_author (snd (delete_queue_item q code uc))"
    "one_author (map (\<lambda>r. if q_id r = i then r\<lparr>q_snapshot := v\<rparr> else r) q)"
  using assms
  by (simp_all add: withdraw_def discard_def request_changes_def reject_request_def deploy_gate_def
      validate_deployable_queue_items_def remove_from_queue_def delete_queue_item_def soft_delete_item_def Let_def
      stays_intros split: option.split sum.split prod.split)

lemma change_set_row:
  assumes "unique_rows q" "get_locked q code = Some row" "q_status row = s" "r \<in> set q"
    "q_code r \<in> q_code ` set (change_set q row [s])"
  shows "q_status r = s \<and> q_user r = q_user row \<and> same_service row r \<and> is_live r"
proof -
  have "r \<in> set (change_set q row [s])"
    using assms(4,5) change_set_codes [OF assms(1)] get_locked_Some [OF assms(2)] by blast
  then show ?thesis
    using assms(3) get_locked_Some [OF assms(2)]
    by (auto simp: set_change_set in_lane_def same_service_def split: if_splits)
qed

text \<open>A decision on a change moves rows that are under review already.\<close>

definition keeps_place :: "(queue_row \<Rightarrow> queue_row) \<Rightarrow> bool" where
  "keeps_place f \<longleftrightarrow>
     (\<forall>r. q_code (f r) = q_code r \<and> q_id (f r) = q_id r \<and> q_user (f r) = q_user r \<and> q_tenant (f r) = q_tenant r \<and>
        q_transaction (f r) = q_transaction r \<and> q_table (f r) = q_table r \<and> q_deleted (f r) = q_deleted r)"

lemma keeps_place_rows:
  "keeps_place (approve_row sha w uc comment)" "keeps_place (revoke_row w uc comment)"
  "keeps_place (submit_row w uc comment)"
  by (simp_all add: keeps_place_def approve_row_def revoke_row_def submit_row_def note_event_def add_event_def)

lemma one_author_decided:
  assumes "unique_rows q" "one_author q" "get_locked q code = Some row" "q_status row = s" "s = SUBMIT \<or> s = APPROVED"
    and "keeps_place f"
  shows "one_author (alter (change_set q row [s]) f q)"
proof (rule one_author_alter [OF assms(2)])
  fix r
  assume "r \<in> set q" "q_code r \<in> q_code ` set (change_set q row [s])"
  then have "q_status r = s" using change_set_row [OF assms(1,3,4)] by blast
  then show "stays r (f r)"
    using assms(5,6) by (auto simp: stays_def same_service_def under_review_def keeps_place_def is_live_def approvable_def)
qed

lemma one_author_approve:
  assumes "unique_rows q" "one_author q"
  shows "one_author (snd (approve sha w q user uc code comment))"
proof (cases "approve sha w q user uc code comment")
  case (Pair res q')
  have "one_author q'"
    using assms Pair by (cases res) (auto simp: approve_Inr dest: approve_Inl intro!: one_author_decided keeps_place_rows)
  then show ?thesis by (simp add: Pair)
qed

lemma revoke_Inr:
  "revoke w q user uc code comment = (Inr c, q') \<longleftrightarrow>
   (\<exists>row. get_locked q code = Some row \<and> q_status row = APPROVED \<and> ask w user ''can_approve'' row = Inr () \<and>
      (\<forall>r \<in> set (change_set q row [APPROVED]). \<not> deploy_in_flight (w_now w) r) \<and> c = code \<and>
      q' = alter (change_set q row [APPROVED]) (revoke_row w uc comment) q)"
  by (auto simp: revoke_def Let_def list_ex_iff split: option.split sum.split)

lemma revoke_Inl: "revoke w q user uc code comment = (Inl e, q') \<Longrightarrow> q' = q"
  by (auto simp: revoke_def Let_def split: option.splits sum.splits if_splits)

lemma one_author_revoke:
  assumes "unique_rows q" "one_author q"
  shows "one_author (snd (revoke w q user uc code comment))"
proof (cases "revoke w q user uc code comment")
  case (Pair res q')
  have "one_author q'"
    using assms Pair by (cases res) (auto simp: revoke_Inr dest: revoke_Inl intro!: one_author_decided keeps_place_rows)
  then show ?thesis by (simp add: Pair)
qed

lemma case_and_then:
  "(case and_then a b of Inl e \<Rightarrow> (Inl e, q) | Inr u \<Rightarrow> y) = (Inr c, q') \<longleftrightarrow>
     a = Inr () \<and> b = Inr () \<and> y = (Inr c, q')"
  by (cases a; cases b) (auto simp: and_then_def)

lemma submit_Inr:
  "submit w q user uc code comment = (Inr c, q') \<longleftrightarrow>
   (\<exists>row. get_locked q code = Some row \<and> q_status row = DRAFT \<and>
      find_live_by_other_author q (q_transaction row) (q_tenant row) (q_user row) = None \<and>
      (\<forall>r \<in> set (change_set q row [DRAFT]). check_path r = Inr () \<and> ask_all w user r = Inr ()) \<and>
      (\<exists>r \<in> set (change_set q row [DRAFT]). \<not> is_empty_change (compute_changes w r)) \<and> c = code \<and>
      q' = alter (change_set q row [DRAFT]) (submit_row w uc comment) q)"
  by (auto simp: submit_def Let_def list_all_iff case_and_then split: option.split)

lemma submit_Inl: "submit w q user uc code comment = (Inl e, q') \<Longrightarrow> q' = q"
  by (auto simp: submit_def Let_def split: option.splits sum.splits if_splits)

text \<open>Submitting is refused while somebody else's change to the service is under review.\<close>

lemma one_author_submit:
  assumes "unique_rows q" "one_author q"
  shows "one_author (snd (submit w q user uc code comment))"
proof (cases "submit w q user uc code comment")
  case (Pair res q')
  show ?thesis
  proof (cases res)
    case (Inl e)
    then show ?thesis using submit_Inl Pair assms(2) by (metis snd_conv)
  next
    case (Inr c)
    obtain row where row: "get_locked q code = Some row" "q_status row = DRAFT"
      "find_live_by_other_author q (q_transaction row) (q_tenant row) (q_user row) = None"
      "q' = alter (change_set q row [DRAFT]) (submit_row w uc comment) q"
      using Pair Inr by (auto simp: submit_Inr)
    let ?f = "\<lambda>r. if q_code r \<in> q_code ` set (change_set q row [DRAFT]) then submit_row w uc comment r else r"
    have place: "q_user (?f r) = q_user r" "same_service (?f r) s = same_service r s" "same_service s (?f r) = same_service s r"
      for r s using keeps_place_rows(3) [of w uc comment] by (auto simp: keeps_place_def same_service_def)
    have mine: "q_user r = q_user row"
      if "r \<in> set q" "under_review (?f r)" "same_service row r" for r
    proof (cases "q_code r \<in> q_code ` set (change_set q row [DRAFT])")
      case True
      then show ?thesis using change_set_row [OF assms(1) row(1,2) that(1)] by simp
    next
      case False
      then show ?thesis
        using that row(3) by (auto simp: find_live_by_other_author_def find_None_iff under_review_def same_service_def)
    qed
    have "one_author (map ?f q)"
    proof (rule one_author_mapI)
      fix r s
      assume r: "r \<in> set q" "s \<in> set q" "under_review (?f r)" "under_review (?f s)" "same_service (?f r) (?f s)"
      have rs: "same_service r s" using r(5) by (simp only: place)
      have "q_user r = q_user s"
      proof (cases "same_service row r")
        case True
        then have "same_service row s" using rs by (simp add: same_service_def)
        then show ?thesis using mine [OF r(1,3) True] mine [OF r(2,4)] by simp
      next
        case False
        then have "\<not> same_service row s" using rs by (simp add: same_service_def)
        then have "q_code r \<notin> q_code ` set (change_set q row [DRAFT])" "q_code s \<notin> q_code ` set (change_set q row [DRAFT])"
          using False change_set_row [OF assms(1) row(1,2) r(1)] change_set_row [OF assms(1) row(1,2) r(2)] by blast+
        then have "under_review r" "under_review s" using r(3,4) by simp_all
        then show ?thesis using assms(2) r(1,2) rs unfolding one_author_def by blast
      qed
      then show "q_user (?f r) = q_user (?f s)" by (simp only: place)
    qed
    then show ?thesis using Pair row(4) by (simp add: alter_def)
  qed
qed

lemma one_author_deploy: "one_author q \<Longrightarrow> one_author (snd (deploy_temporal w q user tenant environment ids))"
proof -
  assume q: "one_author q"
  have "one_author (foldl (\<lambda>q i. update_status i STARTING_DEPLOYMENT q) q is)" for "is"
    using q
  proof (induction "is" arbitrary: q)
    case (Cons i "is")
    show ?case using Cons.IH [of "update_status i STARTING_DEPLOYMENT q"] Cons.prems
      by (simp add: update_status_def stays_intros)
  qed simp
  then show ?thesis using q by (simp add: deploy_temporal_def Let_def)
qed

lemma one_author_call:
  "unique_rows q \<Longrightarrow> one_author q \<Longrightarrow> review_call c \<Longrightarrow> one_author (call_step sha w c q)"
  by (cases c) (simp_all add: one_author_quiet one_author_submit one_author_approve one_author_revoke one_author_deploy)

lemma unique_rows_call: "unique_rows q \<Longrightarrow> unique_rows (call_step sha w c q)"
  using call_seals [of q sha w c] by (simp add: seals_within_def)

text \<open>
  C6: At most one author has a change to a service under review.  From any queue with distinct keys where this holds,
  no sequence of the verbs of the review, removals of rows, starts of deployments and direct edits of snapshots, by any
  callers at any time, leads to two authors with submitted or approved rows for one service.
\<close>

theorem one_author_under_review:
  assumes "unique_rows q" "one_author q" "list_all (\<lambda>(w, c). review_call c) cs"
  shows "one_author (run_calls sha cs q)"
  using assms
proof (induction cs arbitrary: q)
  case (Cons wc cs)
  obtain w c where wc: "wc = (w, c)" by fastforce
  have "one_author (call_step sha w c q)" using Cons.prems wc one_author_call by simp
  then show ?case using Cons.IH [OF unique_rows_call [OF Cons.prems(1)]] Cons.prems(3) wc by simp
qed simp

text \<open>Two authors with a draft for the same service; the second one is told to wait.\<close>

definition settings_draft :: "int \<Rightarrow> string \<Rightarrow> string \<Rightarrow> queue_row" where
  "settings_draft i uuid user =
     (new_row i uuid user ''acme'' ''sc-1'' SERVICE_CONFIG (Some ''update_service'') None (VDict [(''cpu'', VInt i)])
        ''api'' DRAFT None [])\<lparr>q_id := i\<rparr>"

definition two_drafts :: queue where
  "two_drafts = [settings_draft 1 ''a1'' ''ann'', settings_draft 2 ''c1'' ''cat'']"

definition open_desk :: "int \<Rightarrow> world" where
  "open_desk now = desk now [] (\<lambda>_ _ _. True)"

definition lane_calls :: "(world \<times> call) list" where
  "lane_calls =
     [(open_desk 10, Submit ''user:ann'' ''ann'' ''queue-a1'' []),
      (open_desk 11, Submit ''user:cat'' ''cat'' ''queue-c1'' []),
      (open_desk 12, Approve ''user:bob'' ''bob'' ''queue-a1'' [])]"

lemma two_drafts_apart: "unique_rows two_drafts" "one_author two_drafts"
  by (auto simp: unique_rows_def one_author_def two_drafts_def settings_draft_def under_review_def new_row_def)

lemma lane_calls_run:
  "list_all (\<lambda>(w, c). review_call c) lane_calls"
  "map q_status (run_calls id lane_calls two_drafts) = [APPROVED, DRAFT]"
  by (simp add: lane_calls_def, code_simp)

theorem one_author_under_review_witness:
  "one_author (run_calls id lane_calls two_drafts) \<and> map q_status (run_calls id lane_calls two_drafts) = [APPROVED, DRAFT]"
  using one_author_under_review [OF two_drafts_apart lane_calls_run(1)] lane_calls_run(2) by simp

section \<open>A change moves as one\<close>

text \<open>
  The status a verb of the review moves a change to; and that a row is the one it was except for what the review writes:
  its status, the diff shown to the reviewer, the decision and its seal, the deploy mark and the history.
\<close>

fun verb_target :: "call \<Rightarrow> queue_status" where
  "verb_target (Submit user uc code comment) = SUBMIT"
| "verb_target (Withdraw uc code comment) = DRAFT"
| "verb_target (Approve user uc code comment) = APPROVED"
| "verb_target (Revoke user uc code comment) = SUBMIT"
| "verb_target (Send_back user uc code comment) = DRAFT"
| "verb_target (Reject user uc code comment) = REJECTED"
| "verb_target c = DRAFT"

definition same_item :: "queue_row \<Rightarrow> queue_row \<Rightarrow> bool" where
  "same_item r r' \<longleftrightarrow>
     r' = r\<lparr>q_status := q_status r', q_changes := q_changes r', q_hash := q_hash r', q_decided_by := q_decided_by r',
        q_decided_at := q_decided_at r', q_comment := q_comment r', q_started := q_started r', q_history := q_history r'\<rparr>"

definition change_moved :: "queue_status \<Rightarrow> queue_row \<Rightarrow> queue_row \<Rightarrow> queue_row \<Rightarrow> bool" where
  "change_moved st row r r' \<longleftrightarrow>
     (if r = row \<or> in_lane row [q_status row] r then q_status r' = st \<and> same_item r r' else r' = r)"

lemma change_rows:
  assumes "unique_rows q" "get_locked q code = Some row" "r \<in> set q"
  shows "q_code r \<in> q_code ` set (change_set q row sts) \<longleftrightarrow> r = row \<or> in_lane row sts r"
proof -
  have row: "row \<in> set q" using get_locked_Some [OF assms(2)] by blast
  have "s = row" if "s \<in> set q" "q_code s = q_code row" for s
    using same_code [OF assms(1) that(1) row that(2)] .
  then have "r \<in> set (change_set q row sts) \<longleftrightarrow> r = row \<or> in_lane row sts r"
    using row assms(3) by (auto simp: set_change_set)
  then show ?thesis using change_set_codes [OF assms(1) row assms(3)] by simp
qed

text \<open>What every verb of the review does with the rows of a change: the move of one status to another, in place.\<close>

locale change_verb =
  fixes from_status to_status :: queue_status
    and move :: "queue_row \<Rightarrow> queue_row"
  assumes place: "keeps_place move"
    and moved: "q_status (move r) = to_status"
    and apart: "from_status \<noteq> to_status"
    and kept: "same_item r (move r)"
begin

definition moved_queue :: "queue \<Rightarrow> queue_row \<Rightarrow> queue" where
  "moved_queue q row = alter (change_set q row [from_status]) move q"

lemma lane_move: "in_lane row [from_status] (move r) = False"
  by (simp add: in_lane_def moved apart [symmetric])

lemma leaves_nothing:
  assumes "unique_rows q" "get_locked q code = Some row"
  shows "lane_rows (moved_queue q row) row [from_status] = []"
proof -
  have "\<not> in_lane row [from_status] r"
    if "r \<in> set q" "q_code r \<notin> q_code ` set (change_set q row [from_status])" for r
    using that by (auto simp: set_change_set split: if_splits)
  then have "filter (in_lane row [from_status]) (moved_queue q row) = []"
    by (auto simp: moved_queue_def alter_def filter_empty_conv lane_move)
  then show ?thesis by (simp add: lane_rows_def)
qed

lemma moves_change:
  assumes "unique_rows q" "get_locked q code = Some row" "q_status row = from_status"
  shows "list_all2 (change_moved to_status row) q (moved_queue q row)"
proof -
  have "q_code r \<in> q_code ` set (change_set q row [from_status]) \<longleftrightarrow> r = row \<or> in_lane row [from_status] r" if "r \<in> set q" for r
    using change_rows [OF assms(1,2) that] .
  then have "change_moved to_status row r
      (if q_code r \<in> q_code ` set (change_set q row [from_status]) then move r else r)" if "r \<in> set q" for r
    using that assms(3) by (simp add: change_moved_def moved kept)
  then show ?thesis by (simp add: moved_queue_def alter_def list_all2_map2 list_all2_same)
qed

end

interpretation submitting: change_verb DRAFT SUBMIT "submit_row w uc comment" for w uc comment
  by unfold_locales (simp_all add: keeps_place_rows submit_row_def add_event_def same_item_def)

interpretation withdrawing: change_verb SUBMIT DRAFT "\<lambda>r. note_event w uc ''withdrawn'' comment (r\<lparr>q_status := DRAFT\<rparr>)"
  for w uc comment
  by unfold_locales (simp_all add: keeps_place_def note_event_def add_event_def same_item_def)

interpretation approving: change_verb SUBMIT APPROVED "approve_row sha w uc comment" for sha w uc comment
  by unfold_locales (simp_all add: keeps_place_rows approve_row_def note_event_def add_event_def same_item_def)

interpretation revoking: change_verb APPROVED SUBMIT "revoke_row w uc comment" for w uc comment
  by unfold_locales (simp_all add: keeps_place_rows revoke_row_def note_event_def add_event_def same_item_def)

interpretation sending_back: change_verb SUBMIT DRAFT "send_back_row w uc comment" for w uc comment
  by unfold_locales (simp_all add: keeps_place_def send_back_row_def note_event_def add_event_def same_item_def)

interpretation rejecting: change_verb SUBMIT REJECTED "reject_row w uc comment" for w uc comment
  by unfold_locales (simp_all add: keeps_place_def reject_row_def note_event_def add_event_def same_item_def)

lemma change_set_author: "unique_rows q \<Longrightarrow> get_locked q code = Some row \<Longrightarrow> q_user row = uc \<Longrightarrow>
    filter (\<lambda>r. q_user r = uc) (change_set q row sts) = change_set q row sts"
  by (auto simp: set_change_set in_lane_def filter_id_conv split: if_splits)

lemma submit_effect:
  assumes "get_locked q code = Some row" "snd (submit w q user uc code comment) \<noteq> q"
  shows "q_status row = DRAFT \<and>
    snd (submit w q user uc code comment) = alter (change_set q row [DRAFT]) (submit_row w uc comment) q"
proof -
  obtain res q' where out: "submit w q user uc code comment = (res, q')" by (rule prod.exhaust)
  show ?thesis
  proof (cases res)
    case (Inl e)
    then show ?thesis using submit_Inl [of w q user uc code comment e q'] out assms(2) by simp
  next
    case (Inr c)
    then show ?thesis using out submit_Inr [of w q user uc code comment c q'] assms(1) by (simp only: snd_conv) auto
  qed
qed

lemma verb_step:
  assumes "unique_rows q" "get_locked q code = Some row" "call_step sha w c q \<noteq> q"
  shows "c = Submit user uc code comment \<Longrightarrow>
      q_status row = DRAFT \<and> call_step sha w c q = submitting.moved_queue w uc comment q row"
    "c = Withdraw uc code comment \<Longrightarrow>
      q_status row = SUBMIT \<and> call_step sha w c q = withdrawing.moved_queue w uc comment q row"
    "c = Approve user uc code comment \<Longrightarrow>
      q_status row = SUBMIT \<and> call_step sha w c q = approving.moved_queue sha w uc comment q row"
    "c = Revoke user uc code comment \<Longrightarrow>
      q_status row = APPROVED \<and> call_step sha w c q = revoking.moved_queue w uc comment q row"
    "c = Send_back user uc code comment \<Longrightarrow>
      q_status row = SUBMIT \<and> call_step sha w c q = sending_back.moved_queue w uc comment q row"
    "c = Reject user uc code comment \<Longrightarrow>
      q_status row = SUBMIT \<and> call_step sha w c q = rejecting.moved_queue w uc comment q row"
  subgoal using submit_effect [OF assms(2)] assms(3) by (simp add: submitting.moved_queue_def)
  using assms(2,3) change_set_author [OF assms(1,2)]
  by (auto simp: withdraw_def approve_def revoke_def request_changes_def reject_request_def Let_def
      withdrawing.moved_queue_def approving.moved_queue_def revoking.moved_queue_def
      sending_back.moved_queue_def rejecting.moved_queue_def split: option.splits sum.splits if_splits)

text \<open>
  C10: A verb of the review moves the whole change or nothing.  When submitting, withdrawing, approving, taking back,
  sending back or rejecting a request has any effect, the queue has the same rows in the same places: the request's row
  and every row of its author's change to that service with the same status take the verb's status, each with its item
  (id, code, author, service, kind and snapshot) as it was, and every other row is unchanged.  So no row of the change is
  left in the old status.
\<close>

theorem change_moves_as_one:
  assumes "unique_rows q" "get_locked q code = Some row" "call_step sha w c q \<noteq> q"
    and "c \<in> {Submit user uc code comment, Withdraw uc code comment, Approve user uc code comment,
      Revoke user uc code comment, Send_back user uc code comment, Reject user uc code comment}"
  shows "list_all2 (change_moved (verb_target c) row) q (call_step sha w c q) \<and>
    lane_rows (call_step sha w c q) row [q_status row] = []"
proof -
  note row = assms(1,2)
  consider (1) "c = Submit user uc code comment"
    | (2) "c = Withdraw uc code comment"
    | (3) "c = Approve user uc code comment"
    | (4) "c = Revoke user uc code comment"
    | (5) "c = Send_back user uc code comment"
    | (6) "c = Reject user uc code comment"
    using assms(4) by blast
  then show ?thesis
  proof cases
    case 1
    note step = verb_step(1) [OF assms(1-3) 1]
    show ?thesis using submitting.leaves_nothing [OF row] submitting.moves_change [OF row] step 1 by simp
  next
    case 2
    note step = verb_step(2) [OF assms(1-3) 2]
    show ?thesis using withdrawing.leaves_nothing [OF row] withdrawing.moves_change [OF row] step 2 by simp
  next
    case 3
    note step = verb_step(3) [OF assms(1-3) 3]
    show ?thesis using approving.leaves_nothing [OF row] approving.moves_change [OF row] step 3 by simp
  next
    case 4
    note step = verb_step(4) [OF assms(1-3) 4]
    show ?thesis using revoking.leaves_nothing [OF row] revoking.moves_change [OF row] step 4 by simp
  next
    case 5
    note step = verb_step(5) [OF assms(1-3) 5]
    show ?thesis using sending_back.leaves_nothing [OF row] sending_back.moves_change [OF row] step 5 by simp
  next
    case 6
    note step = verb_step(6) [OF assms(1-3) 6]
    show ?thesis using rejecting.leaves_nothing [OF row] rejecting.moves_change [OF row] step 6 by simp
  qed
qed

lemma lane_first_call:
  "unique_rows two_drafts"
  "get_locked two_drafts ''queue-a1'' = Some (settings_draft 1 ''a1'' ''ann'')"
  "call_step id (open_desk 10) (Submit ''user:ann'' ''ann'' ''queue-a1'' []) two_drafts \<noteq> two_drafts"
  by (fact two_drafts_apart(1), code_simp, code_simp)

theorem change_moves_as_one_witness:
  "list_all2 (change_moved SUBMIT (settings_draft 1 ''a1'' ''ann'')) two_drafts
     (call_step id (open_desk 10) (Submit ''user:ann'' ''ann'' ''queue-a1'' []) two_drafts)"
  using change_moves_as_one [OF lane_first_call, of "''user:ann''" "''ann''" "[]"] by simp

end
