(* ===== verification/ReviewGaps.thy ===== *)
theory ReviewGaps
  imports ReviewLane
begin

text \<open>
  What the review keeps of the seals, what taking an approval back stops, and the calls around the review that reach a
  deployment without it.
\<close>

section \<open>Open rows carry no seal\<close>

definition row_ok :: "queue_row \<Rightarrow> bool" where
  "row_ok r \<longleftrightarrow> (q_status r = DRAFT \<or> q_status r = SUBMIT \<or> q_status r = REJECTED \<longrightarrow> q_hash r = None)"

text \<open>The pipeline reports statuses of a deployment only.\<close>

fun pipeline_call :: "call \<Rightarrow> bool" where
  "pipeline_call (Queue_status _ s) = (queue_status_of (py_lower s) \<notin> {Some DRAFT, Some SUBMIT, Some REJECTED})"
| "pipeline_call (Codes_status _ s) = (s \<notin> {DRAFT, SUBMIT, REJECTED})"
| "pipeline_call _ = True"

definition keeps_ok :: "(queue_row \<Rightarrow> queue_row) \<Rightarrow> bool" where
  "keeps_ok f \<longleftrightarrow> (\<forall>r. row_ok r \<longrightarrow> row_ok (f r))"

named_theorems ok_intros

lemma ok_map [ok_intros]: "keeps_ok f \<Longrightarrow> list_all row_ok q \<Longrightarrow> list_all row_ok (map f q)"
  by (auto simp: keeps_ok_def list_all_iff)

lemma ok_alter [ok_intros]: "keeps_ok f \<Longrightarrow> list_all row_ok q \<Longrightarrow> list_all row_ok (alter ms f q)"
  by (auto simp: keeps_ok_def list_all_iff alter_def)

lemma ok_if [ok_intros]: "keeps_ok f \<Longrightarrow> keeps_ok (\<lambda>r. if P r then f r else r)"
  by (simp add: keeps_ok_def)

lemma ok_insert [ok_intros]: "row_ok r \<Longrightarrow> list_all row_ok q \<Longrightarrow> list_all row_ok (snd (insert_row r q))"
  by (simp add: insert_row_def)

lemma ok_rows [ok_intros]:
  "keeps_ok (add_event e)" "keeps_ok (note_event w by event comment)" "keeps_ok soft_delete"
  "keeps_ok (note_event w by event comment \<circ> soft_delete)"
  "keeps_ok (\<lambda>r. note_event w by event comment (soft_delete r))"
  "keeps_ok (submit_row w uc comment)" "keeps_ok (approve_row sha w uc comment)" "keeps_ok (revoke_row w uc comment)"
  "keeps_ok (send_back_row w uc comment)" "keeps_ok (rewrite_gateway code snapshot name)"
  "keeps_ok (rewrite_item sha rq snapshot name)" "keeps_ok (rewrite_settings rq snapshot name)"
  "keeps_ok (log_save w uc before)" "keeps_ok (fail_row now)" "keeps_ok (pr_rejected_to_approved now)"
  "keeps_ok (\<lambda>r. r\<lparr>q_status := APPROVED, q_moved := t\<rparr>)" "keeps_ok (\<lambda>r. r\<lparr>q_status := STARTING_DEPLOYMENT\<rparr>)"
  "keeps_ok (\<lambda>r. r\<lparr>q_started := t\<rparr>)" "keeps_ok (\<lambda>r. r\<lparr>q_snapshot := v\<rparr>)"
  by (auto simp: keeps_ok_def row_ok_def note_event_def add_event_def soft_delete_def submit_row_def approve_row_def
      revoke_row_def send_back_row_def rewrite_gateway_def rewrite_item_def rewrite_settings_def log_save_def
      fail_row_def failable_statuses_def pr_rejected_to_approved_def Let_def)

lemma ok_move: "s \<notin> {DRAFT, SUBMIT, REJECTED} \<Longrightarrow> row_ok (move_row now s r)"
  "s \<notin> {DRAFT, SUBMIT, REJECTED} \<Longrightarrow> row_ok ((move_row now s r)\<lparr>q_moved := t\<rparr>)"
  by (auto simp: row_ok_def move_row_def)

lemma ok_alter_rows:
  assumes "list_all row_ok q"
    and "\<And>r. r \<in> set q \<Longrightarrow> q_code r \<in> q_code ` set ms \<Longrightarrow> row_ok r \<Longrightarrow> row_ok (f r)"
  shows "list_all row_ok (alter ms f q)"
  using assms by (auto simp: list_all_iff alter_def)

lemma ok_submitted:
  assumes "unique_rows q" "list_all row_ok q" "get_locked q code = Some row" "q_status row = SUBMIT"
    and "\<And>r. q_hash (f r) = q_hash r"
  shows "list_all row_ok (alter (change_set q row [SUBMIT]) f q)"
    "list_all row_ok (alter (filter P (change_set q row [SUBMIT])) f q)"
proof -
  have keep: "row_ok (f r)"
    if "r \<in> set q" "q_code r \<in> q_code ` set (change_set q row [SUBMIT])" "row_ok r" for r
  proof -
    have "q_status r = SUBMIT" using change_set_row [OF assms(1,3,4)] that by blast
    then have "q_hash r = None" using that(3) by (simp add: row_ok_def)
    then show ?thesis by (simp add: row_ok_def assms(5))
  qed
  then show "list_all row_ok (alter (change_set q row [SUBMIT]) f q)" by (rule ok_alter_rows [OF assms(2)])
  show "list_all row_ok (alter (filter P (change_set q row [SUBMIT])) f q)"
    by (rule ok_alter_rows [OF assms(2)]) (use keep in auto)
qed

lemma ok_withdraw_reject:
  assumes "unique_rows q" "list_all row_ok q"
  shows "list_all row_ok (snd (withdraw w q uc code comment))"
    "list_all row_ok (snd (reject_request w q user uc code comment))"
  using assms
  by (auto simp: withdraw_def reject_request_def reject_row_def note_event_def add_event_def Let_def
      intro!: ok_submitted [where code = code] split: option.split sum.split)

lemma ok_verbs:
  assumes "list_all row_ok q"
  shows "list_all row_ok (snd (submit w q user uc code comment))"
    "list_all row_ok (snd (approve sha w q user uc code comment))"
    "list_all row_ok (snd (revoke w q user uc code comment))"
    "list_all row_ok (snd (request_changes w q user uc code comment))"
    "list_all row_ok (snd (discard w q user uc code))"
    "list_all row_ok (snd (deploy_gate sha w q user uc code))"
    "list_all row_ok (snd (validate_deployable_queue_items sha now q ids tenant auth))"
  using assms
  by (simp_all add: submit_def approve_def revoke_def request_changes_def discard_def deploy_gate_def
      validate_deployable_queue_items_def Let_def ok_intros split: option.split sum.split prod.split)

lemma ok_new_row [ok_intros]:
  "(st \<in> {DRAFT, SUBMIT, REJECTED} \<Longrightarrow> birth = None) \<Longrightarrow>
   row_ok (new_row now uuid user tenant code tab kind ticket snapshot name st birth q)"
  by (auto simp: row_ok_def)

lemma ok_store [ok_intros]: "list_all row_ok q \<Longrightarrow> list_all row_ok (snd (store_item sha w q rq v name))"
  unfolding store_item_def by (auto intro!: ok_intros split: option.split simp: initial_status_def)

lemma ok_add [ok_intros]: "list_all row_ok q \<Longrightarrow> list_all row_ok (snd (add_item_to_queue sha w q rq))"
  unfolding add_item_to_queue_def Let_def by (auto intro!: ok_intros split: sum.split)

lemma ok_logged:
  "list_all row_ok (snd x) \<Longrightarrow>
   list_all row_ok (snd (case x of (Inl e, q') \<Rightarrow> (Inl e, q')
      | (Inr c, q') \<Rightarrow> (Inr (Some c), map (\<lambda>r. if q_code r = c then log_save w user before r else r) q')))"
  by (auto intro!: ok_intros split: prod.split sum.split)

lemma ok_gateway:
  assumes "list_all row_ok q"
  shows "list_all row_ok (snd (upsert_pending_for_scope now uuid q code tenant user scope snapshot name))"
    "list_all row_ok (clear_pending_for_scope q user scope)"
    "list_all row_ok (snd (save_gateway_draft w q user tenant code groups))"
proof -
  show up: "list_all row_ok (snd (upsert_pending_for_scope now uuid q code tenant user scope snapshot name))"
    for now uuid tenant scope snapshot name code
    using assms unfolding upsert_pending_for_scope_def by (auto intro!: ok_intros split: option.split)
  show clear: "list_all row_ok (clear_pending_for_scope q user scope)" for scope
    using assms unfolding clear_pending_for_scope_def by (intro ok_intros)
  show "list_all row_ok (snd (save_gateway_draft w q user tenant code groups))"
    unfolding save_gateway_draft_def Let_def by (simp add: assms clear ok_logged [OF up] split: option.split)
qed

lemma ok_save: "list_all row_ok q \<Longrightarrow> list_all row_ok (snd (save_draft sha w q rq groups))"
  unfolding save_draft_def save_settings_def Let_def
  by (simp add: ok_logged ok_add ok_gateway ok_intros split: option.split)

lemma ok_bulk [ok_intros]: "list_all row_ok q \<Longrightarrow> list_all row_ok (snd (bulk_approve_by_ids now ids user tenant q))"
  unfolding bulk_approve_by_ids_def Let_def by (simp add: ok_intros)

lemma ok_deploy: "list_all row_ok q \<Longrightarrow> list_all row_ok (snd (deploy_temporal w q user tenant environment ids))"
proof -
  assume q: "list_all row_ok q"
  have "list_all row_ok (foldl (\<lambda>q i. update_status i STARTING_DEPLOYMENT q) q is)" for "is"
    using q
  proof (induction "is" arbitrary: q)
    case (Cons i "is")
    show ?case using Cons.IH [of "update_status i STARTING_DEPLOYMENT q"] Cons.prems
      by (simp add: update_status_def ok_intros)
  qed simp
  then show ?thesis using q by (simp add: deploy_temporal_def Let_def)
qed

lemma ok_ensure:
  assumes "list_all row_ok q"
  shows "list_all row_ok (snd (ensure_settings_deploy_item sha w q code tenant user))"
proof -
  have added: "list_all row_ok q'" if "add_item_to_queue sha w q rq = (res, q')" for rq res q'
    using ok_add [OF assms, of sha w rq] that by simp
  show ?thesis
    unfolding ensure_settings_deploy_item_def
    by (auto split: option.split prod.split sum.split dest: added intro!: ok_bulk assms)
qed

lemma ok_pipeline:
  assumes "list_all row_ok q"
  shows "queue_status_of (py_lower s) \<notin> {Some DRAFT, Some SUBMIT, Some REJECTED} \<Longrightarrow>
      list_all row_ok (case update_queue_status now ids s q of None \<Rightarrow> q | Some q' \<Rightarrow> q')"
    "st \<notin> {DRAFT, SUBMIT, REJECTED} \<Longrightarrow> list_all row_ok (snd (bulk_update_status_by_codes now codes st q))"
  using assms ok_rows(14) [of now] ok_rows(15) [of now]
  by (auto simp: update_queue_status_def bulk_update_status_by_codes_def list_all_iff ok_move keeps_ok_def
      split: option.split)

lemma ok_quiet:
  "list_all row_ok q \<Longrightarrow> list_all row_ok (snd (remove_from_queue q i uc))"
  "list_all row_ok q \<Longrightarrow> list_all row_ok (snd (delete_queue_item q code uc))"
  "list_all row_ok q \<Longrightarrow> list_all row_ok (map (\<lambda>r. if q_id r = i then r\<lparr>q_snapshot := v\<rparr> else r) q)"
  by (simp_all add: remove_from_queue_def delete_queue_item_def soft_delete_item_def ok_intros split: option.split)

lemma ok_call:
  "unique_rows q \<Longrightarrow> list_all row_ok q \<Longrightarrow> pipeline_call c \<Longrightarrow> list_all row_ok (call_step sha w c q)"
  by (cases c)
    (simp_all add: ok_verbs ok_withdraw_reject ok_save ok_add ok_bulk ok_deploy ok_ensure ok_pipeline ok_quiet bulk_approve_def
      prod.case_eq_if)

text \<open>
  C14: A row that is open has no seal.  From any well-formed queue, whatever calls arrive, as long as the pipeline
  reports statuses of a deployment only, every draft, every submitted and every rejected row is without a seal, so that
  no seal of an earlier approval comes back when a row is approved in another way.
\<close>

theorem open_rows_unsealed:
  assumes "unique_rows q" "list_all row_ok q" "list_all (\<lambda>(w, c). pipeline_call c) cs"
  shows "list_all row_ok (run_calls sha cs q) \<and> unique_rows (run_calls sha cs q)"
  using assms
proof (induction cs arbitrary: q)
  case (Cons wc cs)
  obtain w c where wc: "wc = (w, c)" by fastforce
  show ?case
    using Cons.IH [OF unique_rows_call [OF Cons.prems(1)] ok_call [OF Cons.prems(1,2)]] Cons.prems(3)
    by (simp add: wc)
qed simp

lemma demo_pipeline: "list_all (\<lambda>(w, c). pipeline_call c) (demo_calls @ [(desk 4 [] demo_ok, Queue_status [1] ''FAILED'')])"
  by code_simp

theorem open_rows_unsealed_witness:
  "list_all row_ok (run_calls id (demo_calls @ [(desk 4 [] demo_ok, Queue_status [1] ''FAILED'')]) [])"
  using open_rows_unsealed [of "[]", OF _ _ demo_pipeline] by (simp add: unique_rows_def)

section \<open>Taking an approval back\<close>

lemma get_by_id_unique: "unique_rows q \<Longrightarrow> r \<in> set q \<Longrightarrow> get_by_id q (q_id r) = Some r"
proof (induction q)
  case (Cons s q)
  then show ?case by (cases "q_id s = q_id r") (auto simp: get_by_id_def unique_rows_def)
qed simp

lemma unique_ids: "unique_rows q \<Longrightarrow> r \<in> set q \<Longrightarrow> s \<in> set q \<Longrightarrow> q_id r = q_id s \<Longrightarrow> r = s"
  by (auto simp: unique_rows_def distinct_map dest: inj_onD)

text \<open>What the guard refuses: a row whose only state under its id is not approved.\<close>

lemma guard_status:
  assumes "fst (validate_deployable_queue_items sha now q ids tenant auth) = Inr rows" "i \<in> set ids"
  shows "\<exists>r \<in> set q. q_id r = i \<and> q_status r = APPROVED \<and> is_live r \<and> verify_seal sha r"
proof -
  obtain q' where ok: "validate_deployable_queue_items sha now q ids tenant auth = (Inr rows, q')"
    using assms(1) by (cases "validate_deployable_queue_items sha now q ids tenant auth") auto
  then obtain r where r: "get_by_id (requested_rows q ids tenant) i = Some r" using assms(2) by (auto simp: guard_iff)
  then have "r \<in> set rows" using ok assms(2) by (auto simp: guard_iff in_map_filter)
  then show ?thesis using guard_Inr(1) [OF ok] get_by_id_Some [OF r] by blast
qed

text \<open>
  C7: A change whose approval was taken back cannot be deployed.  After a reviewer has taken an approval back, the
  guard refuses every list of ids that holds a row of the change, whoever asks, at whatever time and for whatever
  service, until the change is approved again.
\<close>

theorem revoked_cannot_deploy:
  assumes "unique_rows q" "get_locked q code = Some row" "revoke w q user uc code comment = (Inr c, q')"
    and "r \<in> set (change_set q row [APPROVED])" "q_id r \<in> set ids"
  shows "fst (validate_deployable_queue_items sha now q' ids tenant auth) \<noteq> Inr rows"
proof
  assume "fst (validate_deployable_queue_items sha now q' ids tenant auth) = Inr rows"
  then obtain r' where r': "r' \<in> set q'" "q_id r' = q_id r" "q_status r' = APPROVED"
    using guard_status assms(5) by blast
  have q': "q' = alter (change_set q row [APPROVED]) (revoke_row w uc comment) q"
    using assms(2,3) by (simp add: revoke_Inr)
  have "r \<in> set q"
    using assms(4) get_locked_Some [OF assms(2)] by (auto simp: set_change_set split: if_splits)
  moreover obtain s where s: "s \<in> set q"
      "r' = (if q_code s \<in> q_code ` set (change_set q row [APPROVED]) then revoke_row w uc comment s else s)"
    using r'(1) by (auto simp: q' alter_def)
  moreover have "q_id s = q_id r"
    using s(2) r'(2) by (auto simp: revoke_row_def note_event_def add_event_def split: if_splits)
  ultimately have "s = r" using unique_ids [OF assms(1)] by blast
  then have "r' = revoke_row w uc comment r" using s(2) assms(4) by simp
  then show False using r'(3) by (simp add: revoke_row_def note_event_def add_event_def)
qed

definition revoked_demo :: queue where
  "revoked_demo = snd (revoke (desk 5 [] demo_ok) demo_queue ''user:bob'' ''bob'' ''queue-a1'' [])"

lemma revoked_demo_facts:
  "unique_rows demo_queue" "get_locked demo_queue ''queue-a1'' = Some (hd demo_queue)"
  "revoke (desk 5 [] demo_ok) demo_queue ''user:bob'' ''bob'' ''queue-a1'' [] = (Inr ''queue-a1'', revoked_demo)"
  "hd demo_queue \<in> set (change_set demo_queue (hd demo_queue) [APPROVED])" "q_id (hd demo_queue) \<in> set [1]"
  unfolding unique_rows_def by code_simp+

theorem revoked_cannot_deploy_witness:
  "fst (validate_deployable_queue_items id 9 revoked_demo [1] ''acme'' (Some ''sc-1'')) \<noteq> Inr [hd demo_queue]"
  using revoked_cannot_deploy [OF revoked_demo_facts] .

section \<open>Calls around the review\<close>

fun started_items :: "deploy_start \<Rightarrow> int list" where
  "started_items (Start_production ids dirs) = ids"
| "started_items (Start_deployment ids dirs) = ids"

lemma deploy_one:
  assumes "get_by_id q i = Some r" "q_tenant r = tenant" "q_status r = APPROVED" "w_has_repository w"
  shows "\<exists>start. fst (deploy_temporal w q user tenant env (Some [i])) = Inr start \<and> started_items start = [i]"
  using assms get_by_id_Some [OF assms(1)]
  by (simp add: deploy_temporal_def deployable_by_id_def List.map_filter_simps Let_def)

text \<open>A row the guard does not find, and a row whose seal is broken.\<close>

lemma guard_gone:
  "unique_rows q \<Longrightarrow> r \<in> set q \<Longrightarrow> \<not> is_live r \<Longrightarrow>
   validate_deployable_queue_items sha now q [q_id r] tenant auth = (Inl (Missing_items [q_id r]), q)"
proof -
  assume q: "unique_rows q" "r \<in> set q" "\<not> is_live r"
  have "filter (\<lambda>s. q_id s = q_id r \<and> q_tenant s = tenant \<and> is_live s) q = []"
    using q unique_ids [OF q(1)] by (auto simp: filter_empty_conv)
  then show ?thesis
    by (simp add: validate_deployable_queue_items_def first_seen_def get_by_id_def Let_def)
qed

lemma guard_one:
  assumes "unique_rows q" "r \<in> set q" "is_live r" "q_tenant r = tenant"
  shows "get_by_id (requested_rows q [q_id r] tenant) (q_id r) = Some r"
    "filter (\<lambda>s. q_id s = q_id r \<and> q_tenant s = tenant \<and> is_live s) q = [r]"
proof -
  have "filter (\<lambda>s. q_id s = q_id r \<and> q_tenant s = tenant \<and> is_live s) q = filter (\<lambda>s. s = r) q"
    using assms unique_ids [OF assms(1)] by (intro filter_cong) auto
  moreover have "filter (\<lambda>s. s = r) q = [r]"
    using assms(1,2)
  proof (induction q)
    case (Cons s q)
    then show ?case by (cases "s = r") (auto simp: unique_rows_def filter_empty_conv)
  qed simp
  ultimately show "filter (\<lambda>s. q_id s = q_id r \<and> q_tenant s = tenant \<and> is_live s) q = [r]" by simp
  then show "get_by_id (requested_rows q [q_id r] tenant) (q_id r) = Some r"
    by (simp add: requested_rows_def get_by_id_def)
qed

lemma guard_unsealed:
  assumes "unique_rows q" "r \<in> set q" "is_live r" "q_tenant r = tenant" "q_status r = APPROVED" "\<not> verify_seal sha r"
  shows "fst (validate_deployable_queue_items sha now q [q_id r] tenant None) = Inl (Seal_broken (q_code r))"
  using assms(5,6) guard_one [OF assms(1-4)]
  by (simp add: validate_deployable_queue_items_def first_seen_def requested_rows_def List.map_filter_simps Let_def)

text \<open>
  C33: Removing an approved change does not keep it from being deployed.  After its author has removed an approved
  change, with success, the guard does not find it any more, but a deployment that names its id starts for it, for any
  caller of the tenant: the query by id does not ask whether the row is deleted.
\<close>

theorem removed_change_still_ships:
  assumes "unique_rows q" "get_by_id q i = Some r" "q_status r = APPROVED" "w_has_repository w"
    and "remove_from_queue q i user = (Inr True, q')"
  shows "fst (validate_deployable_queue_items sha now q' [i] (q_tenant r) auth) = Inl (Missing_items [i]) \<and>
    (\<exists>start. fst (deploy_temporal w q' other (q_tenant r) env (Some [i])) = Inr start \<and> started_items start = [i])"
proof -
  have r: "r \<in> set q" "q_id r = i" using get_by_id_Some [OF assms(2)] by auto
  have q': "q' = alter [r] soft_delete q"
    using assms(2,3,5) by (simp add: remove_from_queue_def soft_delete_item_def split: if_splits)
  have u': "unique_rows q'"
    unfolding q' alter_def by (subst unique_rows_map) (simp_all add: soft_delete_def assms(1))
  have gone: "soft_delete r \<in> set q'" using r(1) by (force simp: q' alter_def)
  have same: "q_id (soft_delete r) = i" "\<not> is_live (soft_delete r)" "q_status (soft_delete r) = APPROVED"
    "q_tenant (soft_delete r) = q_tenant r"
    using r(2) assms(3) by (simp_all add: soft_delete_def is_live_def)
  have found: "get_by_id q' i = Some (soft_delete r)" using get_by_id_unique [OF u' gone] same by simp
  show ?thesis
    using guard_gone [OF u' gone same(2)] deploy_one [OF found same(4,3) assms(4)] same(1) by simp
qed

lemma demo_facts:
  "unique_rows demo_queue" "get_by_id demo_queue 1 = Some (hd demo_queue)" "q_status (hd demo_queue) = APPROVED"
  "w_has_repository (desk 5 [] demo_ok)" "q_tenant (hd demo_queue) = ''acme''"
  "fst (remove_from_queue demo_queue 1 ''ann'') = Inr True"
  unfolding unique_rows_def by code_simp+

theorem removed_change_still_ships_witness:
  "\<exists>start. fst (deploy_temporal (desk 5 [] demo_ok) (snd (remove_from_queue demo_queue 1 ''ann'')) ''eve'' ''acme'' None
     (Some [1])) = Inr start \<and> started_items start = [1]"
  using removed_change_still_ships [OF demo_facts(1-4), of "''ann''" "snd (remove_from_queue demo_queue 1 ''ann'')"
      id 9 None "''eve''" None] demo_facts(5,6) by (simp add: prod_eq_iff)

text \<open>
  C31: An author can deploy a change nobody reviewed.  For any of the caller's own rows, a draft, a submitted or a
  rejected request alike, approving it in bulk succeeds without asking for a permission or for the approval rule, and a
  deployment that names its id then starts, although the guard refuses the row for want of a seal.
\<close>

theorem own_change_ships_unreviewed:
  assumes "unique_rows q" "list_all row_ok q" "get_by_id q i = Some r" "q_user r = user" "q_tenant r = tenant" "not_deleted r"
    and "q_status r \<in> {DRAFT, SUBMIT, REJECTED}" "w_has_repository w" "bulk_approve w q [i] user tenant = (res, q')"
  shows "fst (validate_deployable_queue_items sha now q' [i] tenant None) = Inl (Seal_broken (q_code r)) \<and>
    (\<exists>start. fst (deploy_temporal w q' user tenant env (Some [i])) = Inr start \<and> started_items start = [i])"
proof -
  let ?f = "\<lambda>r. if q_id r = i \<and> q_user r = user \<and> q_tenant r = tenant \<and> not_deleted r
    then r\<lparr>q_status := APPROVED, q_moved := Some (w_now w)\<rparr> else r"
  have r: "r \<in> set q" "q_id r = i" using get_by_id_Some [OF assms(3)] by auto
  have q': "q' = map ?f q"
    using assms(9) by (simp add: bulk_approve_def bulk_approve_by_ids_def Let_def cong: if_cong)
  have u': "unique_rows q'" unfolding q' by (subst unique_rows_map) (simp_all add: assms(1))
  have fr: "?f r = r\<lparr>q_status := APPROVED, q_moved := Some (w_now w)\<rparr>" using r assms(4-6) by simp
  have mem: "r\<lparr>q_status := APPROVED, q_moved := Some (w_now w)\<rparr> \<in> set q'"
    unfolding q' set_map by (rule image_eqI [where f = ?f and x = r, OF fr [symmetric] r(1)])
  have "q_hash r = None" using assms(2,7) r(1) by (auto simp: list_all_iff row_ok_def)
  then have unsealed: "\<not> verify_seal sha (r\<lparr>q_status := APPROVED, q_moved := Some (w_now w)\<rparr>)"
    by (simp add: verify_seal_def)
  have live: "is_live (r\<lparr>q_status := APPROVED, q_moved := Some (w_now w)\<rparr>)"
    using assms(6) by (simp add: is_live_def not_deleted_def)
  show ?thesis
    using guard_unsealed [OF u' mem live _ _ unsealed, of tenant now] get_by_id_unique [OF u' mem] r(2) assms(5)
      deploy_one [of q' i _ tenant w user env] assms(8) by simp
qed

definition draft_demo :: queue where
  "draft_demo = run_calls id (take 1 demo_calls) []"

lemma draft_demo_facts:
  "unique_rows draft_demo" "list_all row_ok draft_demo" "get_by_id draft_demo 1 = Some (hd draft_demo)"
  "q_user (hd draft_demo) = ''ann''" "q_tenant (hd draft_demo) = ''acme''" "not_deleted (hd draft_demo)"
  "q_status (hd draft_demo) \<in> {DRAFT, SUBMIT, REJECTED}" "w_has_repository (desk 5 [] demo_ok)"
  unfolding unique_rows_def by code_simp+

theorem own_change_ships_unreviewed_witness:
  "\<exists>start. fst (deploy_temporal (desk 5 [] demo_ok) (snd (bulk_approve (desk 5 [] demo_ok) draft_demo [1] ''ann'' ''acme''))
     ''ann'' ''acme'' None (Some [1])) = Inr start \<and> started_items start = [1]"
  using own_change_ships_unreviewed [OF draft_demo_facts, of "fst (bulk_approve (desk 5 [] demo_ok) draft_demo [1] ''ann'' ''acme'')"
      "snd (bulk_approve (desk 5 [] demo_ok) draft_demo [1] ''ann'' ''acme'')" id 9 None] by simp

text \<open>
  C32: The author of an approved change can replace its content and keep the approval.  Storing new content under the
  row's code as a change of a kind that is sealed at birth succeeds, and the guard then lets the new content through:
  the seal is taken over whatever the author sent, not over what was reviewed.
\<close>

theorem renamed_kind_passes_guard:
  assumes "unique_rows q" "named_row q rq = Some r" "q_status r = APPROVED" "seal_at_birth (rq_case rq)"
    and "complete_snapshot w (rq_tenant rq) (rq_transaction rq) (rq_table rq) (rq_case rq) (rq_snapshot rq) = Inr d"
    and "\<And>s. sha s \<noteq> []"
  shows "\<exists>q' r'. add_item_to_queue sha w q rq = (Inr (q_code r), q') \<and>
    validate_deployable_queue_items sha now q' [q_id r] (q_tenant r) None = (Inr [r'], q') \<and> q_snapshot r' = VDict d"
proof -
  let ?f = "rewrite_item sha rq (VDict d) (generate_display_name d (rq_table rq) (rq_case rq))"
  let ?q = "alter [r] ?f q"
  have r: "r \<in> set q" "is_live r"
    using assms(2) by (auto simp: named_row_def get_by_def dest!: find_SomeD split: if_splits option.splits)
  have kind: "rq_case rq \<noteq> Some ''add_route''" "rq_case rq \<noteq> Some ''update_service''"
    using assms(4) by (auto simp: seal_at_birth_def)
  have added: "add_item_to_queue sha w q rq = (Inr (q_code r), ?q)"
    using kind assms(2,5) by (simp add: add_item_to_queue_def anchor_def store_item_def)
  have u': "unique_rows ?q"
    unfolding alter_def by (subst unique_rows_map) (simp_all add: rewrite_item_def assms(1))
  have mem: "?f r \<in> set ?q" using r(1) by (force simp: alter_def)
  have new: "q_id (?f r) = q_id r" "is_live (?f r)" "q_tenant (?f r) = q_tenant r" "q_status (?f r) = APPROVED"
    "verify_seal sha (?f r)" "q_snapshot (?f r) = VDict d"
    using assms(3,4,6) r(2) by (simp_all add: rewrite_item_def is_live_def verify_seal_def seal_def)
  have "validate_deployable_queue_items sha now ?q [q_id (?f r)] (q_tenant r) None = (Inr [?f r], ?q)"
    using guard_one [OF u' mem new(2,3)] new(4,5)
    by (simp add: validate_deployable_queue_items_def first_seen_def requested_rows_def List.map_filter_simps Let_def)
  then show ?thesis using added new(1,6) by metis
qed

definition tagged :: "string \<Rightarrow> string" where
  "tagged s = CHR ''x'' # s"

definition bucket_request :: queue_request where
  "bucket_request = demo_request
     \<lparr>rq_case := Some ''create_bucket'', rq_queue_code := Some ''queue-a1'',
      rq_snapshot := [(''product_name'', VStr ''Pay''), (''cpu'', VInt 64), (''tenant_code'', VStr ''acme'')]\<rparr>"

lemma bucket_facts:
  "named_row demo_queue bucket_request = Some (hd demo_queue)" "seal_at_birth (rq_case bucket_request)"
  "complete_snapshot (desk 5 [] demo_ok) (rq_tenant bucket_request) (rq_transaction bucket_request)
     (rq_table bucket_request) (rq_case bucket_request) (rq_snapshot bucket_request) =
   Inr [(''product_name'', VStr ''Pay''), (''cpu'', VInt 64), (''tenant_code'', VStr ''acme'')]"
  "q_id (hd demo_queue) = 1"
  by code_simp+

theorem renamed_kind_passes_guard_witness:
  "\<exists>q' r'. validate_deployable_queue_items tagged 9 q' [1] ''acme'' None = (Inr [r'], q') \<and>
     q_snapshot r' = VDict [(''product_name'', VStr ''Pay''), (''cpu'', VInt 64), (''tenant_code'', VStr ''acme'')]"
  using renamed_kind_passes_guard [OF demo_facts(1) bucket_facts(1) demo_facts(3) bucket_facts(2,3), of tagged 9]
    demo_facts(5) bucket_facts(4) by (auto simp: tagged_def)

section \<open>Calls that contradict each other\<close>

lemma newest_in: "newest rs = Some r \<Longrightarrow> r \<in> set rs"
  using set_sort [of "\<lambda>r. - q_created r" rs]
  by (auto simp: newest_def split: list.splits) (metis list.set_intros(1) set_sort)

lemma get_by_unique: "unique_rows q \<Longrightarrow> r \<in> set q \<Longrightarrow> get_by q (q_code r) = Some r"
proof (induction q)
  case (Cons s q)
  then show ?case by (cases "q_code s = q_code r") (auto simp: get_by_def unique_rows_def)
qed simp

lemma first_sorted_None: "(case sort_key f ys of [] \<Rightarrow> None | r # _ \<Rightarrow> Some r) = None \<longleftrightarrow> ys = []"
proof -
  have "sort_key f ys = [] \<longleftrightarrow> ys = []" by (metis length_0_conv length_sort)
  then show ?thesis by (cases "sort_key f ys") simp_all
qed

lemma settings_row_unsealed:
  assumes "list_all row_ok q" "sealed_settings_row q (rq_transaction rq) (rq_tenant rq) = None" "settings_row q rq = Some r"
  shows "r \<in> set q" "q_hash r = None"
proof -
  have r: "r \<in> set q" "q_transaction r = rq_transaction rq" "q_tenant r = rq_tenant rq" "q_table r = SERVICE_CONFIG"
    "q_case r = Some ''update_service''" "q_status r = DRAFT \<or> q_status r = APPROVED" "not_deleted r"
    using assms(3) by (auto simp: settings_row_def search_draft_by_transaction_def or_blank_def dest!: newest_in split: if_splits)
  show "r \<in> set q" by (fact r(1))
  have none: "filter (\<lambda>r. q_transaction r = rq_transaction rq \<and> q_tenant r = rq_tenant rq \<and>
      q_table r = SERVICE_CONFIG \<and> q_case r = Some ''update_service'' \<and> q_status r = APPROVED \<and>
      q_hash r \<noteq> None \<and> is_live r) q = []"
    using assms(2) unfolding sealed_settings_row_def first_sorted_None .
  show "q_hash r = None"
    using r assms(1) none by (auto simp: list_all_iff row_ok_def filter_empty_conv is_live_def not_deleted_def)
qed

lemma added_settings_unsealed:
  assumes "unique_rows q" "list_all row_ok q" "sealed_settings_row q (rq_transaction rq) (rq_tenant rq) = None"
    and "rq_table rq = SERVICE_CONFIG" "rq_case rq = Some ''update_service''" "rq_queue_code rq = None"
    and "add_item_to_queue sha w q rq = (Inr c, q1)" "get_by q1 c = Some r"
  shows "q_hash r = None"
proof -
  have anchored: "anchor w rq = rq" using assms(5) by (simp add: anchor_def)
  obtain d name where stored: "store_item sha w q rq (VDict d) name = (Inr c, q1)"
    using assms(7) anchored by (auto simp: add_item_to_queue_def Let_def split: sum.splits)
  have unnamed: "named_row q rq = None" by (simp add: named_row_def or_blank_def assms(6))
  show ?thesis
  proof (cases "settings_row q rq")
    case None
    then obtain r' where new: "q1 = q @ [r']" "q_hash r' = None" "get_by q c = None"
      using stored unnamed assms(5)
      by (auto simp: store_item_def insert_row_def initial_status_def seal_at_birth_def split: if_splits)
    have "r \<in> set q1" "q_code r = c" using assms(8) by (auto simp: get_by_def dest: find_SomeD)
    then show ?thesis using new by (auto simp: get_by_None)
  next
    case (Some r0)
    note r0 = settings_row_unsealed [OF assms(2,3) Some]
    have q1: "q1 = alter [r0] (rewrite_settings rq (VDict d) name) q" "c = q_code r0"
      using stored unnamed Some by (auto simp: store_item_def)
    have "unique_rows q1"
      unfolding q1 alter_def by (subst unique_rows_map) (simp_all add: rewrite_settings_def assms(1))
    moreover have "rewrite_settings rq (VDict d) name r0 \<in> set q1" using r0(1) by (force simp: q1 alter_def)
    ultimately have "get_by q1 (q_code r0) = Some (rewrite_settings rq (VDict d) name r0)"
      using get_by_unique [of q1 "rewrite_settings rq (VDict d) name r0"] by (simp add: rewrite_settings_def)
    then show ?thesis using assms(8) q1(2) r0(2) by (auto simp: rewrite_settings_def)
  qed
qed

text \<open>
  C35: The item prepared for a settings deploy does not pass the guard.  When no approved and sealed settings change of
  the service exists, the call that makes the live settings deployable answers with the id of an item it has created or
  approved, and every create-pr call that names this id is refused, since approving it in bulk leaves it without a seal.
\<close>

theorem prepared_item_is_refused:
  assumes "unique_rows q" "list_all row_ok q" "sealed_settings_row q code tenant = None"
    and "ensure_settings_deploy_item sha w q code tenant user = (Inr (Some i, none_needed), q')" "i \<in> set ids"
  shows "fst (validate_deployable_queue_items sha now q' ids tenant auth) \<noteq> Inr rows"
proof
  assume "fst (validate_deployable_queue_items sha now q' ids tenant auth) = Inr rows"
  then obtain r' where r': "r' \<in> set q'" "q_id r' = i" "verify_seal sha r'" using guard_status assms(5) by blast
  obtain sc where sc: "w_config w code tenant = Some sc" "w_pending_diff w code tenant"
    using assms(3,4) by (auto simp: ensure_settings_deploy_item_def split: option.splits if_splits)
  define rq where "rq = \<lparr>rq_user = user, rq_tenant = tenant, rq_transaction = code, rq_table = SERVICE_CONFIG,
    rq_snapshot = w_live_snapshot w sc, rq_case = Some ''update_service'', rq_ticket = None,
    rq_queue_code = None, rq_validate_flags = False\<rparr>"
  obtain c q1 r where add: "add_item_to_queue sha w q rq = (Inr c, q1)" "get_by q1 c = Some r" "i = q_id r"
    and q': "q' = q1 \<or> q' = snd (bulk_approve_by_ids (w_now w) [q_id r] user tenant q1)"
    using assms(3,4) sc
    by (auto simp: ensure_settings_deploy_item_def rq_def split: option.splits prod.splits sum.splits if_splits)
  have unsealed: "q_hash r = None"
    using added_settings_unsealed [OF assms(1,2), of rq sha w c q1 r] assms(3) add by (simp add: rq_def)
  have u1: "unique_rows q1"
    using unique_rows_call [OF assms(1), of sha w "Add rq"] add(1) by simp
  have r: "r \<in> set q1" using add(2) by (auto simp: get_by_def dest: find_SomeD)
  obtain r1 where r1: "r1 \<in> set q1" "q_id r1 = q_id r'" "q_hash r1 = q_hash r'"
    using r'(1) q' by (auto simp: bulk_approve_by_ids_def Let_def split: if_splits)
  have "r1 = r" by (rule unique_ids [OF u1 r1(1) r]) (simp add: r1(2) r'(2) add(3))
  then show False using r'(3) r1(3) unsealed by (simp add: verify_seal_def)
qed

definition live_desk :: world where
  "live_desk = (desk 6 ''b2'' demo_ok)
     \<lparr>w_config := (\<lambda>_ _. Some \<lparr>sc_id = 7, sc_code = ''sc-1'', sc_service = ''svc-1'', sc_language = None, sc_config = VDict [],
        sc_environment = ''stage'', sc_region = ''eu'', sc_scope = [''sc-1'']\<rparr>),
      w_live_snapshot := (\<lambda>_. [(''product_name'', VStr ''Pay''), (''cpu'', VInt 8)])\<rparr>"

definition prepared :: "(int option \<times> bool) reply" where
  "prepared = ensure_settings_deploy_item id live_desk draft_demo ''sc-1'' ''acme'' ''ann''"

lemma prepared_facts:
  "sealed_settings_row draft_demo ''sc-1'' ''acme'' = None" "fst prepared = Inr (Some 1, False)"
  by code_simp+

theorem prepared_item_is_refused_witness:
  "fst (validate_deployable_queue_items id 9 (snd prepared) [1] ''acme'' (Some ''sc-1'')) \<noteq> Inr []"
  using prepared_item_is_refused [OF draft_demo_facts(1,2) prepared_facts(1), of id live_desk "''ann''" 1 False "snd prepared" "[1]"]
    prepared_facts(2) by (simp add: prepared_def prod_eq_iff)

text \<open>
  A draft without a kind cannot be discarded.  The query that takes a change for a discard compares the kind with
  \<open>!=\<close>, which no NULL satisfies: its author is told that the draft has moved on, at every attempt, and nothing changes.
\<close>

theorem kindless_draft_stays:
  assumes "unique_rows q" "get_locked q code = Some row" "q_status row = DRAFT" "q_user row = uc" "q_case row = None"
  shows "discard w q user uc code = (Inl Moved_on, q)"
proof -
  have row: "row \<in> set q" using get_locked_Some [OF assms(2)] by simp
  have "q_code r \<noteq> q_code row" if "r \<in> set (own_rows q row)" for r
  proof
    assume same: "q_code r = q_code row"
    have r: "r \<in> set q" "q_case r \<noteq> None" using that by (auto simp: own_rows_def lane_rows_def)
    show False using same_code [OF assms(1) r(1) row same] r(2) assms(5) by simp
  qed
  then show ?thesis using assms by (simp add: discard_def list_all_iff)
qed

definition kindless :: queue where
  "kindless = snd (add_item_to_queue id (desk 1 ''k1'' demo_ok) [] (demo_request\<lparr>rq_case := None\<rparr>))"

lemma kindless_facts:
  "unique_rows kindless" "get_locked kindless ''queue-k1'' = Some (hd kindless)" "q_status (hd kindless) = DRAFT"
  "q_user (hd kindless) = ''ann''" "q_case (hd kindless) = None"
  unfolding unique_rows_def by code_simp+

theorem kindless_draft_stays_witness:
  "discard (desk 2 [] demo_ok) kindless ''user:ann'' ''ann'' ''queue-k1'' = (Inl Moved_on, kindless)"
  using kindless_draft_stays [OF kindless_facts] .

lemma change_set_code: "q_code row \<in> q_code ` set (change_set q row sts)"
proof (cases "\<exists>r \<in> set q. in_lane row sts r \<and> q_code r = q_code row")
  case True
  then obtain r where "r \<in> set (change_set q row sts)" "q_code r = q_code row" by (auto simp: set_change_set)
  then show ?thesis by (metis imageI)
next
  case False
  then have "row \<in> set (change_set q row sts)" unfolding set_change_set by (simp only: if_not_P) simp
  then show ?thesis by (rule imageI)
qed

text \<open>
  C34: A failed deploy puts two authors under review at once.  While one author's change is being deployed, another
  author's draft of the same service may be submitted, since only submitted and approved rows are looked for; when the
  deployment then fails, its row returns to approved beside the submitted one, which no verb of the review allows.
\<close>

theorem failed_deploy_breaks_lane:
  assumes "unique_rows q" "get_locked q code = Some row" "submit w q user uc code comment = (Inr c, q1)" "approvable row"
    and "s \<in> set q" "same_service row s" "q_user s \<noteq> q_user row" "approvable s" "is_live s"
    and "q_status s \<in> set failable_statuses" "update_queue_status now [q_id s] ''FAILED'' q1 = Some q2"
  shows "\<not> one_author q2"
proof -
  have row: "row \<in> set q" "is_live row" using get_locked_Some [OF assms(2)] by auto
  have q1: "q1 = alter (change_set q row [DRAFT]) (submit_row w uc comment) q" "q_status row = DRAFT"
    using assms(2,3) by (auto simp: submit_Inr)
  have "s \<notin> set (change_set q row [DRAFT])"
    using assms(7) by (auto simp: set_change_set in_lane_def split: if_splits)
  then have "q_code s \<notin> q_code ` set (change_set q row [DRAFT])"
    using change_set_codes [OF assms(1) row(1) assms(5)] by simp
  then have s1: "s \<in> set q1" using assms(5) by (force simp: q1 alter_def)
  have "q_code row \<in> q_code ` set (change_set q row [DRAFT])" by (rule change_set_code)
  then have row1: "submit_row w uc comment row \<in> set q1" using row(1) by (force simp: q1 alter_def)
  have apart: "q_id row \<noteq> q_id s" using unique_ids [OF assms(1) row(1) assms(5)] assms(7) by blast
  have q2: "q2 = map (\<lambda>r. if q_id r \<noteq> q_id s then r else fail_row now r) q1"
    using assms(11) by (simp add: update_queue_status_def queue_status_FAILED cong: if_cong)
  have "fail_row now s \<in> set q2" using s1 by (force simp: q2)
  moreover have "submit_row w uc comment row \<in> set q2"
    using row1 apart unfolding q2 by (force simp: submit_row_def add_event_def)
  moreover have "under_review (fail_row now s)"
    using assms(8-10) by (simp add: under_review_def fail_row_def add_event_def is_live_def approvable_def)
  moreover have "under_review (submit_row w uc comment row)"
    using row(2) assms(4) by (simp add: under_review_def submit_row_def add_event_def is_live_def approvable_def)
  moreover have "same_service (submit_row w uc comment row) (fail_row now s)" "q_user (fail_row now s) = q_user s"
    "q_user (submit_row w uc comment row) = q_user row"
    using assms(6) by (simp_all add: same_service_def submit_row_def fail_row_def add_event_def)
  ultimately show ?thesis using assms(7) unfolding one_author_def by metis
qed

definition deploying_queue :: queue where
  "deploying_queue = [settings_draft 1 ''a1'' ''ann''\<lparr>q_status := DEPLOYING\<rparr>, settings_draft 2 ''c1'' ''cat'']"

definition deploying_submitted :: queue where
  "deploying_submitted = snd (submit (open_desk 10) deploying_queue ''user:cat'' ''cat'' ''queue-c1'' [])"

definition deploying_failed :: queue where
  "deploying_failed =
     (case update_queue_status 11 [1] ''FAILED'' deploying_submitted of None \<Rightarrow> [] | Some q \<Rightarrow> q)"

lemma deploying_facts:
  "unique_rows deploying_queue" "get_locked deploying_queue ''queue-c1'' = Some (deploying_queue ! 1)"
  "submit (open_desk 10) deploying_queue ''user:cat'' ''cat'' ''queue-c1'' [] = (Inr ''queue-c1'', deploying_submitted)"
  "approvable (deploying_queue ! 1)" "deploying_queue ! 0 \<in> set deploying_queue"
  "same_service (deploying_queue ! 1) (deploying_queue ! 0)" "q_user (deploying_queue ! 0) \<noteq> q_user (deploying_queue ! 1)"
  "approvable (deploying_queue ! 0)" "is_live (deploying_queue ! 0)" "q_status (deploying_queue ! 0) \<in> set failable_statuses"
  "update_queue_status 11 [q_id (deploying_queue ! 0)] ''FAILED'' deploying_submitted = Some deploying_failed"
  unfolding unique_rows_def by code_simp+

theorem failed_deploy_breaks_lane_witness: "\<not> one_author deploying_failed"
  using failed_deploy_breaks_lane [OF deploying_facts] .

section \<open>Display names\<close>

lemma fit_name_long:
  assumes "255 < length (before @ middle @ behind)" "length before + length behind + 10 < 255"
  shows "length (fit_name before middle behind gap) = 255 + 2 * length gap"
  using assms by (simp add: fit_name_def shorten_def Let_def)

lemma fit_name_length: "length (fit_name before middle behind gap) \<le> 255 + 2 * length gap"
proof (cases "255 < length (before @ middle @ behind) \<and> length before + length behind + 10 < 255")
  case True
  then show ?thesis using fit_name_long [of before middle behind gap] by simp
next
  case False
  then show ?thesis by (auto simp: fit_name_def Let_def)
qed

lemma display_name_fits:
  assumes "tab = KONG_ROUTE \<or> case_ref \<in> {Some ''add_route'', Some ''database_creation'', Some ''user_management''}"
  shows "length (generate_display_name d tab case_ref) \<le> 255"
  using assms fit_name_length [where gap = "[]", simplified]
  by (auto simp: generate_display_name_def or_blank_def Let_def)

text \<open>
  The display name of a settings or infrastructure change can outgrow its column of 255 characters.  A name of such
  a kind that has to be cut comes out at 257 characters, since the part that is cut is put between two blanks that were
  not counted.
\<close>

theorem display_name_overflow:
  assumes "case_ref = Some kind" "kind \<notin> {[], ''add_route'', ''database_creation'', ''user_management''}" "tab \<noteq> KONG_ROUTE"
    and "name = first_text d [''identifier'', ''service_name'', ''name''] ''unnamed''"
    and "geo = py_str (get_or d ''geo_loc_mst_code'' (VStr ''unknown-region''))"
    and "255 < length kind + length name + length geo + 2" "length kind + length geo + 12 < 255"
  shows "length (generate_display_name d tab case_ref) = 257"
  using assms fit_name_long [of "spaced kind @ '':''" name "'' '' @ geo" "'' ''"]
  by (simp add: generate_display_name_def or_blank_def spaced_def Let_def)

lemma long_name_facts:
  "replicate 250 CHR ''n'' = first_text [(''identifier'', VStr (replicate 250 CHR ''n''))] [''identifier'', ''service_name'', ''name''] ''unnamed''"
  "''unknown-region'' = py_str (get_or [(''identifier'', VStr (replicate 250 CHR ''n''))] ''geo_loc_mst_code'' (VStr ''unknown-region''))"
  by code_simp+

theorem display_name_overflow_witness:
  "length (generate_display_name [(''identifier'', VStr (replicate 250 CHR ''n''))] SERVICE_CONFIG (Some ''update_service'')) = 257"
  using display_name_overflow [OF refl _ _ long_name_facts, of "''update_service''" SERVICE_CONFIG] by simp

end
