(* ===== verification/Spec2Isabelle.thy ===== *)
theory Spec2Isabelle
  imports DeployProperties OrchestratorProperties GatedPromotion CoordinatorLife
    KongOverlap InfraFactory Authz AuditPolicy SessionCache PlacementCache QueryExecutor
    ReviewGaps
begin

text \<open>
  The control logic of the deployment platform, under \<open>src/app\<close>.  A tenant asks for resources over HTTP or through
  a chat agent; validators and factories turn the request into a row; a Temporal workflow turns the row into a pull
  request, has it planned, reviewed, approved, applied and merged; a coordinator per tenant hands out the locks on
  the directories the workflows write.  The theories follow these parts.

  \<^bold>\<open>Coordinator\<close> (\<open>temporal/workflows/coordinator_workflow.py\<close>).
  \<open>Coordinator\<close> has its state (the dictionary of locks, the hold queue, the merge queue) and one function per
  signal; \<open>LockService\<close> states what a lock holder relies on as locales and is interpreted there; \<open>CoordinatorLoops\<close>
  adds the merge loop and the continue-as-new snapshot; \<open>CoordinatorInterleaving\<close> runs all handlers as coroutines that
  may be interleaved at every await of a loop, with a log of the signals they send, shows that they compute the atomic
  handlers when they are not interleaved, which guarantees survive when they are, and which do not (a waiter that
  withdrew is granted, a wake-up is lost); \<open>CoordinatorLife\<close> puts the interleaved handlers, the merge loop and the
  gated resets into one machine and shows that a reset is not seen.  The final await of \<open>acquire_locks\<close> has nothing
  after it and is no suspension there; it only holds the reset gate closed.  The merge loop's end after a year without
  an item is not modelled.

  \<^bold>\<open>Workflows\<close> (\<open>temporal/workflows\<close>).  \<open>Workflow\<close> is a small language of programs that issue commands, await
  answers or signals, and raise: a program is a function from a state, which holds the script of turns the engine
  still plays and the trace of what happened, to an outcome (a value, an exception, the end of the script, or
  \<open>Spinning\<close>: a loop that came round without awaiting).  \<open>WorkflowLogic\<close> is a Hoare logic for it over traces,
  \<open>WorkflowProgress\<close> the logic that shows a loop awaits something in each round; both are locales interpreted for each
  workflow.  \<open>LockWait\<close> is the wait for locks that all of them share.  \<open>DeployWorkflow\<close> models
  \<open>deployment_workflow.py\<close>, with its safety in \<open>DeploySafety\<close>, progress in \<open>DeployProgress\<close> and the theorems in
  \<open>DeployProperties\<close>; \<open>Orchestrator\<close> and \<open>OrchestratorProperties\<close> model \<open>deployment_orchestrator_workflow.py\<close> and
  \<open>variable_deploy_workflow.py\<close>; \<open>ProductionWorkflow\<close>, \<open>ProductionSafety\<close>, \<open>ProductionProgress\<close> and
  \<open>ProductionProperties\<close> model \<open>production_deployment_workflow.py\<close>.  A run takes at most as many steps as its script
  has turns, so every script is a bound and every run of the engine has a script; no theorem bounds the script.  The
  review of a plan fails open in the code and in the model: a review that fails or times out counts as no objection.
  Endings by an activity error that nothing catches are outcomes too, and the theorems about endings say whether they
  cover them.  One
  \<open>def\<close> of the source is one or several definitions of the same order: a loop is \<open>repeat\<close> over its round, and a
  round returns \<open>Inl\<close> to come round again or \<open>Inr\<close> to leave.

  \<^bold>\<open>Promotion gate\<close> (\<open>temporal/activities/production_deploy_activities.py\<close>).  \<open>MergeGate\<close> has the track table, its
  operations and the verdict on a promotion request; \<open>MergeGateProperties\<close> what it promises; \<open>GatedPromotion\<close> composes
  it with the production workflow: what the gate finds at GitHub and in the table is a view per answer, and each answer
  is taken to be the verdict on its view.

  \<^bold>\<open>Transaction queue and approval\<close>.  Changes wait in a table of rows.  \<open>QueueRow\<close> has the rows
  (\<open>db/models/transaction_queue_model.py\<close>), the queries and updates on them (\<open>repository/approval_repository.py\<close>,
  \<open>repository/transaction_queue_repository.py\<close>), the seal over an approved snapshot and the guard of named deploys;
  \<open>QueueService\<close> (\<open>services/transaction_queue_service.py\<close>) how changes get on the queue, off it and into a
  deployment; \<open>Approval\<close> (\<open>services/approval_service.py\<close>) the verbs of the review.  An operation maps the table to an
  answer and a new table; what it needs from elsewhere is a record of surroundings, one per call.  \<open>ApprovalProperties\<close>
  runs arbitrary calls, direct edits of the table among them, and traces every seal the guard accepts to the call that
  made it; \<open>ReviewLane\<close> shows that a service has one author under review and that a change moves as one (a locale with
  an interpretation per verb); \<open>ReviewGaps\<close> shows that open rows carry no seal and which calls reach a deployment
  without the review.  Snapshots hold no floating-point numbers, and the hash function is an argument.

  \<^bold>\<open>Validators and factories\<close>.  \<open>KongPath\<close> (\<open>utils/kong_path_compiler.py\<close>, \<open>domain/validators/kong_route_validator.py\<close>,
  \<open>domain/policies/kong_route_group_naming.py\<close>), \<open>KongOverlap\<close> (\<open>domain/validators/kong_path_overlap_validator.py\<close>),
  \<open>InfraConfig\<close> (\<open>domain/validators/infra_config_validator.py\<close>), \<open>UpdateGuard\<close>
  (\<open>domain/validators/infrastructure_update_guard.py\<close>) and \<open>InfraFactory\<close>
  (\<open>domain/factories/infrastructure_mst_factory.py\<close>, \<open>services/infrastructure_creation_service.py\<close>).

  \<^bold>\<open>Around a request\<close>.  \<open>Authz\<close> (\<open>core/authz\<close>): cards, guards, router and tripwire; \<open>AuditPolicy\<close>
  (\<open>utils/audit_policy.py\<close>); \<open>Store\<close> and \<open>SessionCache\<close> (\<open>integrations\<close>' Redis wrapper and the tool session drafts),
  \<open>PlacementCache\<close> (the conversation cache on both backends).  \<open>SqlGuard\<close>
  (\<open>mcp_servers/devlift_mcp/db_query/sql_guard.py\<close>) has the tokenizer and the checks of LLM-written queries: the
  mutually recursive search for table sources ends because its position only moves forward, which is proved before its
  termination; \<open>SqlLexing\<close> shows how tokens depend on the surrounding text, \<open>SqlGuardProperties\<close> what passes,
  \<open>QueryExecutor\<close> (\<open>executor.py\<close>) what the user gets from a database that honours \<open>LIMIT\<close>.  \<open>Prelude\<close>, \<open>Values\<close> and \<open>Orders\<close> hold the Python strings,
  dictionaries and values they share.

  \<^bold>\<open>Conventions\<close>.  A dictionary is an association list in insertion order; a Python error is the left of a sum; an
  optional is an option; integers are unbounded, as Python's; times are integer seconds.  Strings are lists of 8-bit
  characters, and character classes are the ASCII ones.  What activities, children, GitHub, the workflow server, the
  identity provider and the databases answer is an argument or a turn of the script, with no assumption unless a
  theorem names it.

  \<^bold>\<open>Not modelled\<close>.  Alert texts, urls, log lines, search attributes and queries of the workflows; exceptions
  of outgoing signals; key errors on malformed answers of activities; random codes.  Of the transaction queue: the
  synchronous deploy, refreshing pull requests, previews and listings.  The EKS and EC2 factories, the other services,
  repositories and ORM models, the HTTP schemas, the tenant plugins that print Terraform and Helm files, the chat agents
  and the clients of external services: they are mostly queries, templates and plumbing, and the parts with logic of
  their own are what a continuation would take first (variable clone policy, matrix of permissions, script generators).
\<close>

end
